(* ===== verification/PricingRules.thy ===== *)
theory PricingRules
  imports Prelude
begin

text \<open>
  The Pricing Matrix's immutable contracts and its exact arithmetic
  (\<^verbatim>\<open>app/flowhub/pricing_matrix/contracts.py\<close> and \<^verbatim>\<open>arithmetic.py\<close>). A \<^verbatim>\<open>Fraction\<close> is a
  rational in lowest terms, so its numerator and denominator are those of \<^verbatim>\<open>quotient_of\<close>.
  Dataclass constructors are functions from unchecked fields (values of the dynamic type
  \<^verbatim>\<open>pyval\<close>) to checked ones (\<^verbatim>\<open>int\<close>); the error is the first check that fails.
\<close>

section \<open>Contracts\<close>

datatype matrix_error =
    Integer_required | Guard_value_invalid | Guard_range_invalid | Rate_value_invalid
  | Fixed_addend_invalid | Surcharge_invalid | Round_step_invalid | Exact_number_required
  | Basis_invalid | Nonpositive_price

definition MAX_RATE_BP :: int where "MAX_RATE_BP = 10000000"
definition MAX_MULTIPLIER_PPM :: int where "MAX_MULTIPLIER_PPM = 1000000000000"
definition MAX_ABSOLUTE_ADJUSTMENT :: int where "MAX_ABSOLUTE_ADJUSTMENT = 1000000000000000000"
definition MAX_ROUND_STEP :: int where "MAX_ROUND_STEP = 1000000000000000"

lemmas limit_defs = MAX_RATE_BP_def MAX_MULTIPLIER_PPM_def MAX_ABSOLUTE_ADJUSTMENT_def
  MAX_ROUND_STEP_def

datatype rate_mode = PERCENT_BP | MULTIPLIER_PPM
datatype rounding_mode = FLOOR | CEIL | NEAREST
datatype round_order = ROUND_THEN_SURCHARGE | SURCHARGE_THEN_ROUND

text \<open>A dynamic value, as far as \<^verbatim>\<open>isinstance(value, int)\<close> tells values apart.\<close>

datatype pyval = PyInt int | PyBool bool | PyOther

fun require_integer :: "pyval \<Rightarrow> matrix_error + int" where
  "require_integer (PyInt i) = Inr i"
| "require_integer (PyBool b) = Inl Integer_required"
| "require_integer PyOther = Inl Integer_required"

record 'v pricing_guards =
  min_price_minor :: "'v option"
  max_price_minor :: "'v option"
  max_increase_bp :: "'v option"
  max_decrease_bp :: "'v option"
  min_markup_bp :: "'v option"
  min_markup_worst_case_bp :: "'v option"
  max_basis_spread_bp :: "'v option"

type_synonym guard_set = "int pricing_guards"

definition guard_price :: "pyval option \<Rightarrow> matrix_error + int option" where
  "guard_price v = (case v of None \<Rightarrow> Inr None
     | Some x \<Rightarrow> rbind (require_integer x) (\<lambda>i. if i < 0 then Inl Guard_value_invalid else Inr (Some i)))"

definition guard_bp :: "pyval option \<Rightarrow> matrix_error + int option" where
  "guard_bp v = (case v of None \<Rightarrow> Inr None
     | Some x \<Rightarrow> rbind (require_integer x)
         (\<lambda>i. if i < 0 \<or> i > MAX_RATE_BP then Inl Guard_value_invalid else Inr (Some i)))"

definition pricing_guard_set :: "pyval pricing_guards \<Rightarrow> matrix_error + guard_set" where
  "pricing_guard_set g =
     rbind (guard_price (min_price_minor g)) (\<lambda>lo.
     rbind (guard_price (max_price_minor g)) (\<lambda>hi.
     rbind (guard_bp (max_increase_bp g)) (\<lambda>inc.
     rbind (guard_bp (max_decrease_bp g)) (\<lambda>dec.
     rbind (guard_bp (min_markup_bp g)) (\<lambda>mk.
     rbind (guard_bp (min_markup_worst_case_bp g)) (\<lambda>wc.
     rbind (guard_bp (max_basis_spread_bp g)) (\<lambda>sp.
       if (case (lo, hi) of (Some a, Some b) \<Rightarrow> a > b | _ \<Rightarrow> False) then Inl Guard_range_invalid
       else Inr \<lparr>min_price_minor = lo, max_price_minor = hi, max_increase_bp = inc,
                 max_decrease_bp = dec, min_markup_bp = mk, min_markup_worst_case_bp = wc,
                 max_basis_spread_bp = sp\<rparr>)))))))"

record 'v pricing_rule =
  rate_mode :: rate_mode
  rate_value :: 'v
  fixed_addend_minor :: 'v
  round_mode :: rounding_mode
  round_step_minor :: 'v
  surcharge_minor :: 'v
  round_order :: round_order
  guards :: guard_set

type_synonym rule = "int pricing_rule"

definition pricing_rule_new :: "pyval pricing_rule \<Rightarrow> matrix_error + rule" where
  "pricing_rule_new r =
     rbind (require_integer (rate_value r)) (\<lambda>rv.
     rbind (require_integer (fixed_addend_minor r)) (\<lambda>fa.
     rbind (require_integer (round_step_minor r)) (\<lambda>rs.
     rbind (require_integer (surcharge_minor r)) (\<lambda>sc.
       if (case rate_mode r of
             PERCENT_BP \<Rightarrow> rv < -10000 \<or> rv > MAX_RATE_BP
           | MULTIPLIER_PPM \<Rightarrow> rv < 0 \<or> rv > MAX_MULTIPLIER_PPM) then Inl Rate_value_invalid
       else if \<bar>fa\<bar> > MAX_ABSOLUTE_ADJUSTMENT then Inl Fixed_addend_invalid
       else if \<bar>sc\<bar> > MAX_ABSOLUTE_ADJUSTMENT then Inl Surcharge_invalid
       else if rs < 1 \<or> rs > MAX_ROUND_STEP then Inl Round_step_invalid
       else Inr \<lparr>rate_mode = rate_mode r, rate_value = rv, fixed_addend_minor = fa,
                 round_mode = round_mode r, round_step_minor = rs, surcharge_minor = sc,
                 round_order = round_order r, guards = guards r\<rparr>))))"

text \<open>What a checked guard set and a checked rule satisfy.\<close>

definition bp_ok :: "int option \<Rightarrow> bool" where
  "bp_ok v = (case v of None \<Rightarrow> True | Some i \<Rightarrow> 0 \<le> i \<and> i \<le> MAX_RATE_BP)"

definition price_ok :: "int option \<Rightarrow> bool" where
  "price_ok v = (case v of None \<Rightarrow> True | Some i \<Rightarrow> 0 \<le> i)"

definition guard_set_ok :: "guard_set \<Rightarrow> bool" where
  "guard_set_ok g \<longleftrightarrow> price_ok (min_price_minor g) \<and> price_ok (max_price_minor g) \<and>
     bp_ok (max_increase_bp g) \<and> bp_ok (max_decrease_bp g) \<and> bp_ok (min_markup_bp g) \<and>
     bp_ok (min_markup_worst_case_bp g) \<and> bp_ok (max_basis_spread_bp g) \<and>
     (\<forall>a b. min_price_minor g = Some a \<longrightarrow> max_price_minor g = Some b \<longrightarrow> a \<le> b)"

definition rule_ok :: "rule \<Rightarrow> bool" where
  "rule_ok r \<longleftrightarrow>
     (case rate_mode r of
        PERCENT_BP \<Rightarrow> -10000 \<le> rate_value r \<and> rate_value r \<le> MAX_RATE_BP
      | MULTIPLIER_PPM \<Rightarrow> 0 \<le> rate_value r \<and> rate_value r \<le> MAX_MULTIPLIER_PPM) \<and>
     \<bar>fixed_addend_minor r\<bar> \<le> MAX_ABSOLUTE_ADJUSTMENT \<and>
     \<bar>surcharge_minor r\<bar> \<le> MAX_ABSOLUTE_ADJUSTMENT \<and>
     1 \<le> round_step_minor r \<and> round_step_minor r \<le> MAX_ROUND_STEP"

lemma require_integer_Inr [simp]: "require_integer v = Inr i \<longleftrightarrow> v = PyInt i"
  by (cases v) auto

lemma guard_bp_ok: "guard_bp v = Inr w \<Longrightarrow> bp_ok w"
  by (auto simp: guard_bp_def bp_ok_def rbind_eq_Inr split: option.splits if_splits)

lemma guard_price_ok: "guard_price v = Inr w \<Longrightarrow> price_ok w"
  by (auto simp: guard_price_def price_ok_def rbind_eq_Inr split: option.splits if_splits)

lemma guard_bp_int: "bp_ok w \<Longrightarrow> guard_bp (map_option PyInt w) = Inr w"
  by (auto simp: guard_bp_def bp_ok_def split: option.splits)

lemma guard_price_int: "price_ok w \<Longrightarrow> guard_price (map_option PyInt w) = Inr w"
  by (auto simp: guard_price_def price_ok_def split: option.splits)

text \<open>The unchecked fields a checked record came from.\<close>

definition raw_guards :: "guard_set \<Rightarrow> pyval pricing_guards" where
  "raw_guards g = \<lparr>min_price_minor = map_option PyInt (min_price_minor g),
     max_price_minor = map_option PyInt (max_price_minor g),
     max_increase_bp = map_option PyInt (max_increase_bp g),
     max_decrease_bp = map_option PyInt (max_decrease_bp g),
     min_markup_bp = map_option PyInt (min_markup_bp g),
     min_markup_worst_case_bp = map_option PyInt (min_markup_worst_case_bp g),
     max_basis_spread_bp = map_option PyInt (max_basis_spread_bp g)\<rparr>"

definition raw_rule :: "rule \<Rightarrow> pyval pricing_rule" where
  "raw_rule r = \<lparr>rate_mode = rate_mode r, rate_value = PyInt (rate_value r),
     fixed_addend_minor = PyInt (fixed_addend_minor r), round_mode = round_mode r,
     round_step_minor = PyInt (round_step_minor r), surcharge_minor = PyInt (surcharge_minor r),
     round_order = round_order r, guards = guards r\<rparr>"

lemma pricing_guard_set_ok: "pricing_guard_set g = Inr g' \<Longrightarrow> guard_set_ok g'"
  by (auto simp: pricing_guard_set_def rbind_eq_Inr guard_set_ok_def
      dest: guard_price_ok guard_bp_ok split: if_splits)

lemma pricing_guard_set_accepts: "guard_set_ok g \<Longrightarrow> pricing_guard_set (raw_guards g) = Inr g"
  by (auto simp: pricing_guard_set_def guard_set_ok_def raw_guards_def guard_price_int guard_bp_int
      split: option.splits)

lemma pricing_rule_new_ok: "pricing_rule_new r = Inr r' \<Longrightarrow> rule_ok r'"
  by (auto simp: pricing_rule_new_def rbind_eq_Inr rule_ok_def
      split: if_splits rate_mode.splits)

lemma pricing_rule_new_accepts: "rule_ok r \<Longrightarrow> pricing_rule_new (raw_rule r) = Inr r"
  by (auto simp: pricing_rule_new_def rule_ok_def raw_rule_def split: rate_mode.splits)

section \<open>Rounding to a step\<close>

definition round_units :: "rat \<Rightarrow> int \<Rightarrow> rounding_mode \<Rightarrow> int" where
  "round_units value step mode =
     (let (numerator, denominator) = quotient_of value;
          scaled_denominator = denominator * step;
          floor_units = numerator div scaled_denominator;
          remainder = numerator mod scaled_denominator
      in case mode of
           FLOOR \<Rightarrow> floor_units
         | CEIL \<Rightarrow> if remainder = 0 then floor_units else floor_units + 1
         | NEAREST \<Rightarrow>
             (let absolute_units = \<bar>numerator\<bar> div scaled_denominator;
                  absolute_remainder = \<bar>numerator\<bar> mod scaled_denominator;
                  bumped = (if absolute_remainder * 2 \<ge> scaled_denominator
                            then absolute_units + 1 else absolute_units)
              in if numerator \<ge> 0 then bumped else - bumped))"

definition round_to_step :: "rat \<Rightarrow> int \<Rightarrow> rounding_mode \<Rightarrow> matrix_error + int" where
  "round_to_step value step mode =
     (if step < 1 then Inl Round_step_invalid else Inr (round_units value step mode * step))"

text \<open>
  The rational the code rounds, with numerator and denominator spelled out: a quotient of integers
  whose floor is an integer division.
\<close>

lemma scaled_quotient:
  assumes "quotient_of v = (n, d)" and "1 \<le> s"
  shows "0 < d * s" and "v / of_int s = of_int n / of_int (d * s)"
proof -
  have d: "0 < d" using assms(1) by (rule quotient_of_denom_pos)
  then show "0 < d * s" using assms(2) by simp
  have "v = of_int n / of_int d" using assms(1) by (rule quotient_of_div)
  then show "v / of_int s = of_int n / of_int (d * s)" by simp
qed

lemma ceiling_of_quotient:
  assumes "0 < (k::int)"
  shows "\<lceil>of_int n / (of_int k :: rat)\<rceil> = (if n mod k = 0 then n div k else n div k + 1)"
proof -
  have "\<lceil>of_int n / (of_int k :: rat)\<rceil> = - ((- n) div k)"
  proof -
    have "- (of_int n / (of_int k :: rat)) = of_int (- n) / of_int k" by simp
    then show ?thesis unfolding ceiling_def by (simp only: floor_divide_of_int_eq)
  qed
  then show ?thesis using assms by (simp add: zdiv_zminus1_eq_if)
qed

lemma floor_half_up:
  assumes "0 < (k::int)"
  shows "\<lfloor>of_int n / (of_int k :: rat) + 1 / 2\<rfloor> =
    (if n mod k * 2 \<ge> k then n div k + 1 else n div k)"
proof -
  have n: "n = (n div k) * k + n mod k" by simp
  have m: "0 \<le> n mod k" "n mod k < k" using assms by simp_all
  have q: "of_int n / (of_int k :: rat) = of_int (n div k) + of_int (n mod k) / of_int k"
  proof -
    have "(of_int n :: rat) = of_int (n div k) * of_int k + of_int (n mod k)"
      by (subst n) (simp only: of_int_add of_int_mult)
    then show ?thesis using assms by (simp add: field_simps)
  qed
  define r where "r = (of_int (n mod k) / of_int k :: rat)"
  have r0: "0 \<le> r" "r < 1" using m assms by (simp_all add: r_def)
  have half: "r \<ge> 1 / 2 \<longleftrightarrow> n mod k * 2 \<ge> k"
  proof -
    have "r \<ge> 1 / 2 \<longleftrightarrow> (of_int k :: rat) \<le> of_int (n mod k * 2)"
      using assms by (simp add: r_def field_simps)
    then show ?thesis by (simp only: of_int_le_iff)
  qed
  have "\<lfloor>of_int (n div k) + r + 1 / 2\<rfloor> = n div k + (if r \<ge> 1 / 2 then 1 else 0)"
    using r0 by (auto simp: floor_eq_iff add.assoc)
  then show ?thesis unfolding q r_def[symmetric] using half by auto
qed

text \<open>What each mode computes, stated on the exact quotient: half a step rounds away from zero.\<close>

definition rounded_units :: "rat \<Rightarrow> rounding_mode \<Rightarrow> int" where
  "rounded_units x mode = (case mode of
     FLOOR \<Rightarrow> \<lfloor>x\<rfloor> | CEIL \<Rightarrow> \<lceil>x\<rceil>
   | NEAREST \<Rightarrow> if 0 \<le> x then \<lfloor>x + 1 / 2\<rfloor> else - \<lfloor>- x + 1 / 2\<rfloor>)"

lemma round_units_spec:
  assumes "1 \<le> s"
  shows "round_units v s mode = rounded_units (v / of_int s) mode"
proof -
  obtain n d where nd: "quotient_of v = (n, d)" by fastforce
  note q = scaled_quotient[OF nd assms]
  have neg: "- (of_int n / (of_int (d * s) :: rat)) = of_int (- n) / of_int (d * s)" by simp
  have sgn: "0 \<le> (of_int n / of_int (d * s) :: rat) \<longleftrightarrow> 0 \<le> n"
    using q(1) by (simp add: zero_le_divide_iff del: of_int_mult)
  show ?thesis
  proof (cases mode)
    case FLOOR
    then show ?thesis
      by (simp add: round_units_def rounded_units_def nd q(2) floor_divide_of_int_eq Let_def
          del: of_int_mult)
  next
    case CEIL
    then show ?thesis
      by (simp add: round_units_def rounded_units_def nd q(2) ceiling_of_quotient[OF q(1)] Let_def
          del: of_int_mult)
  next
    case NEAREST
    then show ?thesis
      by (simp add: round_units_def rounded_units_def nd q(2) sgn neg floor_half_up[OF q(1)] Let_def
          del: of_int_mult of_int_minus)
  qed
qed

subsection \<open>The contract of a rounding rule\<close>

text \<open>
  Both the Pricing Matrix and the derived-value operators round a rational to a multiple of a
  step. Their callers rely on four laws: the result is a multiple, it is less than one step away,
  rounding keeps order, and multiples are fixed points.
\<close>

locale step_rounding =
  fixes rnd :: "rat \<Rightarrow> int \<Rightarrow> int"
  assumes rnd_dvd: "1 \<le> s \<Longrightarrow> s dvd rnd v s"
    and rnd_close: "1 \<le> s \<Longrightarrow> \<bar>of_int (rnd v s) - v\<bar> < of_int s"
    and rnd_mono: "1 \<le> s \<Longrightarrow> v \<le> w \<Longrightarrow> rnd v s \<le> rnd w s"
    and rnd_exact: "1 \<le> s \<Longrightarrow> rnd (of_int (k * s)) s = k * s"
begin

lemma rnd_idem: "1 \<le> s \<Longrightarrow> rnd (of_int (rnd v s)) s = rnd v s"
  using rnd_dvd[of s v] by (metis dvd_def mult.commute rnd_exact)

lemma rnd_step_one: "rnd (of_int k) 1 = k"
  using rnd_exact[of 1 k] by simp

lemma rnd_between:
  assumes "1 \<le> s" and "of_int (k * s) \<le> v" and "v \<le> of_int (l * s)"
  shows "k * s \<le> rnd v s \<and> rnd v s \<le> l * s"
  using rnd_mono[OF assms(1,2)] rnd_mono[OF assms(1,3)] rnd_exact[OF assms(1)] by metis

lemma rnd_nonneg: "1 \<le> s \<Longrightarrow> 0 \<le> v \<Longrightarrow> 0 \<le> rnd v s"
  using rnd_mono[of s 0 v] rnd_exact[of s 0] by simp

end

lemma rounded_units_close: "\<bar>of_int (rounded_units x mode) - x\<bar> < 1"
  by (cases mode; simp add: rounded_units_def; linarith)

lemma rounded_units_int: "rounded_units (of_int k) mode = k"
proof -
  have "\<lfloor>of_int k + (1 / 2 :: rat)\<rfloor> = k" "\<lfloor>- of_int k + (1 / 2 :: rat)\<rfloor> = - k"
    by (simp_all add: floor_eq_iff)
  then show ?thesis by (cases mode) (simp_all add: rounded_units_def)
qed

lemma rounded_units_mono: "x \<le> y \<Longrightarrow> rounded_units x mode \<le> rounded_units y mode"
proof (cases mode)
  case NEAREST
  assume xy: "x \<le> y"
  have pos: "0 \<le> \<lfloor>1 / 2 - x\<rfloor>" if "x < 0" using that by (simp add: le_floor_iff)
  have nonneg: "\<lfloor>y + 1 / 2\<rfloor> \<ge> 0" if "0 \<le> y" using that by (simp add: le_floor_iff)
  show ?thesis
    using xy pos nonneg NEAREST
    by (auto simp: rounded_units_def intro: floor_mono) linarith
qed (auto simp: rounded_units_def intro: floor_mono ceiling_mono)

interpretation rounding: step_rounding "\<lambda>v s. round_units v s mode * s" for mode
proof unfold_locales
  fix s :: int and v w :: rat and k :: int
  assume s: "1 \<le> s"
  then have s0: "(0 :: rat) < of_int s" by simp
  show "s dvd round_units v s mode * s" by simp
  show "\<bar>of_int (round_units v s mode * s) - v\<bar> < of_int s"
  proof -
    let ?u = "of_int (rounded_units (v / of_int s) mode) :: rat"
    have "?u * of_int s - v = (?u - v / of_int s) * of_int s"
      using s0 by (simp add: field_simps)
    then have "\<bar>?u * of_int s - v\<bar> = \<bar>?u - v / of_int s\<bar> * of_int s"
      using s0 by (simp add: abs_mult)
    also have "\<dots> < 1 * of_int s"
      by (rule mult_strict_right_mono[OF rounded_units_close s0])
    finally show ?thesis by (simp add: round_units_spec[OF s])
  qed
  show "round_units v s mode * s \<le> round_units w s mode * s" if "v \<le> w"
    using s that by (simp add: round_units_spec rounded_units_mono divide_right_mono)
  show "round_units (of_int (k * s)) s mode * s = k * s"
    using s by (simp add: round_units_spec rounded_units_int)
qed

lemma round_to_step_Inr:
  "round_to_step v s mode = Inr r \<longleftrightarrow> 1 \<le> s \<and> r = round_units v s mode * s"
  by (auto simp: round_to_step_def)

section \<open>Applying a rule to a basis\<close>

datatype basis_input = BasisInt int | BasisFraction rat | BasisOther

record arithmetic_result =
  basis_numerator :: int
  basis_denominator :: int
  exact_numerator :: int
  exact_denominator :: int
  rounded_minor :: int
  final_minor :: int

definition rate_factor :: "rule \<Rightarrow> rat" where
  "rate_factor r = (case rate_mode r of
     PERCENT_BP \<Rightarrow> of_int (10000 + rate_value r) / 10000
   | MULTIPLIER_PPM \<Rightarrow> of_int (rate_value r) / 1000000)"

definition price_from_basis :: "rat \<Rightarrow> rule \<Rightarrow> matrix_error + arithmetic_result" where
  "price_from_basis basis r =
     (if basis < 0 then Inl Basis_invalid
      else
        let exact = basis * rate_factor r + of_int (fixed_addend_minor r);
            exact' = (case round_order r of
                SURCHARGE_THEN_ROUND \<Rightarrow> exact + of_int (surcharge_minor r)
              | ROUND_THEN_SURCHARGE \<Rightarrow> exact)
        in rbind (round_to_step exact' (round_step_minor r) (round_mode r)) (\<lambda>rounded.
             let final = (case round_order r of
                   SURCHARGE_THEN_ROUND \<Rightarrow> rounded
                 | ROUND_THEN_SURCHARGE \<Rightarrow> rounded + surcharge_minor r)
             in if final \<le> 0 then Inl Nonpositive_price
                else Inr \<lparr>basis_numerator = fst (quotient_of basis),
                          basis_denominator = snd (quotient_of basis),
                          exact_numerator = fst (quotient_of exact'),
                          exact_denominator = snd (quotient_of exact'),
                          rounded_minor = rounded, final_minor = final\<rparr>))"

definition calculate_price :: "basis_input \<Rightarrow> rule \<Rightarrow> matrix_error + arithmetic_result" where
  "calculate_price basis_minor r = (case basis_minor of
     BasisInt b \<Rightarrow> price_from_basis (of_int b) r
   | BasisFraction b \<Rightarrow> price_from_basis b r
   | BasisOther \<Rightarrow> Inl Exact_number_required)"

text \<open>The unrounded price, and the price as one expression of the contract's rounding.\<close>

definition exact_total :: "rat \<Rightarrow> rule \<Rightarrow> rat" where
  "exact_total b r = b * rate_factor r + of_int (fixed_addend_minor r) + of_int (surcharge_minor r)"

definition rule_round :: "rule \<Rightarrow> rat \<Rightarrow> int" where
  "rule_round r v = round_units v (round_step_minor r) (round_mode r) * round_step_minor r"

definition final_price :: "rat \<Rightarrow> rule \<Rightarrow> int" where
  "final_price b r = (case round_order r of
     SURCHARGE_THEN_ROUND \<Rightarrow> rule_round r (exact_total b r)
   | ROUND_THEN_SURCHARGE \<Rightarrow>
       rule_round r (b * rate_factor r + of_int (fixed_addend_minor r)) + surcharge_minor r)"

lemma rule_step_ge1: "rule_ok r \<Longrightarrow> 1 \<le> round_step_minor r"
  by (simp add: rule_ok_def)

lemma rate_factor_nonneg: "rule_ok r \<Longrightarrow> 0 \<le> rate_factor r"
  by (cases "rate_mode r") (auto simp: rate_factor_def rule_ok_def)

text \<open>
  On a checked rule \<^verbatim>\<open>price_from_basis\<close> has three outcomes, and the priced one carries the
  evidence below.
\<close>

definition price_evidence :: "rat \<Rightarrow> rule \<Rightarrow> arithmetic_result" where
  "price_evidence b r =
     (let e = (case round_order r of SURCHARGE_THEN_ROUND \<Rightarrow> exact_total b r
               | ROUND_THEN_SURCHARGE \<Rightarrow> b * rate_factor r + of_int (fixed_addend_minor r))
      in \<lparr>basis_numerator = fst (quotient_of b), basis_denominator = snd (quotient_of b),
          exact_numerator = fst (quotient_of e), exact_denominator = snd (quotient_of e),
          rounded_minor = rule_round r e, final_minor = final_price b r\<rparr>)"

lemma price_evidence_final [simp]: "final_minor (price_evidence b r) = final_price b r"
  by (simp add: price_evidence_def Let_def)

lemma price_from_basis_eq:
  assumes "rule_ok r"
  shows "price_from_basis b r =
    (if b < 0 then Inl Basis_invalid
     else if final_price b r \<le> 0 then Inl Nonpositive_price else Inr (price_evidence b r))"
proof -
  have "\<not> round_step_minor r < 1" using rule_step_ge1[OF assms] by simp
  then show ?thesis
    by (cases "round_order r")
       (simp_all only: price_from_basis_def final_price_def rule_round_def exact_total_def
         price_evidence_def round_to_step_def Let_def round_order.case if_False rbind_Inr)
qed

lemma price_from_basis_final:
  "rule_ok r \<Longrightarrow> price_from_basis b r = Inr a \<Longrightarrow>
     0 \<le> b \<and> final_minor a = final_price b r \<and> 0 < final_minor a"
  by (auto simp: price_from_basis_eq split: if_splits)

lemma final_price_mono:
  assumes "rule_ok r" and "b \<le> c"
  shows "final_price b r \<le> final_price c r"
proof -
  have *: "b * rate_factor r \<le> c * rate_factor r"
    using assms rate_factor_nonneg by (simp add: mult_right_mono)
  have "rule_round r v \<le> rule_round r w" if "v \<le> w" for v w
    unfolding rule_round_def using rounding.rnd_mono[OF rule_step_ge1[OF assms(1)] that] .
  then show ?thesis using * by (cases "round_order r") (auto simp: final_price_def exact_total_def)
qed

lemma final_price_close:
  assumes "rule_ok r"
  shows "\<bar>of_int (final_price b r) - exact_total b r\<bar> < of_int (round_step_minor r)"
proof -
  have "\<bar>of_int (rule_round r v) - v\<bar> < of_int (round_step_minor r)" for v
    unfolding rule_round_def using rounding.rnd_close[OF rule_step_ge1[OF assms]] .
  from this[of "exact_total b r"] this[of "b * rate_factor r + of_int (fixed_addend_minor r)"]
  show ?thesis by (cases "round_order r") (auto simp: final_price_def exact_total_def algebra_simps)
qed

section \<open>Properties\<close>

lemma rounded_units_nearest:
  fixes x :: rat
  defines "u \<equiv> rounded_units x NEAREST"
  shows "2 * \<bar>of_int u - x\<bar> \<le> 1 \<and> (2 * \<bar>of_int u - x\<bar> = 1 \<longrightarrow> \<bar>x\<bar> < \<bar>of_int u\<bar>)"
proof (cases "0 \<le> x")
  case True
  have "of_int u \<le> x + 1 / 2" "x + 1 / 2 < of_int u + 1"
    using True floor_correct[of "x + 1 / 2"] by (simp_all add: u_def rounded_units_def)
  then show ?thesis using True by (auto simp: abs_if field_simps)
next
  case False
  have "- of_int u \<le> - x + (1 / 2 :: rat)" "- x + 1 / 2 < - of_int u + (1 :: rat)"
    using False floor_correct[of "- x + 1 / 2"] by (simp_all add: u_def rounded_units_def)
  then show ?thesis using False by (auto simp: abs_if field_simps)
qed

text \<open>C35: rounding to a step is exact in every mode: it rejects a step below one and otherwise
  returns a multiple of the step, which for FLOOR is the largest not above the value, for CEIL the
  smallest not below it, and for NEAREST within half a step, ties going away from zero.\<close>

theorem round_to_step_exact:
  assumes "round_to_step v s mode = Inr r"
  shows "1 \<le> s \<and> s dvd r \<and>
    (case mode of
       FLOOR \<Rightarrow> of_int r \<le> v \<and> v < of_int (r + s)
     | CEIL \<Rightarrow> of_int (r - s) < v \<and> v \<le> of_int r
     | NEAREST \<Rightarrow> 2 * \<bar>of_int r - v\<bar> \<le> of_int s \<and>
         (2 * \<bar>of_int r - v\<bar> = of_int s \<longrightarrow> \<bar>v\<bar> < \<bar>of_int r\<bar>))"
proof -
  from assms have s: "1 \<le> s" and r: "r = rounded_units (v / of_int s) mode * s"
    by (auto simp: round_to_step_Inr round_units_spec)
  define u x where "u = rounded_units (v / of_int s) mode" and "x = v / of_int s"
  have ru: "r = u * s" by (simp add: r u_def)
  have pos: "(0 :: rat) < of_int s" using s by simp
  have v: "v = x * of_int s" using pos by (simp add: x_def)
  have scale: "a * of_int s \<le> b * of_int s \<longleftrightarrow> a \<le> b" "a * of_int s < b * of_int s \<longleftrightarrow> a < b"
    "\<bar>a * of_int s\<bar> = \<bar>a\<bar> * of_int s" for a b :: rat
    using pos by (simp_all add: abs_mult)
  show ?thesis
  proof (cases mode)
    case FLOOR
    have "of_int u \<le> x" "x < of_int (u + 1)"
      using FLOOR floor_correct[of x] by (simp_all add: u_def x_def rounded_units_def)
    then have "of_int u * of_int s \<le> x * of_int s" "x * of_int s < of_int (u + 1) * of_int s"
      by (simp_all only: scale)
    then show ?thesis using FLOOR s by (simp add: ru v[symmetric] distrib_right)
  next
    case CEIL
    have "of_int (u - 1) < x" "x \<le> of_int u"
      using CEIL by (simp_all add: u_def x_def rounded_units_def) linarith
    then have "of_int (u - 1) * of_int s < x * of_int s" "x * of_int s \<le> of_int u * of_int s"
      by (simp_all only: scale)
    then show ?thesis using CEIL s by (simp add: ru v[symmetric] left_diff_distrib)
  next
    case NEAREST
    have *: "2 * \<bar>of_int u - x\<bar> \<le> 1" "2 * \<bar>of_int u - x\<bar> = 1 \<Longrightarrow> \<bar>x\<bar> < \<bar>of_int u\<bar>"
      using rounded_units_nearest[of x] NEAREST by (simp_all add: u_def x_def)
    have d: "\<bar>of_int r - v\<bar> = \<bar>of_int u - x\<bar> * of_int s"
      by (simp add: ru v scale(3)[symmetric] left_diff_distrib)
    have a: "2 * \<bar>of_int r - v\<bar> \<le> of_int s"
      using mult_right_mono[OF *(1), of "of_int s"] pos by (simp add: d)
    have b: "\<bar>v\<bar> < \<bar>of_int r\<bar>" if "2 * \<bar>of_int r - v\<bar> = of_int s"
    proof -
      have "2 * \<bar>of_int u - x\<bar> * of_int s = 1 * of_int s" using that by (simp add: d)
      then have "\<bar>x\<bar> < \<bar>of_int u\<bar>" using pos *(2) by (simp only: mult_cancel_right) simp
      then have "\<bar>x\<bar> * of_int s < \<bar>of_int u\<bar> * of_int s" using scale(2) by blast
      then show ?thesis by (simp only: v ru of_int_mult scale(3))
    qed
    from NEAREST a b s ru show ?thesis by simp
  qed
qed

text \<open>the rule constructor is an exact gate. What it accepts satisfies every documented bound,
  and every rule inside the bounds is accepted unchanged, so a stored rule reloads as itself.\<close>

theorem rule_constructor_exact:
  "(pricing_rule_new raw = Inr r \<longrightarrow> rule_ok r) \<and> (rule_ok r \<longrightarrow> pricing_rule_new (raw_rule r) = Inr r) \<and>
   (pricing_guard_set rg = Inr g \<longrightarrow> guard_set_ok g) \<and>
   (guard_set_ok g \<longrightarrow> pricing_guard_set (raw_guards g) = Inr g)"
  using pricing_rule_new_ok pricing_rule_new_accepts pricing_guard_set_ok pricing_guard_set_accepts by blast

text \<open>pricing is monotone: under one rule a dearer basis never gives a lower price, and if the
  cheaper basis can be priced the dearer one can.\<close>

theorem price_monotone:
  assumes "rule_ok r" and "calculate_price (BasisFraction b) r = Inr p" and "b \<le> c"
  shows "\<exists>q. calculate_price (BasisFraction c) r = Inr q \<and> final_minor p \<le> final_minor q"
proof -
  from assms(1,2) have b: "0 \<le> b" "0 < final_price b r" "final_minor p = final_price b r"
    by (auto simp: calculate_price_def dest: price_from_basis_final)
  moreover have "final_price b r \<le> final_price c r" by (rule final_price_mono[OF assms(1,3)])
  ultimately show ?thesis using assms(3)
    by (auto simp: calculate_price_def price_from_basis_eq[OF assms(1)])
qed

text \<open>A price is the exact rule up to one rounding step: it differs from basis times rate plus
  addend plus surcharge by less than the step, and the recorded quotients are the exact ones.\<close>

theorem price_near_exact:
  assumes "rule_ok r" and "calculate_price (BasisFraction b) r = Inr p"
  shows "0 \<le> b \<and> 0 < final_minor p \<and> \<bar>of_int (final_minor p) - exact_total b r\<bar> < of_int (round_step_minor r) \<and>
    Fract (basis_numerator p) (basis_denominator p) = b \<and>
    Fract (exact_numerator p) (exact_denominator p) =
      (case round_order r of SURCHARGE_THEN_ROUND \<Rightarrow> exact_total b r
       | ROUND_THEN_SURCHARGE \<Rightarrow> exact_total b r - of_int (surcharge_minor r))"
proof -
  have q: "Fract (fst (quotient_of x)) (snd (quotient_of x)) = x" for x
    using quotient_of_div[of x "fst (quotient_of x)" "snd (quotient_of x)"] by (simp add: Fract_of_int_quotient)
  from assms(2) have "price_from_basis b r = Inr p" by (simp add: calculate_price_def)
  then have p: "p = price_evidence b r" and "0 \<le> b" "0 < final_price b r"
    by (auto simp: price_from_basis_eq[OF assms(1)] split: if_splits)
  then show ?thesis using final_price_close[OF assms(1), of b]
    by (cases "round_order r") (simp_all add: price_evidence_def Let_def q exact_total_def)
qed

section \<open>Concrete runs\<close>

definition demo_guards :: guard_set where
  "demo_guards = \<lparr>min_price_minor = Some 1000, max_price_minor = Some 900000,
     max_increase_bp = Some 2000, max_decrease_bp = None, min_markup_bp = Some 500,
     min_markup_worst_case_bp = Some 0, max_basis_spread_bp = Some 2000\<rparr>"

definition demo_rule :: rule where
  "demo_rule = \<lparr>rate_mode = PERCENT_BP, rate_value = 1250, fixed_addend_minor = 500,
     round_mode = FLOOR, round_step_minor = 1000, surcharge_minor = 900,
     round_order = ROUND_THEN_SURCHARGE, guards = demo_guards\<rparr>"

lemma demo_rule_ok: "rule_ok demo_rule"
  by (simp add: rule_ok_def demo_rule_def limit_defs)

definition demo_price :: "int \<Rightarrow> matrix_error + arithmetic_result" where
  "demo_price b = calculate_price (BasisFraction (of_int b)) demo_rule"

lemma demo_price_value: "is_ok (demo_price 98000)" "final_minor (projr (demo_price 98000)) = 110900"
  by code_simp+

lemma demo_price_eq: "calculate_price (BasisFraction 98000) demo_rule = Inr (projr (demo_price 98000))"
  using demo_price_value(1) unfolding is_ok_iff demo_price_def by (metis of_int_numeral sum.sel(2))

theorem round_to_step_exact_witness:
  "round_to_step (-15) 10 NEAREST = Inr (-20) \<and> \<bar>-15 :: rat\<bar> < \<bar>of_int (-20)\<bar>"
proof -
  have r: "round_to_step (-15) 10 NEAREST = Inr (-20)" by code_simp
  from r round_to_step_exact[OF r] show ?thesis by simp
qed

theorem rule_constructor_exact_witness:
  "pricing_rule_new (raw_rule demo_rule) = Inr demo_rule"
  using rule_constructor_exact demo_rule_ok by blast

theorem price_monotone_witness:
  "\<exists>q. calculate_price (BasisFraction 98001) demo_rule = Inr q \<and> 110900 \<le> final_minor q"
  using price_monotone[OF demo_rule_ok demo_price_eq, of 98001] unfolding demo_price_value(2) by simp

theorem price_near_exact_witness: "\<bar>110900 - exact_total 98000 demo_rule\<bar> < 1000"
  using price_near_exact[OF demo_rule_ok demo_price_eq] unfolding demo_price_value(2)
  by (simp add: demo_rule_def)

end
