(* ===== verification/PricingTarget.thy ===== *)
theory PricingTarget
  imports PricingRules "HOL-Library.Multiset"
begin

text \<open>
  The guards of a pricing rule and the evaluation of one pricing target
  (\<^verbatim>\<open>app/flowhub/pricing_matrix/guards.py\<close> and \<^verbatim>\<open>evaluator.py\<close>): which vendor quotes are
  eligible, which one is the basis, the price computed from it, and whether the guards accept it.
\<close>

section \<open>Guards\<close>

datatype guard_reason =
    Min_price | Max_price | Previous_price_zero | Max_increase | Max_decrease | Basis_zero
  | Min_markup | Worst_case_basis_unavailable | Min_markup_worst_case
  | Quote_spread_unavailable | Max_basis_spread

record guard_evaluation =
  accepted :: bool
  reason_codes :: "guard_reason list"

text \<open>\<^verbatim>\<open>tuple(dict.fromkeys(xs))\<close>: each value once, in the order of first occurrence.\<close>

definition fromkeys :: "'a list \<Rightarrow> 'a list" where
  "fromkeys xs = rev (remdups (rev xs))"

lemma fromkeys_Nil [simp]: "fromkeys xs = [] \<longleftrightarrow> xs = []"
  by (simp add: fromkeys_def remdups_eq_nil_iff)

lemma set_fromkeys [simp]: "set (fromkeys xs) = set xs"
  by (simp add: fromkeys_def)

definition price_range_failures :: "guard_set \<Rightarrow> int \<Rightarrow> guard_reason list" where
  "price_range_failures g final =
     (case min_price_minor g of Some lo \<Rightarrow> if final < lo then [Min_price] else [] | None \<Rightarrow> []) @
     (case max_price_minor g of Some hi \<Rightarrow> if final > hi then [Max_price] else [] | None \<Rightarrow> [])"

definition change_failures :: "guard_set \<Rightarrow> int \<Rightarrow> int option \<Rightarrow> guard_reason list" where
  "change_failures g final previous = (case previous of None \<Rightarrow> []
     | Some prev \<Rightarrow>
         if prev \<le> 0 \<and> (max_increase_bp g \<noteq> None \<or> max_decrease_bp g \<noteq> None)
         then [Previous_price_zero]
         else
           let delta = final - prev in
           (case max_increase_bp g of
              Some bp \<Rightarrow> if delta > 0 \<and> delta * 10000 > prev * bp then [Max_increase] else []
            | None \<Rightarrow> []) @
           (case max_decrease_bp g of
              Some bp \<Rightarrow> if delta < 0 \<and> (- delta) * 10000 > prev * bp then [Max_decrease] else []
            | None \<Rightarrow> []))"

definition markup_failures :: "guard_set \<Rightarrow> int \<Rightarrow> rat \<Rightarrow> rat option \<Rightarrow> guard_reason list" where
  "markup_failures g final basis worst_case =
     (case min_markup_bp g of None \<Rightarrow> []
      | Some bp \<Rightarrow> if basis \<le> 0 then [Basis_zero]
          else if (of_int final - basis) * 10000 < basis * of_int bp then [Min_markup] else []) @
     (case min_markup_worst_case_bp g of None \<Rightarrow> []
      | Some bp \<Rightarrow> (case worst_case of None \<Rightarrow> [Worst_case_basis_unavailable]
          | Some w \<Rightarrow> if w \<le> 0 then [Worst_case_basis_unavailable]
              else if (of_int final - w) * 10000 < w * of_int bp then [Min_markup_worst_case] else []))"

definition spread_failures :: "guard_set \<Rightarrow> rat option \<Rightarrow> rat option \<Rightarrow> guard_reason list" where
  "spread_failures g lowest highest = (case max_basis_spread_bp g of None \<Rightarrow> []
     | Some bp \<Rightarrow> (case (lowest, highest) of
         (Some lo, Some hi) \<Rightarrow> if lo \<le> 0 then [Basis_zero]
           else if (hi - lo) * 10000 > lo * of_int bp then [Max_basis_spread] else []
       | _ \<Rightarrow> [Quote_spread_unavailable]))"

definition evaluate_guards ::
  "int \<Rightarrow> rat \<Rightarrow> guard_set \<Rightarrow> int option \<Rightarrow> rat option \<Rightarrow> rat option \<Rightarrow> rat option \<Rightarrow> guard_evaluation" where
  "evaluate_guards final basis g previous worst_case lowest highest =
     (let failures = price_range_failures g final @ change_failures g final previous @
            markup_failures g final basis worst_case @ spread_failures g lowest highest
      in \<lparr>accepted = (failures = []), reason_codes = fromkeys failures\<rparr>)"

text \<open>The contract: what an accepted price satisfies, guard by guard.\<close>

definition within_change :: "int option \<Rightarrow> int option \<Rightarrow> int option \<Rightarrow> int \<Rightarrow> bool" where
  "within_change inc dec previous final = (case previous of None \<Rightarrow> True
     | Some prev \<Rightarrow>
         ((inc \<noteq> None \<or> dec \<noteq> None) \<longrightarrow> 0 < prev) \<and>
         (\<forall>bp. inc = Some bp \<longrightarrow> prev < final \<longrightarrow> (final - prev) * 10000 \<le> prev * bp) \<and>
         (\<forall>bp. dec = Some bp \<longrightarrow> final < prev \<longrightarrow> (prev - final) * 10000 \<le> prev * bp))"

definition markup_at_least :: "int option \<Rightarrow> rat option \<Rightarrow> int \<Rightarrow> bool" where
  "markup_at_least bp basis final = (case bp of None \<Rightarrow> True
     | Some b \<Rightarrow> (\<exists>v. basis = Some v \<and> 0 < v \<and> v * of_int b \<le> (of_int final - v) * 10000))"

definition spread_at_most :: "int option \<Rightarrow> rat option \<Rightarrow> rat option \<Rightarrow> bool" where
  "spread_at_most bp lowest highest = (case bp of None \<Rightarrow> True
     | Some b \<Rightarrow> (\<exists>lo hi. lowest = Some lo \<and> highest = Some hi \<and> 0 < lo \<and>
                   (hi - lo) * 10000 \<le> lo * of_int b))"

definition guards_hold ::
  "int \<Rightarrow> rat \<Rightarrow> guard_set \<Rightarrow> int option \<Rightarrow> rat option \<Rightarrow> rat option \<Rightarrow> rat option \<Rightarrow> bool" where
  "guards_hold final basis g previous worst_case lowest highest \<longleftrightarrow>
     (\<forall>lo. min_price_minor g = Some lo \<longrightarrow> lo \<le> final) \<and>
     (\<forall>hi. max_price_minor g = Some hi \<longrightarrow> final \<le> hi) \<and>
     within_change (max_increase_bp g) (max_decrease_bp g) previous final \<and>
     markup_at_least (min_markup_bp g) (Some basis) final \<and>
     markup_at_least (min_markup_worst_case_bp g) worst_case final \<and>
     spread_at_most (max_basis_spread_bp g) lowest highest"

lemma price_range_failures_Nil:
  "price_range_failures g final = [] \<longleftrightarrow>
     (\<forall>lo. min_price_minor g = Some lo \<longrightarrow> lo \<le> final) \<and>
     (\<forall>hi. max_price_minor g = Some hi \<longrightarrow> final \<le> hi)"
  by (auto simp: price_range_failures_def split: option.splits)

lemma change_failures_Nil:
  "change_failures g final previous = [] \<longleftrightarrow>
     within_change (max_increase_bp g) (max_decrease_bp g) previous final"
  by (auto simp: change_failures_def within_change_def Let_def split: option.splits if_splits)

lemma markup_failures_Nil:
  "markup_failures g final basis worst_case = [] \<longleftrightarrow>
     markup_at_least (min_markup_bp g) (Some basis) final \<and>
     markup_at_least (min_markup_worst_case_bp g) worst_case final"
  by (auto simp: markup_failures_def markup_at_least_def split: option.splits if_splits)

lemma spread_failures_Nil:
  "spread_failures g lowest highest = [] \<longleftrightarrow> spread_at_most (max_basis_spread_bp g) lowest highest"
  by (auto simp: spread_failures_def spread_at_most_def split: option.splits if_splits)

lemmas failures_Nil = price_range_failures_Nil change_failures_Nil markup_failures_Nil
  spread_failures_Nil

lemma evaluate_guards_accepted:
  "accepted (evaluate_guards final basis g previous wc lo hi) \<longleftrightarrow>
     guards_hold final basis g previous wc lo hi"
  by (simp add: evaluate_guards_def Let_def guards_hold_def failures_Nil conj_ac)

lemma evaluate_guards_reasons:
  "accepted (evaluate_guards final basis g previous wc lo hi) \<longleftrightarrow>
     reason_codes (evaluate_guards final basis g previous wc lo hi) = []"
  by (simp add: evaluate_guards_def Let_def)

section \<open>Quotes\<close>

datatype py_datetime = Naive instant | Aware instant

record quote =
  quote_ref :: string
  vendor_ref :: string
  currency :: string
  canonical_amount :: "int option"
  quoted_at :: "py_datetime option"

datatype exclusion =
    Excluded_absent | Excluded_zero | Excluded_undated | Excluded_future_dated | Excluded_stale
  | Excluded_currency_unresolved

record assessment =
  as_quote_ref :: string
  as_vendor_ref :: string
  as_eligible :: bool
  as_exclusion :: "exclusion option"
  as_numerator :: "int option"
  as_denominator :: "int option"

datatype outcome = Priced | Guard_rejected | Currency_unresolved | Insufficient_quotes

record target_result =
  tr_outcome :: outcome
  tr_assessments :: "assessment list"
  tr_basis_quote_ref :: "string option"
  tr_basis :: "(int \<times> int) option"
  tr_arithmetic :: "arithmetic_result option"
  tr_guards :: "guard_evaluation option"

datatype target_error = Evaluated_at_naive | Bounds_invalid | Matrix_error matrix_error

text \<open>The eligibility chain for one quote: the first test that fails excludes it.\<close>

definition assess_quote ::
  "string \<Rightarrow> (string \<rightharpoonup> rat) \<Rightarrow> instant \<Rightarrow> instant \<Rightarrow> quote \<Rightarrow> exclusion + rat" where
  "assess_quote computation_currency rates evaluated_at cutoff q =
     (case canonical_amount q of None \<Rightarrow> Inl Excluded_absent
      | Some amount \<Rightarrow>
          if amount \<le> 0 then Inl Excluded_zero
          else (case quoted_at q of None \<Rightarrow> Inl Excluded_undated
            | Some (Naive t) \<Rightarrow> Inl Excluded_undated
            | Some (Aware t) \<Rightarrow>
                if t > evaluated_at then Inl Excluded_future_dated
                else if t < cutoff then Inl Excluded_stale
                else
                  let cur = py_upper (py_strip (currency q));
                      rate = (if cur = py_upper (py_strip computation_currency) then Some 1
                              else rates cur)
                  in (case rate of None \<Rightarrow> Inl Excluded_currency_unresolved
                      | Some r \<Rightarrow> if r \<le> 0 then Inl Excluded_currency_unresolved
                                  else Inr (of_int amount * r))))"

definition assessment_of :: "quote \<Rightarrow> exclusion + rat \<Rightarrow> assessment" where
  "assessment_of q v =
     \<lparr>as_quote_ref = quote_ref q, as_vendor_ref = vendor_ref q,
      as_eligible = (case v of Inl _ \<Rightarrow> False | Inr _ \<Rightarrow> True),
      as_exclusion = (case v of Inl e \<Rightarrow> Some e | Inr _ \<Rightarrow> None),
      as_numerator = (case v of Inl _ \<Rightarrow> None | Inr x \<Rightarrow> Some (fst (quotient_of x))),
      as_denominator = (case v of Inl _ \<Rightarrow> None | Inr x \<Rightarrow> Some (snd (quotient_of x)))\<rparr>"

definition eligible_quotes :: "(quote \<Rightarrow> exclusion + rat) \<Rightarrow> quote list \<Rightarrow> (quote \<times> rat) list" where
  "eligible_quotes assess qs =
     concat (map (\<lambda>q. case assess q of Inl _ \<Rightarrow> [] | Inr v \<Rightarrow> [(q, v)]) qs)"

definition price_target ::
  "(quote \<times> rat) list \<Rightarrow> assessment list \<Rightarrow> rule \<Rightarrow> int option \<Rightarrow> (quote \<times> rat)
     \<Rightarrow> target_error + target_result" where
  "price_target eligible assessments r previous best =
     (case calculate_price (BasisFraction (snd best)) r of
        Inl e \<Rightarrow> Inl (Matrix_error e)
      | Inr arith \<Rightarrow>
          let amounts = map snd eligible;
              g = evaluate_guards (final_minor arith) (snd best) (guards r) previous
                    (max_by id amounts) (min_by id amounts) (max_by id amounts)
          in Inr \<lparr>tr_outcome = (if accepted g then Priced else Guard_rejected),
                  tr_assessments = assessments, tr_basis_quote_ref = Some (quote_ref (fst best)),
                  tr_basis = Some (quotient_of (snd best)), tr_arithmetic = Some arith,
                  tr_guards = Some g\<rparr>)"

definition evaluate_pricing_target ::
  "quote list \<Rightarrow> string \<Rightarrow> (string \<rightharpoonup> rat) \<Rightarrow> py_datetime \<Rightarrow> int \<Rightarrow> int \<Rightarrow> rule \<Rightarrow> int option
     \<Rightarrow> target_error + target_result" where
  "evaluate_pricing_target quotes computation_currency rates evaluated_at max_quote_age_days
       min_quote_count r previous =
     (case evaluated_at of Naive _ \<Rightarrow> Inl Evaluated_at_naive
      | Aware now \<Rightarrow>
          if max_quote_age_days < 0 \<or> min_quote_count < 1 then Inl Bounds_invalid
          else
            let cutoff = now - days max_quote_age_days;
                assess = assess_quote computation_currency rates now cutoff;
                assessments = map (\<lambda>q. assessment_of q (assess q)) quotes;
                eligible = eligible_quotes assess quotes
            in if int (length eligible) < min_quote_count
               then Inr \<lparr>tr_outcome =
                      (if set (List.map_filter as_exclusion assessments) = {Excluded_currency_unresolved}
                       then Currency_unresolved else Insufficient_quotes),
                    tr_assessments = assessments, tr_basis_quote_ref = None, tr_basis = None,
                    tr_arithmetic = None, tr_guards = None\<rparr>
               else (case min_by (\<lambda>(q, v). (v, quote_ref q)) eligible of
                       None \<Rightarrow> Inl Bounds_invalid
                     | Some best \<Rightarrow> price_target eligible assessments r previous best))"

section \<open>What a target's result means\<close>

definition quote_usable ::
  "string \<Rightarrow> (string \<rightharpoonup> rat) \<Rightarrow> instant \<Rightarrow> instant \<Rightarrow> quote \<Rightarrow> rat \<Rightarrow> bool" where
  "quote_usable cc rates now cutoff q v \<longleftrightarrow>
     (\<exists>amount t r. canonical_amount q = Some amount \<and> 0 < amount \<and>
        quoted_at q = Some (Aware t) \<and> cutoff \<le> t \<and> t \<le> now \<and> 0 < r \<and>
        (if py_upper (py_strip (currency q)) = py_upper (py_strip cc) then r = 1
         else rates (py_upper (py_strip (currency q))) = Some r) \<and> v = of_int amount * r)"

lemma assess_quote_Inr:
  "assess_quote cc rates now cutoff q = Inr v \<longleftrightarrow> quote_usable cc rates now cutoff q v"
proof (cases "canonical_amount q")
  case None
  then show ?thesis by (simp add: assess_quote_def quote_usable_def)
next
  case (Some amount)
  show ?thesis
  proof (cases "quoted_at q")
    case None
    then show ?thesis by (simp add: assess_quote_def quote_usable_def Some)
  next
    case (Some d)
    then show ?thesis using \<open>canonical_amount q = Some amount\<close>
      by (cases d) (auto simp: assess_quote_def quote_usable_def Let_def not_le not_less
          split: option.splits)
  qed
qed

lemma quote_usable_pos: "quote_usable cc rates now cutoff q v \<Longrightarrow> 0 < v"
  by (auto simp: quote_usable_def)

lemma eligible_quotes_member:
  "(q, v) \<in> set (eligible_quotes assess qs) \<longleftrightarrow> q \<in> set qs \<and> assess q = Inr v"
  by (auto simp: eligible_quotes_def split: sum.splits)

lemma eligible_quotes_mset:
  "mset qs = mset qs' \<Longrightarrow> mset (eligible_quotes assess qs) = mset (eligible_quotes assess qs')"
proof -
  have "mset (eligible_quotes assess xs) =
      sum_mset (image_mset (\<lambda>q. case assess q of Inl _ \<Rightarrow> {#} | Inr v \<Rightarrow> {#(q, v)#}) (mset xs))" for xs
    by (induction xs) (auto simp: eligible_quotes_def split: sum.splits)
  then show "mset qs = mset qs' \<Longrightarrow> ?thesis" by simp
qed

text \<open>The extremes of a list do not depend on its order; the key decides which value is chosen.\<close>

lemma min_by_mset_key:
  assumes "mset xs = mset ys" and "min_by f xs = Some a" and "min_by f ys = Some b"
  shows "f a = f b"
proof -
  have "set xs = set ys" using assms(1) by (rule mset_eq_setD)
  with min_by_Some[OF assms(2)] min_by_Some[OF assms(3)] show ?thesis by (metis order_antisym)
qed

lemma max_by_mset_key:
  assumes "mset xs = mset ys" and "max_by f xs = Some a" and "max_by f ys = Some b"
  shows "f a = f b"
proof -
  have "set xs = set ys" using assms(1) by (rule mset_eq_setD)
  with max_by_Some[OF assms(2)] max_by_Some[OF assms(3)] show ?thesis by (metis order_antisym)
qed

lemma min_by_id_mset: "mset xs = mset ys \<Longrightarrow> min_by id xs = min_by id ys"
  by (cases "min_by id xs"; cases "min_by id ys") (auto dest: min_by_mset_key)

lemma max_by_id_mset: "mset xs = mset ys \<Longrightarrow> max_by id xs = max_by id ys"
  by (cases "max_by id xs"; cases "max_by id ys") (auto dest: max_by_mset_key)

lemma target_bounds:
  assumes "evaluate_pricing_target qs cc rates dt age n r prev = Inr res"
  shows "\<exists>now. dt = Aware now \<and> 0 \<le> age \<and> 1 \<le> n"
proof (cases dt)
  case (Naive t)
  with assms show ?thesis by (simp add: evaluate_pricing_target_def)
next
  case (Aware t)
  have "\<not> (age < 0 \<or> n < 1)"
  proof
    assume "age < 0 \<or> n < 1"
    with assms Aware show False by (simp only: evaluate_pricing_target_def py_datetime.case) simp
  qed
  with Aware show ?thesis by simp
qed

text \<open>The evaluation with its abbreviations resolved, for an aware clock and sane bounds.\<close>

lemma evaluate_unfold:
  assumes "0 \<le> age" and "1 \<le> n"
  shows "evaluate_pricing_target qs cc rates (Aware now) age n r prev =
    (let assess = assess_quote cc rates now (now - days age);
         assessments = map (\<lambda>q. assessment_of q (assess q)) qs;
         eligible = eligible_quotes assess qs
     in if int (length eligible) < n
        then Inr \<lparr>tr_outcome =
               (if set (List.map_filter as_exclusion assessments) = {Excluded_currency_unresolved}
                then Currency_unresolved else Insufficient_quotes),
             tr_assessments = assessments, tr_basis_quote_ref = None, tr_basis = None,
             tr_arithmetic = None, tr_guards = None\<rparr>
        else (case min_by (\<lambda>(q, v). (v, quote_ref q)) eligible of
                None \<Rightarrow> Inl Bounds_invalid
              | Some best \<Rightarrow> price_target eligible assessments r prev best))"
  using assms by (simp add: evaluate_pricing_target_def Let_def)

lemma price_target_arithmetic: "price_target el as r prev b = Inr res \<Longrightarrow> tr_arithmetic res \<noteq> None"
  by (auto simp: price_target_def Let_def split: sum.splits)

lemma target_without_price:
  assumes "evaluate_pricing_target qs cc rates dt age n r prev = Inr res"
    and "tr_arithmetic res = None"
  shows "tr_outcome res = Currency_unresolved \<or> tr_outcome res = Insufficient_quotes"
proof -
  from target_bounds[OF assms(1)] obtain now where now: "dt = Aware now" and b: "0 \<le> age" "1 \<le> n"
    by blast
  define el where "el = eligible_quotes (assess_quote cc rates now (now - days age)) qs"
  note ev = assms(1)[unfolded now evaluate_unfold[OF b] Let_def, folded el_def]
  show ?thesis
  proof (cases "int (length el) < n")
    case True
    with ev obtain C where "tr_outcome res = (if C then Currency_unresolved else Insufficient_quotes)"
      by (simp only: if_True sum.inject) fastforce
    then show ?thesis by (cases C) simp_all
  next
    case False
    with ev assms(2) show ?thesis
      by (cases "min_by (\<lambda>(q, v). (v, quote_ref q)) el") (auto dest: price_target_arithmetic)
  qed
qed

lemma target_priced_cases:
  assumes "evaluate_pricing_target qs cc rates dt age n r prev = Inr res"
    and "tr_arithmetic res \<noteq> None"
  obtains now q v as where "dt = Aware now" "1 \<le> n"
    "n \<le> int (length (eligible_quotes (assess_quote cc rates now (now - days age)) qs))"
    "min_by (\<lambda>(q, v). (v, quote_ref q))
       (eligible_quotes (assess_quote cc rates now (now - days age)) qs) = Some (q, v)"
    "price_target (eligible_quotes (assess_quote cc rates now (now - days age)) qs)
       as r prev (q, v) = Inr res"
proof -
  from target_bounds[OF assms(1)] obtain now where now: "dt = Aware now" and b: "0 \<le> age" "1 \<le> n"
    by blast
  define el where "el = eligible_quotes (assess_quote cc rates now (now - days age)) qs"
  note ev = assms(1)[unfolded now evaluate_unfold[OF b] Let_def, folded el_def]
  have few: "\<not> int (length el) < n"
  proof
    assume "int (length el) < n"
    with ev have "tr_arithmetic res = None" by auto
    with assms(2) show False by contradiction
  qed
  then have "el \<noteq> []" using b by auto
  then obtain q v where best: "min_by (\<lambda>(q, v). (v, quote_ref q)) el = Some (q, v)"
    by (cases "min_by (\<lambda>(q, v). (v, quote_ref q)) el") auto
  from ev few best obtain as where "price_target el as r prev (q, v) = Inr res" by simp
  with now b few best show thesis by (intro that[of now q v as]) (simp_all add: el_def)
qed

lemma price_target_Inr:
  assumes "price_target el as r prev (q, v) = Inr res" and "rule_ok r"
  shows "tr_basis_quote_ref res = Some (quote_ref q) \<and> tr_basis res = Some (quotient_of v) \<and>
    tr_arithmetic res = Some (price_evidence v r) \<and> 0 < final_price v r \<and>
    tr_guards res = Some (evaluate_guards (final_price v r) v (guards r) prev
      (max_by id (map snd el)) (min_by id (map snd el)) (max_by id (map snd el))) \<and>
    (tr_outcome res = Priced \<longleftrightarrow> guards_hold (final_price v r) v (guards r) prev
      (max_by id (map snd el)) (min_by id (map snd el)) (max_by id (map snd el))) \<and>
    (tr_outcome res = Priced \<or> tr_outcome res = Guard_rejected)"
  using assms
  by (auto simp: price_target_def calculate_price_def price_from_basis_eq Let_def
      evaluate_guards_accepted split: if_splits)

text \<open>The part of a result that does not list the quotes one by one.\<close>

definition target_summary :: "target_result \<Rightarrow>
    outcome \<times> string option \<times> (int \<times> int) option \<times> arithmetic_result option \<times> guard_evaluation option" where
  "target_summary res = (tr_outcome res, tr_basis_quote_ref res, tr_basis res, tr_arithmetic res,
     tr_guards res)"

lemma price_target_summary:
  assumes "snd b = snd c" and "quote_ref (fst b) = quote_ref (fst c)" and "mset el = mset el'"
  shows "map_sum id target_summary (price_target el as r prev b) =
    map_sum id target_summary (price_target el' as' r prev c)"
proof -
  have m: "mset (map snd el) = mset (map snd el')" using assms(3) by simp
  show ?thesis
    by (simp add: price_target_def assms(1,2) target_summary_def Let_def
        min_by_id_mset[OF m] max_by_id_mset[OF m] split: sum.split)
qed

section \<open>Properties\<close>

text \<open>C34: A priced target is sound: the basis is a usable quote of the input (positive amount, dated
  inside the window, positive valuation rate), no usable quote is cheaper, at least the required
  number of quotes was usable, the price is the rule applied to that basis, it is positive, and
  every configured guard holds for it against the previous price, the cheapest and the dearest
  usable quote.\<close>

theorem priced_target_sound:
  assumes "evaluate_pricing_target qs cc rates dt age n r prev = Inr res"
    and "rule_ok r" and "tr_outcome res = Priced"
  shows "\<exists>now q v w. dt = Aware now \<and> q \<in> set qs \<and>
    quote_usable cc rates now (now - days age) q v \<and>
    tr_basis_quote_ref res = Some (quote_ref q) \<and>
    (\<forall>q' \<in> set qs. \<forall>v'. quote_usable cc rates now (now - days age) q' v' \<longrightarrow> v \<le> v' \<and> v' \<le> w) \<and>
    n \<le> int (length (filter (\<lambda>q. \<exists>v. quote_usable cc rates now (now - days age) q v) qs)) \<and>
    map_option final_minor (tr_arithmetic res) = Some (final_price v r) \<and> 0 < final_price v r \<and>
    guards_hold (final_price v r) v (guards r) prev (Some w) (Some v) (Some w)"
proof -
  have "tr_arithmetic res \<noteq> None"
    using target_without_price[OF assms(1)] assms(3) by auto
  from target_priced_cases[OF assms(1) this] obtain now q v as where now: "dt = Aware now"
    and n: "1 \<le> n"
    and few: "n \<le> int (length (eligible_quotes (assess_quote cc rates now (now - days age)) qs))"
    and best: "min_by (\<lambda>(q, v). (v, quote_ref q))
       (eligible_quotes (assess_quote cc rates now (now - days age)) qs) = Some (q, v)"
    and pt: "price_target (eligible_quotes (assess_quote cc rates now (now - days age)) qs)
       as r prev (q, v) = Inr res" .
  define el where "el = eligible_quotes (assess_quote cc rates now (now - days age)) qs"
  note price = price_target_Inr[OF pt assms(2), folded el_def]
  have mem: "(q', v') \<in> set el \<longleftrightarrow> q' \<in> set qs \<and> quote_usable cc rates now (now - days age) q' v'"
    for q' v' by (simp add: el_def eligible_quotes_member assess_quote_Inr)
  have qv: "(q, v) \<in> set el" and least: "\<And>q' v'. (q', v') \<in> set el \<Longrightarrow> v \<le> v'"
    using min_by_Some[OF best[folded el_def]] by (fastforce simp: less_eq_prod_def)+
  obtain w where w: "max_by id (map snd el) = Some w"
    using qv by (cases "max_by id (map snd el)") auto
  have v: "min_by id (map snd el) = Some v"
  proof -
    obtain m where m: "min_by id (map snd el) = Some m"
      using qv by (cases "min_by id (map snd el)") auto
    have "v \<in> set (map snd el)" using qv by force
    then have "m \<le> v" using min_by_Some[OF m] by auto
    moreover obtain q' where "(q', m) \<in> set el" using min_by_Some[OF m] by auto
    then have "v \<le> m" by (rule least)
    ultimately show ?thesis using m by simp
  qed
  have "length el = length (filter (\<lambda>q. \<exists>v. quote_usable cc rates now (now - days age) q v) qs)"
  proof -
    have "length (eligible_quotes f xs) = length (filter (\<lambda>q. \<exists>v. f q = Inr v) xs)" for f xs
      by (induction xs) (auto simp: eligible_quotes_def split: sum.splits)
    then show ?thesis by (simp add: el_def assess_quote_Inr)
  qed
  then have enough: "n \<le> int (length (filter (\<lambda>q. \<exists>v. quote_usable cc rates now (now - days age) q v) qs))"
    using few[folded el_def] by simp
  have between: "v \<le> v' \<and> v' \<le> w"
    if "q' \<in> set qs" "quote_usable cc rates now (now - days age) q' v'" for q' v'
  proof -
    have "(q', v') \<in> set el" using that mem by simp
    moreover from this have "v' \<in> set (map snd el)" by force
    ultimately show ?thesis using least max_by_Some[OF w] by auto
  qed
  have guards: "guards_hold (final_price v r) v (guards r) prev (Some w) (Some v) (Some w)"
    using price assms(3) v w by simp
  have final: "map_option final_minor (tr_arithmetic res) = Some (final_price v r)"
    using price by simp
  show ?thesis
    using now conjunct1[OF price] price qv mem[of q v] between enough guards final
    by (intro exI[of _ now] exI[of _ q] exI[of _ v] exI[of _ w] conjI ballI allI impI) simp_all
qed

text \<open>The result of a target does not depend on the order in which the quotes are listed:
  reordering them changes at most the order of the per-quote assessments.\<close>

theorem target_order_independent:
  assumes "mset qs = mset qs'"
  shows "map_sum id target_summary (evaluate_pricing_target qs cc rates dt age n r prev) =
    map_sum id target_summary (evaluate_pricing_target qs' cc rates dt age n r prev)"
proof (cases dt)
  case (Naive t)
  then show ?thesis by (simp add: evaluate_pricing_target_def)
next
  case (Aware now)
  show ?thesis
  proof (cases "age < 0 \<or> n < 1")
    case True
    then show ?thesis by (simp only: Aware evaluate_pricing_target_def py_datetime.case) simp
  next
    case False
    then have b: "0 \<le> age" "1 \<le> n" by auto
    define f where "f = assess_quote cc rates now (now - days age)"
    note el = eligible_quotes_mset[OF assms, of f]
    have s: "set qs = set qs'" using assms by (rule mset_eq_setD)
    have ex: "set (List.map_filter as_exclusion (map (\<lambda>q. assessment_of q (f q)) qs)) =
        set (List.map_filter as_exclusion (map (\<lambda>q. assessment_of q (f q)) qs'))"
      by (simp add: List.map_filter_def s)
    have len: "length (eligible_quotes f qs) = length (eligible_quotes f qs')"
      using el by (rule mset_eq_length)
    have key: "snd b = snd c \<and> quote_ref (fst b) = quote_ref (fst c)"
      if "min_by (\<lambda>(q, v). (v, quote_ref q)) (eligible_quotes f qs) = Some b"
        "min_by (\<lambda>(q, v). (v, quote_ref q)) (eligible_quotes f qs') = Some c" for b c
      using min_by_mset_key[OF el that] by (cases b; cases c) simp
    have empty: "eligible_quotes f qs = [] \<longleftrightarrow> eligible_quotes f qs' = []"
      using len by (metis length_0_conv)
    show ?thesis
      unfolding Aware evaluate_unfold[OF b] Let_def f_def[symmetric] len ex
      using key empty
      by (auto simp: target_summary_def intro!: price_target_summary[OF _ _ el]
          split: option.split)
  qed
qed

text \<open>Guard evaluation is exact: a price is accepted precisely when every configured guard
  holds, and a rejection always carries at least one reason.\<close>

theorem guards_exact:
  "(accepted (evaluate_guards final basis g prev wc lo hi) \<longleftrightarrow>
      guards_hold final basis g prev wc lo hi) \<and>
   (accepted (evaluate_guards final basis g prev wc lo hi) \<longleftrightarrow>
      reason_codes (evaluate_guards final basis g prev wc lo hi) = [])"
  using evaluate_guards_accepted evaluate_guards_reasons by blast

section \<open>Concrete runs\<close>

definition demo_quotes :: "quote list" where
  "demo_quotes =
    [\<lparr>quote_ref = ''q1'', vendor_ref = ''v1'', currency = '' irr '', canonical_amount = Some 100000,
      quoted_at = Some (Aware 5000000)\<rparr>,
     \<lparr>quote_ref = ''q2'', vendor_ref = ''v2'', currency = ''IRR'', canonical_amount = Some 98000,
      quoted_at = Some (Aware 4000000)\<rparr>,
     \<lparr>quote_ref = ''q3'', vendor_ref = ''v3'', currency = ''IRR'', canonical_amount = Some 0,
      quoted_at = Some (Aware 4000000)\<rparr>]"

definition demo_target :: "target_error + target_result" where
  "demo_target = evaluate_pricing_target demo_quotes ''IRR'' Map.empty (Aware 6000000) 1 2 demo_rule (Some 105000)"

lemma demo_target_priced:
  "is_ok demo_target" "tr_outcome (projr demo_target) = Priced"
  "tr_basis_quote_ref (projr demo_target) = Some ''q2''"
  "map_option final_minor (tr_arithmetic (projr demo_target)) = Some 110900"
  by code_simp+

theorem priced_target_sound_witness:
  "\<exists>q v. q \<in> set demo_quotes \<and> quote_ref q = ''q2'' \<and> final_price v demo_rule = 110900 \<and>
     quote_usable ''IRR'' Map.empty 6000000 (6000000 - days 1) q v"
proof -
  have res: "demo_target = Inr (projr demo_target)"
    using demo_target_priced(1) unfolding is_ok_iff by (metis sum.sel(2))
  have ok: "rule_ok demo_rule" by code_simp
  from priced_target_sound[OF res[unfolded demo_target_def] ok, folded demo_target_def, OF demo_target_priced(2)]
  obtain q v where "q \<in> set demo_quotes" and "Some ''q2'' = Some (quote_ref q)"
    and "Some 110900 = Some (final_price v demo_rule)"
    and "quote_usable ''IRR'' Map.empty 6000000 (6000000 - days 1) q v"
    unfolding demo_target_priced(3,4) py_datetime.inject by blast
  then show ?thesis by (intro exI[of _ q] exI[of _ v]) simp
qed

theorem target_order_independent_witness:
  "map_sum id target_summary (evaluate_pricing_target (rev demo_quotes) ''IRR'' Map.empty (Aware 6000000) 1 2
     demo_rule (Some 105000)) = map_sum id target_summary demo_target"
  unfolding demo_target_def by (rule target_order_independent) simp

end
