(* ===== verification/Json.thy ===== *)
theory Json
  imports Prelude
begin

text \<open>
  JSON columns as Python sees them, the conversions \<^verbatim>\<open>str\<close>, \<^verbatim>\<open>int\<close>, \<^verbatim>\<open>float\<close> and
  \<^verbatim>\<open>bool\<close> on such values, and the redaction of secrets before a payload is stored
  (\<^verbatim>\<open>app/flowhub/security/redaction.py\<close>). Finite floats are exact rationals. What
  \<^verbatim>\<open>repr\<close> prints for a float, a list or a dictionary, and which texts \<^verbatim>\<open>float\<close> reads, is the
  interpreter's: the two functions of \<^verbatim>\<open>py_runtime\<close>.
\<close>

datatype json = JNull | JBool bool | JInt int | JNum rat | JStr string | JList "json list"
  | JObj "(string \<times> json) list"

type_synonym json_dict = "(string \<times> json) list"

record py_runtime =
  repr_of :: "json \<Rightarrow> string"
  float_of_string :: "string \<Rightarrow> rat option"

section \<open>Numerals\<close>

definition digit_char :: "int \<Rightarrow> char" where
  "digit_char d = char_of (48 + d)"

function show_digits :: "int \<Rightarrow> string \<Rightarrow> string" where
  "show_digits n acc = (if n < 10 then digit_char n # acc
     else show_digits (n div 10) (digit_char (n mod 10) # acc))"
  by pat_completeness auto
termination by (relation "measure (\<lambda>(n, acc). nat n)") auto

declare show_digits.simps [simp del]

definition show_int :: "int \<Rightarrow> string" where
  "show_int i = (if i < 0 then CHR ''-'' # show_digits (- i) [] else show_digits i [])"

definition show_nat :: "nat \<Rightarrow> string" where
  "show_nat n = show_int (int n)"

definition is_digit :: "char \<Rightarrow> bool" where
  "is_digit c \<longleftrightarrow> (let n = of_char c :: int in 48 \<le> n \<and> n \<le> 57)"

definition digit_val :: "char \<Rightarrow> int" where
  "digit_val c = of_char c - 48"

definition read_digits :: "string \<Rightarrow> int" where
  "read_digits s = foldl (\<lambda>n c. 10 * n + digit_val c) 0 s"

lemma digit_char [simp]:
  assumes "0 \<le> d" "d < 10"
  shows "is_digit (digit_char d)" "digit_val (digit_char d) = d"
proof -
  have "of_char (char_of (48 + d) :: char) = (48 + d) mod 256" by simp
  also have "\<dots> = 48 + d" using assms by simp
  finally show "is_digit (digit_char d)" "digit_val (digit_char d) = d"
    using assms by (simp_all add: is_digit_def digit_char_def digit_val_def)
qed

lemma foldl_digits:
  "foldl (\<lambda>n c. 10 * n + digit_val c) m s = m * 10 ^ length s + foldl (\<lambda>n c. 10 * n + digit_val c) 0 s"
proof (induction s arbitrary: m)
  case Nil
  then show ?case by simp
next
  case (Cons c s)
  show ?case using Cons.IH[of "10 * m + digit_val c"] Cons.IH[of "digit_val c"]
    by (simp add: algebra_simps)
qed

lemma show_digits_read:
  "0 \<le> n \<Longrightarrow> read_digits (show_digits n acc) = n * 10 ^ length acc + read_digits acc"
proof (induction n acc rule: show_digits.induct)
  case (1 n acc)
  show ?case
  proof (cases "n < 10")
    case True
    then show ?thesis
      using 1(2) foldl_digits[of n acc] by (subst show_digits.simps) (simp add: read_digits_def)
  next
    case False
    have split: "a * (10 * p) + b * p = n * p" if "n = 10 * a + b" for a b p :: int
      using that by (simp add: algebra_simps)
    have e: "n div 10 * 10 ^ Suc (length acc) + n mod 10 * 10 ^ length acc
        = n * 10 ^ length acc"
      using split[of "n div 10" "n mod 10" "10 ^ length acc"] by simp
    have r: "read_digits (digit_char (n mod 10) # acc) = n mod 10 * 10 ^ length acc + read_digits acc"
      by (simp add: read_digits_def foldl_digits[of "n mod 10"])
    have "read_digits (show_digits n acc) =
        read_digits (show_digits (n div 10) (digit_char (n mod 10) # acc))"
      using False by (subst show_digits.simps) simp
    also have "\<dots> = n div 10 * 10 ^ Suc (length acc) + read_digits (digit_char (n mod 10) # acc)"
      using 1(1)[OF False] 1(2) by simp
    finally show ?thesis using r e by simp
  qed
qed

lemma show_digits_digits: "0 \<le> n \<Longrightarrow> list_all is_digit acc \<Longrightarrow> list_all is_digit (show_digits n acc)"
proof (induction n acc rule: show_digits.induct)
  case (1 n acc)
  then show ?case by (subst show_digits.simps) auto
qed

lemma show_digits_nonempty: "show_digits n acc \<noteq> []"
proof (induction n acc rule: show_digits.induct)
  case (1 n acc)
  then show ?case by (subst show_digits.simps) simp
qed

lemma show_int_nonempty [simp]: "show_int i \<noteq> []"
  by (simp add: show_int_def show_digits_nonempty)

lemma show_digits_inject:
  assumes "0 \<le> m" "0 \<le> n" "show_digits m [] = show_digits n []"
  shows "m = n"
proof -
  have "read_digits (show_digits m []) = read_digits (show_digits n [])" by (simp only: assms(3))
  then show ?thesis by (simp only: show_digits_read[OF assms(1)] show_digits_read[OF assms(2)]) simp
qed

lemma show_int_inject [simp]: "show_int i = show_int j \<longleftrightarrow> i = j"
proof
  assume eq: "show_int i = show_int j"
  have neg: "show_digits n [] \<noteq> CHR ''-'' # s" if "0 \<le> n" for n s
    using show_digits_digits[OF that, of "[]"] by (auto simp: is_digit_def Let_def)
  show "i = j"
  proof (cases "i < 0")
    case True
    have "j < 0"
    proof (rule ccontr)
      assume "\<not> j < 0"
      with True eq have "show_digits j [] = CHR ''-'' # show_digits (- i) []" by (simp add: show_int_def)
      with neg \<open>\<not> j < 0\<close> show False by simp
    qed
    with True eq show ?thesis using show_digits_inject[of "- i" "- j"] by (simp add: show_int_def)
  next
    case False
    have "\<not> j < 0"
    proof
      assume "j < 0"
      with False eq have "show_digits i [] = CHR ''-'' # show_digits (- j) []" by (simp add: show_int_def)
      with neg False show False by simp
    qed
    with False eq show ?thesis using show_digits_inject[of i j] by (simp add: show_int_def)
  qed
qed simp

lemma show_nat_inject [simp]: "show_nat m = show_nat n \<longleftrightarrow> m = n"
  by (simp add: show_nat_def)

section \<open>Conversions\<close>

datatype py_error = Type_error | Value_error string

fun py_str :: "py_runtime \<Rightarrow> json \<Rightarrow> string" where
  "py_str py JNull = ''None''"
| "py_str py (JBool b) = (if b then ''True'' else ''False'')"
| "py_str py (JInt i) = show_int i"
| "py_str py (JStr s) = s"
| "py_str py v = repr_of py v"

text \<open>A digit string in which single underscores may separate digits.\<close>

fun int_digits :: "string \<Rightarrow> string option" where
  "int_digits [] = None"
| "int_digits [c] = (if is_digit c then Some [c] else None)"
| "int_digits (c # d # s) = (if \<not> is_digit c then None
     else if d = CHR ''_'' then map_option ((#) c) (int_digits s)
     else map_option ((#) c) (int_digits (d # s)))"

definition parse_int :: "string \<Rightarrow> int option" where
  "parse_int s = (case py_strip s of
     [] \<Rightarrow> None
   | c # r \<Rightarrow>
       if c = CHR ''-'' then map_option (\<lambda>ds. - read_digits ds) (int_digits r)
       else if c = CHR ''+'' then map_option (\<lambda>ds. read_digits ds) (int_digits r)
       else map_option (\<lambda>ds. read_digits ds) (int_digits (c # r)))"

definition trunc_rat :: "rat \<Rightarrow> int" where
  "trunc_rat r = (if r < 0 then - \<lfloor>- r\<rfloor> else \<lfloor>r\<rfloor>)"

fun py_int :: "json \<Rightarrow> py_error + int" where
  "py_int (JBool b) = Inr (if b then 1 else 0)"
| "py_int (JInt i) = Inr i"
| "py_int (JNum r) = Inr (trunc_rat r)"
| "py_int (JStr s) = (case parse_int s of Some i \<Rightarrow> Inr i | None \<Rightarrow> Inl (Value_error ''int''))"
| "py_int _ = Inl Type_error"

fun py_float :: "py_runtime \<Rightarrow> json \<Rightarrow> py_error + rat" where
  "py_float py (JBool b) = Inr (if b then 1 else 0)"
| "py_float py (JInt i) = Inr (of_int i)"
| "py_float py (JNum r) = Inr r"
| "py_float py (JStr s) = (case float_of_string py s of Some r \<Rightarrow> Inr r | None \<Rightarrow> Inl (Value_error ''float''))"
| "py_float py _ = Inl Type_error"

fun json_truthy :: "json \<Rightarrow> bool" where
  "json_truthy JNull = False"
| "json_truthy (JBool b) = b"
| "json_truthy (JInt i) = (i \<noteq> 0)"
| "json_truthy (JNum r) = (r \<noteq> 0)"
| "json_truthy (JStr s) = (s \<noteq> [])"
| "json_truthy (JList xs) = (xs \<noteq> [])"
| "json_truthy (JObj d) = (d \<noteq> [])"

text \<open>\<^verbatim>\<open>d.get(k)\<close>, \<^verbatim>\<open>str(d.get(k) or default)\<close> and \<^verbatim>\<open>int(d.get(k) or 0)\<close>.\<close>

definition jget :: "string \<Rightarrow> json_dict \<Rightarrow> json" where
  "jget k d = (case map_of d k of Some v \<Rightarrow> v | None \<Rightarrow> JNull)"

definition str_get :: "py_runtime \<Rightarrow> string \<Rightarrow> string \<Rightarrow> json_dict \<Rightarrow> string" where
  "str_get py k dflt d = (if json_truthy (jget k d) then py_str py (jget k d) else dflt)"

definition int_get :: "string \<Rightarrow> json_dict \<Rightarrow> py_error + int" where
  "int_get k d = (if json_truthy (jget k d) then py_int (jget k d) else Inr 0)"

lemma jget_simps [simp]:
  "jget k [] = JNull" "jget k ((k, v) # d) = v" "k' \<noteq> k \<Longrightarrow> jget k ((k', v) # d) = jget k d"
  by (simp_all add: jget_def)

section \<open>Redaction\<close>

definition redacted :: string where
  "redacted = ''[REDACTED]''"

definition sensitive_markers :: "string list" where
  "sensitive_markers = [''secret'', ''token'', ''password'', ''authorization'', ''api_key'', ''apikey'',
     ''consumer_key'', ''consumer_secret'', ''access_token'', ''refresh_token'', ''bearer'',
     ''credential'', ''credentials'']"

definition credential_key_context :: "string list" where
  "credential_key_context = [''api'', ''auth'', ''consumer'', ''credential'', ''client'', ''private'',
     ''access'', ''refresh'', ''app'', ''session'']"

fun starts_with :: "string \<Rightarrow> string \<Rightarrow> bool" where
  "starts_with [] s = True"
| "starts_with (c # p) [] = False"
| "starts_with (c # p) (d # s) = (if c = d then starts_with p s else False)"

fun contains :: "string \<Rightarrow> string \<Rightarrow> bool" where
  "contains p [] = (p = [])"
| "contains p (c # s) = (if starts_with p (c # s) then True else contains p s)"

text \<open>A prefix in any case: the pattern is in lower case.\<close>

fun starts_with_ci :: "string \<Rightarrow> string \<Rightarrow> bool" where
  "starts_with_ci [] s = True"
| "starts_with_ci (c # p) [] = False"
| "starts_with_ci (c # p) (d # s) = (if c = lower_char d then starts_with_ci p s else False)"

definition ends_with :: "string \<Rightarrow> string \<Rightarrow> bool" where
  "ends_with p s = starts_with (rev p) (rev s)"

definition is_sensitive_key :: "string \<Rightarrow> bool" where
  "is_sensitive_key key =
     (let n = map (\<lambda>c. if c = CHR ''-'' then CHR ''_'' else c) (py_lower (py_strip key)) in
      if list_ex (\<lambda>m. contains m n) sensitive_markers then True
      else if n = ''key'' then True
      else if ends_with ''_key'' n then list_ex (\<lambda>m. contains m n) credential_key_context
      else False)"

text \<open>
  The scan of \<^verbatim>\<open>_SENSITIVE_TEXT_PATTERN.sub\<close>: at a word boundary, a marker in any case, optional
  blanks, a colon or an equals sign, optional blanks, and at least one character that is no blank
  or separator. A match leaves no choice to backtrack over: the marker has to be followed by a blank
  or the sign, so at most one marker fits at a position.
\<close>

definition text_markers :: "string list" where
  "text_markers = sensitive_markers @ [''key'']"

definition is_word :: "char \<Rightarrow> bool" where
  "is_word c \<longleftrightarrow> is_digit c \<or> c = CHR ''_'' \<or>
     (let n = of_char (lower_char c) :: int in 97 \<le> n \<and> n \<le> 122)"

definition is_secret_char :: "char \<Rightarrow> bool" where
  "is_secret_char c \<longleftrightarrow> \<not> is_space c \<and> c \<notin> {CHR '','', CHR '';'', CHR ''&''}"

definition match_marker :: "string \<Rightarrow> string \<Rightarrow> (string \<times> string) option" where
  "match_marker m s = (if \<not> starts_with_ci m s then None else
     (let r = drop (length m) s; r1 = dropWhile is_space r in
      case r1 of [] \<Rightarrow> None
      | c # r2 \<Rightarrow>
          let r3 = dropWhile is_space r2; n = length (takeWhile is_secret_char r3) in
          if c \<notin> {CHR '':'', CHR ''=''} \<or> n = 0 then None
          else Some (take (length s - length r3) s, drop n r3)))"

definition match_secret :: "string \<Rightarrow> (string \<times> string) option" where
  "match_secret s = (case List.map_filter (\<lambda>m. match_marker m s) text_markers of
     [] \<Rightarrow> None | p # _ \<Rightarrow> Some p)"

lemma match_marker_shorter: "match_marker m s = Some (p, r) \<Longrightarrow> length r < length s"
proof -
  assume "match_marker m s = Some (p, r)"
  then obtain c r2 where a: "dropWhile is_space (drop (length m) s) = c # r2"
    and r: "r = drop (length (takeWhile is_secret_char (dropWhile is_space r2))) (dropWhile is_space r2)"
    by (auto simp: match_marker_def Let_def split: if_splits list.splits)
  have "length (c # r2) \<le> length s"
    using length_dropWhile_le[of is_space "drop (length m) s"] by (simp add: a[symmetric])
  moreover have "length r \<le> length r2" using length_dropWhile_le[of is_space r2] by (simp add: r)
  ultimately show ?thesis by simp
qed

lemma match_secret_shorter: "match_secret s = Some (p, r) \<Longrightarrow> length r < length s"
proof -
  assume "match_secret s = Some (p, r)"
  then obtain ps where "List.map_filter (\<lambda>m. match_marker m s) text_markers = (p, r) # ps"
    by (auto simp: match_secret_def split: list.splits)
  then have "(p, r) \<in> set (List.map_filter (\<lambda>m. match_marker m s) text_markers)" by simp
  then obtain m where "match_marker m s = Some (p, r)" by (auto simp: List.map_filter_def)
  then show ?thesis by (rule match_marker_shorter)
qed

definition boundary :: "char option \<Rightarrow> bool" where
  "boundary prev = (case prev of None \<Rightarrow> True | Some c \<Rightarrow> \<not> is_word c)"

function redact_scan :: "char option \<Rightarrow> string \<Rightarrow> string" where
  "redact_scan prev [] = []"
| "redact_scan prev (c # s) =
     (case (if boundary prev then match_secret (c # s) else None) of
        Some (p, r) \<Rightarrow> p @ redacted @
          redact_scan (Some ((c # s) ! (length (c # s) - length r - 1))) r
      | None \<Rightarrow> c # redact_scan (Some c) s)"
  by pat_completeness auto
termination
  by (relation "measure (\<lambda>(prev, s). length s)")
    (auto dest: match_secret_shorter split: if_splits)

definition redact_sensitive_text :: "string \<Rightarrow> string" where
  "redact_sensitive_text s = redact_scan None s"

fun redact_sensitive :: "json \<Rightarrow> json" where
  "redact_sensitive (JObj d) =
     JObj (map (\<lambda>(k, v). (k, if is_sensitive_key k then JStr redacted else redact_sensitive v)) d)"
| "redact_sensitive (JList xs) = JList (map redact_sensitive xs)"
| "redact_sensitive (JStr s) = JStr (redact_sensitive_text s)"
| "redact_sensitive v = v"

definition redact_dict :: "json_dict \<Rightarrow> json_dict" where
  "redact_dict d = map (\<lambda>(k, v). (k, if is_sensitive_key k then JStr redacted else redact_sensitive v)) d"

lemma redact_sensitive_obj: "redact_sensitive (JObj d) = JObj (redact_dict d)"
  by (simp add: redact_dict_def)

text \<open>The values stored under a sensitive key, anywhere in a payload.\<close>

fun secrets :: "json \<Rightarrow> json list" where
  "secrets (JObj d) =
     concat (map (\<lambda>(k, v). if is_sensitive_key k then [v] else secrets v) d)"
| "secrets (JList xs) = concat (map secrets xs)"
| "secrets v = []"

text \<open>after redaction every value stored under a sensitive key, at any depth of the payload, is
  the redaction mark.\<close>

theorem redaction_hides_secrets: "set (secrets (redact_sensitive v)) \<subseteq> {JStr redacted}"
proof (induction v rule: redact_sensitive.induct)
  case (1 d)
  then show ?case by (fastforce split: if_splits)
next
  case (2 xs)
  then show ?case by fastforce
qed simp_all

end
