(* ===== verification/PricingAuthority.thy ===== *)
theory PricingAuthority
  imports Prelude
begin

text \<open>
  Which engine may price a Channel (\<^verbatim>\<open>app/flowhub/pricing_authority\<close>): one mutable head per Channel,
  an append-only chain of authority events, and the check every price write has to pass.
  Identifiers come from \<^verbatim>\<open>uuid4\<close> and are arguments here. An operation that reads the head, decides,
  and then compares-and-swaps is split at that point, so that other transactions can run between
  its read and its write.
\<close>

section \<open>State\<close>

datatype pricing_authority = A_LEGACY_FORMULA_ENGINE | A_MIGRATION_LOCKED | A_PRICING_MATRIX
datatype pricing_origin = O_LEGACY_FORMULA_ENGINE | O_PRICING_MATRIX

fun authority_value :: "pricing_authority \<Rightarrow> string" where
  "authority_value A_LEGACY_FORMULA_ENGINE = ''legacy_formula_engine''"
| "authority_value A_MIGRATION_LOCKED = ''migration_locked''"
| "authority_value A_PRICING_MATRIX = ''pricing_matrix''"

fun origin_value :: "pricing_origin \<Rightarrow> string" where
  "origin_value O_LEGACY_FORMULA_ENGINE = ''legacy_formula_engine''"
| "origin_value O_PRICING_MATRIX = ''pricing_matrix''"

record authority_event =
  ae_id :: string
  ae_channel_id :: string
  ae_previous_authority :: "pricing_authority option"
  ae_new_authority :: pricing_authority
  ae_expected_head_version :: nat
  ae_predecessor_event_id :: "string option"
  ae_actor_user_id :: "int option"
  ae_actor_reference :: string
  ae_reason :: string
  ae_correlation_id :: string

record authority_head =
  ah_channel_id :: string
  ah_current_authority :: pricing_authority
  ah_effective_event_id :: string
  ah_head_version :: nat
  ah_updated_at :: instant

record write_rejection =
  wr_channel_id :: string
  wr_listing_id :: string
  wr_operation_id :: string
  wr_pricing_origin :: "pricing_origin option"
  wr_current_authority :: "pricing_authority option"
  wr_current_event_id :: "string option"
  wr_current_head_version :: "nat option"
  wr_expected_event_id :: "string option"
  wr_expected_head_version :: "int option"
  wr_reason_code :: string
  wr_correlation_id :: string

record authority_db =
  channels :: "string list"
  authority_events :: "authority_event list"
  authority_heads :: "authority_head list"
  write_rejections :: "write_rejection list"

record authority_snapshot =
  as_channel_id :: string
  as_authority :: pricing_authority
  as_event_id :: string
  as_head_version :: nat

datatype authority_error =
    Channel_not_found | Head_conflict | Transition_invalid | Origin_not_authorized
  | Authority_conflict | Authority_locked

fun authority_code :: "authority_error \<Rightarrow> string" where
  "authority_code Channel_not_found = ''pricing_authority_channel_not_found''"
| "authority_code Head_conflict = ''pricing_authority_head_conflict''"
| "authority_code Transition_invalid = ''pricing_authority_transition_invalid''"
| "authority_code Origin_not_authorized = ''pricing_origin_not_authorized''"
| "authority_code Authority_conflict = ''pricing_authority_conflict''"
| "authority_code Authority_locked = ''pricing_authority_locked''"

section \<open>Operations\<close>

definition head_of :: "authority_db \<Rightarrow> string \<Rightarrow> authority_head option" where
  "head_of db c = get_row ah_channel_id c (authority_heads db)"

definition snapshot_of :: "authority_head \<Rightarrow> authority_snapshot" where
  "snapshot_of h = \<lparr>as_channel_id = ah_channel_id h, as_authority = ah_current_authority h,
     as_event_id = ah_effective_event_id h, as_head_version = ah_head_version h\<rparr>"

text \<open>
  The insert of the initial head. Its primary key is the Channel: when another transaction has
  inserted the row meanwhile, the nested transaction fails and the existing row is returned.
\<close>

definition seed_head ::
  "string \<Rightarrow> string \<Rightarrow> string \<Rightarrow> instant \<Rightarrow> authority_db \<Rightarrow> string \<Rightarrow> authority_snapshot \<times> authority_db" where
  "seed_head event_id actor_reference correlation_id now db c = (case head_of db c of
     Some h \<Rightarrow> (snapshot_of h, db)
   | None \<Rightarrow>
       let ev = \<lparr>ae_id = event_id, ae_channel_id = c, ae_previous_authority = None,
                 ae_new_authority = A_LEGACY_FORMULA_ENGINE, ae_expected_head_version = 0,
                 ae_predecessor_event_id = None, ae_actor_user_id = None,
                 ae_actor_reference = actor_reference,
                 ae_reason = ''Initial Channel pricing authority seed.'',
                 ae_correlation_id = correlation_id\<rparr>;
           h = \<lparr>ah_channel_id = c, ah_current_authority = A_LEGACY_FORMULA_ENGINE,
                ah_effective_event_id = event_id, ah_head_version = 0, ah_updated_at = now\<rparr>
       in (snapshot_of h, db\<lparr>authority_events := authority_events db @ [ev],
                             authority_heads := authority_heads db @ [h]\<rparr>))"

definition ensure_channel_head ::
  "string \<Rightarrow> string \<Rightarrow> string \<Rightarrow> instant \<Rightarrow> authority_db \<Rightarrow> string
     \<Rightarrow> authority_error + (authority_snapshot \<times> authority_db)" where
  "ensure_channel_head event_id actor_reference correlation_id now db c = (case head_of db c of
     Some h \<Rightarrow> Inr (snapshot_of h, db)
   | None \<Rightarrow> if c \<notin> set (channels db) then Inl Channel_not_found
             else Inr (seed_head event_id actor_reference correlation_id now db c))"

definition snapshot ::
  "string \<Rightarrow> instant \<Rightarrow> authority_db \<Rightarrow> string \<Rightarrow> authority_error + (authority_snapshot \<times> authority_db)" where
  "snapshot event_id now db c = ensure_channel_head event_id ''system:channel-seed'' [] now db c"

fun allowed_transitions :: "pricing_authority \<Rightarrow> pricing_authority list" where
  "allowed_transitions A_LEGACY_FORMULA_ENGINE = [A_MIGRATION_LOCKED]"
| "allowed_transitions A_MIGRATION_LOCKED = [A_LEGACY_FORMULA_ENGINE, A_PRICING_MATRIX]"
| "allowed_transitions A_PRICING_MATRIX = [A_MIGRATION_LOCKED]"

record transition_request =
  rq_new_authority :: pricing_authority
  rq_expected_head_version :: nat
  rq_reason :: string
  rq_user_id :: int
  rq_username :: string
  rq_correlation_id :: string

text \<open>The checks of \<^verbatim>\<open>transition\<close> against the head that was read.\<close>

definition transition_check :: "authority_snapshot \<Rightarrow> transition_request \<Rightarrow> authority_error + unit" where
  "transition_check head rq =
     (if as_head_version head \<noteq> rq_expected_head_version rq then Inl Head_conflict
      else if rq_new_authority rq \<notin> set (allowed_transitions (as_authority head))
      then Inl Transition_invalid else Inr ())"

text \<open>
  The compare-and-swap: the event is flushed, the head is updated where its version is still the
  expected one, and unless exactly one row changed the transaction is rolled back.
\<close>

definition transition_event :: "string \<Rightarrow> authority_snapshot \<Rightarrow> transition_request \<Rightarrow> authority_event" where
  "transition_event event_id head rq =
     \<lparr>ae_id = event_id, ae_channel_id = as_channel_id head,
      ae_previous_authority = Some (as_authority head), ae_new_authority = rq_new_authority rq,
      ae_expected_head_version = rq_expected_head_version rq,
      ae_predecessor_event_id = Some (as_event_id head),
      ae_actor_user_id = Some (rq_user_id rq), ae_actor_reference = rq_username rq,
      ae_reason = py_strip (rq_reason rq), ae_correlation_id = rq_correlation_id rq\<rparr>"

definition swap_head :: "string \<Rightarrow> instant \<Rightarrow> transition_request \<Rightarrow> authority_head \<Rightarrow> authority_head" where
  "swap_head event_id now rq h =
     h\<lparr>ah_current_authority := rq_new_authority rq, ah_effective_event_id := event_id,
       ah_head_version := rq_expected_head_version rq + 1, ah_updated_at := now\<rparr>"

definition transition_write ::
  "string \<Rightarrow> instant \<Rightarrow> authority_snapshot \<Rightarrow> transition_request \<Rightarrow> authority_db
     \<Rightarrow> authority_error + authority_db" where
  "transition_write event_id now head rq db =
     (let hit = (\<lambda>h. ah_channel_id h = as_channel_id head \<and>
                     ah_head_version h = rq_expected_head_version rq)
      in if length (filter hit (authority_heads db)) \<noteq> 1 then Inl Head_conflict
         else Inr (db\<lparr>authority_events := authority_events db @ [transition_event event_id head rq],
                      authority_heads := map (\<lambda>h. if hit h then swap_head event_id now rq h else h)
                        (authority_heads db)\<rparr>))"

definition transition ::
  "string \<Rightarrow> string \<Rightarrow> instant \<Rightarrow> string \<Rightarrow> transition_request \<Rightarrow> authority_db
     \<Rightarrow> authority_error + (authority_snapshot \<times> authority_db)" where
  "transition seed_id event_id now c rq db =
     rbind (ensure_channel_head seed_id ''system:channel-seed'' [] now db c) (\<lambda>(head, db1).
     rbind (transition_check head rq) (\<lambda>_.
     rbind (transition_write event_id now head rq db1) (\<lambda>db2.
       snapshot seed_id now db2 c)))"

text \<open>
  The check before a price write. Reading the head can create it, and the caller catches the
  failure, so the database is returned in every case.
\<close>

definition authorization_issue ::
  "authority_snapshot \<Rightarrow> pricing_origin option \<Rightarrow> string option \<Rightarrow> int option \<Rightarrow> authority_error option" where
  "authorization_issue head origin expected_event_id expected_head_version = (case origin of
     None \<Rightarrow> Some Origin_not_authorized
   | Some orig \<Rightarrow>
       if (case expected_event_id of Some e \<Rightarrow> e \<noteq> as_event_id head | None \<Rightarrow> False)
       then Some Authority_conflict
       else if (case expected_head_version of Some v \<Rightarrow> v \<noteq> int (as_head_version head) | None \<Rightarrow> False)
       then Some Authority_conflict
       else if as_authority head = A_MIGRATION_LOCKED then Some Authority_locked
       else if origin_value orig \<noteq> authority_value (as_authority head)
       then Some Origin_not_authorized else None)"

definition assert_write_authorized ::
  "string \<Rightarrow> instant \<Rightarrow> string \<Rightarrow> pricing_origin option \<Rightarrow> string option \<Rightarrow> int option \<Rightarrow> authority_db
     \<Rightarrow> (authority_error + authority_snapshot) \<times> authority_db" where
  "assert_write_authorized seed_id now c origin expected_event_id expected_head_version db =
     (case snapshot seed_id now db c of
        Inl e \<Rightarrow> (Inl e, db)
      | Inr (head, db1) \<Rightarrow>
          (case authorization_issue head origin expected_event_id expected_head_version of
             Some e \<Rightarrow> Inl e | None \<Rightarrow> Inr head, db1))"

definition record_write_rejection ::
  "string \<Rightarrow> string \<Rightarrow> string \<Rightarrow> pricing_origin option \<Rightarrow> string option \<Rightarrow> int option \<Rightarrow> string \<Rightarrow> string
     \<Rightarrow> authority_db \<Rightarrow> authority_db" where
  "record_write_rejection c listing operation origin expected_event_id expected_head_version
       reason_code correlation_id db =
     (let h = head_of db c in
      db\<lparr>write_rejections := write_rejections db @
          [\<lparr>wr_channel_id = c, wr_listing_id = listing, wr_operation_id = operation,
            wr_pricing_origin = origin, wr_current_authority = map_option ah_current_authority h,
            wr_current_event_id = map_option ah_effective_event_id h,
            wr_current_head_version = map_option ah_head_version h,
            wr_expected_event_id = expected_event_id,
            wr_expected_head_version = expected_head_version, wr_reason_code = reason_code,
            wr_correlation_id = correlation_id\<rparr>]\<rparr>)"

section \<open>The event chain\<close>

text \<open>
  A Channel's events in the order they were committed. The first seeds the legacy engine, each
  further one is an allowed transition out of its predecessor.
\<close>

definition events_of :: "authority_db \<Rightarrow> string \<Rightarrow> authority_event list" where
  "events_of db c = filter (\<lambda>e. ae_channel_id e = c) (authority_events db)"

fun follows :: "authority_event option \<Rightarrow> nat \<Rightarrow> authority_event \<Rightarrow> bool" where
  "follows None v e \<longleftrightarrow> v = 0 \<and> ae_expected_head_version e = 0 \<and> ae_previous_authority e = None \<and>
     ae_predecessor_event_id e = None \<and> ae_new_authority e = A_LEGACY_FORMULA_ENGINE"
| "follows (Some p) v e \<longleftrightarrow> ae_expected_head_version e + 1 = v \<and>
     ae_previous_authority e = Some (ae_new_authority p) \<and>
     ae_predecessor_event_id e = Some (ae_id p) \<and>
     ae_new_authority e \<in> set (allowed_transitions (ae_new_authority p))"

definition chain_ok :: "authority_event list \<Rightarrow> bool" where
  "chain_ok es \<longleftrightarrow> (\<forall>i < length es. follows (if i = 0 then None else Some (es ! (i - 1))) i (es ! i))"

definition head_matches :: "authority_event list \<Rightarrow> authority_head option \<Rightarrow> bool" where
  "head_matches es h = (case h of
     None \<Rightarrow> es = []
   | Some h \<Rightarrow> es \<noteq> [] \<and> ah_current_authority h = ae_new_authority (last es) \<and>
       ah_effective_event_id h = ae_id (last es) \<and> ah_head_version h + 1 = length es)"

definition snapshot_valid :: "authority_db \<Rightarrow> authority_snapshot \<Rightarrow> bool" where
  "snapshot_valid db s \<longleftrightarrow> (let es = events_of db (as_channel_id s) in
     as_head_version s < length es \<and> as_authority s = ae_new_authority (es ! as_head_version s) \<and>
     as_event_id s = ae_id (es ! as_head_version s))"

definition authority_inv :: "authority_db \<Rightarrow> bool" where
  "authority_inv db \<longleftrightarrow> distinct (map ah_channel_id (authority_heads db)) \<and>
     (\<forall>c. chain_ok (events_of db c) \<and> head_matches (events_of db c) (head_of db c))"

lemma chain_ok_snoc:
  assumes "chain_ok es" and "follows (if es = [] then None else Some (last es)) (length es) e"
  shows "chain_ok (es @ [e])"
  unfolding chain_ok_def
proof (intro allI impI)
  fix i assume i: "i < length (es @ [e])"
  show "follows (if i = 0 then None else Some ((es @ [e]) ! (i - 1))) i ((es @ [e]) ! i)"
  proof (cases "i < length es")
    case True
    with assms(1) show ?thesis by (auto simp: chain_ok_def nth_append)
  next
    case False
    with i have "i = length es" by simp
    with assms(2) show ?thesis by (cases "es = []") (auto simp: nth_append last_conv_nth)
  qed
qed

lemma head_of_append:
  "head_of (db\<lparr>authority_heads := authority_heads db @ [h]\<rparr>) c =
     (case head_of db c of None \<Rightarrow> if ah_channel_id h = c then Some h else None | Some g \<Rightarrow> Some g)"
  by (auto simp: head_of_def get_row_append split: option.splits)

lemma head_of_None: "head_of db c = None \<Longrightarrow> c \<notin> ah_channel_id ` set (authority_heads db)"
  by (simp add: head_of_def get_row_None)

lemma authority_invD:
  "authority_inv db \<Longrightarrow> chain_ok (events_of db c)"
  "authority_inv db \<Longrightarrow> head_matches (events_of db c) (head_of db c)"
  by (simp_all add: authority_inv_def)

lemma snapshot_of_valid:
  "authority_inv db \<Longrightarrow> head_of db c = Some h \<Longrightarrow> snapshot_valid db (snapshot_of h)"
proof -
  assume inv: "authority_inv db" and h: "head_of db c = Some h"
  then have c: "ah_channel_id h = c" by (auto simp: head_of_def dest: get_row_Some)
  have m: "head_matches (events_of db c) (Some h)" using authority_invD(2)[OF inv, of c] h by simp
  then have "length (events_of db c) - 1 = ah_head_version h" by (auto simp: head_matches_def)
  with m show ?thesis
    by (auto simp: snapshot_valid_def snapshot_of_def Let_def c head_matches_def last_conv_nth)
qed

lemma seed_head_inv:
  assumes "authority_inv db" and "seed_head eid ar corr now db c = (s, db')"
  shows "authority_inv db' \<and> snapshot_valid db' s \<and> as_channel_id s = c \<and>
    (\<exists>h. head_of db' c = Some h \<and> snapshot_of h = s) \<and>
    (\<forall>d. \<exists>new. events_of db' d = events_of db d @ new)"
proof (cases "head_of db c")
  case (Some h)
  then have "ah_channel_id h = c" by (auto simp: head_of_def dest: get_row_Some)
  with Some assms snapshot_of_valid[OF assms(1) Some] show ?thesis
    by (auto simp: seed_head_def snapshot_of_def)
next
  case None
  with authority_invD(2)[OF assms(1), of c] have es: "events_of db c = []"
    by (simp add: head_matches_def)
  obtain ev h where db': "db' = db\<lparr>authority_events := authority_events db @ [ev],
        authority_heads := authority_heads db @ [h]\<rparr>" and s: "s = snapshot_of h"
    and ev: "ae_channel_id ev = c" "follows None 0 ev"
    and h: "ah_channel_id h = c" "ah_current_authority h = ae_new_authority ev"
      "ah_effective_event_id h = ae_id ev" "ah_head_version h = 0"
    using assms(2) None by (auto simp: seed_head_def Let_def)
  have events: "events_of db' d = events_of db d @ (if d = c then [ev] else [])" for d
    by (simp add: events_of_def db' ev(1))
  have heads: "head_of db' d = (if d = c then Some h else head_of db d)" for d
    using None h(1) head_of_append[of db h d] by (auto simp: db' head_of_def split: option.splits)
  have "authority_inv db'"
    unfolding authority_inv_def
  proof (intro conjI allI)
    show "distinct (map ah_channel_id (authority_heads db'))"
      using assms(1) head_of_None[OF None] h(1) by (auto simp: db' authority_inv_def)
    fix d
    show "chain_ok (events_of db' d)"
      using authority_invD(1)[OF assms(1), of d] chain_ok_snoc[of "[]" ev] ev(2) es
      by (cases "d = c") (simp_all add: events)
    show "head_matches (events_of db' d) (head_of db' d)"
      using authority_invD(2)[OF assms(1), of d] es h
      by (cases "d = c") (simp_all add: events heads head_matches_def)
  qed
  with events heads s es h show ?thesis
    by (auto simp: snapshot_valid_def snapshot_of_def Let_def)
qed

lemma ensure_channel_head_inv:
  assumes "authority_inv db" and "ensure_channel_head eid ar corr now db c = Inr (s, db')"
  shows "authority_inv db' \<and> snapshot_valid db' s \<and> as_channel_id s = c \<and>
    (\<exists>h. head_of db' c = Some h \<and> snapshot_of h = s) \<and>
    (\<forall>d. \<exists>new. events_of db' d = events_of db d @ new)"
proof (cases "head_of db c")
  case (Some h)
  with assms(2) have "seed_head eid ar corr now db c = (s, db')"
    by (simp add: ensure_channel_head_def seed_head_def)
  with seed_head_inv[OF assms(1)] show ?thesis by blast
next
  case None
  with assms(2) have "seed_head eid ar corr now db c = (s, db')"
    by (auto simp: ensure_channel_head_def split: if_splits)
  with seed_head_inv[OF assms(1)] show ?thesis by blast
qed

text \<open>A compare-and-swap against a snapshot that was valid when it was taken.\<close>

lemma heads_hit:
  assumes "distinct (map ah_channel_id hs)"
  shows "length (filter (\<lambda>h. ah_channel_id h = c \<and> P h) hs) = 1 \<longleftrightarrow>
    (\<exists>h. get_row ah_channel_id c hs = Some h \<and> P h)"
  using assms
proof (induction hs)
  case Nil
  then show ?case by (simp add: get_row_def)
next
  case (Cons h hs)
  show ?case
  proof (cases "ah_channel_id h = c")
    case True
    with Cons.prems have "filter (\<lambda>h. ah_channel_id h = c \<and> P h) hs = []"
      by (auto simp: filter_empty_conv image_iff)
    with True show ?thesis by (simp add: get_row_def)
  next
    case False
    with Cons show ?thesis by (simp add: get_row_def)
  qed
qed

lemma snapshot_valid_mono:
  "snapshot_valid db s \<Longrightarrow> \<forall>d. \<exists>new. events_of db' d = events_of db d @ new \<Longrightarrow> snapshot_valid db' s"
proof -
  assume v: "snapshot_valid db s" and "\<forall>d. \<exists>new. events_of db' d = events_of db d @ new"
  then obtain new where "events_of db' (as_channel_id s) = events_of db (as_channel_id s) @ new"
    by blast
  with v show ?thesis by (auto simp: snapshot_valid_def Let_def nth_append)
qed

text \<open>
  When the swap goes through, the snapshot is still the head: versions only grow, so an unchanged
  version means an unchanged head, however long ago the snapshot was taken.
\<close>

lemma transition_write_current:
  assumes inv: "authority_inv db" and v: "snapshot_valid db s"
    and chk: "transition_check s rq = Inr ()" and w: "transition_write eid now s rq db = Inr db'"
  shows "\<exists>h. head_of db (as_channel_id s) = Some h \<and> snapshot_of h = s"
proof -
  let ?c = "as_channel_id s"
  from w have hit: "length (filter (\<lambda>h. ah_channel_id h = ?c \<and>
      ah_head_version h = rq_expected_head_version rq) (authority_heads db)) = 1"
    by (auto simp: transition_write_def Let_def split: if_splits)
  from inv have "distinct (map ah_channel_id (authority_heads db))" by (simp add: authority_inv_def)
  from iffD1[OF heads_hit[OF this] hit] obtain h where h: "head_of db ?c = Some h"
    and ver: "ah_head_version h = rq_expected_head_version rq"
    by (auto simp: head_of_def)
  from chk have vs: "as_head_version s = ah_head_version h"
    by (auto simp: transition_check_def ver split: if_splits)
  have m: "head_matches (events_of db ?c) (Some h)"
    using authority_invD(2)[OF inv, of ?c] h by simp
  then have len: "length (events_of db ?c) - 1 = ah_head_version h" by (auto simp: head_matches_def)
  have "as_authority s = ah_current_authority h" "as_event_id s = ah_effective_event_id h"
    using m v vs len
    by (simp_all add: snapshot_valid_def Let_def head_matches_def last_conv_nth)
  moreover have "ah_channel_id h = ?c" using h by (auto simp: head_of_def dest: get_row_Some)
  ultimately have "snapshot_of h = s" using vs by (cases s) (simp add: snapshot_of_def)
  with h show ?thesis by blast
qed

lemma transition_write_inv:
  assumes inv: "authority_inv db" and v: "snapshot_valid db s"
    and chk: "transition_check s rq = Inr ()" and w: "transition_write eid now s rq db = Inr db'"
  shows "authority_inv db' \<and>
    (\<forall>d. \<exists>new. events_of db' d = events_of db d @ new \<and> (new \<noteq> [] \<longrightarrow> d = as_channel_id s))"
proof -
  let ?c = "as_channel_id s"
  from transition_write_current[OF assms] obtain h where h: "head_of db ?c = Some h"
    and s: "snapshot_of h = s" by blast
  have allowed: "rq_new_authority rq \<in> set (allowed_transitions (ah_current_authority h))"
    and ver: "rq_expected_head_version rq = ah_head_version h"
    using chk s by (auto simp: transition_check_def snapshot_of_def split: if_splits)
  have m: "head_matches (events_of db ?c) (Some h)"
    using authority_invD(2)[OF inv, of ?c] h by simp
  define ev where "ev = transition_event eid s rq"
  have ev: "ae_channel_id ev = ?c" "ae_id ev = eid" "ae_new_authority ev = rq_new_authority rq"
      "ae_expected_head_version ev = ah_head_version h"
      "ae_previous_authority ev = Some (ah_current_authority h)"
      "ae_predecessor_event_id ev = Some (ah_effective_event_id h)"
    using s ver by (auto simp: ev_def transition_event_def snapshot_of_def)
  have evs: "authority_events db' = authority_events db @ [ev]"
    and heads: "authority_heads db' = map (\<lambda>g. if ah_channel_id g = ?c \<and>
        ah_head_version g = ah_head_version h then swap_head eid now rq g else g) (authority_heads db)"
    using w by (auto simp: transition_write_def Let_def ver ev_def split: if_splits)
  have events: "events_of db' d = events_of db d @ (if d = ?c then [ev] else [])" for d
    by (simp add: events_of_def evs ev(1))
  have keys: "map ah_channel_id (authority_heads db') = map ah_channel_id (authority_heads db)"
    by (simp add: heads swap_head_def)
  have look: "head_of db' d = (if d = ?c then Some (swap_head eid now rq h) else head_of db d)" for d
  proof -
    have "get_row ah_channel_id d (map (\<lambda>g. if ah_channel_id g = c \<and> ah_head_version g = n
        then swap_head e t q g else g) hs) =
      map_option (\<lambda>g. if ah_channel_id g = c \<and> ah_head_version g = n then swap_head e t q g else g)
        (get_row ah_channel_id d hs)" for c n e t q hs
      unfolding get_row_def by (induction hs) (auto simp: swap_head_def)
    moreover have "ah_channel_id g = d" if "get_row ah_channel_id d (authority_heads db) = Some g" for g
      using get_row_Some[OF that] by simp
    ultimately show ?thesis using h
      by (cases "get_row ah_channel_id d (authority_heads db)") (auto simp: head_of_def heads)
  qed
  have "authority_inv db'"
    unfolding authority_inv_def
  proof (intro conjI allI)
    show "distinct (map ah_channel_id (authority_heads db'))"
      using inv by (simp add: keys authority_inv_def)
    fix d
    show "chain_ok (events_of db' d)"
      using authority_invD(1)[OF inv, of d] chain_ok_snoc[of "events_of db ?c" ev] ev m allowed
      by (cases "d = ?c") (auto simp: events head_matches_def)
    show "head_matches (events_of db' d) (head_of db' d)"
      using authority_invD(2)[OF inv, of d] ev m
      by (cases "d = ?c") (auto simp: events look head_matches_def swap_head_def ver)
  qed
  then show ?thesis using events by auto
qed

section \<open>Interleaved transactions\<close>

text \<open>
  The shared database with the transactions that have read and checked a head and have not yet
  swapped it. A read head stays pending for any number of other steps, so a swap can be arbitrarily
  stale. A pending entry that is never swapped is a rolled back transaction.
\<close>

type_synonym authority_state = "authority_db \<times> (authority_snapshot \<times> transition_request) list"

inductive authority_step :: "authority_state \<Rightarrow> authority_state \<Rightarrow> bool" where
  add_channel: "authority_step (db, ps) (db\<lparr>channels := channels db @ [c]\<rparr>, ps)"
| read_head: "ensure_channel_head seed_id actor corr now db c = Inr (s, db') \<Longrightarrow>
    transition_check s rq = Inr () \<Longrightarrow> authority_step (db, ps) (db', (s, rq) # ps)"
| write_head: "(s, rq) \<in> set ps \<Longrightarrow> transition_write event_id now s rq db = Inr db' \<Longrightarrow>
    authority_step (db, ps) (db', ps)"
| check_write: "assert_write_authorized seed_id now c origin exp_event exp_version db = (r, db') \<Longrightarrow>
    authority_step (db, ps) (db', ps)"
| reject_write: "authority_step (db, ps)
    (record_write_rejection c listing operation origin exp_event exp_version code corr db, ps)"

inductive_cases authority_stepE: "authority_step (db, ps) st"

definition authority_init :: "authority_state \<Rightarrow> bool" where
  "authority_init st \<longleftrightarrow> authority_events (fst st) = [] \<and> authority_heads (fst st) = [] \<and> snd st = []"

definition pending_ok :: "authority_state \<Rightarrow> bool" where
  "pending_ok st \<longleftrightarrow> authority_inv (fst st) \<and>
     (\<forall>(s, rq) \<in> set (snd st). snapshot_valid (fst st) s \<and> transition_check s rq = Inr ())"

lemma pending_ok_mono:
  assumes "pending_ok (db, ps)" and "authority_inv db'"
    and "\<forall>d. \<exists>new. events_of db' d = events_of db d @ new"
  shows "pending_ok (db', ps)"
proof -
  have "snapshot_valid db' s \<and> transition_check s rq = Inr ()" if "(s, rq) \<in> set ps" for s rq
    using that assms(1) snapshot_valid_mono[OF _ assms(3), of s] by (auto simp: pending_ok_def)
  with assms(2) show ?thesis by (auto simp: pending_ok_def)
qed

lemma assert_write_inv:
  assumes "authority_inv db"
    and "assert_write_authorized seed_id now c origin exp_event exp_version db = (r, db')"
  shows "authority_inv db' \<and> (\<forall>d. \<exists>new. events_of db' d = events_of db d @ new) \<and>
    (\<forall>s. r = Inr s \<longrightarrow> (\<exists>h. head_of db' c = Some h \<and> snapshot_of h = s) \<and>
       authorization_issue s origin exp_event exp_version = None)"
proof (cases "snapshot seed_id now db c")
  case (Inl e)
  with assms show ?thesis by (auto simp: assert_write_authorized_def)
next
  case (Inr p)
  then obtain s db1 where p: "ensure_channel_head seed_id ''system:channel-seed'' [] now db c = Inr (s, db1)"
    by (cases p) (auto simp: snapshot_def)
  with assms(2) Inr have eq: "db' = db1" "r = (case authorization_issue s origin exp_event exp_version of
      Some e \<Rightarrow> Inl e | None \<Rightarrow> Inr s)"
    by (simp_all add: assert_write_authorized_def snapshot_def)
  from ensure_channel_head_inv[OF assms(1) p] eq show ?thesis
    by (auto split: option.splits)
qed

lemma authority_inv_irrelevant:
  "authority_events db' = authority_events db \<Longrightarrow> authority_heads db' = authority_heads db \<Longrightarrow>
    authority_inv db \<Longrightarrow> authority_inv db' \<and> (\<forall>d. \<exists>new. events_of db' d = events_of db d @ new)"
  by (simp add: authority_inv_def events_of_def head_of_def)

lemma pending_ok_step: "pending_ok st \<Longrightarrow> authority_step st st' \<Longrightarrow> pending_ok st'"
proof (cases st)
  fix db ps assume ok: "pending_ok st" and step: "authority_step st st'" and st: "st = (db, ps)"
  have inv: "authority_inv db" and okp: "pending_ok (db, ps)"
    using ok st by (simp_all add: pending_ok_def)
  from step[unfolded st] show ?thesis
  proof (cases rule: authority_stepE[consumes 1, case_names add_channel read_head write_head check_write reject_write])
    case (add_channel c)
    have "authority_inv (db\<lparr>channels := channels db @ [c]\<rparr>) \<and>
        (\<forall>d. \<exists>new. events_of (db\<lparr>channels := channels db @ [c]\<rparr>) d = events_of db d @ new)"
      by (rule authority_inv_irrelevant[OF _ _ inv]) simp_all
    with add_channel pending_ok_mono[OF okp] show ?thesis by blast
  next
    case (read_head sid actor corr now c s db' rq)
    from ensure_channel_head_inv[OF inv read_head(2)]
    have "authority_inv db'" "snapshot_valid db' s" "\<forall>d. \<exists>new. events_of db' d = events_of db d @ new"
      by blast+
    with pending_ok_mono[OF okp, of db'] read_head(1,3) show ?thesis
      by (simp add: pending_ok_def)
  next
    case (write_head s rq eid now db')
    from okp write_head(2) have "snapshot_valid db s" "transition_check s rq = Inr ()"
      by (auto simp: pending_ok_def)
    from transition_write_inv[OF inv this write_head(3)]
    have "authority_inv db'" "\<forall>d. \<exists>new. events_of db' d = events_of db d @ new" by blast+
    with pending_ok_mono[OF okp] write_head(1) show ?thesis by simp
  next
    case (check_write sid now c origin ee ev r db')
    from assert_write_inv[OF inv check_write(2)] pending_ok_mono[OF okp] check_write(1)
    show ?thesis by simp
  next
    case (reject_write c listing operation origin ee ev code corr)
    let ?db = "record_write_rejection c listing operation origin ee ev code corr db"
    have "authority_inv ?db \<and> (\<forall>d. \<exists>new. events_of ?db d = events_of db d @ new)"
      by (rule authority_inv_irrelevant[OF _ _ inv]) (simp_all add: record_write_rejection_def Let_def)
    with reject_write pending_ok_mono[OF okp] show ?thesis by blast
  qed
qed

lemma pending_ok_init: "authority_init st \<Longrightarrow> pending_ok st"
  by (cases st) (simp add: authority_init_def pending_ok_def authority_inv_def events_of_def
    head_of_def get_row_def chain_ok_def head_matches_def)

lemma authority_step_extends:
  assumes "pending_ok st" and "authority_step st st'"
  shows "\<exists>new. events_of (fst st') d = events_of (fst st) d @ new"
proof -
  obtain db ps where st: "st = (db, ps)" by (cases st)
  have inv: "authority_inv db" using assms(1) by (simp add: pending_ok_def st)
  from assms(2)[unfolded st] show ?thesis
  proof (cases rule: authority_stepE[consumes 1, case_names add_channel read_head write_head check_write reject_write])
    case (add_channel c)
    then show ?thesis by (simp add: events_of_def st)
  next
    case (read_head sid actor corr now c s db' rq)
    from ensure_channel_head_inv[OF inv read_head(2)] read_head(1) st show ?thesis by simp
  next
    case (write_head s rq eid now db')
    from assms(1) write_head(2) have "snapshot_valid db s" "transition_check s rq = Inr ()"
      by (auto simp: pending_ok_def st)
    from transition_write_inv[OF inv this write_head(3)] write_head(1) st show ?thesis
      by (metis fst_conv)
  next
    case (check_write sid now c origin ee ev r db')
    from assert_write_inv[OF inv check_write(2)] check_write(1) st show ?thesis by simp
  next
    case (reject_write c listing operation origin ee ev code corr)
    then show ?thesis by (simp add: st events_of_def record_write_rejection_def Let_def)
  qed
qed

lemma authority_steps_extend:
  "steps authority_step st st' \<Longrightarrow> pending_ok st \<Longrightarrow>
     pending_ok st' \<and> (\<exists>new. events_of (fst st') d = events_of (fst st) d @ new)"
proof (induction rule: steps.induct)
  case (steps_refl s)
  then show ?case by simp
next
  case (steps_more s t u)
  then show ?case using pending_ok_step[of t u] authority_step_extends[of t u d] by fastforce
qed

interpretation authority: invariant_system authority_init authority_step pending_ok
  by unfold_locales (auto intro: pending_ok_init pending_ok_step)

section \<open>Properties\<close>

text \<open>C32: in every state that interleaved seeds, reads, arbitrarily stale compare-and-swaps, write
  checks and rejections can reach, a Channel's events are an unbroken chain of allowed transitions
  and its head is exactly the last event, its version the number of transitions so far.\<close>

theorem authority_audit_chain:
  assumes "reach authority_init authority_step (db, ps)"
  shows "chain_ok (events_of db c) \<and> head_matches (events_of db c) (head_of db c)"
  using authority.reach_inv[OF assms] by (simp add: pending_ok_def authority_inv_def)

text \<open>The first head of a new Channel, read for a lock and swapped.\<close>

definition demo_lock :: transition_request where
  "demo_lock = \<lparr>rq_new_authority = A_MIGRATION_LOCKED, rq_expected_head_version = 0,
     rq_reason = ''cutover'', rq_user_id = 1, rq_username = ''ops'', rq_correlation_id = ''r1''\<rparr>"

definition demo_db :: authority_db where
  "demo_db = \<lparr>channels = [''ch''], authority_events = [], authority_heads = [], write_rejections = []\<rparr>"

definition demo_seeded :: authority_db where
  "demo_seeded = snd (projr (snapshot ''e0'' 0 demo_db ''ch''))"

definition demo_locked :: authority_db where
  "demo_locked = snd (projr (transition ''e0'' ''e1'' 5 ''ch'' demo_lock demo_db))"

lemma demo_locked_reach:
  "reach authority_init authority_step
     (demo_locked, [(fst (projr (snapshot ''e0'' 0 demo_db ''ch'')), demo_lock)])"
proof (rule reach_step[OF reach_step[OF reach_init]])
  show "authority_init (demo_db, [])" by (simp add: authority_init_def demo_db_def)
  show "authority_step (demo_db, []) (demo_seeded,
      [(fst (projr (snapshot ''e0'' 0 demo_db ''ch'')), demo_lock)])"
    by (rule read_head[where seed_id = "''e0''" and actor = "''system:channel-seed''" and corr = "[]"
          and now = 0 and c = "''ch''"]) code_simp+
  show "authority_step (demo_seeded, [(fst (projr (snapshot ''e0'' 0 demo_db ''ch'')), demo_lock)])
      (demo_locked, [(fst (projr (snapshot ''e0'' 0 demo_db ''ch'')), demo_lock)])"
    by (rule write_head[where event_id = "''e1''" and now = 5
          and s = "fst (projr (snapshot ''e0'' 0 demo_db ''ch''))" and rq = demo_lock]) code_simp+
qed

theorem authority_audit_chain_witness:
  "head_matches (events_of demo_locked ''ch'') (head_of demo_locked ''ch'') \<and>
   length (events_of demo_locked ''ch'') = 2"
proof -
  have "length (events_of demo_locked ''ch'') = 2" by code_simp
  then show ?thesis using authority_audit_chain[OF demo_locked_reach, of "''ch''"] by blast
qed

text \<open>no lost update. Once a compare-and-swap has committed, any other one that was
  prepared against the same head version of that Channel fails with a head conflict, whatever
  authority it asked for.\<close>

theorem authority_no_lost_update:
  assumes "authority_inv db"
    and "transition_write e1 n1 s1 r1 db = Inr db'"
    and "as_channel_id s2 = as_channel_id s1"
    and "rq_expected_head_version r2 = rq_expected_head_version r1"
  shows "transition_write e2 n2 s2 r2 db' = Inl Head_conflict"
proof -
  have "filter (\<lambda>h. ah_channel_id h = as_channel_id s2 \<and>
      ah_head_version h = rq_expected_head_version r2) (authority_heads db') = []"
    using assms(2,3,4)
    by (auto simp: transition_write_def Let_def swap_head_def filter_empty_conv split: if_splits)
  then show ?thesis by (simp add: transition_write_def Let_def)
qed

definition demo_snapshot :: authority_snapshot where
  "demo_snapshot = fst (projr (snapshot ''e0'' 0 demo_db ''ch''))"

lemma demo_seeded_inv: "authority_inv demo_seeded"
proof -
  have "snapshot ''e0'' 0 demo_db ''ch'' = Inr (demo_snapshot, demo_seeded)" by code_simp
  moreover have "authority_inv demo_db"
    using pending_ok_init[of "(demo_db, [])"]
    by (simp add: authority_init_def demo_db_def pending_ok_def)
  ultimately show ?thesis using ensure_channel_head_inv by (fastforce simp: snapshot_def)
qed

theorem authority_no_lost_update_witness:
  "transition_write ''e2'' 6 demo_snapshot demo_lock demo_locked = Inl Head_conflict"
proof (rule authority_no_lost_update[OF demo_seeded_inv])
  show "transition_write ''e1'' 5 demo_snapshot demo_lock demo_seeded = Inr demo_locked" by code_simp
qed simp_all

text \<open>C33: a price write that passes the check writes under the engine that owns the Channel. The
  Channel is not locked, the declared origin is the head's authority, and any event or version the
  caller was bound to is the head's own. A write bound to a version is moreover let through only
  while no authority event has been added since that version was read.\<close>

theorem authorized_write_is_current:
  assumes "reach authority_init authority_step st" and "head_of (fst st) c = Some h"
    and "steps authority_step st (db, ps)"
    and "assert_write_authorized sid now c origin expected_event (Some (int (ah_head_version h))) db
           = (Inr s, db')"
  shows "events_of db' c = events_of (fst st) c \<and> s = snapshot_of (the (head_of db' c)) \<and>
    as_authority s = ah_current_authority h \<and> as_authority s \<noteq> A_MIGRATION_LOCKED \<and>
    map_option origin_value origin = Some (authority_value (as_authority s)) \<and>
    (expected_event = None \<or> expected_event = Some (as_event_id s))"
proof -
  have ok: "pending_ok st" by (rule authority.reach_inv[OF assms(1)])
  from authority_steps_extend[OF assms(3) ok, of c] obtain new where
    ok': "authority_inv db" and new: "events_of db c = events_of (fst st) c @ new"
    by (auto simp: pending_ok_def)
  from assert_write_inv[OF ok' assms(4)] obtain new' h' where inv': "authority_inv db'"
    and new': "events_of db' c = events_of db c @ new'" and h': "head_of db' c = Some h'"
    and s: "snapshot_of h' = s"
    and auth: "authorization_issue s origin expected_event (Some (int (ah_head_version h))) = None"
    by blast
  have ver: "ah_head_version h' = ah_head_version h"
    and rest: "as_authority s \<noteq> A_MIGRATION_LOCKED"
      "map_option origin_value origin = Some (authority_value (as_authority s))"
      "expected_event = None \<or> expected_event = Some (as_event_id s)"
    using auth s
    by (auto simp: authorization_issue_def snapshot_of_def split: option.splits if_splits)
  have m: "head_matches (events_of (fst st) c) (Some h)" "head_matches (events_of db' c) (Some h')"
    using ok assms(2) authority_invD(2)[of "fst st" c] authority_invD(2)[OF inv', of c] h'
    by (simp_all add: pending_ok_def)
  then have "length (events_of db' c) = length (events_of (fst st) c)"
    using ver by (simp add: head_matches_def)
  with new new' have same: "events_of db' c = events_of (fst st) c" by simp
  with m have "ah_current_authority h' = ah_current_authority h" by (simp add: head_matches_def)
  then have "as_authority s = ah_current_authority h"
    using s by (auto simp: snapshot_of_def)
  with same rest h' s show ?thesis by simp
qed

theorem authorized_write_is_current_witness:
  "as_authority demo_snapshot \<noteq> A_MIGRATION_LOCKED"
proof -
  have r: "reach authority_init authority_step (demo_seeded, [(demo_snapshot, demo_lock)])"
  proof (rule reach_step[OF reach_init])
    show "authority_init (demo_db, [])" by (simp add: authority_init_def demo_db_def)
    show "authority_step (demo_db, []) (demo_seeded, [(demo_snapshot, demo_lock)])"
      by (rule read_head[where seed_id = "''e0''" and actor = "''system:channel-seed''" and corr = "[]"
            and now = 0 and c = "''ch''"]) code_simp+
  qed
  have h: "head_of (fst (demo_seeded, [(demo_snapshot, demo_lock)])) ''ch'' = Some (hd (authority_heads demo_seeded))"
    by code_simp
  have w: "assert_write_authorized ''e9'' 7 ''ch'' (Some O_LEGACY_FORMULA_ENGINE) None
      (Some (int (ah_head_version (hd (authority_heads demo_seeded))))) demo_seeded
      = (Inr demo_snapshot, demo_seeded)"
    by code_simp
  from authorized_write_is_current[OF r h steps_refl w] show ?thesis by blast
qed

text \<open>the Pricing Matrix takes over only out of a lock: in the audit chain of a reachable
  state every event that grants a pricing engine, other than the seed, directly follows a lock, and
  the two engines never hand over to each other directly.\<close>

theorem authority_handover_locked:
  assumes "reach authority_init authority_step (db, ps)" and "Suc i < length (events_of db c)"
    and "ae_new_authority (events_of db c ! Suc i) \<noteq> A_MIGRATION_LOCKED"
  shows "ae_new_authority (events_of db c ! i) = A_MIGRATION_LOCKED \<and>
    ae_previous_authority (events_of db c ! Suc i) = Some A_MIGRATION_LOCKED"
proof -
  have "chain_ok (events_of db c)"
    using authority.reach_inv[OF assms(1)] by (simp add: pending_ok_def authority_inv_def)
  with assms(2) have "follows (Some (events_of db c ! i)) (Suc i) (events_of db c ! Suc i)"
    by (auto simp: chain_ok_def dest: spec[of _ "Suc i"])
  with assms(3) show ?thesis by (cases "ae_new_authority (events_of db c ! i)") auto
qed

definition demo_open :: transition_request where
  "demo_open = demo_lock\<lparr>rq_new_authority := A_PRICING_MATRIX, rq_expected_head_version := 1\<rparr>"

definition demo_matrix :: authority_db where
  "demo_matrix = snd (projr (transition ''e9'' ''e2'' 6 ''ch'' demo_open demo_locked))"

theorem authority_handover_locked_witness:
  "ae_new_authority (events_of demo_matrix ''ch'' ! 1) = A_MIGRATION_LOCKED"
proof -
  let ?p = "(fst (projr (snapshot ''e0'' 0 demo_db ''ch'')), demo_lock)"
  let ?s = "fst (projr (snapshot ''e9'' 6 demo_locked ''ch''))"
  have a: "authority_step (demo_locked, [?p]) (demo_locked, [(?s, demo_open), ?p])"
    by (rule read_head[where seed_id = "''e9''" and actor = "''system:channel-seed''" and corr = "[]"
          and now = 6 and c = "''ch''"]) code_simp+
  have b: "authority_step (demo_locked, [(?s, demo_open), ?p]) (demo_matrix, [(?s, demo_open), ?p])"
    by (rule write_head[where event_id = "''e2''" and now = 6 and s = ?s and rq = demo_open]) code_simp+
  from demo_locked_reach a have "reach authority_init authority_step (demo_locked, [(?s, demo_open), ?p])"
    by (rule reach_step)
  from this b have r: "reach authority_init authority_step (demo_matrix, [(?s, demo_open), ?p])"
    by (rule reach_step)
  have "Suc 1 < length (events_of demo_matrix ''ch'')"
    "ae_new_authority (events_of demo_matrix ''ch'' ! Suc 1) \<noteq> A_MIGRATION_LOCKED"
    by code_simp+
  from authority_handover_locked[OF r this] show ?thesis by simp
qed

end
