(* ===== verification/WriteContracts.thy ===== *)
theory WriteContracts
  imports Json PricingAuthority
begin

text \<open>
  Provider-neutral write commands and outcomes
  (\<^verbatim>\<open>app/flowhub/write_pipeline/workspace_contracts.py\<close>): the outcome states, the immutable intent,
  the batch command, the result, and the persisted form of an intent, from which recovery rebuilds it.
\<close>

section \<open>Outcomes, intents, commands, results\<close>

datatype write_outcome = W_PENDING | W_DISPATCH_INTENT_RECORDED | W_DISPATCHED
  | W_PROVIDER_ACCEPTED | W_VERIFIED_APPLIED | W_FAILED | W_RECONCILIATION_REQUIRED | W_RECOVERING

fun outcome_value :: "write_outcome \<Rightarrow> string" where
  "outcome_value W_PENDING = ''pending''"
| "outcome_value W_DISPATCH_INTENT_RECORDED = ''dispatch_intent_recorded''"
| "outcome_value W_DISPATCHED = ''dispatched''"
| "outcome_value W_PROVIDER_ACCEPTED = ''provider_accepted''"
| "outcome_value W_VERIFIED_APPLIED = ''verified_applied''"
| "outcome_value W_FAILED = ''failed''"
| "outcome_value W_RECONCILIATION_REQUIRED = ''reconciliation_required''"
| "outcome_value W_RECOVERING = ''recovering''"

record workspace_write_intent =
  wi_apply_job_id :: string
  wi_apply_item_ids :: "string list"
  wi_workspace_id :: string
  wi_snapshot_id :: string
  wi_draft_revision_id :: string
  wi_review_id :: string
  wi_selection_checksum :: string
  wi_listing_id :: string
  wi_channel_id :: string
  wi_external_primary_id :: string
  wi_sku :: "string option"
  wi_product_type :: string
  wi_parent_external_id :: "string option"
  wi_current_price :: "rat option"
  wi_current_stock :: "rat option"
  wi_current_status :: "string option"
  wi_target_price :: "rat option"
  wi_target_stock :: "rat option"
  wi_target_status :: "string option"
  wi_currency :: "string option"
  wi_unit :: "string option"
  wi_mapping_version :: int
  wi_cache_version :: int
  wi_cache_checksum :: string
  wi_capability_version :: string
  wi_currency_digest :: string
  wi_idempotency_key :: string
  wi_payload_hash :: string
  wi_pricing_origin :: "pricing_origin option"
  wi_expected_pricing_authority :: "pricing_authority option"
  wi_pricing_authority_event_id :: "string option"
  wi_pricing_authority_head_version :: "int option"

record workspace_write_batch_command =
  wc_workspace_id :: string
  wc_snapshot_id :: string
  wc_draft_revision_id :: string
  wc_review_id :: string
  wc_selection_checksum :: string
  wc_correlation_id :: string
  wc_requested_by :: string
  wc_intents :: "workspace_write_intent list"
  wc_fencing_token :: "int option"
  wc_lease_token :: "string option"
  wc_source_workflow :: string
  wc_pricing_origin :: "pricing_origin option"

record workspace_write_result =
  wr_listing :: string
  wr_outcome :: write_outcome
  wr_provider_accepted :: bool
  wr_response :: json_dict
  wr_external_response_id :: "string option"
  wr_error_category :: "string option"
  wr_error_message :: "string option"
  wr_retry_eligible :: bool
  wr_accepted_price :: "rat option"
  wr_accepted_stock :: "rat option"
  wr_accepted_status :: "string option"

text \<open>A result with the dataclass defaults.\<close>

definition write_result :: "string \<Rightarrow> write_outcome \<Rightarrow> workspace_write_result" where
  "write_result listing outcome = \<lparr>wr_listing = listing, wr_outcome = outcome,
     wr_provider_accepted = False, wr_response = [], wr_external_response_id = None,
     wr_error_category = None, wr_error_message = None, wr_retry_eligible = False,
     wr_accepted_price = None, wr_accepted_stock = None, wr_accepted_status = None\<rparr>"

definition verified :: "workspace_write_result \<Rightarrow> bool" where
  "verified r \<longleftrightarrow> wr_outcome r = W_VERIFIED_APPLIED"

section \<open>The persisted payload\<close>

definition jstr_opt :: "string option \<Rightarrow> json" where
  "jstr_opt v = (case v of None \<Rightarrow> JNull | Some s \<Rightarrow> JStr s)"

definition jnum_opt :: "rat option \<Rightarrow> json" where
  "jnum_opt v = (case v of None \<Rightarrow> JNull | Some r \<Rightarrow> JNum r)"

definition jint_opt :: "int option \<Rightarrow> json" where
  "jint_opt v = (case v of None \<Rightarrow> JNull | Some i \<Rightarrow> JInt i)"

definition normalized_payload :: "workspace_write_intent \<Rightarrow> json_dict" where
  "normalized_payload i =
    [(''apply_job_id'', JStr (wi_apply_job_id i)),
     (''apply_item_ids'', JList (map JStr (wi_apply_item_ids i))),
     (''workspace_id'', JStr (wi_workspace_id i)),
     (''snapshot_id'', JStr (wi_snapshot_id i)),
     (''draft_revision_id'', JStr (wi_draft_revision_id i)),
     (''review_id'', JStr (wi_review_id i)),
     (''selection_checksum'', JStr (wi_selection_checksum i)),
     (''listing_id'', JStr (wi_listing_id i)),
     (''channel_id'', JStr (wi_channel_id i)),
     (''external_primary_id'', JStr (wi_external_primary_id i)),
     (''sku'', jstr_opt (wi_sku i)),
     (''product_type'', JStr (wi_product_type i)),
     (''parent_external_id'', jstr_opt (wi_parent_external_id i)),
     (''current_price'', jnum_opt (wi_current_price i)),
     (''current_stock'', jnum_opt (wi_current_stock i)),
     (''current_status'', jstr_opt (wi_current_status i)),
     (''target_price'', jnum_opt (wi_target_price i)),
     (''target_stock'', jnum_opt (wi_target_stock i)),
     (''target_status'', jstr_opt (wi_target_status i)),
     (''currency'', jstr_opt (wi_currency i)),
     (''unit'', jstr_opt (wi_unit i)),
     (''mapping_version'', JInt (wi_mapping_version i)),
     (''cache_version'', JInt (wi_cache_version i)),
     (''cache_checksum'', JStr (wi_cache_checksum i)),
     (''capability_version'', JStr (wi_capability_version i)),
     (''currency_digest'', JStr (wi_currency_digest i)),
     (''idempotency_key'', JStr (wi_idempotency_key i)),
     (''payload_hash'', JStr (wi_payload_hash i)),
     (''pricing_origin'', jstr_opt (map_option origin_value (wi_pricing_origin i))),
     (''expected_pricing_authority'',
        jstr_opt (map_option authority_value (wi_expected_pricing_authority i))),
     (''pricing_authority_event_id'', jstr_opt (wi_pricing_authority_event_id i)),
     (''pricing_authority_head_version'', jint_opt (wi_pricing_authority_head_version i))]"

definition required_keys :: "string list" where
  "required_keys = [''apply_job_id'', ''apply_item_ids'', ''workspace_id'', ''snapshot_id'',
     ''draft_revision_id'', ''review_id'', ''selection_checksum'', ''listing_id'', ''channel_id'',
     ''external_primary_id'', ''product_type'', ''mapping_version'', ''cache_version'',
     ''cache_checksum'', ''capability_version'', ''currency_digest'', ''idempotency_key'',
     ''payload_hash'']"

text \<open>Iterating over a JSON value: the elements of a list, the characters of a text, the keys of an object.\<close>

fun json_iter :: "json \<Rightarrow> py_error + json list" where
  "json_iter (JList xs) = Inr xs"
| "json_iter (JStr s) = Inr (map (\<lambda>c. JStr [c]) s)"
| "json_iter (JObj d) = Inr (map (JStr \<circ> fst) d)"
| "json_iter _ = Inl Type_error"

definition opt_str :: "py_runtime \<Rightarrow> json \<Rightarrow> string option" where
  "opt_str py v = (if v = JNull then None else Some (py_str py v))"

definition optional_float :: "py_runtime \<Rightarrow> json \<Rightarrow> py_error + rat option" where
  "optional_float py v = (if v = JNull then Inr None else rbind (py_float py v) (\<lambda>r. Inr (Some r)))"

definition opt_int :: "json \<Rightarrow> py_error + int option" where
  "opt_int v = (if v = JNull then Inr None else rbind (py_int v) (\<lambda>i. Inr (Some i)))"

definition read_origin :: "string \<Rightarrow> py_error + pricing_origin" where
  "read_origin s = (case List.find (\<lambda>o'. origin_value o' = s) [O_LEGACY_FORMULA_ENGINE, O_PRICING_MATRIX] of
     Some o' \<Rightarrow> Inr o' | None \<Rightarrow> Inl (Value_error s))"

definition read_authority :: "string \<Rightarrow> py_error + pricing_authority" where
  "read_authority s = (case List.find (\<lambda>a. authority_value a = s)
       [A_LEGACY_FORMULA_ENGINE, A_MIGRATION_LOCKED, A_PRICING_MATRIX] of
     Some a \<Rightarrow> Inr a | None \<Rightarrow> Inl (Value_error s))"

definition opt_enum :: "py_runtime \<Rightarrow> (string \<Rightarrow> py_error + 'a) \<Rightarrow> json \<Rightarrow> py_error + 'a option" where
  "opt_enum py read v = (if v = JNull then Inr None else rbind (read (py_str py v)) (\<lambda>x. Inr (Some x)))"

definition missing_keys :: "json_dict \<Rightarrow> string list" where
  "missing_keys p = sort (filter (\<lambda>k. k \<notin> fst ` set p) required_keys)"

definition from_persisted_payload :: "py_runtime \<Rightarrow> json_dict \<Rightarrow> py_error + workspace_write_intent" where
  "from_persisted_payload py p = (let str = (\<lambda>k. py_str py (jget k p)) in
     if missing_keys p \<noteq> [] then Inl (Value_error ''Immutable dispatch payload is incomplete'') else
     rbind (json_iter (jget ''apply_item_ids'' p)) (\<lambda>items.
     rbind (optional_float py (jget ''current_price'' p)) (\<lambda>current_price.
     rbind (optional_float py (jget ''current_stock'' p)) (\<lambda>current_stock.
     rbind (optional_float py (jget ''target_price'' p)) (\<lambda>target_price.
     rbind (optional_float py (jget ''target_stock'' p)) (\<lambda>target_stock.
     rbind (py_int (jget ''mapping_version'' p)) (\<lambda>mapping_version.
     rbind (py_int (jget ''cache_version'' p)) (\<lambda>cache_version.
     rbind (opt_enum py read_origin (jget ''pricing_origin'' p)) (\<lambda>origin.
     rbind (opt_enum py read_authority (jget ''expected_pricing_authority'' p)) (\<lambda>expected.
     rbind (opt_int (jget ''pricing_authority_head_version'' p)) (\<lambda>head_version.
     Inr \<lparr>wi_apply_job_id = str ''apply_job_id'', wi_apply_item_ids = map (py_str py) items,
       wi_workspace_id = str ''workspace_id'', wi_snapshot_id = str ''snapshot_id'',
       wi_draft_revision_id = str ''draft_revision_id'', wi_review_id = str ''review_id'',
       wi_selection_checksum = str ''selection_checksum'', wi_listing_id = str ''listing_id'',
       wi_channel_id = str ''channel_id'', wi_external_primary_id = str ''external_primary_id'',
       wi_sku = opt_str py (jget ''sku'' p), wi_product_type = str ''product_type'',
       wi_parent_external_id = opt_str py (jget ''parent_external_id'' p),
       wi_current_price = current_price, wi_current_stock = current_stock,
       wi_current_status = opt_str py (jget ''current_status'' p),
       wi_target_price = target_price, wi_target_stock = target_stock,
       wi_target_status = opt_str py (jget ''target_status'' p),
       wi_currency = opt_str py (jget ''currency'' p), wi_unit = opt_str py (jget ''unit'' p),
       wi_mapping_version = mapping_version, wi_cache_version = cache_version,
       wi_cache_checksum = str ''cache_checksum'',
       wi_capability_version = str ''capability_version'',
       wi_currency_digest = str ''currency_digest'', wi_idempotency_key = str ''idempotency_key'',
       wi_payload_hash = str ''payload_hash'', wi_pricing_origin = origin,
       wi_expected_pricing_authority = expected,
       wi_pricing_authority_event_id = opt_str py (jget ''pricing_authority_event_id'' p),
       wi_pricing_authority_head_version = head_version\<rparr>)))))))))))"

lemma opt_str_read [simp]: "opt_str py (jstr_opt v) = v"
  by (cases v) (simp_all add: opt_str_def jstr_opt_def)

lemma optional_float_read [simp]: "optional_float py (jnum_opt r) = Inr r"
  by (cases r) (simp_all add: optional_float_def jnum_opt_def)

lemma opt_int_read [simp]: "opt_int (jint_opt i) = Inr i"
  by (cases i) (simp_all add: opt_int_def jint_opt_def)

lemma read_origin_value [simp]: "read_origin (origin_value x) = Inr x"
  by (cases x) (simp_all add: read_origin_def)

lemma read_authority_value [simp]: "read_authority (authority_value x) = Inr x"
  by (cases x) (simp_all add: read_authority_def)

lemma opt_enum_readers [simp]:
  "opt_enum py read_origin (jstr_opt (map_option origin_value v)) = Inr v"
  "opt_enum py read_authority (jstr_opt (map_option authority_value w)) = Inr w"
  by (cases v, simp_all add: opt_enum_def jstr_opt_def) (cases w, simp_all)

definition payload_keys :: "string list" where
  "payload_keys = [''apply_job_id'', ''apply_item_ids'', ''workspace_id'', ''snapshot_id'',
     ''draft_revision_id'', ''review_id'', ''selection_checksum'', ''listing_id'',
     ''channel_id'', ''external_primary_id'', ''sku'', ''product_type'',
     ''parent_external_id'', ''current_price'', ''current_stock'', ''current_status'',
     ''target_price'', ''target_stock'', ''target_status'', ''currency'', ''unit'',
     ''mapping_version'', ''cache_version'', ''cache_checksum'', ''capability_version'',
     ''currency_digest'', ''idempotency_key'', ''payload_hash'', ''pricing_origin'',
     ''expected_pricing_authority'', ''pricing_authority_event_id'',
     ''pricing_authority_head_version'']"

lemma payload_keys: "map fst (normalized_payload i) = payload_keys"
  by (simp only: normalized_payload_def payload_keys_def list.map fst_conv)

lemma required_in_payload: "list_all (\<lambda>k. k \<in> set payload_keys) required_keys"
  by code_simp

lemma payload_complete: "missing_keys (normalized_payload i) = []"
proof -
  have "fst ` set (normalized_payload i) = set payload_keys"
    by (simp only: payload_keys[of i, symmetric] set_map)
  then have "filter (\<lambda>k. k \<notin> fst ` set (normalized_payload i)) required_keys = []"
    using required_in_payload by (simp add: filter_empty_conv list_all_iff)
  then show ?thesis by (simp add: missing_keys_def)
qed

text \<open>C39: the payload stored with a dispatch attempt loses nothing: recovery rebuilds exactly the
  intent that was dispatched, whatever its optional parts are.\<close>

theorem payload_roundtrip: "from_persisted_payload py (normalized_payload i) = Inr i"
proof -
  have items: "map (py_str py \<circ> JStr) xs = xs" for xs by (induction xs) auto
  show ?thesis
    unfolding from_persisted_payload_def Let_def
    by (simp only: payload_complete simp_thms if_False)
      (cases i, simp add: normalized_payload_def items)
qed

end
