(* ===== verification/BusinessEvents.thy ===== *)
theory BusinessEvents
  imports Json
begin

text \<open>
  Business Observability (\<^verbatim>\<open>app/flowhub/business_observability\<close>): immutable event facts, an
  append-only log of lifecycle transitions, the status projected from that log, the operator list
  and the KPIs. Every producer of the program reports through \<^verbatim>\<open>emit_event\<close>.
\<close>

section \<open>Contract\<close>

definition business_event_domains :: "string list" where
  "business_event_domains = [''source_acquisition'', ''pricing'', ''channels'', ''write_pipeline'']"

definition severity_values :: "string list" where
  "severity_values = [''info'', ''warning'', ''degraded'', ''error'', ''critical'']"

definition business_impact_values :: "string list" where
  "business_impact_values = [''none'', ''degraded'', ''blocking'', ''partial_failure'',
     ''critical_business_failure'']"

definition scope_types :: "string list" where
  "scope_types = [''source'', ''worksheet'', ''workspace'', ''product'', ''revision'',
     ''pricing_run'', ''review'', ''changeset'', ''channel'', ''order'', ''connector'', ''batch'']"

datatype lifecycle_status = L_open | L_acknowledged | L_resolved

fun lifecycle_allowed :: "lifecycle_status option \<Rightarrow> lifecycle_status list" where
  "lifecycle_allowed None = [L_acknowledged, L_resolved]"
| "lifecycle_allowed (Some L_open) = [L_acknowledged, L_resolved]"
| "lifecycle_allowed (Some L_acknowledged) = [L_resolved]"
| "lifecycle_allowed (Some L_resolved) = []"

type_synonym obs_error = string

definition assert_valid_transition ::
  "lifecycle_status option \<Rightarrow> lifecycle_status \<Rightarrow> obs_error + unit" where
  "assert_valid_transition from_status to_status =
     ensure (to_status \<in> set (lifecycle_allowed from_status)) ''lifecycle_transition_not_allowed''"

record business_event =
  be_id :: string
  be_domain :: string
  be_event_type :: string
  be_severity :: string
  be_business_impact :: string
  be_reason_code :: string
  be_reason_message :: string
  be_primary_scope_type :: string
  be_primary_scope_id :: string
  be_primary_scope_label :: "string option"
  be_secondary_scopes :: "(string \<times> string \<times> string option) list"
  be_recommended_action :: string
  be_retryable :: bool
  be_action_route_key :: "string option"
  be_action_route_params :: json_dict
  be_correlation_id :: string
  be_producer :: string
  be_occurred_at :: instant
  be_metadata :: json_dict

record lifecycle_transition_row =
  lt_event_id :: string
  lt_from :: lifecycle_status
  lt_to :: lifecycle_status
  lt_actor :: string
  lt_occurred_at :: instant
  lt_note :: "string option"

record obs_db =
  obs_events :: "business_event list"
  obs_transitions :: "lifecycle_transition_row list"

section \<open>Operations\<close>

text \<open>
  The caller's keyword arguments are a \<^verbatim>\<open>business_event\<close> whose identifier is not yet set; the
  given time is the \<^verbatim>\<open>occurred_at\<close> or the clock, \<^verbatim>\<open>corr\<close> the generated correlation id.
\<close>

definition event_checks :: "business_event \<Rightarrow> obs_error + unit" where
  "event_checks e =
     (if be_domain e \<notin> set business_event_domains then Inl ''business_event_domain_invalid''
      else if be_severity e \<notin> set severity_values then Inl ''business_event_severity_invalid''
      else if be_business_impact e \<notin> set business_impact_values then Inl ''business_event_impact_invalid''
      else if be_primary_scope_type e \<notin> set scope_types then Inl ''business_event_scope_type_invalid''
      else if be_reason_code e = [] then Inl ''business_event_reason_code_required''
      else if be_primary_scope_id e = [] then Inl ''business_event_primary_scope_id_required''
      else if be_producer e = [] then Inl ''business_event_producer_required''
      else Inr ())"

definition stored_event :: "string \<Rightarrow> string \<Rightarrow> business_event \<Rightarrow> business_event" where
  "stored_event eid corr e = e\<lparr>be_id := eid,
     be_secondary_scopes := filter (\<lambda>(t, i, l). t \<in> set scope_types \<and> i \<noteq> []) (be_secondary_scopes e),
     be_action_route_params := redact_dict (be_action_route_params e),
     be_correlation_id := (if be_correlation_id e = [] then corr else be_correlation_id e),
     be_metadata := redact_dict (be_metadata e)\<rparr>"

definition emit_event ::
  "string \<Rightarrow> string \<Rightarrow> business_event \<Rightarrow> obs_db \<Rightarrow> obs_error + obs_db" where
  "emit_event eid corr e db = rbind (event_checks e) (\<lambda>_.
     Inr (db\<lparr>obs_events := obs_events db @ [stored_event eid corr e]\<rparr>))"

definition history :: "obs_db \<Rightarrow> string \<Rightarrow> lifecycle_transition_row list" where
  "history db eid = filter (\<lambda>t. lt_event_id t = eid) (obs_transitions db)"

record projected_state =
  ps_status :: lifecycle_status
  ps_acknowledged_at :: "instant option"
  ps_acknowledged_by :: "string option"
  ps_resolved_at :: "instant option"
  ps_resolved_by :: "string option"

definition project_step :: "projected_state \<Rightarrow> lifecycle_transition_row \<Rightarrow> projected_state" where
  "project_step p t = (let p1 = p\<lparr>ps_status := lt_to t\<rparr> in
     if lt_to t = L_acknowledged
     then p1\<lparr>ps_acknowledged_at := Some (lt_occurred_at t), ps_acknowledged_by := Some (lt_actor t)\<rparr>
     else if lt_to t = L_resolved
     then p1\<lparr>ps_resolved_at := Some (lt_occurred_at t), ps_resolved_by := Some (lt_actor t)\<rparr>
     else p1)"

definition project_state :: "lifecycle_transition_row list \<Rightarrow> projected_state" where
  "project_state ts = foldl project_step \<lparr>ps_status = L_open, ps_acknowledged_at = None,
     ps_acknowledged_by = None, ps_resolved_at = None, ps_resolved_by = None\<rparr> ts"

definition event_status :: "obs_db \<Rightarrow> string \<Rightarrow> lifecycle_status" where
  "event_status db eid = ps_status (project_state (history db eid))"

definition lifecycle_transition ::
  "string \<Rightarrow> lifecycle_status \<Rightarrow> string \<Rightarrow> string option \<Rightarrow> instant \<Rightarrow> obs_db \<Rightarrow> obs_error + obs_db" where
  "lifecycle_transition eid to_status actor note now db =
     (case get_row be_id eid (obs_events db) of
        None \<Rightarrow> Inl ''business_event_not_found''
      | Some row \<Rightarrow>
          (let current = event_status db (be_id row) in
           rbind (assert_valid_transition (Some current) to_status) (\<lambda>_.
           Inr (db\<lparr>obs_transitions := obs_transitions db @
             [\<lparr>lt_event_id = be_id row, lt_from = current, lt_to = to_status, lt_actor = actor,
               lt_occurred_at = now, lt_note = note\<rparr>]\<rparr>))))"

definition acknowledge where
  "acknowledge eid actor note now db = lifecycle_transition eid L_acknowledged actor note now db"

definition resolve where
  "resolve eid actor note now db = lifecycle_transition eid L_resolved actor note now db"

section \<open>The operator list and the KPIs\<close>

record event_filter =
  ef_domain :: "string option"
  ef_severity :: "string option"
  ef_business_impact :: "string option"
  ef_correlation_id :: "string option"
  ef_scope_type :: "string option"
  ef_scope_id :: "string option"
  ef_since :: "instant option"
  ef_status :: "lifecycle_status option"

definition field_matches :: "string option \<Rightarrow> string \<Rightarrow> bool" where
  "field_matches want v \<longleftrightarrow> \<not> truthy want \<or> want = Some v"

definition event_matches :: "event_filter \<Rightarrow> business_event \<Rightarrow> bool" where
  "event_matches f e \<longleftrightarrow> field_matches (ef_domain f) (be_domain e) \<and>
     field_matches (ef_severity f) (be_severity e) \<and>
     field_matches (ef_business_impact f) (be_business_impact e) \<and>
     field_matches (ef_correlation_id f) (be_correlation_id e) \<and>
     field_matches (ef_scope_type f) (be_primary_scope_type e) \<and>
     field_matches (ef_scope_id f) (be_primary_scope_id e) \<and>
     (case ef_since f of None \<Rightarrow> True | Some s \<Rightarrow> s \<le> be_occurred_at e)"

text \<open>Newest first: descending by time and identifier.\<close>

definition newest_first :: "business_event list \<Rightarrow> business_event list" where
  "newest_first es = rev (sort_key (\<lambda>e. (be_occurred_at e, be_id e)) es)"

definition list_events :: "event_filter \<Rightarrow> nat \<Rightarrow> obs_db \<Rightarrow> business_event list" where
  "list_events f limit db =
     (let fetch = (if ef_status f = None then limit else max (limit * 4) limit);
          rows = take fetch (newest_first (filter (event_matches f) (obs_events db)));
          shapes = (case ef_status f of None \<Rightarrow> rows
                    | Some s \<Rightarrow> filter (\<lambda>e. event_status db (be_id e) = s) rows)
      in take limit shapes)"

definition blocking_impacts :: "string list" where
  "blocking_impacts = [''blocking'', ''partial_failure'', ''critical_business_failure'']"

definition batch_outcome_types :: "string list" where
  "batch_outcome_types = [''write_batch_applied'', ''write_batch_partially_failed'',
     ''write_batch_reconciliation_required'', ''write_batch_failed'']"

definition non_full_success_types :: "string list" where
  "non_full_success_types = [''write_batch_partially_failed'',
     ''write_batch_reconciliation_required'', ''write_batch_failed'']"

record business_kpis =
  bk_open_blocking_by_domain :: "(string, nat) dict"
  bk_partial_failure_rate :: rat
  bk_oldest_blocking_age :: "duration option"

definition open_blocking :: "obs_db \<Rightarrow> business_event list" where
  "open_blocking db = filter (\<lambda>e. event_status db (be_id e) \<noteq> L_resolved)
     (filter (\<lambda>e. be_business_impact e \<in> set blocking_impacts) (obs_events db))"

definition count_domain :: "(string, nat) dict \<Rightarrow> business_event \<Rightarrow> (string, nat) dict" where
  "count_domain d e = AList.update (be_domain e)
     ((case map_of d (be_domain e) of None \<Rightarrow> 0 | Some n \<Rightarrow> n) + 1) d"

definition window_batches :: "string list \<Rightarrow> instant \<Rightarrow> obs_db \<Rightarrow> nat" where
  "window_batches types start db = length (filter (\<lambda>e. be_domain e = ''write_pipeline'' \<and>
     be_event_type e \<in> set types \<and> start \<le> be_occurred_at e) (obs_events db))"

definition kpis :: "instant \<Rightarrow> obs_db \<Rightarrow> business_kpis" where
  "kpis now db =
     (let open_events = open_blocking db;
          total = window_batches batch_outcome_types (now - days 30) db;
          bad = window_batches non_full_success_types (now - days 30) db
      in \<lparr>bk_open_blocking_by_domain =
            foldl count_domain (map (\<lambda>d. (d, 0)) business_event_domains) open_events,
          bk_partial_failure_rate = (if total = 0 then 0 else of_nat bad / of_nat total),
          bk_oldest_blocking_age =
            map_option (\<lambda>e. now - be_occurred_at e) (min_by be_occurred_at open_events)\<rparr>)"

section \<open>Invariants\<close>

inductive obs_step :: "obs_db \<Rightarrow> obs_db \<Rightarrow> bool" where
  do_emit: "emit_event eid corr e db = Inr db' \<Longrightarrow> obs_step db db'"
| do_acknowledge: "acknowledge eid actor note now db = Inr db' \<Longrightarrow> obs_step db db'"
| do_resolve: "resolve eid actor note now db = Inr db' \<Longrightarrow> obs_step db db'"

definition obs_empty :: "obs_db \<Rightarrow> bool" where
  "obs_empty db \<longleftrightarrow> obs_events db = [] \<and> obs_transitions db = []"

definition valid_history :: "lifecycle_transition_row list \<Rightarrow> bool" where
  "valid_history ts \<longleftrightarrow> map lt_to ts \<in> {[], [L_acknowledged], [L_resolved], [L_acknowledged, L_resolved]} \<and>
     (\<forall>i < length ts. lt_from (ts ! i) = (if i = 0 then L_open else lt_to (ts ! (i - 1))))"

definition obs_inv :: "obs_db \<Rightarrow> bool" where
  "obs_inv db \<longleftrightarrow> (\<forall>e \<in> set (obs_events db). event_checks e = Inr ()) \<and>
     (\<forall>eid. valid_history (history db eid))"

lemma project_status: "ps_status (project_state ts) = (if ts = [] then L_open else lt_to (last ts))"
proof (cases ts rule: rev_cases)
  case Nil
  then show ?thesis by (simp add: project_state_def)
next
  case (snoc us t)
  then show ?thesis by (simp add: project_state_def project_step_def Let_def)
qed

lemma valid_history_snoc:
  assumes h: "valid_history ts" and ok: "lt_to t \<in> set (lifecycle_allowed (Some (lt_from t)))"
    and from_st: "lt_from t = ps_status (project_state ts)"
  shows "valid_history (ts @ [t])"
proof -
  have to_ok: "map lt_to (ts @ [t]) \<in> {[], [L_acknowledged], [L_resolved], [L_acknowledged, L_resolved]}"
  proof (cases "ts = []")
    case True
    with ok from_st show ?thesis by (auto simp: project_status)
  next
    case False
    then have "lt_from t = last (map lt_to ts)" using from_st by (simp add: project_status last_map)
    moreover have "map lt_to ts \<in> {[L_acknowledged], [L_resolved], [L_acknowledged, L_resolved]}"
      using h False by (auto simp: valid_history_def)
    ultimately show ?thesis using ok by auto
  qed
  moreover have "lt_from ((ts @ [t]) ! i) =
      (if i = 0 then L_open else lt_to ((ts @ [t]) ! (i - 1)))" if "i < length (ts @ [t])" for i
  proof (cases "i < length ts")
    case True
    with h less_imp_diff_less[OF True, of 1] show ?thesis by (simp add: valid_history_def nth_append)
  next
    case False
    with that have i: "i = length ts" by simp
    show ?thesis
    proof (cases "ts = []")
      case True
      with i from_st show ?thesis by (simp add: project_status)
    next
      case False
      with i from_st show ?thesis by (simp add: nth_append project_status last_conv_nth)
    qed
  qed
  ultimately show ?thesis by (simp add: valid_history_def)
qed

lemma event_checks_stored: "event_checks (stored_event eid corr e) = event_checks e"
  by (simp add: event_checks_def stored_event_def)

lemma transition_result:
  assumes "lifecycle_transition eid st actor note now db = Inr db'"
  obtains t where "db' = db\<lparr>obs_transitions := obs_transitions db @ [t]\<rparr>" "lt_to t = st"
    "lt_from t = event_status db (lt_event_id t)" "st \<in> set (lifecycle_allowed (Some (lt_from t)))"
  using assms
  by (auto simp: lifecycle_transition_def Let_def assert_valid_transition_def rbind_eq_Inr
      split: option.splits)

lemma obs_inv_transition:
  assumes "obs_inv db" and "lifecycle_transition eid st actor note now db = Inr db'"
  shows "obs_inv db'"
proof -
  from assms(2) obtain t where t: "db' = db\<lparr>obs_transitions := obs_transitions db @ [t]\<rparr>" "lt_to t = st"
    "lt_from t = event_status db (lt_event_id t)" "st \<in> set (lifecycle_allowed (Some (lt_from t)))"
    by (rule transition_result)
  have "valid_history (history db' e)" for e
  proof (cases "lt_event_id t = e")
    case True
    have "valid_history (history db e @ [t])"
      using assms(1) t True by (intro valid_history_snoc) (simp_all add: obs_inv_def event_status_def)
    with True t(1) show ?thesis by (simp add: history_def)
  next
    case False
    with assms(1) t(1) show ?thesis by (simp add: history_def obs_inv_def)
  qed
  with assms(1) t(1) show ?thesis by (simp add: obs_inv_def)
qed

lemma obs_inv_step: "obs_step db db' \<Longrightarrow> obs_inv db \<Longrightarrow> obs_inv db'"
proof (induction rule: obs_step.induct)
  case (do_emit eid corr e db db')
  then have ok: "event_checks e = Inr ()"
    and db': "db' = db\<lparr>obs_events := obs_events db @ [stored_event eid corr e]\<rparr>"
    by (auto simp: emit_event_def rbind_eq_Inr)
  from do_emit(2) ok show ?case by (auto simp: db' obs_inv_def history_def event_checks_stored)
next
  case (do_acknowledge eid actor n now db db')
  then show ?case using obs_inv_transition by (simp add: acknowledge_def)
next
  case (do_resolve eid actor n now db db')
  then show ?case using obs_inv_transition by (simp add: resolve_def)
qed

lemma obs_inv_empty: "obs_empty db \<Longrightarrow> obs_inv db"
  by (simp add: obs_empty_def obs_inv_def history_def valid_history_def)

interpretation observability: invariant_system obs_empty obs_step obs_inv
  by unfold_locales (auto intro: obs_inv_empty obs_inv_step)

lemma count_domain_lookup:
  "map_of (foldl count_domain d es) k =
     (if filter (\<lambda>e. be_domain e = k) es = [] then map_of d k
      else Some ((case map_of d k of None \<Rightarrow> 0 | Some n \<Rightarrow> n) + length (filter (\<lambda>e. be_domain e = k) es)))"
  by (induction es arbitrary: d) (auto simp: count_domain_def update_conv' split: option.splits)

lemma map_of_zero: "map_of (map (\<lambda>d. (d, 0::nat)) ds) k = (if k \<in> set ds then Some 0 else None)"
  by (induction ds) auto

section \<open>Properties\<close>


text \<open>The KPI of open blocking events is exact: in a reachable state each domain's count is the
  number of its events with a blocking impact that are not resolved, and no other domain occurs.\<close>

theorem open_blocking_kpi_exact:
  assumes "reach obs_empty obs_step db"
  shows "map_of (bk_open_blocking_by_domain (kpis now db)) d =
    (if d \<in> set business_event_domains
     then Some (length (filter (\<lambda>e. be_domain e = d \<and> be_business_impact e \<in> set blocking_impacts \<and>
            event_status db (be_id e) \<noteq> L_resolved) (obs_events db)))
     else None)"
proof -
  have inv: "obs_inv db" by (rule observability.reach_inv[OF assms])
  have dom: "filter (\<lambda>e. be_domain e = d) (open_blocking db) = []" if "d \<notin> set business_event_domains"
  proof -
    have "be_domain e \<noteq> d" if e: "e \<in> set (obs_events db)" for e
    proof -
      have "event_checks e = Inr ()" using inv e by (simp add: obs_inv_def)
      then have "be_domain e \<in> set business_event_domains"
        by (simp add: event_checks_def split: if_splits)
      with \<open>d \<notin> set business_event_domains\<close> show ?thesis by auto
    qed
    then show ?thesis by (auto simp: open_blocking_def filter_empty_conv)
  qed
  have len: "length (filter (\<lambda>e. be_domain e = d) (open_blocking db)) =
      length (filter (\<lambda>e. be_domain e = d \<and> be_business_impact e \<in> set blocking_impacts \<and>
            event_status db (be_id e) \<noteq> L_resolved) (obs_events db))"
    by (simp add: open_blocking_def conj_commute conj_left_commute)
  have "map_of (bk_open_blocking_by_domain (kpis now db)) d =
      map_of (foldl count_domain (map (\<lambda>d. (d, 0)) business_event_domains) (open_blocking db)) d"
    by (simp add: kpis_def Let_def)
  also have "\<dots> = (if d \<in> set business_event_domains
      then Some (length (filter (\<lambda>e. be_domain e = d) (open_blocking db))) else None)"
    using dom by (auto simp: count_domain_lookup map_of_zero)
  finally show ?thesis by (simp only: len)
qed

section \<open>Concrete runs\<close>

definition demo_event :: business_event where
  "demo_event = \<lparr>be_id = [], be_domain = ''write_pipeline'', be_event_type = ''write_batch_failed'',
     be_severity = ''error'', be_business_impact = ''blocking'', be_reason_code = ''write_batch_failed'',
     be_reason_message = ''failed'', be_primary_scope_type = ''batch'', be_primary_scope_id = ''7'',
     be_primary_scope_label = None, be_secondary_scopes = [], be_recommended_action = [],
     be_retryable = True, be_action_route_key = None, be_action_route_params = [],
     be_correlation_id = [], be_producer = ''write_pipeline'', be_occurred_at = 5, be_metadata = []\<rparr>"

definition demo_two_events :: obs_db where
  "demo_two_events = projr (rbind (emit_event ''e1'' ''c'' demo_event \<lparr>obs_events = [], obs_transitions = []\<rparr>)
     (emit_event ''e2'' ''c'' demo_event))"

definition demo_obs :: obs_db where
  "demo_obs = projr (rbind (acknowledge ''e1'' ''op'' None 6 demo_two_events) (resolve ''e1'' ''op'' None 7))"

lemma demo_reach: "reach obs_empty obs_step demo_obs"
proof -
  let ?e = "\<lparr>obs_events = [], obs_transitions = []\<rparr> :: obs_db"
  let ?a = "projr (emit_event ''e1'' ''c'' demo_event ?e)"
  let ?c = "projr (acknowledge ''e1'' ''op'' None 6 demo_two_events)"
  have "reach obs_empty obs_step ?e" by (rule reach_init) (simp add: obs_empty_def)
  moreover have "emit_event ''e1'' ''c'' demo_event ?e = Inr ?a" by code_simp
  ultimately have "reach obs_empty obs_step ?a" by (blast intro: reach_step do_emit)
  moreover have "emit_event ''e2'' ''c'' demo_event ?a = Inr demo_two_events" by code_simp
  ultimately have "reach obs_empty obs_step demo_two_events" by (blast intro: reach_step do_emit)
  moreover have "acknowledge ''e1'' ''op'' None 6 demo_two_events = Inr ?c" by code_simp
  ultimately have "reach obs_empty obs_step ?c" by (blast intro: reach_step do_acknowledge)
  moreover have "resolve ''e1'' ''op'' None 7 ?c = Inr demo_obs" by code_simp
  ultimately show ?thesis by (blast intro: reach_step do_resolve)
qed


theorem open_blocking_kpi_exact_witness:
  "map_of (bk_open_blocking_by_domain (kpis 10 demo_obs)) ''write_pipeline'' = Some 1"
proof -
  have "length (filter (\<lambda>e. be_domain e = ''write_pipeline'' \<and> be_business_impact e \<in> set blocking_impacts \<and>
      event_status demo_obs (be_id e) \<noteq> L_resolved) (obs_events demo_obs)) = 1" by code_simp
  then show ?thesis
    by (simp add: open_blocking_kpi_exact[OF demo_reach] business_event_domains_def)
qed

end
