(* ===== verification/WriteStore.thy ===== *)
theory WriteStore
  imports WriteContracts BusinessEvents
begin

text \<open>
  The tables the write path shares (\<^verbatim>\<open>write_pipeline/models.py\<close> and the Apply tables of
  \<^verbatim>\<open>unified_workspace/models.py\<close>), and the session monad: an operation runs on a world made of the
  committed database, the view of the open transaction, and the provider calls made so far; it
  raises or returns. An exception leaves the committed database as it is, which is the rollback. At
  an \<^verbatim>\<open>await\<close> other transactions may commit.
\<close>

section \<open>Rows\<close>

record write_item =
  it_id :: int
  it_channel_product_id :: string
  it_sku :: string
  it_product_name :: string
  it_current_price :: rat
  it_proposed_price :: rat
  it_delta_amount :: rat
  it_delta_percent :: rat
  it_currency :: string
  it_snapshot :: json_dict
  it_status :: string
  it_provider_result :: json_dict
  it_error_code :: "string option"
  it_error_message :: "string option"

record write_batch =
  wb_id :: string
  wb_channel_id :: string
  wb_channel_type :: string
  wb_operation_type :: string
  wb_status :: string
  wb_source_preview_id :: "string option"
  wb_batch_hash :: string
  wb_item_count :: nat
  wb_currency :: string
  wb_created_by :: string
  wb_approved_by :: "string option"
  wb_approval_reason :: "string option"
  wb_safety_summary :: json_dict
  wb_approved_at :: "instant option"
  wb_executed_at :: "instant option"
  wb_items :: "write_item list"

record write_event =
  we_batch_id :: string
  we_item_id :: "int option"
  we_event_type :: string
  we_severity :: string
  we_message :: string
  we_metadata :: json_dict
  we_correlation_id :: string

record provider_write_attempt =
  pa_id :: string
  pa_source_workflow :: string
  pa_operation_id :: string
  pa_logical_item_id :: string
  pa_workspace_id :: "string option"
  pa_apply_job_id :: "string option"
  pa_apply_job_item_id :: "string option"
  pa_listing_id :: string
  pa_channel_id :: string
  pa_external_identity :: string
  pa_normalized_payload :: json_dict
  pa_payload_hash :: string
  pa_provider_idempotency_key :: string
  pa_attempt_number :: int
  pa_correlation_id :: string
  pa_pricing_origin :: "string option"
  pa_pricing_authority_event_id :: "string option"
  pa_pricing_authority_head_version :: "int option"

record attempt_event =
  ve_id :: string
  ve_attempt_id :: string
  ve_outcome :: write_outcome
  ve_provider_response :: json_dict
  ve_error_category :: "string option"
  ve_error_message :: "string option"
  ve_occurred_at :: instant

datatype apply_state = S_PENDING | S_RUNNING | S_PARTIALLY_APPLIED | S_APPLIED | S_FAILED
  | S_CANCELLED | S_BLOCKED | S_STALE | S_RECONCILIATION_REQUIRED

record apply_job =
  aj_id :: string
  aj_workspace_id :: string
  aj_snapshot_id :: string
  aj_draft_revision_id :: string
  aj_review_id :: string
  aj_requested_by_user_id :: int
  aj_idempotency_key :: string
  aj_logical_operation_key :: string
  aj_correlation_id :: string
  aj_selection_checksum :: string
  aj_manifest_id :: "string option"
  aj_manifest_checksum :: "string option"
  aj_status :: apply_state
  aj_created_at :: instant
  aj_started_at :: "instant option"
  aj_heartbeat_at :: "instant option"
  aj_completed_at :: "instant option"
  aj_worker_id :: "string option"
  aj_fencing_token :: int
  aj_lease_token :: "string option"
  aj_lease_expires_at :: "instant option"
  aj_recovery_attempts :: int

record apply_job_item =
  ai_id :: string
  ai_apply_job_id :: string
  ai_review_item_id :: string
  ai_canonical_product_id :: string
  ai_listing_id :: string
  ai_channel_id :: string
  ai_field :: string
  ai_payload_hash :: string
  ai_status :: string
  ai_attempt_number :: int
  ai_retry_eligible :: bool
  ai_connector_response :: json_dict
  ai_external_response_id :: "string option"
  ai_error_category :: "string option"
  ai_error_message :: "string option"
  ai_cache_sync_status :: "string option"
  ai_started_at :: "instant option"
  ai_completed_at :: "instant option"

record review_item =
  ri_id :: string
  ri_review_id :: string
  ri_canonical_product_id :: string
  ri_listing_id :: string
  ri_channel_id :: string
  ri_field :: string
  ri_current_value :: "string option"
  ri_target_value :: string
  ri_payload_summary :: json_dict

record channel_cache =
  cc_listing_id :: string
  cc_price_raw :: "string option"
  cc_stock_quantity :: "rat option"
  cc_status :: "string option"
  cc_cache_version :: int
  cc_checksum :: string
  cc_freshness :: string
  cc_fetch_status :: string
  cc_fetched_at :: instant

record workspace_row =
  ws_id :: string
  ws_owner_user_id :: int

record draft_row =
  dr_id :: string
  dr_workspace_id :: string
  dr_current_revision_id :: "string option"
  dr_status :: string

text \<open>An audit entry; the columns set from keyword arguments are the dictionary of those arguments.\<close>

record audit_entry =
  ua_id :: string
  ua_correlation_id :: string
  ua_event_type :: string
  ua_user_id :: int
  ua_occurred_at :: instant
  ua_fields :: json_dict
  ua_metadata :: json_dict
  ua_metadata_checksum :: string

record listing_row =
  li_id :: string
  li_channel_id :: string
  li_external_primary_id :: string

record workspace_lock =
  lk_id :: string
  lk_workspace_id :: string
  lk_channel_id :: string
  lk_listing_id :: string
  lk_apply_job_id :: string
  lk_acquired_at :: instant
  lk_expires_at :: instant

record connector_telemetry =
  ct_connector_id :: string
  ct_connector_type :: string
  ct_request_count :: int
  ct_error_count :: int
  ct_retry_count :: int
  ct_throttle_events :: int
  ct_products_fetched :: int
  ct_rows_parsed :: int
  ct_avg_latency_ms :: "rat option"
  ct_window_start :: instant
  ct_window_end :: "instant option"

record write_db =
  wd_batches :: "write_batch list"
  wd_events :: "write_event list"
  wd_attempts :: "provider_write_attempt list"
  wd_attempt_events :: "attempt_event list"
  wd_authority :: authority_db
  wd_observability :: obs_db
  wd_jobs :: "apply_job list"
  wd_job_items :: "apply_job_item list"
  wd_listings :: "listing_row list"
  wd_locks :: "workspace_lock list"
  wd_workspaces :: "workspace_row list"
  wd_drafts :: "draft_row list"
  wd_review_items :: "review_item list"
  wd_channel_cache :: "channel_cache list"
  wd_audit :: "audit_entry list"
  wd_connector_read_only :: "(string \<times> bool) list"
  wd_telemetry :: "connector_telemetry list"
  wd_integration_events :: "(string \<times> json_dict) list"

section \<open>Failures and provider calls\<close>

datatype write_error =
    Http_error nat string
  | Worker_fenced
  | No_durable_intent string
  | Index_error
  | Key_error string
  | Integrity_error
  | Python_error py_error
  | Event_error string
  | Connector_error string
  | Authority_error authority_error
  | Missing_row string
  | Guard_conflict string string string

text \<open>
  The calls to a provider, each with the database that was committed when it was made. The log
  is not state of the program: it records what left the program.
\<close>

datatype provider_call =
    Apply_updates string "workspace_write_intent list" write_db
  | Verify_updates string "workspace_write_intent list" write_db

record world =
  committed :: write_db
  session :: write_db
  calls :: "provider_call list"

type_synonym 'a wp = "world \<Rightarrow> (write_error + 'a) \<times> world"

section \<open>The session monad\<close>

definition wret :: "'a \<Rightarrow> 'a wp" where
  "wret x w = (Inr x, w)"

definition wraise :: "write_error \<Rightarrow> 'a wp" where
  "wraise e w = (Inl e, w)"

definition wbind :: "'a wp \<Rightarrow> ('a \<Rightarrow> 'b wp) \<Rightarrow> 'b wp" where
  "wbind m f w = (case m w of (Inl e, w') \<Rightarrow> (Inl e, w') | (Inr x, w') \<Rightarrow> f x w')"

text \<open>Evaluation enters the continuation only once the first step has its value.\<close>

fun wnext :: "('a \<Rightarrow> 'b wp) \<Rightarrow> (write_error + 'a) \<times> world \<Rightarrow> (write_error + 'b) \<times> world" where
  "wnext f (Inl e, w) = (Inl e, w)"
| "wnext f (Inr x, w) = f x w"

lemma wbind_code [code]: "wbind m f w = wnext f (m w)"
  by (simp add: wbind_def split: prod.splits sum.splits)

definition wget :: "(write_db \<Rightarrow> 'a) \<Rightarrow> 'a wp" where
  "wget f w = (Inr (f (session w)), w)"

definition wmodify :: "(write_db \<Rightarrow> write_db) \<Rightarrow> unit wp" where
  "wmodify f w = (Inr (), w\<lparr>session := f (session w)\<rparr>)"

definition wlift :: "('e \<Rightarrow> write_error) \<Rightarrow> ('e + 'a) \<Rightarrow> 'a wp" where
  "wlift err m w = (case m of Inl e \<Rightarrow> (Inl (err e), w) | Inr x \<Rightarrow> (Inr x, w))"

definition wupdate :: "(write_db \<Rightarrow> 'a \<times> write_db) \<Rightarrow> 'a wp" where
  "wupdate f w = (case f (session w) of (x, db) \<Rightarrow> (Inr x, w\<lparr>session := db\<rparr>))"

definition commit :: "unit wp" where
  "commit w = (Inr (), w\<lparr>committed := session w\<rparr>)"

text \<open>
  An \<^verbatim>\<open>await\<close> on code outside the process, made with a clean session: it sees the committed database
  and returns the database as it is when the call ends.
\<close>

definition wawait :: "(write_db \<Rightarrow> 'a \<times> write_db) \<Rightarrow> 'a wp" where
  "wawait f w = (case f (committed w) of (x, db) \<Rightarrow> (Inr x, w\<lparr>committed := db, session := db\<rparr>))"

definition wlog :: "(write_db \<Rightarrow> provider_call) \<Rightarrow> unit wp" where
  "wlog c w = (Inr (), w\<lparr>calls := calls w @ [c (committed w)]\<rparr>)"

fun wmapM :: "('a \<Rightarrow> 'b wp) \<Rightarrow> 'a list \<Rightarrow> 'b list wp" where
  "wmapM f [] = wret []"
| "wmapM f (x # xs) = wbind (f x) (\<lambda>y. wbind (wmapM f xs) (\<lambda>ys. wret (y # ys)))"

fun wfoldM :: "('s \<Rightarrow> 'a \<Rightarrow> 's wp) \<Rightarrow> 's \<Rightarrow> 'a list \<Rightarrow> 's wp" where
  "wfoldM f s [] = wret s"
| "wfoldM f s (x # xs) = wbind (f s x) (\<lambda>s'. wfoldM f s' xs)"

section \<open>Running a step\<close>

lemma wbind_run: "m w = (Inr x, w1) \<Longrightarrow> wbind m f w = f x w1"
  by (simp add: wbind_def)

lemma wbind_raise: "m w = (Inl e, w1) \<Longrightarrow> wbind m f w = (Inl e, w1)"
  by (simp add: wbind_def)

lemma wbind_returns:
  "wbind m f w = (Inr y, w2) \<longleftrightarrow> (\<exists>x w1. m w = (Inr x, w1) \<and> f x w1 = (Inr y, w2))"
  by (auto simp: wbind_def split: prod.splits sum.splits)

lemma run_primitive:
  "wret x w = (Inr x, w)" "wraise e w = (Inl e, w)" "wget g w = (Inr (g (session w)), w)"
  "wmodify h w = (Inr (), w\<lparr>session := h (session w)\<rparr>)"
  "commit w = (Inr (), w\<lparr>committed := session w\<rparr>)"
  by (simp_all add: wret_def wraise_def wget_def wmodify_def commit_def)

lemma run_bind:
  "wbind (wret x) f1 w = f1 x w" "wbind (wraise e) f2 w = (Inl e, w)"
  "wbind (wget g) f3 w = f3 (g (session w)) w"
  "wbind (wmodify h) f4 w = f4 () (w\<lparr>session := h (session w)\<rparr>)"
  "wbind commit f5 w = f5 () (w\<lparr>committed := session w\<rparr>)"
  "wbind (wbind m g1) f8 w = wbind m (\<lambda>x. wbind (g1 x) f8) w"
  by (simp_all add: wbind_def run_primitive split: prod.split sum.split)

section \<open>Triples\<close>

text \<open>
  \<^verbatim>\<open>triple P m Q E\<close>: started where \<^verbatim>\<open>P\<close> holds, a return of \<^verbatim>\<open>m\<close> satisfies \<^verbatim>\<open>Q\<close>
  and a raise \<^verbatim>\<open>E\<close>.
\<close>

definition triple :: "(world \<Rightarrow> bool) \<Rightarrow> 'a wp \<Rightarrow> ('a \<Rightarrow> world \<Rightarrow> bool) \<Rightarrow> (world \<Rightarrow> bool) \<Rightarrow> bool" where
  "triple P m Q E \<longleftrightarrow> (\<forall>w. P w \<longrightarrow> (case m w of (Inl e, w') \<Rightarrow> E w' | (Inr x, w') \<Rightarrow> Q x w'))"

named_theorems triples \<open>rules for the primitive operations\<close>

lemma tripleI:
  "(\<And>w e w'. P w \<Longrightarrow> m w = (Inl e, w') \<Longrightarrow> E w') \<Longrightarrow>
   (\<And>w x w'. P w \<Longrightarrow> m w = (Inr x, w') \<Longrightarrow> Q x w') \<Longrightarrow> triple P m Q E"
  by (auto simp: triple_def split: prod.split sum.split)

lemma triple_Inr: "triple P m Q E \<Longrightarrow> P w \<Longrightarrow> m w = (Inr x, w') \<Longrightarrow> Q x w'"
  by (fastforce simp: triple_def)

lemma triple_Inl: "triple P m Q E \<Longrightarrow> P w \<Longrightarrow> m w = (Inl e, w') \<Longrightarrow> E w'"
  by (fastforce simp: triple_def)

lemma triple_snd: "triple P m (\<lambda>_. I) I \<Longrightarrow> P w \<Longrightarrow> I (snd (m w))"
  by (cases "m w"; cases "fst (m w)") (auto simp: triple_def)

lemma triple_bind:
  assumes "triple P m Q E" and "\<And>x. triple (Q x) (f x) R E"
  shows "triple P (wbind m f) R E"
proof (rule tripleI)
  fix w e w' assume p: "P w" and b: "wbind m f w = (Inl e, w')"
  show "E w'"
  proof (cases "m w")
    case (Pair r w1)
    with p b assms show ?thesis
      by (cases r) (auto simp: wbind_def dest: triple_Inl triple_Inr)
  qed
next
  fix w x w' assume p: "P w" and b: "wbind m f w = (Inr x, w')"
  show "R x w'"
  proof (cases "m w")
    case (Pair r w1)
    with p b assms show ?thesis
      by (cases r) (auto simp: wbind_def dest: triple_Inl triple_Inr)
  qed
qed

lemma triple_pre: "triple P' m Q E \<Longrightarrow> (\<And>w. P w \<Longrightarrow> P' w) \<Longrightarrow> triple P m Q E"
  by (auto simp: triple_def)

lemma triple_post:
  assumes "triple P m Q' E" and "\<And>x w. Q' x w \<Longrightarrow> Q x w"
  shows "triple P m Q E"
  using assms by (auto intro!: tripleI dest: triple_Inl triple_Inr)

lemma triple_err:
  assumes "triple P m Q E'" and "\<And>w. E' w \<Longrightarrow> E w"
  shows "triple P m Q E"
  using assms by (auto intro!: tripleI dest: triple_Inl triple_Inr)

lemma triple_ret [triples]: "(\<And>w. P w \<Longrightarrow> Q x w) \<Longrightarrow> triple P (wret x) Q E"
  by (simp add: triple_def wret_def)

lemma triple_raise [triples]: "(\<And>w. P w \<Longrightarrow> E w) \<Longrightarrow> triple P (wraise e) Q E"
  by (simp add: triple_def wraise_def)

lemma triple_get [triples]: "(\<And>w. P w \<Longrightarrow> Q (f (session w)) w) \<Longrightarrow> triple P (wget f) Q E"
  by (simp add: triple_def wget_def)

lemma triple_modify [triples]:
  "(\<And>w. P w \<Longrightarrow> Q () (w\<lparr>session := f (session w)\<rparr>)) \<Longrightarrow> triple P (wmodify f) Q E"
  by (simp add: triple_def wmodify_def)

lemma triple_update [triples]:
  "(\<And>w x db. P w \<Longrightarrow> f (session w) = (x, db) \<Longrightarrow> Q x (w\<lparr>session := db\<rparr>)) \<Longrightarrow>
     triple P (wupdate f) Q E"
  by (auto simp: triple_def wupdate_def split: prod.split)

lemma triple_lift [triples]:
  "(\<And>w x. P w \<Longrightarrow> m = Inr x \<Longrightarrow> Q x w) \<Longrightarrow> (\<And>w. P w \<Longrightarrow> E w) \<Longrightarrow> triple P (wlift err m) Q E"
  by (auto simp: triple_def wlift_def split: sum.split)

lemma triple_commit [triples]:
  "(\<And>w. P w \<Longrightarrow> Q () (w\<lparr>committed := session w\<rparr>)) \<Longrightarrow> triple P commit Q E"
  by (simp add: triple_def commit_def)

lemma triple_await [triples]:
  "(\<And>w x db. P w \<Longrightarrow> f (committed w) = (x, db) \<Longrightarrow> Q x (w\<lparr>committed := db, session := db\<rparr>)) \<Longrightarrow>
     triple P (wawait f) Q E"
  by (auto simp: triple_def wawait_def split: prod.split)

lemma triple_log [triples]:
  "(\<And>w. P w \<Longrightarrow> Q () (w\<lparr>calls := calls w @ [c (committed w)]\<rparr>)) \<Longrightarrow> triple P (wlog c) Q E"
  by (simp add: triple_def wlog_def)

lemma triple_if:
  "(b \<Longrightarrow> triple P m Q E) \<Longrightarrow> (\<not> b \<Longrightarrow> triple P n Q E) \<Longrightarrow> triple P (if b then m else n) Q E"
  by simp

lemma triple_mapM:
  assumes "\<And>x. x \<in> set xs \<Longrightarrow> triple I (f x) (\<lambda>_. I) E"
  shows "triple I (wmapM f xs) (\<lambda>_. I) E"
  using assms
proof (induction xs)
  case Nil
  then show ?case by (simp add: triple_ret)
next
  case (Cons x xs)
  then show ?case by (auto intro!: triple_bind triple_ret)
qed

text \<open>A conclusion about the values a mapped operation returns, from an invariant it keeps.\<close>

lemma triple_mapM_all:
  assumes "\<And>x. x \<in> set xs \<Longrightarrow> triple I (f x) (\<lambda>y w. I w \<and> R y w) E"
    and "\<And>x y. x \<in> set xs \<Longrightarrow> triple (\<lambda>w. I w \<and> R y w) (f x) (\<lambda>_ w. I w \<and> R y w) E"
  shows "triple I (wmapM f xs) (\<lambda>ys w. I w \<and> (\<forall>y \<in> set ys. R y w)) E"
  using assms
proof (induction xs)
  case Nil
  then show ?case by (simp add: triple_ret)
next
  case (Cons x xs)
  have keep: "triple (\<lambda>w. I w \<and> R y w) (wmapM f xs) (\<lambda>ys w. (I w \<and> R y w) \<and> (\<forall>z \<in> set ys. R z w)) E" for y
  proof (rule tripleI)
    fix w e w' assume "I w \<and> R y w" "wmapM f xs w = (Inl e, w')"
    moreover have "triple (\<lambda>w. I w \<and> R y w) (wmapM f xs) (\<lambda>_ w. I w \<and> R y w) E"
      using Cons.prems(2) by (intro triple_mapM) simp
    ultimately show "E w'" by (blast dest: triple_Inl)
  next
    fix w ys w' assume a: "I w \<and> R y w" "wmapM f xs w = (Inr ys, w')"
    have "triple (\<lambda>w. I w \<and> R y w) (wmapM f xs) (\<lambda>_ w. I w \<and> R y w) E"
      using Cons.prems(2) by (intro triple_mapM) simp
    with a have "I w' \<and> R y w'" by (blast dest: triple_Inr)
    moreover have "triple I (wmapM f xs) (\<lambda>ys w. I w \<and> (\<forall>y \<in> set ys. R y w)) E"
      using Cons by (intro Cons.IH) simp_all
    with a have "\<forall>z \<in> set ys. R z w'" by (blast dest: triple_Inr)
    ultimately show "(I w' \<and> R y w') \<and> (\<forall>z \<in> set ys. R z w')" by blast
  qed
  have "triple I (f x) (\<lambda>y w. I w \<and> R y w) E" using Cons.prems(1) by simp
  then show ?case
    unfolding wmapM.simps
    by (rule triple_bind) (rule triple_bind[OF keep], rule triple_ret, auto)
qed

text \<open>Loop rules: the assertion knows which elements have been processed.\<close>

lemma triple_foldM_prefix:
  assumes "\<And>done x rest s. xs = done @ x # rest \<Longrightarrow> triple (I done s) (f s x) (I (done @ [x])) E"
  shows "triple (I [] s) (wfoldM f s xs) (I xs) E"
proof -
  have "triple (I pre s) (wfoldM f s ys) (I (pre @ ys)) E" if "xs = pre @ ys" for pre s ys
    using that
  proof (induction ys arbitrary: pre s)
    case Nil
    then show ?case by (simp add: triple_ret)
  next
    case (Cons y ys)
    have "triple (I pre s) (f s y) (I (pre @ [y])) E" using Cons.prems by (rule assms)
    moreover have "triple (I (pre @ [y]) s') (wfoldM f s' ys) (I (pre @ y # ys)) E" for s'
      using Cons.IH[of "pre @ [y]" s'] Cons.prems by simp
    ultimately show ?case by (simp add: triple_bind)
  qed
  from this[of "[]" xs s] show ?thesis by simp
qed

lemma triple_mapM_prefix:
  assumes "\<And>done x rest. xs = done @ x # rest \<Longrightarrow> triple (I done) (f x) (\<lambda>_. I (done @ [x])) E"
  shows "triple (I []) (wmapM f xs) (\<lambda>_. I xs) E"
proof -
  have "triple (I pre) (wmapM f ys) (\<lambda>_. I (pre @ ys)) E" if "xs = pre @ ys" for pre ys
    using that
  proof (induction ys arbitrary: pre)
    case Nil
    then show ?case by (simp add: triple_ret)
  next
    case (Cons y ys)
    have a: "triple (I pre) (f y) (\<lambda>_. I (pre @ [y])) E" using Cons.prems by (rule assms)
    have b: "triple (I (pre @ [y])) (wmapM f ys) (\<lambda>_. I (pre @ y # ys)) E"
      using Cons.IH[of "pre @ [y]"] Cons.prems by simp
    show ?case unfolding wmapM.simps
      by (rule triple_bind[OF a]) (rule triple_bind[OF b], simp add: triple_ret)
  qed
  from this[of "[]" xs] show ?thesis by simp
qed

section \<open>Append-only evidence\<close>

text \<open>
  Attempts and their events are only ever added. \<^verbatim>\<open>grows\<close> is the contract of an operation that
  keeps every row of the two tables, committed or not; \<^verbatim>\<open>silent\<close> of one that makes no provider
  call.
\<close>

definition extends :: "write_db \<Rightarrow> write_db \<Rightarrow> bool" where
  "extends d e \<longleftrightarrow> set (wd_attempts d) \<subseteq> set (wd_attempts e) \<and>
     set (wd_attempt_events d) \<subseteq> set (wd_attempt_events e)"

definition known :: "write_db \<Rightarrow> world \<Rightarrow> bool" where
  "known d w \<longleftrightarrow> extends d (session w) \<and> extends d (committed w)"

definition grows :: "'a wp \<Rightarrow> bool" where
  "grows m \<longleftrightarrow> (\<forall>d. triple (known d) m (\<lambda>_. known d) (known d))"

definition silent :: "'a wp \<Rightarrow> bool" where
  "silent m \<longleftrightarrow> (\<forall>cs. triple (\<lambda>w. calls w = cs) m (\<lambda>_ w. calls w = cs) (\<lambda>w. calls w = cs))"

lemma extends_refl [simp]: "extends d d"
  by (simp add: extends_def)

lemma extends_trans: "extends d e \<Longrightarrow> extends e f \<Longrightarrow> extends d f"
  by (auto simp: extends_def)

named_theorems evidence \<open>growing and silent operations\<close>

lemma grows_bind: "grows m \<Longrightarrow> (\<And>x. grows (f x)) \<Longrightarrow> grows (wbind m f)"
  unfolding grows_def by (blast intro: triple_bind)

lemma silent_bind: "silent m \<Longrightarrow> (\<And>x. silent (f x)) \<Longrightarrow> silent (wbind m f)"
  unfolding silent_def by (blast intro: triple_bind)

lemma grows_primitive [evidence]:
  "grows (wret x)" "grows (wraise e)" "grows (wget g)" "grows (wlift err r)" "grows commit" "grows (wlog c)"
  by (auto simp: grows_def known_def intro!: triples)

lemma silent_primitive [evidence]:
  "silent (wret x)" "silent (wraise e)" "silent (wget g)" "silent (wlift err r)" "silent commit"
  "silent (wmodify f)" "silent (wupdate u)" "silent (wawait a)"
  by (auto simp: silent_def intro!: triples)

lemma grows_modify:
  assumes "\<And>db. extends db (f db)"
  shows "grows (wmodify f)"
  using extends_trans[OF _ assms] by (auto simp: grows_def known_def intro!: triples)

lemma grows_update:
  assumes "\<And>db. extends db (snd (f db))"
  shows "grows (wupdate f)"
proof -
  have "extends d e'" if "extends d e" "f e = (x, e')" for d e x e'
    using extends_trans[OF that(1) assms[of e]] that(2) by simp
  then show ?thesis by (auto simp: grows_def known_def intro!: triples)
qed

lemma grows_await:
  assumes "\<And>db. extends db (snd (f db))"
  shows "grows (wawait f)"
proof -
  have "extends d e'" if "extends d e" "f e = (x, e')" for d e x e'
    using extends_trans[OF that(1) assms[of e]] that(2) by simp
  then show ?thesis by (auto simp: grows_def known_def intro!: triples)
qed

lemma grows_mapM: "(\<And>x. x \<in> set xs \<Longrightarrow> grows (f x)) \<Longrightarrow> grows (wmapM f xs)"
  unfolding grows_def by (blast intro: triple_mapM)

lemma silent_mapM: "(\<And>x. x \<in> set xs \<Longrightarrow> silent (f x)) \<Longrightarrow> silent (wmapM f xs)"
  unfolding silent_def by (blast intro: triple_mapM)

lemma grows_foldM: "(\<And>s x. grows (f s x)) \<Longrightarrow> grows (wfoldM f s xs)"
  by (induction xs arbitrary: s) (auto intro: grows_bind evidence)

lemma silent_foldM: "(\<And>s x. silent (f s x)) \<Longrightarrow> silent (wfoldM f s xs)"
  by (induction xs arbitrary: s) (auto intro: silent_bind evidence)

lemma grows_triple: "grows m \<Longrightarrow> triple (known d) m (\<lambda>_. known d) (known d)"
  by (simp add: grows_def)

lemma silent_triple: "silent m \<Longrightarrow> triple (\<lambda>w. calls w = cs) m (\<lambda>_ w. calls w = cs) (\<lambda>w. calls w = cs)"
  by (simp add: silent_def)

lemma triple_conj:
  "triple P m Q E \<Longrightarrow> triple P' m Q' E' \<Longrightarrow>
    triple (\<lambda>w. P w \<and> P' w) m (\<lambda>x w. Q x w \<and> Q' x w) (\<lambda>w. E w \<and> E' w)"
  by (fastforce simp: triple_def split: prod.splits sum.splits)

end
