(* ===== verification/WritePipeline.thy ===== *)
theory WritePipeline
  imports WriteStore
begin

text \<open>
  The durable write engine (\<^verbatim>\<open>execute_workspace\<close> of \<^verbatim>\<open>app/flowhub/write_pipeline/service.py\<close>), the only
  place of the program that dispatches a write to a provider. Every intent gets an immutable attempt
  row and a first event, committed before any call to a provider; an intent whose attempt already
  exists is verified and never dispatched again; ownership is checked before the dispatch and before
  every outcome is stored; and a price is sent only under the Channel's current pricing authority.

  The connectors, the rate limiter, the clock and \<^verbatim>\<open>uuid4\<close> are the fields of \<^verbatim>\<open>provider_env\<close>. A call
  to a connector sees the committed database and returns the database in which the call ended, so
  other workers can act while it runs.
\<close>

section \<open>The environment\<close>

record provider_env =
  env_connector :: "string \<Rightarrow> string \<Rightarrow> write_error option"
  env_acquire :: "string \<Rightarrow> write_db \<Rightarrow> string option \<times> write_db"
  env_apply :: "string \<Rightarrow> workspace_write_intent list \<Rightarrow> string \<Rightarrow> write_db
                  \<Rightarrow> (string + workspace_write_result list) \<times> write_db"
  env_verify :: "string \<Rightarrow> workspace_write_intent list \<Rightarrow> string \<Rightarrow> write_db
                  \<Rightarrow> (write_error + workspace_write_result list) \<times> write_db"
  env_uuid :: "write_db \<Rightarrow> string"
  env_now :: "write_db \<Rightarrow> instant"
  env_py :: py_runtime
  env_dumps :: "json_dict \<Rightarrow> string"

section \<open>Ownership\<close>

definition job_owned :: "workspace_write_batch_command \<Rightarrow> write_db \<Rightarrow> bool" where
  "job_owned cmd db =
     (case (if wc_intents cmd = [] then None
            else get_row aj_id (wi_apply_job_id (hd (wc_intents cmd))) (wd_jobs db)) of
        None \<Rightarrow> False
      | Some job \<Rightarrow> Some (aj_fencing_token job) = wc_fencing_token cmd \<and>
          aj_lease_token job = wc_lease_token cmd \<and> aj_worker_id job \<noteq> None)"

definition fence_ok :: "workspace_write_batch_command \<Rightarrow> write_db \<Rightarrow> bool" where
  "fence_ok cmd db \<longleftrightarrow>
     (if wc_fencing_token cmd = None \<or> \<not> truthy (wc_lease_token cmd) then True else job_owned cmd db)"

definition assert_workspace_fence :: "workspace_write_batch_command \<Rightarrow> unit wp" where
  "assert_workspace_fence cmd =
     wbind (wget (fence_ok cmd)) (\<lambda>ok. if ok then wret () else wraise Worker_fenced)"

section \<open>Durable intents\<close>

definition same_operation :: "string \<Rightarrow> workspace_write_intent \<Rightarrow> provider_write_attempt \<Rightarrow> bool" where
  "same_operation flow i a \<longleftrightarrow> pa_source_workflow a = flow \<and> pa_operation_id a = wi_apply_job_id i \<and>
     wi_apply_item_ids i \<noteq> [] \<and> pa_logical_item_id a = hd (wi_apply_item_ids i) \<and>
     pa_payload_hash a = wi_payload_hash i"

definition find_attempt ::
  "string \<Rightarrow> workspace_write_intent \<Rightarrow> write_db \<Rightarrow> provider_write_attempt option" where
  "find_attempt flow i db = max_by pa_attempt_number (filter (same_operation flow i) (wd_attempts db))"

definition new_attempt ::
  "string \<Rightarrow> string \<Rightarrow> string \<Rightarrow> workspace_write_intent \<Rightarrow> provider_write_attempt" where
  "new_attempt uuid flow corr i = (let workspace = (flow = ''unified_workspace'') in
     \<lparr>pa_id = ''pwa_'' @ uuid, pa_source_workflow = flow, pa_operation_id = wi_apply_job_id i,
      pa_logical_item_id = hd (wi_apply_item_ids i),
      pa_workspace_id = (if workspace then Some (wi_workspace_id i) else None),
      pa_apply_job_id = (if workspace then Some (wi_apply_job_id i) else None),
      pa_apply_job_item_id = (if workspace then Some (hd (wi_apply_item_ids i)) else None),
      pa_listing_id = wi_listing_id i, pa_channel_id = wi_channel_id i,
      pa_external_identity = wi_external_primary_id i,
      pa_normalized_payload = normalized_payload i, pa_payload_hash = wi_payload_hash i,
      pa_provider_idempotency_key = wi_idempotency_key i, pa_attempt_number = 1,
      pa_correlation_id = corr, pa_pricing_origin = map_option origin_value (wi_pricing_origin i),
      pa_pricing_authority_event_id = wi_pricing_authority_event_id i,
      pa_pricing_authority_head_version = wi_pricing_authority_head_version i\<rparr>)"

text \<open>The two unique constraints of the table, checked when the row is flushed.\<close>

definition attempt_conflict :: "provider_write_attempt \<Rightarrow> write_db \<Rightarrow> bool" where
  "attempt_conflict a db \<longleftrightarrow> list_ex (\<lambda>b.
     (pa_source_workflow b = pa_source_workflow a \<and> pa_operation_id b = pa_operation_id a \<and>
      pa_logical_item_id b = pa_logical_item_id a \<and> pa_attempt_number b = pa_attempt_number a) \<or>
     pa_provider_idempotency_key b = pa_provider_idempotency_key a) (wd_attempts db)"

definition attempt_event_of ::
  "provider_env \<Rightarrow> string \<Rightarrow> write_outcome \<Rightarrow> write_db \<Rightarrow> attempt_event" where
  "attempt_event_of env aid outcome db =
     \<lparr>ve_id = ''pwe_'' @ env_uuid env db, ve_attempt_id = aid, ve_outcome = outcome,
      ve_provider_response = [], ve_error_category = None, ve_error_message = None,
      ve_occurred_at = env_now env db\<rparr>"

definition add_attempt_event :: "attempt_event \<Rightarrow> write_db \<Rightarrow> write_db" where
  "add_attempt_event e db = db\<lparr>wd_attempt_events := wd_attempt_events db @ [e]\<rparr>"

definition insert_attempt :: "provider_write_attempt \<Rightarrow> unit wp" where
  "insert_attempt a = wbind (wget (attempt_conflict a)) (\<lambda>conflict.
     if conflict then wraise Integrity_error
     else wmodify (\<lambda>db. db\<lparr>wd_attempts := wd_attempts db @ [a]\<rparr>))"

text \<open>The dictionary of attempts by listing, and the listings whose attempt existed before.\<close>

type_synonym recorded = "(string, provider_write_attempt) dict \<times> string list"

definition record_intent ::
  "provider_env \<Rightarrow> string \<Rightarrow> string \<Rightarrow> bool \<Rightarrow> recorded \<Rightarrow> workspace_write_intent \<Rightarrow> recorded wp" where
  "record_intent env flow corr reconcile_only acc i =
     (if wi_apply_item_ids i = [] then wraise Index_error else
      wbind (wget (find_attempt flow i)) (\<lambda>existing. case existing of
        Some a \<Rightarrow> wret (AList.update (wi_listing_id i) a (fst acc), wi_listing_id i # snd acc)
      | None \<Rightarrow>
          if reconcile_only then wraise (No_durable_intent (wi_listing_id i)) else
          wbind (wget (\<lambda>db. new_attempt (env_uuid env db) flow corr i)) (\<lambda>a.
          wbind (insert_attempt a) (\<lambda>_.
          wbind (wmodify (\<lambda>db. add_attempt_event
            (attempt_event_of env (pa_id a) W_DISPATCH_INTENT_RECORDED db) db)) (\<lambda>_.
          wret (AList.update (wi_listing_id i) a (fst acc), snd acc))))))"

section \<open>The pricing boundary\<close>

definition pricing_authority_issue ::
  "provider_env \<Rightarrow> workspace_write_batch_command \<Rightarrow> workspace_write_intent \<Rightarrow> write_db
     \<Rightarrow> string option \<times> write_db" where
  "pricing_authority_issue env cmd i db =
     (if wc_pricing_origin cmd = None \<or> wi_pricing_origin i = None \<or>
         wc_pricing_origin cmd \<noteq> wi_pricing_origin i \<or> wi_expected_pricing_authority i = None \<or>
         map_option authority_value (wi_expected_pricing_authority i) \<noteq>
           map_option origin_value (wi_pricing_origin i)
      then (Some ''pricing_origin_not_authorized'', db)
      else (case assert_write_authorized (env_uuid env db) (env_now env db) (wi_channel_id i)
              (wi_pricing_origin i) (wi_pricing_authority_event_id i)
              (wi_pricing_authority_head_version i) (wd_authority db) of
          (Inl e, auth) \<Rightarrow> (Some (authority_code e), db\<lparr>wd_authority := auth\<rparr>)
        | (Inr s, auth) \<Rightarrow> (None, db\<lparr>wd_authority := auth\<rparr>)))"

definition pricing_blocked_event :: "workspace_write_intent \<Rightarrow> string \<Rightarrow> string \<Rightarrow> instant \<Rightarrow> business_event" where
  "pricing_blocked_event i code corr now =
     \<lparr>be_id = [], be_domain = ''pricing'', be_event_type = ''pricing_apply_blocked'',
      be_severity = ''error'', be_business_impact = ''blocking'', be_reason_code = code,
      be_reason_message = ''Pricing apply blocked: '' @ code, be_primary_scope_type = ''channel'',
      be_primary_scope_id = wi_channel_id i, be_primary_scope_label = None,
      be_secondary_scopes = [(''product'', wi_listing_id i, wi_sku i),
        (''review'', wi_review_id i, None), (''workspace'', wi_workspace_id i, None)],
      be_recommended_action =
        ''Review the pricing approval for this channel before retrying the write.'',
      be_retryable = True, be_action_route_key = Some ''workspace.review'',
      be_action_route_params = [(''workspace_id'', JStr (wi_workspace_id i))],
      be_correlation_id = corr,
      be_producer = ''write_pipeline.service._filter_authorized_price_intents'',
      be_occurred_at = now, be_metadata = []\<rparr>"

definition emit_business_event :: "provider_env \<Rightarrow> (write_db \<Rightarrow> business_event) \<Rightarrow> unit wp" where
  "emit_business_event env mk =
     wbind (wget (\<lambda>db. emit_event (env_uuid env db) (''corr_'' @ env_uuid env db) (mk db)
                         (wd_observability db))) (\<lambda>r.
     wbind (wlift Event_error r) (\<lambda>o'. wmodify (\<lambda>db. db\<lparr>wd_observability := o'\<rparr>)))"

definition rejection_result :: "workspace_write_intent \<Rightarrow> string \<Rightarrow> workspace_write_result" where
  "rejection_result i code = (write_result (wi_listing_id i) W_FAILED)
     \<lparr>wr_error_category := Some ''pricing_authority'', wr_error_message := Some code\<rparr>"

definition filter_step ::
  "provider_env \<Rightarrow> workspace_write_batch_command
     \<Rightarrow> workspace_write_intent list \<times> workspace_write_result list \<Rightarrow> workspace_write_intent
     \<Rightarrow> (workspace_write_intent list \<times> workspace_write_result list) wp" where
  "filter_step env cmd acc i =
     (if wi_target_price i = None then wret (fst acc @ [i], snd acc) else
      wbind (wupdate (pricing_authority_issue env cmd i)) (\<lambda>issue. case issue of
        None \<Rightarrow> wret (fst acc @ [i], snd acc)
      | Some code \<Rightarrow>
          wbind (wmodify (\<lambda>db. db\<lparr>wd_authority := record_write_rejection (wi_channel_id i)
            (wi_listing_id i) (wi_apply_job_id i)
            (if wi_pricing_origin i = None then wc_pricing_origin cmd else wi_pricing_origin i)
            (wi_pricing_authority_event_id i) (wi_pricing_authority_head_version i) code
            (wc_correlation_id cmd) (wd_authority db)\<rparr>)) (\<lambda>_.
          wbind (emit_business_event env
            (\<lambda>db. pricing_blocked_event i code (wc_correlation_id cmd) (env_now env db))) (\<lambda>_.
          wret (fst acc, snd acc @ [rejection_result i code])))))"

definition filter_authorized_price_intents ::
  "provider_env \<Rightarrow> workspace_write_batch_command \<Rightarrow> workspace_write_intent list
     \<Rightarrow> (workspace_write_intent list \<times> workspace_write_result list) wp" where
  "filter_authorized_price_intents env cmd is = wfoldM (filter_step env cmd) ([], []) is"

section \<open>Transport reports\<close>

definition as_dict :: "json \<Rightarrow> json_dict option" where
  "as_dict v = (case v of JObj d \<Rightarrow> Some d | _ \<Rightarrow> None)"

definition transport_report :: "workspace_write_result \<Rightarrow> json_dict option" where
  "transport_report r = (case as_dict (jget ''verification'' (wr_response r)) of
     None \<Rightarrow> None | Some v \<Rightarrow> as_dict (jget ''transport'' v))"

definition report_key :: "provider_env \<Rightarrow> json_dict \<Rightarrow> string" where
  "report_key env report = (let k = str_get (env_py env) ''operation_id'' [] report in
     if k = [] then env_dumps env report else k)"

definition unique_reports ::
  "provider_env \<Rightarrow> workspace_write_result list \<Rightarrow> (string, json_dict) dict" where
  "unique_reports env rs = fold (\<lambda>r d. case transport_report r of
     None \<Rightarrow> d | Some rep \<Rightarrow> AList.update (report_key env rep) rep d) rs []"

definition connector_type_of :: "string \<Rightarrow> string" where
  "connector_type_of ch = takeWhile (\<lambda>c. c \<noteq> CHR '':'') ch"

definition increment_telemetry ::
  "instant \<Rightarrow> string \<Rightarrow> string \<Rightarrow> int \<Rightarrow> int \<Rightarrow> int \<Rightarrow> int \<Rightarrow> int \<Rightarrow> int \<Rightarrow> rat option
     \<Rightarrow> write_db \<Rightarrow> write_db" where
  "increment_telemetry now ch ty requests errors retries throttles fetched rows_parsed latency db =
     (let rows = (if get_row ct_connector_id ch (wd_telemetry db) = None
          then wd_telemetry db @ [\<lparr>ct_connector_id = ch, ct_connector_type = ty,
            ct_request_count = 0, ct_error_count = 0, ct_retry_count = 0, ct_throttle_events = 0,
            ct_products_fetched = 0, ct_rows_parsed = 0, ct_avg_latency_ms = None,
            ct_window_start = now, ct_window_end = None\<rparr>]
          else wd_telemetry db)
      in db\<lparr>wd_telemetry := upd_row ct_connector_id ch (\<lambda>r.
          r\<lparr>ct_request_count := ct_request_count r + requests,
            ct_error_count := ct_error_count r + errors,
            ct_retry_count := ct_retry_count r + retries,
            ct_throttle_events := ct_throttle_events r + throttles,
            ct_products_fetched := ct_products_fetched r + fetched,
            ct_rows_parsed := ct_rows_parsed r + rows_parsed,
            ct_avg_latency_ms := (if latency = None then ct_avg_latency_ms r else latency),
            ct_window_end := Some now\<rparr>) rows\<rparr>)"

definition record_report :: "provider_env \<Rightarrow> string \<Rightarrow> json_dict \<Rightarrow> unit wp" where
  "record_report env ch rep =
     wbind (wlift Python_error (int_get ''requests_issued'' rep)) (\<lambda>requests.
     if requests \<le> 0 then wret () else
     wbind (wlift Python_error (if json_truthy (jget ''provider_response_ms'' rep)
       then py_float (env_py env) (jget ''provider_response_ms'' rep) else Inr 0)) (\<lambda>ms.
     wbind (wlift Python_error (int_get ''failed_requests'' rep)) (\<lambda>errors.
     wbind (wlift Python_error (int_get ''retries'' rep)) (\<lambda>retries.
     wbind (wlift Python_error (int_get ''entities_returned'' rep)) (\<lambda>fetched.
     wbind (wmodify (\<lambda>db. increment_telemetry (env_now env db) ch (connector_type_of ch) requests
       errors retries 0 fetched 0 (Some (ms / of_int requests)) db)) (\<lambda>_. commit))))))"

definition record_transport_reports ::
  "provider_env \<Rightarrow> string \<Rightarrow> workspace_write_result list \<Rightarrow> unit list wp" where
  "record_transport_reports env ch rs =
     wmapM (\<lambda>(k, rep). record_report env ch rep) (unique_reports env rs)"

section \<open>Dispatch\<close>

definition rate_limit_result :: "string \<Rightarrow> workspace_write_intent \<Rightarrow> workspace_write_result" where
  "rate_limit_result msg i = (write_result (wi_listing_id i) W_FAILED)
     \<lparr>wr_error_category := Some ''rate_limit'', wr_error_message := Some msg,
      wr_retry_eligible := True\<rparr>"

definition unknown_result :: "string \<Rightarrow> workspace_write_intent \<Rightarrow> workspace_write_result" where
  "unknown_result msg i = (write_result (wi_listing_id i) W_RECONCILIATION_REQUIRED)
     \<lparr>wr_error_category := Some ''provider_unknown'', wr_error_message := Some msg\<rparr>"

text \<open>One permit per intent; the first refusal ends the loop with its text.\<close>

fun acquire_permits :: "provider_env \<Rightarrow> string \<Rightarrow> workspace_write_intent list \<Rightarrow> string option wp" where
  "acquire_permits env ch [] = wret None"
| "acquire_permits env ch (i # is) = wbind (wawait (env_acquire env ch)) (\<lambda>refused.
     case refused of Some msg \<Rightarrow> wret (Some msg) | None \<Rightarrow> acquire_permits env ch is)"

definition mark_dispatched ::
  "provider_env \<Rightarrow> (string, provider_write_attempt) dict \<Rightarrow> workspace_write_intent \<Rightarrow> unit wp" where
  "mark_dispatched env att i = (case map_of att (wi_listing_id i) of
     None \<Rightarrow> wraise (Key_error (wi_listing_id i))
   | Some a \<Rightarrow> wmodify (\<lambda>db. add_attempt_event (attempt_event_of env (pa_id a) W_DISPATCHED db) db))"

definition call_apply ::
  "provider_env \<Rightarrow> workspace_write_batch_command \<Rightarrow> string \<Rightarrow> workspace_write_intent list
     \<Rightarrow> workspace_write_result list wp" where
  "call_apply env cmd ch is =
     wbind (wlog (Apply_updates ch is)) (\<lambda>_.
     wbind (wawait (env_apply env ch is (wc_requested_by cmd))) (\<lambda>r. case r of
       Inl msg \<Rightarrow> wret (map (unknown_result msg) is) | Inr rs \<Rightarrow> wret rs))"

definition dispatch_pending ::
  "provider_env \<Rightarrow> workspace_write_batch_command \<Rightarrow> (string, provider_write_attempt) dict \<Rightarrow> string
     \<Rightarrow> workspace_write_intent list \<Rightarrow> workspace_write_result list wp" where
  "dispatch_pending env cmd att ch pending =
     wbind (acquire_permits env ch pending) (\<lambda>refused. case refused of
       Some msg \<Rightarrow> wret (map (rate_limit_result msg) pending)
     | None \<Rightarrow>
         wbind (assert_workspace_fence cmd) (\<lambda>_.
         wbind (filter_authorized_price_intents env cmd pending) (\<lambda>(allowed, rejected).
         wbind (wmapM (mark_dispatched env att) allowed) (\<lambda>_.
         wbind commit (\<lambda>_.
         if allowed = [] then wret rejected
         else wbind (call_apply env cmd ch allowed) (\<lambda>rs. wret (rejected @ rs)))))))"

definition call_verify ::
  "provider_env \<Rightarrow> workspace_write_batch_command \<Rightarrow> string \<Rightarrow> workspace_write_intent list
     \<Rightarrow> workspace_write_result list wp" where
  "call_verify env cmd ch is =
     wbind (wlog (Verify_updates ch is)) (\<lambda>_.
     wbind (wawait (env_verify env ch is (wc_requested_by cmd))) (\<lambda>r. wlift id r))"

section \<open>Outcomes\<close>

definition outcome_event ::
  "provider_env \<Rightarrow> string \<Rightarrow> workspace_write_result \<Rightarrow> write_db \<Rightarrow> attempt_event" where
  "outcome_event env aid r db = (attempt_event_of env aid (wr_outcome r) db)
     \<lparr>ve_provider_response := redact_dict (wr_response r),
      ve_error_category := wr_error_category r, ve_error_message := wr_error_message r\<rparr>"

definition persist_result ::
  "provider_env \<Rightarrow> workspace_write_batch_command \<Rightarrow> (string, provider_write_attempt) dict
     \<Rightarrow> workspace_write_result \<Rightarrow> workspace_write_result wp" where
  "persist_result env cmd att r =
     wbind (assert_workspace_fence cmd) (\<lambda>_.
     case map_of att (wr_listing r) of
       None \<Rightarrow> wraise (Key_error (wr_listing r))
     | Some a \<Rightarrow>
         wbind (if wr_provider_accepted r
                then wmodify (\<lambda>db. add_attempt_event
                  ((attempt_event_of env (pa_id a) W_PROVIDER_ACCEPTED db)
                     \<lparr>ve_provider_response := redact_dict (wr_response r)\<rparr>) db)
                else wret ()) (\<lambda>_.
         wbind (wmodify (\<lambda>db. add_attempt_event (outcome_event env (pa_id a) r db) db)) (\<lambda>_.
         wret r)))"

definition dispatch_channel ::
  "provider_env \<Rightarrow> workspace_write_batch_command \<Rightarrow> string \<Rightarrow> bool \<Rightarrow> recorded
     \<Rightarrow> string \<times> workspace_write_intent list \<Rightarrow> workspace_write_result list wp" where
  "dispatch_channel env cmd flow reconcile_only rec = (\<lambda>(ch, is).
     (let pending = filter (\<lambda>i. wi_listing_id i \<notin> set (snd rec)) is;
          prior = filter (\<lambda>i. wi_listing_id i \<in> set (snd rec)) is
      in wbind (case env_connector env flow ch of Some e \<Rightarrow> wraise e | None \<Rightarrow> wret ()) (\<lambda>_.
         wbind (if pending \<noteq> [] \<and> \<not> reconcile_only
                then dispatch_pending env cmd (fst rec) ch pending else wret []) (\<lambda>r1.
         wbind (if prior \<noteq> [] \<or> reconcile_only
                then call_verify env cmd ch (if reconcile_only then is else prior)
                else wret []) (\<lambda>r2.
         wbind (record_transport_reports env ch (r1 @ r2)) (\<lambda>_.
         wbind (wmapM (persist_result env cmd (fst rec)) (r1 @ r2)) (\<lambda>rs.
         wbind commit (\<lambda>_. wret rs))))))))"

definition execute_workspace ::
  "provider_env \<Rightarrow> workspace_write_batch_command \<Rightarrow> bool \<Rightarrow> workspace_write_result list wp" where
  "execute_workspace env cmd reconcile_only =
     (let flow = (if wc_source_workflow cmd = [] then ''unified_workspace'' else wc_source_workflow cmd)
      in wbind (assert_workspace_fence cmd) (\<lambda>_.
         wbind (wfoldM (record_intent env flow (wc_correlation_id cmd) reconcile_only) ([], [])
                  (wc_intents cmd)) (\<lambda>rec.
         wbind commit (\<lambda>_.
         wbind (wmapM (dispatch_channel env cmd flow reconcile_only rec)
                  (group_by wi_channel_id (wc_intents cmd))) (\<lambda>rss.
         wret (concat rss))))))"

end
