(* ===== verification/WriteBatches.thy ===== *)
theory WriteBatches
  imports WritePipeline
begin

text \<open>
  The operator's batches (\<^verbatim>\<open>create_dry_run\<close>, \<^verbatim>\<open>approve\<close> and \<^verbatim>\<open>execute\<close> of
  \<^verbatim>\<open>app/flowhub/write_pipeline/service.py\<close>): a dry run is validated row by row and hashed, approval
  binds the hash, and execution is a separate action that goes through the durable engine. Prices
  are finite rationals once validated; the selection of preview rows, the adapter, \<^verbatim>\<open>sha256\<close> and
  \<^verbatim>\<open>json.dumps\<close> are arguments, and so is the catalog of Channels that seeding creates.
\<close>

section \<open>Requests\<close>

datatype py_number = Finite rat | Infinite bool | Not_a_number

record price_change =
  pc_product_id :: string
  pc_product_name :: string
  pc_sku :: string
  pc_current_price :: py_number
  pc_proposed_price :: py_number
  pc_currency :: string
  pc_extras :: json_dict

record dry_run_request =
  dr_preview_id :: string
  dr_selected_row_ids :: "string list"
  dr_extras :: json_dict

record preview_selection =
  sel_changes :: "price_change list"
  sel_summary :: json_dict
  sel_preview_hash :: string

record write_adapter =
  ad_supports :: "string \<Rightarrow> string \<Rightarrow> bool"
  ad_channel_type :: string
  ad_channel_ids :: "string list"
  ad_scheduler_supported :: bool
  ad_automatic_apply_supported :: bool
  ad_validate_item :: "price_change \<Rightarrow> write_error option"

record batch_env =
  be_provider :: provider_env
  be_registry :: "write_adapter list"
  be_sha256 :: "string \<Rightarrow> string"
  be_catalog :: "string list"

definition MAX_ITEMS :: nat where "MAX_ITEMS = 100"
definition MAX_DELTA_PERCENT :: rat where "MAX_DELTA_PERCENT = 50"

definition forbidden_stock_keys :: "string list" where
  "forbidden_stock_keys = [''stock'', ''stock_status'', ''stockstatus'', ''stock_quantity'',
     ''stockquantity'', ''inventory'', ''manage_stock'', ''managestock'']"

definition stock_operation_types :: "string list" where
  "stock_operation_types = [''stock_update'', ''inventory_update'', ''write_inventory'', ''update_stock'']"

definition automatic_apply_keys :: "string list" where
  "automatic_apply_keys = [''automaticApply'', ''automatic_apply'', ''applyNow'', ''apply_now'',
     ''scheduler'', ''scheduled'']"

section \<open>Adapters\<close>

definition registry_get :: "write_adapter list \<Rightarrow> string \<Rightarrow> string \<Rightarrow> write_adapter option" where
  "registry_get reg ch op = List.find (\<lambda>a. ad_supports a ch op) reg"

definition adapter_for :: "batch_env \<Rightarrow> string \<Rightarrow> string \<Rightarrow> write_error + write_adapter" where
  "adapter_for env ch op =
     (if op \<in> set stock_operation_types then Inl (Http_error 403 ''stock_writes_disabled'')
      else (case registry_get (be_registry env) ch op of
          None \<Rightarrow> Inl (Http_error 403 ''unsupported_channel_write'')
        | Some a \<Rightarrow> if ad_scheduler_supported a \<or> ad_automatic_apply_supported a
                    then Inl (Http_error 403 ''unsafe_write_capability'') else Inr a))"

section \<open>Validation\<close>

definition preview_rejected_event :: "string \<Rightarrow> string \<Rightarrow> instant \<Rightarrow> business_event" where
  "preview_rejected_event preview reason now =
     \<lparr>be_id = [], be_domain = ''write_pipeline'', be_event_type = ''write_dry_run_rejected'',
      be_severity = ''warning'', be_business_impact = ''blocking'', be_reason_code = reason,
      be_reason_message = ''Dry Run request rejected: '' @ reason, be_primary_scope_type = ''batch'',
      be_primary_scope_id = preview, be_primary_scope_label = Some (''Preview '' @ preview),
      be_secondary_scopes = [], be_recommended_action = ''Review the Dry Run request and retry.'',
      be_retryable = True, be_action_route_key = Some ''workspace.home'', be_action_route_params = [],
      be_correlation_id = [], be_producer = ''write_pipeline.service._record_preview_rejection'',
      be_occurred_at = now, be_metadata = []\<rparr>"

definition record_preview_rejection ::
  "batch_env \<Rightarrow> dry_run_request \<Rightarrow> string \<Rightarrow> string \<Rightarrow> unit wp" where
  "record_preview_rejection env body user reason =
     wbind (wmodify (\<lambda>db. db\<lparr>wd_integration_events := wd_integration_events db @
       [(''dry_run_rejected'', redact_dict
          [(''preview_id'', JStr (dr_preview_id body)),
           (''selected_row_ids'', JList (map JStr (dr_selected_row_ids body))),
           (''selected_row_count'', JInt (int (length (dr_selected_row_ids body)))),
           (''reason'', JStr reason), (''actor'', JStr user),
           (''execution_attempted'', JBool False)])]\<rparr>)) (\<lambda>_.
     wbind commit (\<lambda>_.
     wbind (emit_business_event (be_provider env)
       (\<lambda>db. preview_rejected_event (dr_preview_id body) reason (env_now (be_provider env) db))) (\<lambda>_.
     commit)))"

text \<open>The reason to refuse a request's extra fields, with the status and the text of the error.\<close>

definition request_issue :: "py_runtime \<Rightarrow> json_dict \<Rightarrow> (string \<times> nat \<times> string) option" where
  "request_issue py extras =
     (if list_ex (\<lambda>k. k \<in> set automatic_apply_keys) (map fst extras)
      then Some (''automatic_apply_disabled'', 403, ''automatic_apply_disabled'')
      else if jget ''channelId'' extras \<noteq> JNull \<and> jget ''channelId'' extras \<noteq> JStr ''woocommerce:primary''
      then Some (''unsupported_channel_write'', 403, ''unsupported_channel_write'')
      else if py_lower (str_get py ''operationType'' [] extras) \<in> set stock_operation_types
      then Some (''stock_writes_disabled'', 403, ''stock_writes_disabled'')
      else if list_ex (\<lambda>k. py_lower k \<in> set forbidden_stock_keys) (map fst extras)
      then Some (''stock_writes_disabled'', 403, ''stock_writes_disabled'')
      else if extras \<noteq> []
      then Some (''DRY_RUN_REQUEST_FIELDS_INVALID'', 422,
        ''DRY_RUN_REQUEST_FIELDS_INVALID: submit only previewId and selectedRowIds.'')
      else None)"

definition validate_request_controls :: "batch_env \<Rightarrow> dry_run_request \<Rightarrow> string \<Rightarrow> unit wp" where
  "validate_request_controls env body user =
     (case request_issue (env_py (be_provider env)) (dr_extras body) of
        None \<Rightarrow> wret ()
      | Some (reason, status, text) \<Rightarrow>
          wbind (record_preview_rejection env body user reason) (\<lambda>_. wraise (Http_error status text)))"

definition delta_percent :: "rat \<Rightarrow> rat \<Rightarrow> rat" where
  "delta_percent current proposed = (if current = 0 then 0 else (proposed - current) / current * 100)"

definition change_keys :: "price_change \<Rightarrow> string list" where
  "change_keys c = [''productId'', ''productName'', ''sku'', ''currentPrice'', ''proposedPrice'',
     ''currency'', ''changePct''] @ map fst (pc_extras c)"

text \<open>The checks of one row, in the code's order: where it comes from, then its prices; the result is
  the row's absolute delta.\<close>

definition row_issue :: "string \<Rightarrow> price_change \<Rightarrow> write_error option" where
  "row_issue preview c =
     (if (case as_dict (jget ''source'' (pc_extras c)) of None \<Rightarrow> True
          | Some s \<Rightarrow> jget ''previewId'' s \<noteq> JStr preview)
      then Some (Http_error 422 ''Dry Run changes must come from the active Workspace preview.'')
      else if jget ''eligible_for_dry_run'' (pc_extras c) \<noteq> JBool True
      then Some (Http_error 422 ''Rows with validation errors cannot enter Dry Run.'')
      else if jget ''status'' (pc_extras c) = JStr ''error'' \<or>
              jget ''validationStatus'' (pc_extras c) = JStr ''error''
      then Some (Http_error 422 ''Rows with validation errors cannot enter Dry Run.'')
      else if list_ex (\<lambda>k. py_lower k \<in> set forbidden_stock_keys) (change_keys c)
      then Some (Http_error 403 ''Stock updates are blocked in FlowHub 1.0.0.'') else None)"

definition price_delta :: "py_number \<Rightarrow> py_number \<Rightarrow> write_error + rat" where
  "price_delta cur prop = (case (cur, prop) of
     (Finite current, Finite proposed) \<Rightarrow>
       if current < 0 \<or> proposed \<le> 0 then Inl (Http_error 422 ''Prices must be positive.'')
       else if MAX_DELTA_PERCENT < \<bar>delta_percent current proposed\<bar>
       then Inl (Http_error 422 ''Price change exceeds the 50% safety gate.'')
       else Inr \<bar>delta_percent current proposed\<bar>
   | _ \<Rightarrow> Inl (Http_error 422 ''Prices must be finite numbers.''))"

definition validate_change :: "write_adapter \<Rightarrow> string \<Rightarrow> price_change \<Rightarrow> write_error + rat" where
  "validate_change adapter preview c = (case row_issue preview c of
     Some e \<Rightarrow> Inl e
   | None \<Rightarrow> rbind (price_delta (pc_current_price c) (pc_proposed_price c)) (\<lambda>delta.
       case ad_validate_item adapter c of Some e \<Rightarrow> Inl e | None \<Rightarrow> Inr delta))"

definition round_half_even :: "rat \<Rightarrow> int" where
  "round_half_even x = (let f = \<lfloor>x\<rfloor>; d = x - of_int f in
     if d < 1 / 2 then f else if 1 / 2 < d then f + 1 else if even f then f else f + 1)"

definition validate_changes ::
  "write_adapter \<Rightarrow> string \<Rightarrow> string \<Rightarrow> json_dict \<Rightarrow> price_change list \<Rightarrow> write_error + json_dict" where
  "validate_changes adapter op preview summary cs =
     (if MAX_ITEMS < length cs then Inl (Http_error 422 ''Dry Run is limited to 100 items.'')
      else if preview = [] then Inl (Http_error 422 ''Dry Run requires a Workspace preview ID.'') else
      rbind (rmap (validate_change adapter preview) cs) (\<lambda>deltas.
      if 1 < length (remdups (map pc_currency cs))
      then Inl (Http_error 422 ''Dry Run must use a single currency.'') else
      rbind (map_sum Python_error id (int_get ''unchanged_rows'' summary)) (\<lambda>skipped.
      rbind (map_sum Python_error id (int_get ''error_rows'' summary)) (\<lambda>blocked.
      rbind (map_sum Python_error id (int_get ''warning_rows'' summary)) (\<lambda>warnings.
      Inr [(''operation'', JStr op),
           (''channel_id'', JStr (case ad_channel_ids adapter of [] \<Rightarrow> [] | c # _ \<Rightarrow> c)),
           (''item_count'', JInt (int (length cs))), (''eligible_rows'', JInt (int (length cs))),
           (''skipped_rows'', JInt skipped), (''blocked_rows'', JInt blocked),
           (''warning_rows'', JInt warnings),
           (''estimated_affected_products'', JInt (int (length (remdups (map pc_product_id cs))))),
           (''max_delta_percent'', JNum (of_int (round_half_even (foldr max deltas 0 * 10000)) / 10000)),
           (''stock_update_allowed'', JBool False), (''scheduler_started'', JBool False),
           (''automatic_apply'', JBool False),
           (''marketplace_writes_limited_to'', JList [JStr (ad_channel_type adapter)])])))))"

section \<open>Hashes\<close>

text \<open>\<^verbatim>\<open>f"{x:.4f}"\<close>\<close>

definition pad4 :: "string \<Rightarrow> string" where
  "pad4 s = replicate (4 - length s) (CHR ''0'') @ s"

definition fmt4 :: "rat \<Rightarrow> string" where
  "fmt4 x = (let n = round_half_even (\<bar>x\<bar> * 10000) in
     (if x < 0 then ''-'' else []) @ show_int (n div 10000) @ ''.'' @ pad4 (show_int (n mod 10000)))"

definition join :: "string \<Rightarrow> string list \<Rightarrow> string" where
  "join sep xs = (case xs of [] \<Rightarrow> [] | y # ys \<Rightarrow> y @ concat (map (\<lambda>s. sep @ s) ys))"

definition fingerprint_keys :: "string list" where
  "fingerprint_keys = [''previewId'', ''sourceSnapshotId'', ''sourceSnapshotVersion'',
     ''sourceFilePath'', ''worksheet'', ''rowNumber'']"

definition source_fingerprint :: "py_runtime \<Rightarrow> json \<Rightarrow> string" where
  "source_fingerprint py source = (case as_dict source of None \<Rightarrow> []
     | Some d \<Rightarrow> join ''|'' (map (\<lambda>k. str_get py k [] d) fingerprint_keys))"

definition finite_value :: "py_number \<Rightarrow> rat" where
  "finite_value x = (case x of Finite r \<Rightarrow> r | _ \<Rightarrow> 0)"

definition hash_line :: "string list \<Rightarrow> string" where
  "hash_line parts = join ''|'' parts"

definition batch_hash :: "batch_env \<Rightarrow> price_change list \<Rightarrow> string \<Rightarrow> string \<Rightarrow> string" where
  "batch_hash env cs ch op = (let py = env_py (be_provider env) in
     be_sha256 env (join [CHR 0x0A] ([ch, op] @ map (\<lambda>c. hash_line
       [pc_product_id c, fmt4 (finite_value (pc_current_price c)),
        fmt4 (finite_value (pc_proposed_price c)), pc_currency c,
        source_fingerprint py (jget ''source'' (pc_extras c)),
        str_get py ''itemType'' ''simple'' (pc_extras c),
        str_get py ''parentProductId'' [] (pc_extras c),
        str_get py ''variationId'' [] (pc_extras c)]) (sort_key pc_product_id cs))))"

definition batch_hash_from_row :: "batch_env \<Rightarrow> write_batch \<Rightarrow> string" where
  "batch_hash_from_row env b = (let py = env_py (be_provider env) in
     be_sha256 env (join [CHR 0x0A] ([wb_channel_id b, wb_operation_type b] @ map (\<lambda>it. hash_line
       [it_channel_product_id it, fmt4 (it_current_price it), fmt4 (it_proposed_price it),
        it_currency it, str_get py ''source_fingerprint'' [] (it_snapshot it),
        str_get py ''item_type'' ''simple'' (it_snapshot it),
        str_get py ''parent_product_id'' [] (it_snapshot it),
        str_get py ''variation_id'' [] (it_snapshot it)])
       (sort_key it_channel_product_id (wb_items b)))))"

section \<open>Dry run\<close>

definition record_event ::
  "batch_env \<Rightarrow> string \<Rightarrow> string \<Rightarrow> string \<Rightarrow> int option \<Rightarrow> string \<Rightarrow> json_dict \<Rightarrow> string \<Rightarrow> unit wp" where
  "record_event env batch event_type message item severity metadata corr =
     wmodify (\<lambda>db. db\<lparr>wd_events := wd_events db @
       [\<lparr>we_batch_id = batch, we_item_id = item, we_event_type = event_type,
         we_severity = severity, we_message = message, we_metadata = redact_dict metadata,
         we_correlation_id = (if corr = [] then ''corr_'' @ env_uuid (be_provider env) db else corr)\<rparr>]\<rparr>)"

definition jor :: "json \<Rightarrow> json \<Rightarrow> json" where
  "jor a b = (if json_truthy a then a else b)"

definition item_of_change :: "py_runtime \<Rightarrow> int \<Rightarrow> price_change \<Rightarrow> write_item" where
  "item_of_change py iid c =
     (let ex = pc_extras c; cur = finite_value (pc_current_price c);
          prop = finite_value (pc_proposed_price c); source = jget ''source'' ex in
      \<lparr>it_id = iid, it_channel_product_id = pc_product_id c, it_sku = pc_sku c,
       it_product_name = pc_product_name c, it_current_price = cur, it_proposed_price = prop,
       it_delta_amount = prop - cur, it_delta_percent = delta_percent cur prop,
       it_currency = pc_currency c,
       it_snapshot =
         [(''productId'', JStr (pc_product_id c)), (''sku'', JStr (pc_sku c)), (''price'', JNum cur),
          (''currency'', JStr (pc_currency c)), (''source'', source),
          (''validation_warnings'', (case map_of ex ''validationWarnings'' of None \<Rightarrow> JList [] | Some v \<Rightarrow> v)),
          (''status'', jor (jget ''status'' ex) (jget ''validationStatus'' ex)),
          (''item_type'', JStr (str_get py ''itemType'' ''simple'' ex)),
          (''parent_product_id'', jget ''parentProductId'' ex),
          (''parent_product_name'', jget ''parentProductName'' ex),
          (''variation_id'', jget ''variationId'' ex),
          (''variation_attributes'', jor (jget ''variationAttributes'' ex) (JList [])),
          (''source_fingerprint'', JStr (source_fingerprint py source))],
       it_status = ''pending'', it_provider_result = [], it_error_code = None,
       it_error_message = None\<rparr>)"

definition next_item_id :: "write_db \<Rightarrow> int" where
  "next_item_id db = 1 + int (length (concat (map wb_items (wd_batches db))))"

definition batch_of_selection ::
  "batch_env \<Rightarrow> write_adapter \<Rightarrow> dry_run_request \<Rightarrow> string \<Rightarrow> preview_selection \<Rightarrow> json_dict \<Rightarrow> write_db
     \<Rightarrow> write_batch" where
  "batch_of_selection env adapter body user sel safety db =
     \<lparr>wb_id = ''wb_'' @ env_uuid (be_provider env) db, wb_channel_id = ''woocommerce:primary'',
      wb_channel_type = ad_channel_type adapter, wb_operation_type = ''price_update'',
      wb_status = ''dry_run_ready'', wb_source_preview_id = Some (dr_preview_id body),
      wb_batch_hash = batch_hash env (sel_changes sel) ''woocommerce:primary'' ''price_update'',
      wb_item_count = length (sel_changes sel),
      wb_currency = (case sel_changes sel of [] \<Rightarrow> [] | c # _ \<Rightarrow> pc_currency c),
      wb_created_by = user, wb_approved_by = None, wb_approval_reason = None,
      wb_safety_summary = safety @
        [(''selected_row_ids'', JList (map JStr (dr_selected_row_ids body))),
         (''preview_hash'', JStr (sel_preview_hash sel))],
      wb_approved_at = None, wb_executed_at = None,
      wb_items = map (\<lambda>(k, c). item_of_change (env_py (be_provider env)) (next_item_id db + int k) c)
        (enumerate 0 (sel_changes sel))\<rparr>"

definition dry_run_metadata :: "write_batch \<Rightarrow> json_dict \<Rightarrow> dry_run_request \<Rightarrow> string \<Rightarrow> preview_selection \<Rightarrow> json_dict" where
  "dry_run_metadata b safety body user sel =
     [(''approval_recorded'', JBool False), (''execution_attempted'', JBool False),
      (''actor'', JStr user), (''channel_id'', JStr (wb_channel_id b)),
      (''operation_type'', JStr (wb_operation_type b)), (''batch_hash'', JStr (wb_batch_hash b)),
      (''item_count'', JInt (int (wb_item_count b))), (''eligible_rows'', jget ''eligible_rows'' safety),
      (''skipped_rows'', jget ''skipped_rows'' safety), (''blocked_rows'', jget ''blocked_rows'' safety),
      (''source_preview_id'', JStr (dr_preview_id body)),
      (''preview_hash'', JStr (sel_preview_hash sel)),
      (''selected_row_ids'', JList (map JStr (dr_selected_row_ids body))),
      (''selected_row_count'', JInt (int (length (dr_selected_row_ids body)))),
      (''source_rows'', JList (filter json_truthy (map (\<lambda>c. jget ''source'' (pc_extras c)) (sel_changes sel))))]"

text \<open>The selection is what the preview store returned: its failure with a status and a code, or rows.\<close>

definition create_dry_run ::
  "batch_env \<Rightarrow> dry_run_request \<Rightarrow> string \<Rightarrow> (nat \<times> string) + preview_selection \<Rightarrow> write_batch wp" where
  "create_dry_run env body user selection =
     wbind (validate_request_controls env body user) (\<lambda>_. case selection of
       Inl (status, code) \<Rightarrow>
         wbind (record_preview_rejection env body user code) (\<lambda>_. wraise (Http_error status code))
     | Inr sel \<Rightarrow>
         wbind (wlift id (adapter_for env ''woocommerce:primary'' ''price_update'')) (\<lambda>adapter.
         wbind (wlift id (validate_changes adapter ''price_update'' (dr_preview_id body)
           (sel_summary sel) (sel_changes sel))) (\<lambda>safety.
         wbind (wget (batch_of_selection env adapter body user sel safety)) (\<lambda>b.
         wbind (wmodify (\<lambda>db. db\<lparr>wd_batches := wd_batches db @ [b]\<rparr>)) (\<lambda>_.
         wbind (record_event env (wb_id b) ''dry_run_created_from_preview''
           ''Dry Run created from immutable selected preview rows. No marketplace write was executed.''
           None ''info'' (dry_run_metadata b safety body user sel) []) (\<lambda>_.
         wbind commit (\<lambda>_. wret b)))))))"

section \<open>Approval\<close>

definition get_batch :: "string \<Rightarrow> write_batch wp" where
  "get_batch bid = wbind (wget (\<lambda>db. get_row wb_id bid (wd_batches db))) (\<lambda>r. case r of
     None \<Rightarrow> wraise (Http_error 404 ''Dry Run not found.'') | Some b \<Rightarrow> wret b)"

definition assert_batch_hash :: "batch_env \<Rightarrow> write_batch \<Rightarrow> unit wp" where
  "assert_batch_hash env b =
     (if batch_hash_from_row env b \<noteq> wb_batch_hash b
      then wraise (Http_error 409 ''approval_hash_mismatch'') else wret ())"

definition update_batch :: "string \<Rightarrow> (write_batch \<Rightarrow> write_batch) \<Rightarrow> unit wp" where
  "update_batch bid f = wmodify (\<lambda>db. db\<lparr>wd_batches := upd_row wb_id bid f (wd_batches db)\<rparr>)"

definition approve :: "batch_env \<Rightarrow> string \<Rightarrow> string option \<Rightarrow> string \<Rightarrow> write_batch wp" where
  "approve env bid reason user =
     wbind (get_batch bid) (\<lambda>b.
     if wb_status b \<noteq> ''dry_run_ready''
     then wraise (Http_error 409 ''Only a completed Dry Run can be approved.'') else
     wbind (assert_batch_hash env b) (\<lambda>_.
     wbind (wget (env_now (be_provider env))) (\<lambda>now.
     wbind (update_batch (wb_id b) (\<lambda>r. r\<lparr>wb_status := ''approved'', wb_approved_by := Some user,
       wb_approved_at := Some now, wb_approval_reason := reason\<rparr>)) (\<lambda>_.
     wbind (record_event env (wb_id b) ''approved'' ''Approved. Execution was not started.'' None ''info''
       [(''approval_recorded'', JBool True), (''execution_attempted'', JBool False),
        (''actor'', JStr user), (''approved_item_count'', JInt (int (wb_item_count b))),
        (''batch_hash'', JStr (wb_batch_hash b)), (''channel_id'', JStr (wb_channel_id b))] []) (\<lambda>_.
     wbind commit (\<lambda>_. get_batch bid))))))"

section \<open>Execution\<close>

definition legacy_correlation_id :: "write_batch \<Rightarrow> write_db \<Rightarrow> string option" where
  "legacy_correlation_id b db =
     (case List.find (\<lambda>s. s \<noteq> []) (map (\<lambda>e. if we_correlation_id e \<noteq> [] then we_correlation_id e
         else (case jget ''correlation_id'' (we_metadata e) of JStr s \<Rightarrow> s | _ \<Rightarrow> []))
       (rev (filter (\<lambda>e. we_batch_id e = wb_id b) (wd_events db)))) of
      None \<Rightarrow> None | Some s \<Rightarrow> Some s)"

definition legacy_listing_id :: "write_item \<Rightarrow> string \<Rightarrow> string" where
  "legacy_listing_id it ch =
     ''legacy:'' @ (if ch = [] then ''woocommerce:primary'' else ch) @ '':'' @ it_channel_product_id it"

definition item_type :: "py_runtime \<Rightarrow> write_item \<Rightarrow> string" where
  "item_type py it = str_get py ''item_type'' ''simple'' (it_snapshot it)"

definition optional_text :: "py_runtime \<Rightarrow> json \<Rightarrow> string option" where
  "optional_text py v = (if v = JNull \<or> v = JStr [] then None else Some (py_str py v))"

definition parent_product_id :: "py_runtime \<Rightarrow> write_item \<Rightarrow> string option" where
  "parent_product_id py it = optional_text py (jget ''parent_product_id'' (it_snapshot it))"

definition variation_id :: "py_runtime \<Rightarrow> write_item \<Rightarrow> string option" where
  "variation_id py it = optional_text py (jget ''variation_id'' (it_snapshot it))"

definition item_source :: "write_item \<Rightarrow> json" where
  "item_source it = (case as_dict (jget ''source'' (it_snapshot it)) of None \<Rightarrow> JNull | Some d \<Rightarrow> JObj d)"

definition variation_attributes :: "write_item \<Rightarrow> json list" where
  "variation_attributes it = (case jget ''variation_attributes'' (it_snapshot it) of
     JList vs \<Rightarrow> filter (\<lambda>v. as_dict v \<noteq> None) vs | _ \<Rightarrow> [])"

definition safe_provider_result :: "json_dict \<Rightarrow> json_dict" where
  "safe_provider_result d = redact_dict d"

definition or_else :: "string option \<Rightarrow> string \<Rightarrow> string" where
  "or_else v d = str_or v d"

definition seed_channels :: "string list \<Rightarrow> string \<Rightarrow> write_db \<Rightarrow> write_db" where
  "seed_channels catalog ch db = (let known = channels (wd_authority db) in
     if ch \<in> set known then db
     else db\<lparr>wd_authority := (wd_authority db)
       \<lparr>channels := known @ filter (\<lambda>c. c \<notin> set known) catalog\<rparr>\<rparr>)"

definition payload_seed :: "py_runtime \<Rightarrow> write_batch \<Rightarrow> write_item \<Rightarrow> json_dict" where
  "payload_seed py b it =
     [(''batch_id'', JStr (wb_id b)), (''item_id'', JStr (show_int (it_id it))),
      (''listing_id'', JStr (legacy_listing_id it (wb_channel_id b))),
      (''channel_id'', JStr (wb_channel_id b)),
      (''external_primary_id'', JStr (it_channel_product_id it)), (''field'', JStr ''price''),
      (''target_price'', JNum (it_proposed_price it)), (''currency'', JStr (it_currency it)),
      (''source_fingerprint'', (case map_of (it_snapshot it) ''source_fingerprint'' of
         None \<Rightarrow> JStr [] | Some v \<Rightarrow> v))]"

definition legacy_intent ::
  "batch_env \<Rightarrow> write_batch \<Rightarrow> authority_snapshot \<Rightarrow> write_item \<Rightarrow> workspace_write_intent" where
  "legacy_intent env b auth it =
     (let py = env_py (be_provider env);
          hash = be_sha256 env (env_dumps (be_provider env) (payload_seed py b it));
          key = be_sha256 env (''legacy-write-pipeline:'' @ wb_id b @ '':'' @ show_int (it_id it) @ '':'' @ hash)
      in \<lparr>wi_apply_job_id = wb_id b, wi_apply_item_ids = [show_int (it_id it)],
       wi_workspace_id = ''legacy:'' @ wb_id b,
       wi_snapshot_id = or_else (wb_source_preview_id b) (wb_batch_hash b),
       wi_draft_revision_id = wb_id b, wi_review_id = or_else (wb_source_preview_id b) (wb_id b),
       wi_selection_checksum = wb_batch_hash b, wi_listing_id = legacy_listing_id it (wb_channel_id b),
       wi_channel_id = wb_channel_id b, wi_external_primary_id = it_channel_product_id it,
       wi_sku = (if it_sku it = [] then None else Some (it_sku it)),
       wi_product_type = item_type py it, wi_parent_external_id = parent_product_id py it,
       wi_current_price = Some (it_current_price it), wi_current_stock = None,
       wi_current_status = None, wi_target_price = Some (it_proposed_price it),
       wi_target_stock = None, wi_target_status = None, wi_currency = Some (it_currency it),
       wi_unit = Some (it_currency it), wi_mapping_version = 0, wi_cache_version = 0,
       wi_cache_checksum = str_get py ''source_fingerprint'' [] (it_snapshot it),
       wi_capability_version = ''legacy-write-pipeline-v1'',
       wi_currency_digest = be_sha256 env (it_currency it), wi_idempotency_key = key,
       wi_payload_hash = hash, wi_pricing_origin = Some O_LEGACY_FORMULA_ENGINE,
       wi_expected_pricing_authority = Some A_LEGACY_FORMULA_ENGINE,
       wi_pricing_authority_event_id = Some (as_event_id auth),
       wi_pricing_authority_head_version = Some (int (as_head_version auth))\<rparr>)"

definition authority_snapshot_of :: "batch_env \<Rightarrow> string \<Rightarrow> authority_snapshot wp" where
  "authority_snapshot_of env ch =
     wbind (wget (\<lambda>db. snapshot (env_uuid (be_provider env) db) (env_now (be_provider env) db)
       (wd_authority db) ch)) (\<lambda>r.
     wbind (wlift Authority_error r) (\<lambda>(s, auth).
     wbind (wmodify (\<lambda>db. db\<lparr>wd_authority := auth\<rparr>)) (\<lambda>_. wret s)))"

definition legacy_batch_command ::
  "batch_env \<Rightarrow> write_batch \<Rightarrow> string \<Rightarrow> string \<Rightarrow> workspace_write_batch_command wp" where
  "legacy_batch_command env b user corr =
     wbind (wmodify (seed_channels (be_catalog env) (wb_channel_id b))) (\<lambda>_.
     wbind (authority_snapshot_of env (wb_channel_id b)) (\<lambda>auth.
     wret \<lparr>wc_workspace_id = ''legacy:'' @ wb_id b,
       wc_snapshot_id = or_else (wb_source_preview_id b) (wb_batch_hash b),
       wc_draft_revision_id = wb_id b, wc_review_id = or_else (wb_source_preview_id b) (wb_id b),
       wc_selection_checksum = wb_batch_hash b, wc_correlation_id = corr, wc_requested_by = user,
       wc_intents = map (legacy_intent env b auth) (wb_items b), wc_fencing_token = None,
       wc_lease_token = None, wc_source_workflow = ''legacy_write_pipeline'',
       wc_pricing_origin = Some O_LEGACY_FORMULA_ENGINE\<rparr>))"

definition assert_channel_write_enabled :: "write_batch \<Rightarrow> unit wp" where
  "assert_channel_write_enabled b =
     wbind (wget (\<lambda>db. map_of (wd_connector_read_only db) (wb_channel_id b))) (\<lambda>ro.
     if ro = Some False then wret () else wraise (Http_error 403 ''channel_write_access_disabled''))"

datatype item_event = E_applied | E_reconciliation | E_failed

fun item_event_type :: "item_event \<Rightarrow> string" where
  "item_event_type E_applied = ''item_applied''"
| "item_event_type E_reconciliation = ''item_reconciliation_required''"
| "item_event_type E_failed = ''item_failed''"

definition settle_item :: "write_item \<Rightarrow> workspace_write_result option \<Rightarrow> write_item \<times> item_event" where
  "settle_item it r = (case r of
     None \<Rightarrow> (it\<lparr>it_status := ''failed'', it_error_code := Some ''provider_contract'',
       it_error_message := Some ''Shared Write Pipeline returned no result for the item.''\<rparr>, E_failed)
   | Some res \<Rightarrow> (case wr_outcome res of
       W_VERIFIED_APPLIED \<Rightarrow> (it\<lparr>it_status := ''applied'', it_error_code := None,
         it_error_message := None, it_provider_result := safe_provider_result (wr_response res)\<rparr>, E_applied)
     | W_RECONCILIATION_REQUIRED \<Rightarrow> (it\<lparr>it_status := ''reconciliation_required'',
         it_error_code := Some (or_else (wr_error_category res) ''read_back_unverified''),
         it_error_message := Some (or_else (wr_error_message res) ''Provider state requires reconciliation.''),
         it_provider_result := safe_provider_result (wr_response res)\<rparr>, E_reconciliation)
     | _ \<Rightarrow> (it\<lparr>it_status := ''failed'',
         it_error_code := Some (or_else (wr_error_category res) ''provider_error''),
         it_error_message := Some (or_else (wr_error_message res) ''Provider write failed.''),
         it_provider_result := safe_provider_result (wr_response res)\<rparr>, E_failed)))"

definition jopt :: "string option \<Rightarrow> json" where
  "jopt v = jstr_opt v"

definition item_metadata ::
  "py_runtime \<Rightarrow> write_batch \<Rightarrow> string \<Rightarrow> string \<Rightarrow> write_item \<Rightarrow> workspace_write_result option \<Rightarrow> json_dict" where
  "item_metadata py b user corr it r =
     [(''provider'', JStr (wb_channel_type b)), (''actor'', JStr user),
      (''channel_id'', JStr (wb_channel_id b)), (''batch_id'', JStr (wb_id b)),
      (''product_id'', JStr (it_channel_product_id it)), (''sku'', JStr (it_sku it)),
      (''old_price'', JNum (it_current_price it)), (''new_price'', JNum (it_proposed_price it)),
      (''status'', JStr (it_status it)),
      (''result'', JObj (case r of None \<Rightarrow> [] | Some x \<Rightarrow> safe_provider_result (wr_response x))),
      (''verification'', (case r of None \<Rightarrow> JNull
         | Some x \<Rightarrow> jget ''verification'' (safe_provider_result (wr_response x)))),
      (''source'', item_source it), (''item_type'', JStr (item_type py it)),
      (''parent_product_id'', jopt (parent_product_id py it)),
      (''variation_id'', jopt (variation_id py it)),
      (''variation_attributes'', JList (variation_attributes it)), (''correlation_id'', JStr corr)]"

fun item_channel_event :: "item_event \<Rightarrow> (string \<times> string \<times> string \<times> string \<times> bool) option" where
  "item_channel_event E_failed = Some (''channel_write_failed'', ''error'', ''partial_failure'',
     ''Retry this item once the destination channel issue is resolved.'', True)"
| "item_channel_event E_reconciliation = Some (''channel_write_reconciliation_required'', ''warning'',
     ''blocking'', ''Verify this item's applied state on the channel before relying on it.'', False)"
| "item_channel_event E_applied = None"

definition emit_channel_write_event ::
  "batch_env \<Rightarrow> write_item \<Rightarrow> item_event \<Rightarrow> workspace_write_result option \<Rightarrow> write_batch \<Rightarrow> string \<Rightarrow> unit wp" where
  "emit_channel_write_event env it ev r b corr = (case item_channel_event ev of
     None \<Rightarrow> wret ()
   | Some (ty, sev, impact, action, retry) \<Rightarrow>
       if (case r of None \<Rightarrow> False | Some x \<Rightarrow> wr_error_category x = Some ''pricing_authority'')
       then wret ()
       else emit_business_event (be_provider env) (\<lambda>db.
         \<lparr>be_id = [], be_domain = ''channels'', be_event_type = ty, be_severity = sev,
          be_business_impact = impact, be_reason_code = or_else (it_error_code it) ''unknown'',
          be_reason_message = or_else (it_error_message it) [], be_primary_scope_type = ''channel'',
          be_primary_scope_id = wb_channel_id b, be_primary_scope_label = Some (wb_channel_type b),
          be_secondary_scopes = [(''product'', it_channel_product_id it, Some (it_sku it))],
          be_recommended_action = action, be_retryable = retry,
          be_action_route_key = Some ''channel.detail'',
          be_action_route_params = [(''channel_id'', JStr (wb_channel_id b))],
          be_correlation_id = corr, be_producer = ''write_pipeline.service.execute (channel result)'',
          be_occurred_at = env_now (be_provider env) db, be_metadata = []\<rparr>))"

text \<open>One item of the batch after execution: its new row and its event.\<close>

definition finish_item ::
  "batch_env \<Rightarrow> write_batch \<Rightarrow> string \<Rightarrow> string \<Rightarrow> (string, workspace_write_result) dict \<Rightarrow> write_item
     \<Rightarrow> (write_item \<times> item_event) wp" where
  "finish_item env b user corr results it0 =
     (let r = map_of results (legacy_listing_id it0 (wb_channel_id b));
          (it, ev) = settle_item it0 r
      in wbind (record_event env (wb_id b) (item_event_type ev)
           (or_else (it_error_message it) ''Channel price update applied.'') (Some (it_id it))
           (if ev = E_applied then ''info'' else ''error'')
           (item_metadata (env_py (be_provider env)) b user corr it r) corr) (\<lambda>_.
         wbind (emit_channel_write_event env it ev r b corr) (\<lambda>_. wret (it, ev))))"

definition count_event :: "item_event \<Rightarrow> (write_item \<times> item_event) list \<Rightarrow> nat" where
  "count_event ev ps = length (filter (\<lambda>p. snd p = ev) ps)"

definition batch_outcome :: "nat \<Rightarrow> nat \<Rightarrow> nat \<Rightarrow> string" where
  "batch_outcome success failure reconciliation =
     (if failure = 0 \<and> reconciliation = 0 then ''applied''
      else if reconciliation \<noteq> 0 \<and> success = 0 then ''reconciliation_required''
      else if success \<noteq> 0 then ''partially_failed'' else ''failed'')"

definition batch_business_event :: "string \<Rightarrow> (string \<times> string \<times> string \<times> string \<times> bool) option" where
  "batch_business_event status =
     (if status = ''applied'' then Some (''write_batch_applied'', ''info'', ''none'', [], False)
      else if status = ''reconciliation_required''
      then Some (''write_batch_reconciliation_required'', ''warning'', ''blocking'',
        ''Review items awaiting reconciliation before relying on their applied state.'', True)
      else if status = ''partially_failed''
      then Some (''write_batch_partially_failed'', ''error'', ''partial_failure'',
        ''Review the failed items in this batch and retry them.'', True)
      else if status = ''failed''
      then Some (''write_batch_failed'', ''critical'', ''critical_business_failure'',
        ''Review this batch's failure details and retry the write.'', True)
      else None)"

definition emit_batch_event ::
  "batch_env \<Rightarrow> write_batch \<Rightarrow> nat \<Rightarrow> nat \<Rightarrow> nat \<Rightarrow> string \<Rightarrow> unit wp" where
  "emit_batch_event env b success failure reconciliation corr =
     (case batch_business_event (wb_status b) of
        None \<Rightarrow> wret ()
      | Some (ty, sev, impact, action, retry) \<Rightarrow> emit_business_event (be_provider env) (\<lambda>db.
         \<lparr>be_id = [], be_domain = ''write_pipeline'', be_event_type = ty, be_severity = sev,
          be_business_impact = impact, be_reason_code = wb_status b,
          be_reason_message = show_nat success @ '' applied, '' @ show_nat failure @ '' failed, '' @
            show_nat reconciliation @ '' requiring reconciliation.'',
          be_primary_scope_type = ''batch'', be_primary_scope_id = wb_id b,
          be_primary_scope_label = Some (''Write batch '' @ wb_id b),
          be_secondary_scopes = [(''channel'', wb_channel_id b, Some (wb_channel_type b))],
          be_recommended_action = action, be_retryable = retry,
          be_action_route_key = Some ''workspace.home'', be_action_route_params = [],
          be_correlation_id = corr, be_producer = ''write_pipeline.service.execute_workspace'',
          be_occurred_at = env_now (be_provider env) db, be_metadata = []\<rparr>))"

definition finished_metadata :: "write_batch \<Rightarrow> string \<Rightarrow> nat \<Rightarrow> nat \<Rightarrow> nat \<Rightarrow> json_dict" where
  "finished_metadata b user success failure reconciliation =
     [(''actor'', JStr user), (''channel_id'', JStr (wb_channel_id b)), (''batch_id'', JStr (wb_id b)),
      (''success_count'', JInt (int success)), (''failure_count'', JInt (int failure)),
      (''warning_count'', JInt (int reconciliation)), (''verified_count'', JInt (int success)),
      (''unverified_count'', JInt (int reconciliation)),
      (''skipped_count'', (case map_of (wb_safety_summary b) ''skipped_rows'' of
         None \<Rightarrow> JInt 0 | Some v \<Rightarrow> v)),
      (''scheduler_started'', JBool False), (''automatic_apply'', JBool False),
      (''stock_update'', JBool False)]"

definition settled_batch :: "instant \<Rightarrow> (write_item \<times> item_event) list \<Rightarrow> write_batch \<Rightarrow> write_batch" where
  "settled_batch now ps r = r\<lparr>wb_items := map fst ps, wb_executed_at := Some now,
     wb_status := batch_outcome (count_event E_applied ps) (count_event E_failed ps)
       (count_event E_reconciliation ps)\<rparr>"

definition close_batch ::
  "batch_env \<Rightarrow> string \<Rightarrow> string \<Rightarrow> string \<Rightarrow> write_batch \<Rightarrow> (write_item \<times> item_event) list \<Rightarrow> write_batch wp" where
  "close_batch env bid user corr b ps =
     (let success = count_event E_applied ps; failure = count_event E_failed ps;
          reconciliation = count_event E_reconciliation ps in
      wbind (wget (env_now (be_provider env))) (\<lambda>now.
      wbind (update_batch bid (settled_batch now ps)) (\<lambda>_.
      wbind (record_event env bid ''execution_finished'' ''Apply finished.'' None ''info''
        (finished_metadata b user success failure reconciliation) corr) (\<lambda>_.
      wbind (emit_batch_event env (settled_batch now ps b) success failure reconciliation corr) (\<lambda>_.
      wbind commit (\<lambda>_. get_batch bid))))))"

definition finish_batch ::
  "batch_env \<Rightarrow> string \<Rightarrow> string \<Rightarrow> string \<Rightarrow> workspace_write_result list \<Rightarrow> write_batch wp" where
  "finish_batch env bid user corr results =
     wbind (get_batch bid) (\<lambda>b.
     wbind (wmapM (finish_item env b user corr (rev (map (\<lambda>r. (wr_listing r, r)) results))) (wb_items b)) (\<lambda>ps.
     close_batch env bid user corr b ps))"

definition resumable :: "write_batch \<Rightarrow> bool" where
  "resumable b \<longleftrightarrow> wb_status b \<in> {''executing'', ''reconciliation_required''}"

definition has_attempts :: "string \<Rightarrow> write_db \<Rightarrow> bool" where
  "has_attempts bid db \<longleftrightarrow> list_ex (\<lambda>a. pa_source_workflow a = ''legacy_write_pipeline'' \<and>
     pa_operation_id a = bid) (wd_attempts db)"

definition execute :: "batch_env \<Rightarrow> string \<Rightarrow> string \<Rightarrow> write_batch wp" where
  "execute env bid user =
     wbind (get_batch bid) (\<lambda>b.
     if wb_status b \<noteq> ''approved'' \<and> \<not> resumable b
     then wraise (Http_error 409 ''Apply requires a separate approved Dry Run.'') else
     wbind (assert_batch_hash env b) (\<lambda>_.
     wbind (wlift id (adapter_for env (wb_channel_id b) (wb_operation_type b))) (\<lambda>adapter.
     wbind (wget (\<lambda>db. case legacy_correlation_id b db of Some c \<Rightarrow> c
       | None \<Rightarrow> ''corr_'' @ env_uuid (be_provider env) db)) (\<lambda>corr.
     wbind (if resumable b then wret () else
       wbind (update_batch bid (\<lambda>r. r\<lparr>wb_status := ''executing''\<rparr>)) (\<lambda>_.
       record_event env bid ''execution_started'' ''Apply started from an approved Dry Run.'' None ''info''
         [(''approved_by'', jopt (wb_approved_by b)), (''requested_by'', JStr user),
          (''correlation_id'', JStr corr), (''source_workflow'', JStr ''legacy_write_pipeline'')] corr)) (\<lambda>_.
     wbind (legacy_batch_command env b user corr) (\<lambda>cmd.
     wbind (wget (has_attempts bid)) (\<lambda>attempted.
     wbind (if \<not> resumable b \<or> \<not> attempted then assert_channel_write_enabled b else wret ()) (\<lambda>_.
     wbind (execute_workspace (be_provider env) cmd (resumable b \<and> attempted)) (\<lambda>results.
     finish_batch env bid user corr results)))))))))"

section \<open>Result summary\<close>

definition item_verified :: "write_item \<Rightarrow> bool" where
  "item_verified it \<longleftrightarrow> (case as_dict (jget ''verification'' (it_provider_result it)) of
     None \<Rightarrow> False | Some v \<Rightarrow> jget ''verified'' v = JBool True)"

record result_summary =
  rs_total_attempted :: nat
  rs_success_count :: nat
  rs_failure_count :: nat
  rs_reconciliation_count :: nat
  rs_verified_count :: nat
  rs_unverified_count :: nat

definition summarize :: "write_batch \<Rightarrow> result_summary" where
  "summarize b = (let count = (\<lambda>p. length (filter p (wb_items b))) in
     \<lparr>rs_total_attempted = (if wb_executed_at b = None then 0 else length (wb_items b)),
      rs_success_count = count (\<lambda>it. it_status it = ''applied''),
      rs_failure_count = count (\<lambda>it. it_status it = ''failed''),
      rs_reconciliation_count = count (\<lambda>it. it_status it = ''reconciliation_required''),
      rs_verified_count = count item_verified,
      rs_unverified_count = count (\<lambda>it. it_status it = ''applied'' \<and> \<not> item_verified it)\<rparr>)"

end
