(* ===== verification/DispatchSafety.thy ===== *)
theory DispatchSafety
  imports WritePipeline
begin

text \<open>
  What the durable write engine promises: every call that can change a provider is covered by
  committed evidence, an operation with evidence is never dispatched again, reconciliation only
  verifies, a worker that lost its job stores nothing, and every result it returns is on record.
\<close>

section \<open>The engine only adds evidence\<close>

definition env_append_only :: "provider_env \<Rightarrow> bool" where
  "env_append_only env \<longleftrightarrow>
     (\<forall>ch db. extends db (snd (env_acquire env ch db))) \<and>
     (\<forall>ch is who db. extends db (snd (env_apply env ch is who db))) \<and>
     (\<forall>ch is who db. extends db (snd (env_verify env ch is who db)))"

lemma extends_simps [simp]:
  "extends db (db\<lparr>wd_authority := a\<rparr>)" "extends db (db\<lparr>wd_observability := o'\<rparr>)"
  "extends db (db\<lparr>wd_attempts := wd_attempts db @ as\<rparr>)" "extends db (add_attempt_event e db)"
  "extends db (increment_telemetry now ch ty n1 n2 n3 n4 n5 n6 l db)"
  by (auto simp: extends_def add_attempt_event_def increment_telemetry_def Let_def)

lemma extends_issue: "extends db (snd (pricing_authority_issue env cmd i db))"
  by (auto simp: pricing_authority_issue_def split: prod.split sum.split)

lemma grows_fence: "grows (assert_workspace_fence cmd)"
  unfolding assert_workspace_fence_def by (intro grows_bind evidence) (simp add: evidence)

lemma silent_fence: "silent (assert_workspace_fence cmd)"
  unfolding assert_workspace_fence_def by (intro silent_bind evidence) (simp add: evidence)

lemma grows_record: "grows (record_intent env flow corr r acc i)"
  unfolding record_intent_def insert_attempt_def
  by (auto intro!: grows_bind evidence grows_modify split: option.split)

lemma silent_record: "silent (record_intent env flow corr r acc i)"
  unfolding record_intent_def insert_attempt_def
  by (auto intro!: silent_bind evidence split: option.split)

lemma grows_emit: "grows (emit_business_event env mk)"
  unfolding emit_business_event_def by (intro grows_bind evidence grows_modify) simp

lemma silent_emit: "silent (emit_business_event env mk)"
  unfolding emit_business_event_def by (intro silent_bind evidence)

lemma grows_filter_step: "grows (filter_step env cmd acc i)"
  unfolding filter_step_def
  by (auto intro!: grows_bind evidence grows_modify grows_update grows_emit extends_issue split: option.split)

lemma silent_filter_step: "silent (filter_step env cmd acc i)"
  unfolding filter_step_def by (auto intro!: silent_bind evidence silent_emit split: option.split)

lemma grows_filter: "grows (filter_authorized_price_intents env cmd is)"
  unfolding filter_authorized_price_intents_def by (rule grows_foldM) (rule grows_filter_step)

lemma silent_filter: "silent (filter_authorized_price_intents env cmd is)"
  unfolding filter_authorized_price_intents_def by (rule silent_foldM) (rule silent_filter_step)

lemma grows_permits: "env_append_only env \<Longrightarrow> grows (acquire_permits env ch is)"
  by (induction "is")
    (auto intro!: grows_bind evidence grows_await simp: env_append_only_def split: option.split)

lemma silent_permits: "silent (acquire_permits env ch is)"
  by (induction "is") (auto intro!: silent_bind evidence split: option.split)

lemma grows_mark: "grows (mark_dispatched env att i)"
  by (auto simp: mark_dispatched_def intro!: evidence grows_modify split: option.split)

lemma silent_mark: "silent (mark_dispatched env att i)"
  by (auto simp: mark_dispatched_def intro!: evidence split: option.split)

lemma grows_report: "grows (record_report env ch rep)"
  unfolding record_report_def by (auto intro!: grows_bind evidence grows_modify)

lemma silent_report: "silent (record_report env ch rep)"
  unfolding record_report_def by (auto intro!: silent_bind evidence)

lemma grows_reports: "grows (record_transport_reports env ch rs)"
  unfolding record_transport_reports_def by (auto intro!: grows_mapM grows_report)

lemma silent_reports: "silent (record_transport_reports env ch rs)"
  unfolding record_transport_reports_def by (auto intro!: silent_mapM silent_report)

lemma grows_persist: "grows (persist_result env cmd att r)"
  unfolding persist_result_def
  by (auto intro!: grows_bind grows_fence evidence grows_modify split: option.split)

lemma silent_persist: "silent (persist_result env cmd att r)"
  unfolding persist_result_def
  by (auto intro!: silent_bind silent_fence evidence split: option.split)

lemma grows_apply: "env_append_only env \<Longrightarrow> grows (call_apply env cmd ch is)"
  unfolding call_apply_def
  by (auto intro!: grows_bind evidence grows_await simp: env_append_only_def split: sum.split)

lemma grows_verify: "env_append_only env \<Longrightarrow> grows (call_verify env cmd ch is)"
  unfolding call_verify_def
  by (auto intro!: grows_bind evidence grows_await simp: env_append_only_def)

lemma grows_pending: "env_append_only env \<Longrightarrow> grows (dispatch_pending env cmd att ch is)"
  unfolding dispatch_pending_def
  by (auto intro!: grows_bind evidence grows_permits grows_fence grows_filter grows_mapM grows_mark
      grows_apply split: option.split)

lemma grows_channel: "env_append_only env \<Longrightarrow> grows (dispatch_channel env cmd flow r rec p)"
  unfolding dispatch_channel_def Let_def
  by (auto intro!: grows_bind evidence grows_pending grows_verify grows_reports grows_mapM
      grows_persist split: option.split prod.split)

section \<open>Evidence before a call\<close>

definition has_event :: "string \<Rightarrow> write_outcome \<Rightarrow> write_db \<Rightarrow> bool" where
  "has_event aid outcome db \<longleftrightarrow>
     (\<exists>e \<in> set (wd_attempt_events db). ve_attempt_id e = aid \<and> ve_outcome e = outcome)"

definition own_attempt ::
  "string \<Rightarrow> workspace_write_intent \<Rightarrow> provider_write_attempt \<Rightarrow> write_db \<Rightarrow> bool" where
  "own_attempt flow i a db \<longleftrightarrow> a \<in> set (wd_attempts db) \<and> same_operation flow i a \<and>
     pa_normalized_payload a = normalized_payload i \<and> has_event (pa_id a) W_DISPATCH_INTENT_RECORDED db"

text \<open>The price boundary: the Channel's head is the origin's engine, unlocked, and the one bound to.\<close>

definition price_authorized ::
  "workspace_write_batch_command \<Rightarrow> workspace_write_intent \<Rightarrow> write_db \<Rightarrow> bool" where
  "price_authorized cmd i db \<longleftrightarrow> wi_target_price i = None \<or>
     (wc_pricing_origin cmd = wi_pricing_origin i \<and>
      (\<exists>h. head_of (wd_authority db) (wi_channel_id i) = Some h \<and>
         authorization_issue (snapshot_of h) (wi_pricing_origin i)
           (wi_pricing_authority_event_id i) (wi_pricing_authority_head_version i) = None))"

definition dispatch_covered ::
  "workspace_write_batch_command \<Rightarrow> string \<Rightarrow> write_db \<Rightarrow> workspace_write_intent \<Rightarrow> write_db \<Rightarrow> bool" where
  "dispatch_covered cmd flow db0 i db \<longleftrightarrow> find_attempt flow i db0 = None \<and>
     (\<exists>a. own_attempt flow i a db \<and> has_event (pa_id a) W_DISPATCHED db) \<and> price_authorized cmd i db"

lemma has_event_mono: "extends d e \<Longrightarrow> has_event aid o' d \<Longrightarrow> has_event aid o' e"
  by (auto simp: has_event_def extends_def)

lemma own_attempt_mono: "extends d e \<Longrightarrow> own_attempt flow i a d \<Longrightarrow> own_attempt flow i a e"
  by (auto simp: own_attempt_def extends_def has_event_def)

lemma find_attempt_None: "find_attempt flow i db = None \<longleftrightarrow> (\<forall>a \<in> set (wd_attempts db). \<not> same_operation flow i a)"
  by (auto simp: find_attempt_def filter_empty_conv)

lemma find_attempt_anti: "extends d e \<Longrightarrow> find_attempt flow i e = None \<Longrightarrow> find_attempt flow i d = None"
  by (auto simp: find_attempt_None extends_def)

subsection \<open>Recording the intents\<close>

definition recorded_inv ::
  "string \<Rightarrow> bool \<Rightarrow> write_db \<Rightarrow> provider_call list \<Rightarrow> workspace_write_intent list \<Rightarrow> recorded \<Rightarrow> world \<Rightarrow> bool" where
  "recorded_inv flow r db0 cs done acc w \<longleftrightarrow> calls w = cs \<and> extends db0 (session w) \<and>
     (\<forall>i \<in> set done. wi_listing_id i \<in> set (snd acc) \<or>
        (\<not> r \<and> find_attempt flow i db0 = None \<and>
         (\<exists>a. map_of (fst acc) (wi_listing_id i) = Some a \<and> own_attempt flow i a (session w))))"

lemma new_attempt_same:
  "wi_apply_item_ids i \<noteq> [] \<Longrightarrow> same_operation flow i (new_attempt u flow corr i)"
  by (simp add: same_operation_def new_attempt_def Let_def)

lemma recorded_keep:
  assumes "recorded_inv flow r db0 cs done acc w" and "extends (session w) (session w')"
    and "calls w' = cs" and "set (snd acc) \<subseteq> set (snd acc')"
    and "\<And>i. i \<in> set done \<Longrightarrow> map_of (fst acc') (wi_listing_id i) = map_of (fst acc) (wi_listing_id i)"
  shows "recorded_inv flow r db0 cs done acc' w'"
  unfolding recorded_inv_def
proof (intro conjI ballI)
  show "calls w' = cs" by (rule assms(3))
  show "extends db0 (session w')" using assms(1,2) extends_trans by (auto simp: recorded_inv_def)
  fix i assume i: "i \<in> set done"
  with assms(1) have "wi_listing_id i \<in> set (snd acc) \<or>
        (\<not> r \<and> find_attempt flow i db0 = None \<and>
         (\<exists>a. map_of (fst acc) (wi_listing_id i) = Some a \<and> own_attempt flow i a (session w)))"
    by (simp add: recorded_inv_def)
  then show "wi_listing_id i \<in> set (snd acc') \<or>
        (\<not> r \<and> find_attempt flow i db0 = None \<and>
         (\<exists>a. map_of (fst acc') (wi_listing_id i) = Some a \<and> own_attempt flow i a (session w')))"
    using assms(4) own_attempt_mono[OF assms(2)] unfolding assms(5)[OF i] by blast
qed

lemma recorded_snoc:
  assumes "recorded_inv flow r db0 cs done acc w"
    and "wi_listing_id i \<in> set (snd acc) \<or>
        (\<not> r \<and> find_attempt flow i db0 = None \<and>
         (\<exists>a. map_of (fst acc) (wi_listing_id i) = Some a \<and> own_attempt flow i a (session w)))"
  shows "recorded_inv flow r db0 cs (done @ [i]) acc w"
  using assms by (auto simp: recorded_inv_def)

lemma record_intent_Inr:
  assumes "record_intent env flow corr r acc i w = (Inr acc', w')"
  obtains (prior) a where "find_attempt flow i (session w) = Some a" "w' = w"
      "acc' = (AList.update (wi_listing_id i) a (fst acc), wi_listing_id i # snd acc)"
  | (new) a where "\<not> r" "find_attempt flow i (session w) = None"
      "acc' = (AList.update (wi_listing_id i) a (fst acc), snd acc)"
      "own_attempt flow i a (session w')" "extends (session w) (session w')" "calls w' = calls w"
proof (cases "find_attempt flow i (session w)")
  case (Some a)
  with assms show ?thesis
    by (intro prior[of a])
      (auto simp: record_intent_def wbind_def wget_def wret_def wraise_def split: if_splits)
next
  case None
  define a where "a = new_attempt (env_uuid env (session w)) flow corr i"
  have ne: "wi_apply_item_ids i \<noteq> []" "\<not> r" "\<not> attempt_conflict a (session w)"
    and w': "session w' = add_attempt_event (attempt_event_of env (pa_id a) W_DISPATCH_INTENT_RECORDED
        ((session w)\<lparr>wd_attempts := wd_attempts (session w) @ [a]\<rparr>))
        ((session w)\<lparr>wd_attempts := wd_attempts (session w) @ [a]\<rparr>)" "calls w' = calls w"
    and acc': "acc' = (AList.update (wi_listing_id i) a (fst acc), snd acc)"
    using assms None
    by (auto simp: record_intent_def wbind_def wget_def wret_def wraise_def wmodify_def
        insert_attempt_def a_def split: if_splits)
  have "own_attempt flow i a (session w')"
    using new_attempt_same[OF ne(1)]
    by (auto simp: own_attempt_def w'(1) add_attempt_event_def has_event_def attempt_event_of_def a_def
        new_attempt_def Let_def)
  moreover have "extends (session w) (session w')"
    by (auto simp: w'(1) extends_def add_attempt_event_def)
  ultimately show ?thesis using None ne acc' w'(2) by (intro new[of a]) simp_all
qed

lemma triple_record:
  assumes fresh: "wi_listing_id i \<notin> wi_listing_id ` set done"
  shows "triple (recorded_inv flow r db0 cs done acc) (record_intent env flow corr r acc i)
    (\<lambda>acc'. recorded_inv flow r db0 cs (done @ [i]) acc') (\<lambda>w. calls w = cs)"
proof (rule tripleI)
  fix w e w' assume inv: "recorded_inv flow r db0 cs done acc w"
    and run: "record_intent env flow corr r acc i w = (Inl e, w')"
  from inv have "calls w = cs" by (simp add: recorded_inv_def)
  from triple_Inl[OF silent_triple[OF silent_record] this run] show "calls w' = cs" .
next
  fix w acc' w' assume inv: "recorded_inv flow r db0 cs done acc w"
    and run: "record_intent env flow corr r acc i w = (Inr acc', w')"
  have other: "map_of (AList.update (wi_listing_id i) a d) (wi_listing_id j) = map_of d (wi_listing_id j)"
    if "j \<in> set done" for a d j
  proof -
    have "wi_listing_id j \<noteq> wi_listing_id i" using fresh that by (metis imageI)
    then show ?thesis by (simp add: update_conv')
  qed
  from run show "recorded_inv flow r db0 cs (done @ [i]) acc' w'"
  proof (cases rule: record_intent_Inr)
    case (prior a)
    have "recorded_inv flow r db0 cs done acc' w'"
    proof (rule recorded_keep[OF inv])
      show "calls w' = cs" using inv prior(2) by (simp add: recorded_inv_def)
      show "set (snd acc) \<subseteq> set (snd acc')" unfolding prior(3) by auto
    qed (simp_all add: prior other)
    then show ?thesis by (rule recorded_snoc) (simp add: prior)
  next
    case (new a)
    have "recorded_inv flow r db0 cs done acc' w'"
    proof (rule recorded_keep[OF inv new(5)])
      show "calls w' = cs" using inv new(6) by (simp add: recorded_inv_def)
    qed (simp_all add: new(3) other)
    moreover have "find_attempt flow i db0 = None"
      using inv new(2) find_attempt_anti by (auto simp: recorded_inv_def)
    ultimately show ?thesis
      using new(1,4) by (intro recorded_snoc) (simp_all add: new(3) update_conv')
  qed
qed

lemma triple_record_all:
  assumes "distinct (map wi_listing_id is)"
  shows "triple (\<lambda>w. calls w = cs \<and> session w = db0)
    (wfoldM (record_intent env flow corr r) ([], []) is)
    (\<lambda>acc. recorded_inv flow r db0 cs is acc) (\<lambda>w. calls w = cs)"
proof (rule triple_pre)
  show "triple (recorded_inv flow r db0 cs [] ([], []))
      (wfoldM (record_intent env flow corr r) ([], []) is)
      (\<lambda>acc. recorded_inv flow r db0 cs is acc) (\<lambda>w. calls w = cs)"
  proof (rule triple_foldM_prefix)
    fix pre x rest and s :: recorded assume "is = pre @ x # rest"
    with assms have "wi_listing_id x \<notin> wi_listing_id ` set pre" by auto
    then show "triple (recorded_inv flow r db0 cs pre s) (record_intent env flow corr r s x)
        (\<lambda>acc'. recorded_inv flow r db0 cs (pre @ [x]) acc') (\<lambda>w. calls w = cs)"
      by (rule triple_record)
  qed
qed (simp add: recorded_inv_def)

subsection \<open>The price boundary\<close>

lemma seed_head_keeps:
  "seed_head eid ar corr now db c = (s, db') \<Longrightarrow> head_of db d = Some h \<Longrightarrow> head_of db' d = Some h"
  using head_of_append[of db] by (auto simp: seed_head_def Let_def head_of_def split: option.splits)

lemma assert_write_keeps:
  assumes "assert_write_authorized sid now c orig ee ev db = (r, db')" and "head_of db d = Some h"
  shows "head_of db' d = Some h"
proof (cases "snapshot sid now db c")
  case (Inl e)
  with assms show ?thesis by (auto simp: assert_write_authorized_def)
next
  case (Inr p)
  then obtain s db1 where p: "ensure_channel_head sid ''system:channel-seed'' [] now db c = Inr (s, db1)"
    by (cases p) (auto simp: snapshot_def)
  with assms(1) Inr have "db' = db1" by (simp add: assert_write_authorized_def snapshot_def)
  moreover have "head_of db1 d = Some h"
    using p assms(2) seed_head_keeps
    by (fastforce simp: ensure_channel_head_def split: option.splits if_splits)
  ultimately show ?thesis by simp
qed

lemma assert_write_head:
  assumes "assert_write_authorized sid now c orig ee ev db = (Inr s, db')"
  shows "\<exists>h. head_of db' c = Some h \<and> authorization_issue (snapshot_of h) orig ee ev = None"
proof -
  from assms obtain db1 where p: "ensure_channel_head sid ''system:channel-seed'' [] now db c = Inr (s, db1)"
    and iss: "authorization_issue s orig ee ev = None" and db': "db' = db1"
    by (auto simp: assert_write_authorized_def snapshot_def split: sum.splits option.splits prod.splits)
  have "\<exists>h. head_of db1 c = Some h \<and> snapshot_of h = s"
  proof (cases "head_of db c")
    case (Some h)
    with p show ?thesis by (simp add: ensure_channel_head_def)
  next
    case None
    with p head_of_append[of db] show ?thesis
      by (fastforce simp: ensure_channel_head_def seed_head_def Let_def head_of_def split: if_splits)
  qed
  with iss db' show ?thesis by blast
qed

lemma issue_keeps:
  "pricing_authority_issue env cmd i db = (x, db') \<Longrightarrow> head_of (wd_authority db) d = Some h \<Longrightarrow>
     head_of (wd_authority db') d = Some h"
  by (auto simp: pricing_authority_issue_def split: if_splits prod.splits sum.splits
      dest!: assert_write_keeps)

lemma issue_None:
  "pricing_authority_issue env cmd i db = (None, db') \<Longrightarrow> price_authorized cmd i db'"
  by (auto simp: pricing_authority_issue_def price_authorized_def split: if_splits prod.splits sum.splits
      dest!: assert_write_head)

lemma price_authorized_keep:
  "(\<And>d h. head_of (wd_authority db) d = Some h \<Longrightarrow> head_of (wd_authority db') d = Some h) \<Longrightarrow>
     price_authorized cmd i db \<Longrightarrow> price_authorized cmd i db'"
  unfolding price_authorized_def by blast

lemma price_authorized_rejection [simp]:
  "price_authorized cmd i (db\<lparr>wd_authority := record_write_rejection c l op og ee ev code corr (wd_authority db)\<rparr>)
     = price_authorized cmd i db"
  by (simp add: price_authorized_def record_write_rejection_def Let_def head_of_def)

definition filter_post ::
  "workspace_write_batch_command \<Rightarrow> workspace_write_intent list
     \<Rightarrow> workspace_write_intent list \<times> workspace_write_result list \<Rightarrow> world \<Rightarrow> bool" where
  "filter_post cmd pending acc w \<longleftrightarrow> set (fst acc) \<subseteq> set pending \<and>
     (\<forall>i \<in> set (fst acc). price_authorized cmd i (session w))"

lemma triple_filter_step:
  assumes i: "i \<in> set pending"
  shows "triple (filter_post cmd pending acc) (filter_step env cmd acc i) (filter_post cmd pending) (\<lambda>_. True)"
proof (cases "wi_target_price i = None")
  case True
  then have "price_authorized cmd i db" for db by (simp add: price_authorized_def)
  with True i show ?thesis
    by (auto simp: filter_step_def filter_post_def intro!: triples)
next
  case False
  let ?Q = "\<lambda>issue w. filter_post cmd pending acc w \<and> (issue = None \<longrightarrow> price_authorized cmd i (session w))"
  have q: "triple (filter_post cmd pending acc) (wupdate (pricing_authority_issue env cmd i)) ?Q (\<lambda>_. True)"
    by (rule triples) (auto simp: filter_post_def intro: issue_None price_authorized_keep issue_keeps)
  have emit: "triple (filter_post cmd pending acc) (emit_business_event env mk)
      (\<lambda>_. filter_post cmd pending acc) (\<lambda>_. True)" for mk
    unfolding emit_business_event_def
    by (intro triple_bind triples) (auto simp: filter_post_def price_authorized_def)
  have "triple (?Q issue) (case issue of None \<Rightarrow> wret (fst acc @ [i], snd acc) | Some code \<Rightarrow>
      wbind (wmodify (\<lambda>db. db\<lparr>wd_authority := record_write_rejection (wi_channel_id i)
            (wi_listing_id i) (wi_apply_job_id i)
            (if wi_pricing_origin i = None then wc_pricing_origin cmd else wi_pricing_origin i)
            (wi_pricing_authority_event_id i) (wi_pricing_authority_head_version i) code
            (wc_correlation_id cmd) (wd_authority db)\<rparr>)) (\<lambda>_.
          wbind (emit_business_event env
            (\<lambda>db. pricing_blocked_event i code (wc_correlation_id cmd) (env_now env db))) (\<lambda>_.
          wret (fst acc, snd acc @ [rejection_result i code])))) (filter_post cmd pending) (\<lambda>_. True)"
    for issue
  proof (cases issue)
    case None
    with i show ?thesis by (auto simp: filter_post_def intro!: triple_ret)
  next
    case (Some code)
    have m: "triple (?Q issue) (wmodify (\<lambda>db. db\<lparr>wd_authority := record_write_rejection (wi_channel_id i)
            (wi_listing_id i) (wi_apply_job_id i)
            (if wi_pricing_origin i = None then wc_pricing_origin cmd else wi_pricing_origin i)
            (wi_pricing_authority_event_id i) (wi_pricing_authority_head_version i) code
            (wc_correlation_id cmd) (wd_authority db)\<rparr>)) (\<lambda>_. filter_post cmd pending acc) (\<lambda>_. True)"
      by (rule triple_modify) (simp add: filter_post_def)
    show ?thesis unfolding Some option.case
      by (rule triple_bind[OF m[unfolded Some]], rule triple_bind[OF emit], rule triple_ret)
        (simp add: filter_post_def)
  qed
  from triple_bind[OF q this] show ?thesis unfolding filter_step_def if_not_P[OF False] .
qed

lemma triple_filter:
  "triple (\<lambda>_. True) (filter_authorized_price_intents env cmd pending) (filter_post cmd pending) (\<lambda>_. True)"
  unfolding filter_authorized_price_intents_def
proof (rule triple_pre)
  show "triple (filter_post cmd pending ([], [])) (wfoldM (filter_step env cmd) ([], []) pending)
      (filter_post cmd pending) (\<lambda>_. True)"
    by (rule triple_foldM_prefix[where I = "\<lambda>_. filter_post cmd pending"])
      (rule triple_filter_step, simp)
qed (simp add: filter_post_def)

section \<open>The trail of calls\<close>

fun call_db :: "provider_call \<Rightarrow> write_db" where
  "call_db (Apply_updates ch is db) = db"
| "call_db (Verify_updates ch is db) = db"

fun call_ok ::
  "workspace_write_batch_command \<Rightarrow> string \<Rightarrow> write_db \<Rightarrow> bool \<Rightarrow> provider_call \<Rightarrow> bool" where
  "call_ok cmd flow db0 r (Apply_updates ch is db) \<longleftrightarrow> \<not> r \<and>
     (\<forall>i \<in> set is. i \<in> set (wc_intents cmd) \<and> wi_channel_id i = ch \<and> dispatch_covered cmd flow db0 i db)"
| "call_ok cmd flow db0 r (Verify_updates ch is db) \<longleftrightarrow> True"

definition trail ::
  "workspace_write_batch_command \<Rightarrow> string \<Rightarrow> write_db \<Rightarrow> bool \<Rightarrow> write_db \<Rightarrow> world \<Rightarrow> bool" where
  "trail cmd flow db0 r base w \<longleftrightarrow> known base w \<and>
     (\<forall>c \<in> set (calls w). call_ok cmd flow db0 r c \<and> known (call_db c) w)"

lemma trail_keep:
  assumes "grows m" and "silent m"
  shows "triple (trail cmd flow db0 r base) m (\<lambda>_. trail cmd flow db0 r base) (trail cmd flow db0 r base)"
proof (rule tripleI)
  fix w e w' assume t: "trail cmd flow db0 r base w" and run: "m w = (Inl e, w')"
  have k: "known d w \<Longrightarrow> known d w'" for d by (rule triple_Inl[OF grows_triple[OF assms(1)] _ run])
  have "calls w' = calls w" by (rule triple_Inl[OF silent_triple[OF assms(2)] refl run])
  with t k show "trail cmd flow db0 r base w'" by (simp add: trail_def)
next
  fix w x w' assume t: "trail cmd flow db0 r base w" and run: "m w = (Inr x, w')"
  have k: "known d w \<Longrightarrow> known d w'" for d by (rule triple_Inr[OF grows_triple[OF assms(1)] _ run])
  have "calls w' = calls w" by (rule triple_Inr[OF silent_triple[OF assms(2)] refl run])
  with t k show "trail cmd flow db0 r base w'" by (simp add: trail_def)
qed

definition marked :: "(string, provider_write_attempt) dict \<Rightarrow> workspace_write_intent list \<Rightarrow> write_db \<Rightarrow> bool" where
  "marked att is db \<longleftrightarrow> (\<forall>i \<in> set is. \<exists>a. map_of att (wi_listing_id i) = Some a \<and>
     has_event (pa_id a) W_DISPATCHED db)"

lemma triple_mark:
  "triple (\<lambda>w. filter_post cmd pending acc w \<and> marked att pre (session w)) (mark_dispatched env att i)
     (\<lambda>_ w. filter_post cmd pending acc w \<and> marked att (pre @ [i]) (session w)) (\<lambda>_. True)"
proof (cases "map_of att (wi_listing_id i)")
  case None
  then show ?thesis by (simp add: mark_dispatched_def triple_raise)
next
  case (Some a)
  let ?f = "\<lambda>db. add_attempt_event (attempt_event_of env (pa_id a) W_DISPATCHED db) db"
  have post: "marked att (pre @ [i]) (?f db)" if "marked att pre db" for db
  proof -
    have "has_event (pa_id b) W_DISPATCHED (?f db)" if "has_event (pa_id b) W_DISPATCHED db" for b
      using that by (rule has_event_mono[rotated]) simp
    moreover have "has_event (pa_id a) W_DISPATCHED (?f db)"
      by (simp add: has_event_def add_attempt_event_def attempt_event_of_def)
    ultimately show ?thesis using that Some unfolding marked_def by fastforce
  qed
  have keep: "price_authorized cmd j (?f db) = price_authorized cmd j db" for j db
    by (simp add: price_authorized_def add_attempt_event_def)
  show ?thesis unfolding mark_dispatched_def Some option.case
    by (rule triple_modify) (simp add: post filter_post_def keep)
qed

lemma triple_mark_all:
  "triple (filter_post cmd pending acc) (wmapM (mark_dispatched env att) is)
     (\<lambda>_ w. filter_post cmd pending acc w \<and> marked att is (session w)) (\<lambda>_. True)"
proof (rule triple_pre)
  show "triple (\<lambda>w. filter_post cmd pending acc w \<and> marked att [] (session w))
      (wmapM (mark_dispatched env att) is)
      (\<lambda>_ w. filter_post cmd pending acc w \<and> marked att is (session w)) (\<lambda>_. True)"
    by (rule triple_mapM_prefix[where
          I = "\<lambda>pre w. filter_post cmd pending acc w \<and> marked att pre (session w)"]) (rule triple_mark)
qed (simp add: marked_def)

text \<open>What is known of the intents of one group before they are dispatched.\<close>

definition pending_known ::
  "workspace_write_batch_command \<Rightarrow> string \<Rightarrow> write_db \<Rightarrow> (string, provider_write_attempt) dict
     \<Rightarrow> write_db \<Rightarrow> string \<Rightarrow> workspace_write_intent list \<Rightarrow> bool" where
  "pending_known cmd flow db0 att base ch is \<longleftrightarrow> (\<forall>i \<in> set is. i \<in> set (wc_intents cmd) \<and>
     wi_channel_id i = ch \<and> find_attempt flow i db0 = None \<and>
     (\<exists>a. map_of att (wi_listing_id i) = Some a \<and> own_attempt flow i a base))"

lemma call_covered:
  assumes "pending_known cmd flow db0 att base ch pending" and "filter_post cmd pending acc w"
    and "marked att (fst acc) (session w)" and "known base w" and "\<not> r"
  shows "call_ok cmd flow db0 r (Apply_updates ch (fst acc) (session w))"
proof -
  have "i \<in> set (wc_intents cmd) \<and> wi_channel_id i = ch \<and> dispatch_covered cmd flow db0 i (session w)"
    if i: "i \<in> set (fst acc)" for i
  proof -
    from i assms(2) have p: "i \<in> set pending" "price_authorized cmd i (session w)"
      by (auto simp: filter_post_def)
    with assms(1) obtain a where a: "map_of att (wi_listing_id i) = Some a" "own_attempt flow i a base"
      and known: "i \<in> set (wc_intents cmd)" "wi_channel_id i = ch" "find_attempt flow i db0 = None"
      unfolding pending_known_def by blast
    from assms(3) i a(1) have "has_event (pa_id a) W_DISPATCHED (session w)"
      by (fastforce simp: marked_def)
    moreover have "own_attempt flow i a (session w)"
      using assms(4) a(2) by (auto simp: known_def intro: own_attempt_mono)
    ultimately show ?thesis using known p(2) unfolding dispatch_covered_def by blast
  qed
  with assms(5) show ?thesis by simp
qed

lemma silent_await_case:
  "silent (wbind (wawait f) (\<lambda>r. case r of Inl msg \<Rightarrow> wret (g msg) | Inr rs \<Rightarrow> wret rs))"
  by (intro silent_bind evidence) (auto intro: evidence split: sum.split)

lemma triple_call_apply:
  assumes "env_append_only env"
  shows "triple (\<lambda>w. trail cmd flow db0 r base w \<and> session w = committed w \<and>
      call_ok cmd flow db0 r (Apply_updates ch is (committed w)))
    (call_apply env cmd ch is) (\<lambda>_. trail cmd flow db0 r base) (trail cmd flow db0 r base)"
  unfolding call_apply_def
proof (rule triple_bind)
  show "triple (\<lambda>w. trail cmd flow db0 r base w \<and> session w = committed w \<and>
      call_ok cmd flow db0 r (Apply_updates ch is (committed w))) (wlog (Apply_updates ch is))
      (\<lambda>_. trail cmd flow db0 r base) (trail cmd flow db0 r base)"
    by (rule triple_log) (auto simp: trail_def known_def)
  have g: "grows (wawait (env_apply env ch is (wc_requested_by cmd)))"
    using assms by (auto simp: env_append_only_def intro: grows_await)
  show "triple (trail cmd flow db0 r base)
      (wbind (wawait (env_apply env ch is (wc_requested_by cmd)))
        (\<lambda>x. case x of Inl msg \<Rightarrow> wret (map (unknown_result msg) is) | Inr rs \<Rightarrow> wret rs))
      (\<lambda>_. trail cmd flow db0 r base) (trail cmd flow db0 r base)"
    by (intro trail_keep grows_bind g silent_await_case) (auto intro: evidence split: sum.split)
qed

lemma triple_pending:
  assumes env: "env_append_only env" and p: "pending_known cmd flow db0 att base ch pending" and r: "\<not> r"
  shows "triple (trail cmd flow db0 r base) (dispatch_pending env cmd att ch pending)
    (\<lambda>_. trail cmd flow db0 r base) (trail cmd flow db0 r base)"
proof -
  let ?T = "trail cmd flow db0 r base"
  have filter: "triple ?T (filter_authorized_price_intents env cmd pending)
      (\<lambda>acc w. ?T w \<and> filter_post cmd pending acc w) ?T"
    using triple_conj[OF trail_keep[OF grows_filter silent_filter] triple_filter]
    by (rule triple_err[OF triple_pre]) simp_all
  have mark: "triple (\<lambda>w. ?T w \<and> filter_post cmd pending acc w) (wmapM (mark_dispatched env att) is)
      (\<lambda>_ w. ?T w \<and> filter_post cmd pending acc w \<and> marked att is (session w)) ?T" for acc "is"
    using triple_conj[OF trail_keep[OF grows_mapM[OF grows_mark] silent_mapM[OF silent_mark]] triple_mark_all]
    by (rule triple_err) simp
  have com: "triple (\<lambda>w. ?T w \<and> filter_post cmd pending acc w \<and> marked att (fst acc) (session w)) commit
      (\<lambda>_ w. ?T w \<and> session w = committed w \<and>
         call_ok cmd flow db0 r (Apply_updates ch (fst acc) (committed w))) ?T" for acc
    by (rule triple_commit) (auto simp: trail_def known_def dest!: call_covered[OF p _ _ _ r] simp del: call_ok.simps)
  have last: "triple (\<lambda>w. ?T w \<and> session w = committed w \<and>
         call_ok cmd flow db0 r (Apply_updates ch (fst acc) (committed w)))
      (if fst acc = [] then wret (snd acc)
       else wbind (call_apply env cmd ch (fst acc)) (\<lambda>rs. wret (snd acc @ rs))) (\<lambda>_. ?T) ?T" for acc
    by (cases "fst acc = []") (auto intro!: triple_ret triple_bind[OF triple_call_apply[OF env]]
        simp del: call_ok.simps)
  have main: "triple ?T (wbind (assert_workspace_fence cmd) (\<lambda>_.
         wbind (filter_authorized_price_intents env cmd pending) (\<lambda>(allowed, rejected).
         wbind (wmapM (mark_dispatched env att) allowed) (\<lambda>_.
         wbind commit (\<lambda>_.
         if allowed = [] then wret rejected
         else wbind (call_apply env cmd ch allowed) (\<lambda>rs. wret (rejected @ rs))))))) (\<lambda>_. ?T) ?T"
    unfolding split_beta
    by (rule triple_bind[OF trail_keep[OF grows_fence silent_fence]], rule triple_bind[OF filter],
        rule triple_bind[OF mark], rule triple_bind[OF com], rule last)
  show ?thesis
    unfolding dispatch_pending_def
  proof (rule triple_bind[OF trail_keep[OF grows_permits[OF env] silent_permits]])
    fix refused
    show "triple ?T (case refused of None \<Rightarrow> (wbind (assert_workspace_fence cmd) (\<lambda>_.
         wbind (filter_authorized_price_intents env cmd pending) (\<lambda>(allowed, rejected).
         wbind (wmapM (mark_dispatched env att) allowed) (\<lambda>_.
         wbind commit (\<lambda>_.
         if allowed = [] then wret rejected
         else wbind (call_apply env cmd ch allowed) (\<lambda>rs. wret (rejected @ rs)))))))
        | Some msg \<Rightarrow> wret (map (rate_limit_result msg) pending)) (\<lambda>_. ?T) ?T"
      using main by (cases refused) (auto intro: triple_ret)
  qed
qed

lemma triple_call_verify:
  assumes "env_append_only env"
  shows "triple (trail cmd flow db0 r base) (call_verify env cmd ch is)
    (\<lambda>_. trail cmd flow db0 r base) (trail cmd flow db0 r base)"
  unfolding call_verify_def
proof (rule triple_bind)
  let ?k = "wbind (wawait (env_verify env ch is (wc_requested_by cmd))) (\<lambda>x. wlift id x)"
  let ?S = "\<lambda>w. trail cmd flow db0 r base (w\<lparr>committed := session w\<rparr>)"
  show "triple (trail cmd flow db0 r base) (wlog (Verify_updates ch is))
      (\<lambda>_ w. known base w \<and> (\<forall>c \<in> set (calls w). call_ok cmd flow db0 r c \<and>
         extends (call_db c) (committed w))) (trail cmd flow db0 r base)"
    by (rule triple_log) (auto simp: trail_def known_def)
  have e: "extends (committed w) db" if "env_verify env ch is who (committed w) = (x, db)" for w who x db
    using assms that unfolding env_append_only_def by (metis snd_conv)
  show "triple (\<lambda>w. known base w \<and> (\<forall>c \<in> set (calls w). call_ok cmd flow db0 r c \<and>
         extends (call_db c) (committed w))) ?k (\<lambda>_. trail cmd flow db0 r base) (trail cmd flow db0 r base)"
    by (rule triple_bind[where Q = "\<lambda>_. trail cmd flow db0 r base"])
      (auto simp: trail_def known_def intro!: triples dest!: e, (blast intro: extends_trans)+)
qed

lemma triple_channel:
  assumes env: "env_append_only env"
    and p: "\<not> r \<Longrightarrow> pending_known cmd flow db0 (fst rec) base ch
      (filter (\<lambda>i. wi_listing_id i \<notin> set (snd rec)) is)"
  shows "triple (trail cmd flow db0 r base) (dispatch_channel env cmd flow r rec (ch, is))
    (\<lambda>_. trail cmd flow db0 r base) (trail cmd flow db0 r base)"
proof -
  let ?T = "trail cmd flow db0 r base"
  have c: "triple ?T (case env_connector env flow ch of Some e \<Rightarrow> wraise e | None \<Rightarrow> wret ()) (\<lambda>_. ?T) ?T"
    by (auto intro!: triple_raise triple_ret split: option.split)
  have d: "triple ?T (if filter (\<lambda>i. wi_listing_id i \<notin> set (snd rec)) is \<noteq> [] \<and> \<not> r
      then dispatch_pending env cmd (fst rec) ch (filter (\<lambda>i. wi_listing_id i \<notin> set (snd rec)) is)
      else wret []) (\<lambda>_. ?T) ?T"
    using triple_pending[OF env p] by (auto intro: triple_ret)
  have v: "triple ?T (if b then call_verify env cmd ch js else wret []) (\<lambda>_. ?T) ?T" for b js
    using triple_call_verify[OF env] by (auto intro: triple_ret)
  have reports: "triple ?T (record_transport_reports env ch rs) (\<lambda>_. ?T) ?T" for rs
    by (rule trail_keep[OF grows_reports silent_reports])
  have persist: "triple ?T (wmapM (persist_result env cmd (fst rec)) rs) (\<lambda>_. ?T) ?T" for rs
    by (rule trail_keep[OF grows_mapM[OF grows_persist] silent_mapM[OF silent_persist]])
  have com: "triple ?T commit (\<lambda>_. ?T) ?T" by (rule trail_keep) (rule evidence)+
  show ?thesis
    unfolding dispatch_channel_def prod.case Let_def
    by (rule triple_bind[OF c], rule triple_bind[OF d], rule triple_bind[OF v],
        rule triple_bind[OF reports], rule triple_bind[OF persist], rule triple_bind[OF com],
        rule triple_ret)
qed

definition workflow_of :: "workspace_write_batch_command \<Rightarrow> string" where
  "workflow_of cmd = (if wc_source_workflow cmd = [] then ''unified_workspace'' else wc_source_workflow cmd)"

lemma execute_trail:
  assumes env: "env_append_only env" and dist: "distinct (map wi_listing_id (wc_intents cmd))"
    and start: "calls w = []"
  shows "\<forall>c \<in> set (calls (snd (execute_workspace env cmd r w))).
    call_ok cmd (workflow_of cmd) (session w) r c \<and>
    extends (call_db c) (committed (snd (execute_workspace env cmd r w)))"
proof -
  let ?flow = "workflow_of cmd" and ?is = "wc_intents cmd"
  let ?G = "\<lambda>w'. \<forall>c \<in> set (calls w'). call_ok cmd ?flow (session w) r c \<and> extends (call_db c) (committed w')"
  have fence: "triple (\<lambda>w'. calls w' = [] \<and> session w' = session w) (assert_workspace_fence cmd)
      (\<lambda>_ w'. calls w' = [] \<and> session w' = session w) ?G"
    unfolding assert_workspace_fence_def
    by (rule triple_bind[OF triple_get[where Q = "\<lambda>_ w'. calls w' = [] \<and> session w' = session w"]])
      (auto intro!: triples)
  have rec: "triple (\<lambda>w'. calls w' = [] \<and> session w' = session w)
      (wfoldM (record_intent env ?flow (wc_correlation_id cmd) r) ([], []) ?is)
      (\<lambda>acc. recorded_inv ?flow r (session w) [] ?is acc) ?G"
    by (rule triple_err[OF triple_record_all[OF dist]]) simp
  have rest: "triple (recorded_inv ?flow r (session w) [] ?is acc)
      (wbind commit (\<lambda>_. wbind (wmapM (dispatch_channel env cmd ?flow r acc) (group_by wi_channel_id ?is))
         (\<lambda>rss. wret (concat rss)))) (\<lambda>_. ?G) ?G" for acc
  proof (rule tripleI)
    have main: "?G (snd (wbind commit (\<lambda>_. wbind (wmapM (dispatch_channel env cmd ?flow r acc)
        (group_by wi_channel_id ?is)) (\<lambda>rss. wret (concat rss))) w1))"
      if inv: "recorded_inv ?flow r (session w) [] ?is acc w1" for w1
    proof -
      let ?T = "trail cmd ?flow (session w) r (session w1)"
      have chan: "triple ?T (dispatch_channel env cmd ?flow r acc x) (\<lambda>_. ?T) ?T"
        if x: "x \<in> set (group_by wi_channel_id ?is)" for x
      proof -
        obtain ch js where xj: "x = (ch, js)" by (cases x)
        with x have js: "js = filter (\<lambda>i. wi_channel_id i = ch) ?is" by (simp add: group_by_member)
        show ?thesis unfolding xj
          by (rule triple_channel[OF env])
            (use inv in \<open>auto simp: pending_known_def js recorded_inv_def\<close>)
      qed
      have "triple ?T (wbind (wmapM (dispatch_channel env cmd ?flow r acc) (group_by wi_channel_id ?is))
          (\<lambda>rss. wret (concat rss))) (\<lambda>_. ?T) ?T"
        by (rule triple_bind[OF triple_mapM[OF chan]]) (auto intro: triple_ret)
      moreover have "?T (w1\<lparr>committed := session w1\<rparr>)"
        using inv by (simp add: trail_def known_def recorded_inv_def)
      ultimately have "?T (snd (wbind (wmapM (dispatch_channel env cmd ?flow r acc)
          (group_by wi_channel_id ?is)) (\<lambda>rss. wret (concat rss)) (w1\<lparr>committed := session w1\<rparr>)))"
        by (rule triple_snd)
      then show ?thesis by (auto simp: trail_def known_def wbind_def[of commit] commit_def)
    qed
    show "?G w'" if "recorded_inv ?flow r (session w) [] ?is acc w1"
      "wbind commit (\<lambda>_. wbind (wmapM (dispatch_channel env cmd ?flow r acc)
        (group_by wi_channel_id ?is)) (\<lambda>rss. wret (concat rss))) w1 = (Inl e, w')" for w1 e w'
      using main[OF that(1)] that(2) by simp
    show "?G w'" if "recorded_inv ?flow r (session w) [] ?is acc w1"
      "wbind commit (\<lambda>_. wbind (wmapM (dispatch_channel env cmd ?flow r acc)
        (group_by wi_channel_id ?is)) (\<lambda>rss. wret (concat rss))) w1 = (Inr x, w')" for w1 x w'
      using main[OF that(1)] that(2) by simp
  qed
  have "triple (\<lambda>w'. calls w' = [] \<and> session w' = session w) (execute_workspace env cmd r) (\<lambda>_. ?G) ?G"
    unfolding execute_workspace_def Let_def workflow_of_def[symmetric]
    by (rule triple_bind[OF fence], rule triple_bind[OF rec], rule rest)
  from triple_snd[OF this, of w] start show ?thesis by simp
qed

section \<open>Properties\<close>

text \<open>C1: every intent handed to a provider is covered by committed evidence. When
  \<^verbatim>\<open>execute_workspace\<close> calls a connector's \<^verbatim>\<open>apply_updates\<close>, it is not reconciling, each intent
  belongs to the command and to that Channel, no attempt for it existed when the run began, its
  attempt with the full payload and its \<^verbatim>\<open>dispatch_intent_recorded\<close> and \<^verbatim>\<open>dispatched\<close> events are
  already committed, and a price is sent only under the Channel's current, unlocked authority. It
  holds however the run ends, and whatever other workers do during the calls.\<close>

theorem dispatch_is_covered:
  assumes "env_append_only env" and "distinct (map wi_listing_id (wc_intents cmd))"
    and "calls w = []"
    and "Apply_updates ch is db \<in> set (calls (snd (execute_workspace env cmd reconcile_only w)))"
    and "i \<in> set is"
  shows "\<not> reconcile_only \<and> i \<in> set (wc_intents cmd) \<and> wi_channel_id i = ch \<and>
    dispatch_covered cmd (workflow_of cmd) (session w) i db"
  using bspec[OF execute_trail[OF assms(1,2,3)] assms(4)] assms(5) by auto

text \<open>C2: no operation is dispatched twice. After a run has handed an intent to a provider, no later
  run of the same workflow, by whatever worker and on whatever database grown from the one it left,
  hands an intent for the same job, item and payload to a provider again.\<close>

theorem no_redispatch:
  assumes "env_append_only env1" "env_append_only env2"
    and "distinct (map wi_listing_id (wc_intents cmd1))" "distinct (map wi_listing_id (wc_intents cmd2))"
    and "calls w1 = []" "calls w2 = []" and "workflow_of cmd2 = workflow_of cmd1"
    and "Apply_updates ch1 is1 db1 \<in> set (calls (snd (execute_workspace env1 cmd1 r1 w1)))" "i1 \<in> set is1"
    and "extends (committed (snd (execute_workspace env1 cmd1 r1 w1))) (session w2)"
    and "Apply_updates ch2 is2 db2 \<in> set (calls (snd (execute_workspace env2 cmd2 r2 w2)))" "i2 \<in> set is2"
  shows "(wi_apply_job_id i2, wi_apply_item_ids i2, wi_payload_hash i2) \<noteq>
    (wi_apply_job_id i1, wi_apply_item_ids i1, wi_payload_hash i1)"
proof
  assume same: "(wi_apply_job_id i2, wi_apply_item_ids i2, wi_payload_hash i2) =
    (wi_apply_job_id i1, wi_apply_item_ids i1, wi_payload_hash i1)"
  note t1 = bspec[OF execute_trail[OF assms(1,3,5)] assms(8)]
  note t2 = bspec[OF execute_trail[OF assms(2,4,6)] assms(11)]
  from t1 assms(9) obtain a where "own_attempt (workflow_of cmd1) i1 a db1"
    by (auto simp: dispatch_covered_def)
  then have "a \<in> set (wd_attempts db1)" "same_operation (workflow_of cmd1) i1 a"
    by (simp_all add: own_attempt_def)
  moreover have "extends db1 (session w2)" using t1 assms(10) extends_trans by auto
  ultimately have "a \<in> set (wd_attempts (session w2))" "same_operation (workflow_of cmd2) i2 a"
    using same assms(7) by (auto simp: extends_def same_operation_def)
  moreover from t2 assms(12) have "find_attempt (workflow_of cmd2) i2 (session w2) = None"
    by (simp add: dispatch_covered_def)
  ultimately show False by (auto simp: find_attempt_None)
qed


section \<open>Concrete runs\<close>

text \<open>A provider that applies and verifies everything, and a command that writes one price.\<close>

definition demo_env :: provider_env where
  "demo_env = \<lparr>env_connector = \<lambda>flow ch. None, env_acquire = \<lambda>ch db. (None, db),
     env_apply = \<lambda>ch is who db. (Inr (map (\<lambda>i. (write_result (wi_listing_id i) W_VERIFIED_APPLIED)
       \<lparr>wr_provider_accepted := True\<rparr>) is), db),
     env_verify = \<lambda>ch is who db. (Inr (map (\<lambda>i. write_result (wi_listing_id i) W_VERIFIED_APPLIED) is), db),
     env_uuid = \<lambda>db. show_nat (length (wd_attempts db) + length (wd_attempt_events db)),
     env_now = \<lambda>db. 0, env_py = \<lparr>repr_of = \<lambda>v. [], float_of_string = \<lambda>s. None\<rparr>, env_dumps = \<lambda>d. []\<rparr>"

definition demo_intent :: workspace_write_intent where
  "demo_intent = \<lparr>wi_apply_job_id = ''job'', wi_apply_item_ids = [''item''], wi_workspace_id = ''ws'',
     wi_snapshot_id = ''s'', wi_draft_revision_id = ''d'', wi_review_id = ''r'',
     wi_selection_checksum = ''c'', wi_listing_id = ''l1'', wi_channel_id = ''ch'',
     wi_external_primary_id = ''77'', wi_sku = None, wi_product_type = ''simple'',
     wi_parent_external_id = None, wi_current_price = Some 10, wi_current_stock = None,
     wi_current_status = None, wi_target_price = Some 12, wi_target_stock = None,
     wi_target_status = None, wi_currency = Some ''IRR'', wi_unit = Some ''IRR'',
     wi_mapping_version = 1, wi_cache_version = 1, wi_cache_checksum = ''cc'',
     wi_capability_version = ''v1'', wi_currency_digest = ''cd'', wi_idempotency_key = ''k1'',
     wi_payload_hash = ''h1'', wi_pricing_origin = Some O_LEGACY_FORMULA_ENGINE,
     wi_expected_pricing_authority = Some A_LEGACY_FORMULA_ENGINE,
     wi_pricing_authority_event_id = None, wi_pricing_authority_head_version = Some 0\<rparr>"

definition demo_command :: workspace_write_batch_command where
  "demo_command = \<lparr>wc_workspace_id = ''ws'', wc_snapshot_id = ''s'', wc_draft_revision_id = ''d'',
     wc_review_id = ''r'', wc_selection_checksum = ''c'', wc_correlation_id = ''corr'',
     wc_requested_by = ''ops'', wc_intents = [demo_intent], wc_fencing_token = Some 1,
     wc_lease_token = Some ''lease'', wc_source_workflow = [],
     wc_pricing_origin = Some O_LEGACY_FORMULA_ENGINE\<rparr>"

definition demo_job :: apply_job where
  "demo_job = \<lparr>aj_id = ''job'', aj_workspace_id = ''ws'', aj_snapshot_id = ''s'',
     aj_draft_revision_id = ''d'', aj_review_id = ''r'', aj_requested_by_user_id = 1,
     aj_idempotency_key = ''key'', aj_logical_operation_key = ''op'', aj_correlation_id = ''corr'',
     aj_selection_checksum = ''c'', aj_manifest_id = None, aj_manifest_checksum = None,
     aj_status = S_RUNNING, aj_created_at = 0, aj_started_at = None,
     aj_heartbeat_at = None, aj_completed_at = None, aj_worker_id = Some ''w'',
     aj_fencing_token = 1, aj_lease_token = Some ''lease'', aj_lease_expires_at = None,
     aj_recovery_attempts = 0\<rparr>"

definition demo_write_db :: write_db where
  "demo_write_db = \<lparr>wd_batches = [], wd_events = [], wd_attempts = [], wd_attempt_events = [],
     wd_authority = demo_db, wd_observability = \<lparr>obs_events = [], obs_transitions = []\<rparr>,
     wd_jobs = [demo_job], wd_job_items = [], wd_listings = [], wd_locks = [],
     wd_workspaces = [], wd_drafts = [], wd_review_items = [], wd_channel_cache = [], wd_audit = [],
     wd_connector_read_only = [], wd_telemetry = [], wd_integration_events = []\<rparr>"

definition demo_world :: world where
  "demo_world = \<lparr>committed = demo_write_db, session = demo_write_db, calls = []\<rparr>"

definition demo_run :: world where
  "demo_run = snd (execute_workspace demo_env demo_command False demo_world)"

definition demo_rerun_world :: world where
  "demo_rerun_world = demo_run\<lparr>calls := []\<rparr>"

definition demo_other :: workspace_write_intent where
  "demo_other = demo_intent\<lparr>wi_apply_item_ids := [''item2''], wi_listing_id := ''l2'',
     wi_idempotency_key := ''k2'', wi_payload_hash := ''h2''\<rparr>"

definition demo_rerun :: workspace_write_batch_command where
  "demo_rerun = demo_command\<lparr>wc_intents := [demo_intent, demo_other]\<rparr>"

lemma demo_env_append_only: "env_append_only demo_env"
  by (simp add: env_append_only_def demo_env_def)

fun call_summary :: "provider_call \<Rightarrow> bool \<times> string \<times> string list" where
  "call_summary (Apply_updates ch is db) = (True, ch, map wi_listing_id is)"
| "call_summary (Verify_updates ch is db) = (False, ch, map wi_listing_id is)"

lemma demo_run_calls: "map call_summary (calls demo_run) = [(True, ''ch'', [''l1''])]"
  by code_simp

lemma demo_rerun_calls:
  "map call_summary (calls (snd (execute_workspace demo_env demo_rerun False demo_rerun_world))) =
     [(True, ''ch'', [''l2'']), (False, ''ch'', [''l1''])]"
  by code_simp

lemma summary_apply:
  assumes "map call_summary cs = [(True, ch, ls)] @ rest"
  shows "\<exists>is db. Apply_updates ch is db \<in> set cs \<and> map wi_listing_id is = ls"
proof (cases cs)
  case Nil
  with assms show ?thesis by simp
next
  case (Cons c ds)
  with assms have "call_summary c = (True, ch, ls)" by simp
  then have "\<exists>is db. c = Apply_updates ch is db \<and> map wi_listing_id is = ls" by (cases c) auto
  with Cons show ?thesis by auto
qed

theorem dispatch_is_covered_witness:
  "\<exists>db. dispatch_covered demo_command (workflow_of demo_command) (session demo_world) demo_intent db"
proof -
  have calls: "calls demo_world = []" and ints: "wc_intents demo_command = [demo_intent]"
    by (simp_all add: demo_world_def demo_command_def)
  obtain "is" db where a: "Apply_updates ''ch'' is db \<in> set (calls demo_run)"
    and ls: "map wi_listing_id is = [''l1'']"
    using summary_apply[of "calls demo_run" "''ch''" "[''l1'']" "[]"] demo_run_calls by auto
  then obtain i where i: "i \<in> set is" by (cases "is") auto
  have d: "distinct (map wi_listing_id (wc_intents demo_command))" by (simp add: ints)
  from dispatch_is_covered[OF demo_env_append_only d calls a[unfolded demo_run_def] i] ints
  show ?thesis by auto
qed

theorem no_redispatch_witness:
  "(wi_apply_job_id demo_other, wi_apply_item_ids demo_other, wi_payload_hash demo_other) \<noteq>
     (wi_apply_job_id demo_intent, wi_apply_item_ids demo_intent, wi_payload_hash demo_intent)"
proof -
  have calls: "calls demo_world = []" "calls demo_rerun_world = []"
    by (simp_all add: demo_world_def demo_rerun_world_def)
  have d: "distinct (map wi_listing_id (wc_intents demo_command))"
    "distinct (map wi_listing_id (wc_intents demo_rerun))"
    by (simp_all add: demo_command_def demo_rerun_def demo_intent_def demo_other_def)
  have w: "workflow_of demo_rerun = workflow_of demo_command"
    by (simp add: workflow_of_def demo_rerun_def)
  have e: "extends (committed (snd (execute_workspace demo_env demo_command False demo_world)))
      (session demo_rerun_world)"
    by code_simp
  obtain is1 db1 where a1: "Apply_updates ''ch'' is1 db1 \<in> set (calls demo_run)"
    and l1: "map wi_listing_id is1 = [''l1'']"
    using summary_apply[of "calls demo_run" "''ch''" "[''l1'']" "[]"] demo_run_calls by auto
  obtain is2 db2 where a2: "Apply_updates ''ch'' is2 db2 \<in>
      set (calls (snd (execute_workspace demo_env demo_rerun False demo_rerun_world)))"
    and l2: "map wi_listing_id is2 = [''l2'']"
    using summary_apply[of "calls (snd (execute_workspace demo_env demo_rerun False demo_rerun_world))"
      "''ch''" "[''l2'']" "[(False, ''ch'', [''l1''])]"] demo_rerun_calls by auto
  from l1 l2 obtain i1 i2 where i: "i1 \<in> set is1" "i2 \<in> set is2"
    and li: "wi_listing_id i1 = ''l1''" "wi_listing_id i2 = ''l2''"
    by (cases is1; cases is2) auto
  from bspec[OF execute_trail[OF demo_env_append_only d(1) calls(1)] a1[unfolded demo_run_def]] i(1)
  have "i1 = demo_intent" by (simp add: demo_command_def)
  moreover from bspec[OF execute_trail[OF demo_env_append_only d(2) calls(2)] a2] i(2) li(2)
  have "i2 = demo_other" by (auto simp: demo_rerun_def demo_intent_def)
  moreover note no_redispatch[OF demo_env_append_only demo_env_append_only d calls w
      a1[unfolded demo_run_def] i(1) e a2 i(2)]
  ultimately show ?thesis by simp
qed

definition demo_fenced :: world where
  "demo_fenced = demo_world\<lparr>session := demo_write_db\<lparr>wd_jobs := [demo_job\<lparr>aj_fencing_token := 2\<rparr>]\<rparr>\<rparr>"


end
