(* ===== verification/BatchSafety.thy ===== *)
theory BatchSafety
  imports WriteBatches DispatchSafety
begin

text \<open>
  What the operator's batches promise: a dry run admits only rows inside the safety gates and can be
  approved as it stands, a provider is called only for an approved, unchanged batch of a Channel open
  for writing, and the status a batch ends with is the truth about its items.
\<close>

section \<open>The two hashes agree\<close>

lemma sort_key_map: "sort_key k (map f xs) = map f (sort_key (k \<circ> f) xs)"
proof -
  have ins: "insort_key k (f x) (map f ys) = map f (insort_key (\<lambda>a. k (f a)) x ys)" for x ys
    by (induction ys) auto
  show ?thesis by (induction xs) (simp_all add: ins comp_def)
qed

lemma sort_key_enumerate: "map snd (sort_key (k \<circ> snd) (enumerate n xs)) = sort_key k xs"
  using sort_key_map[of k snd "enumerate n xs"] by simp

definition repr_nonempty :: "py_runtime \<Rightarrow> bool" where
  "repr_nonempty py \<longleftrightarrow> (\<forall>v. repr_of py v \<noteq> [])"

lemma py_str_nonempty: "repr_nonempty py \<Longrightarrow> json_truthy v \<Longrightarrow> py_str py v \<noteq> []"
  by (cases v) (simp_all add: repr_nonempty_def)

lemma str_get_stored: "s \<noteq> [] \<Longrightarrow> map_of d k = Some (JStr s) \<Longrightarrow> str_get py k dflt d = s"
  by (simp add: str_get_def jget_def)

lemma str_get_same: "jget k d = jget k' e \<Longrightarrow> str_get py k dflt d = str_get py k' dflt e"
  by (simp add: str_get_def)

lemma hash_columns:
  assumes "repr_nonempty py"
  shows "it_channel_product_id (item_of_change py n c) = pc_product_id c"
    "it_current_price (item_of_change py n c) = finite_value (pc_current_price c)"
    "it_proposed_price (item_of_change py n c) = finite_value (pc_proposed_price c)"
    "it_currency (item_of_change py n c) = pc_currency c"
    "str_get py ''source_fingerprint'' [] (it_snapshot (item_of_change py n c)) =
       source_fingerprint py (jget ''source'' (pc_extras c))"
    "str_get py ''item_type'' ''simple'' (it_snapshot (item_of_change py n c)) =
       str_get py ''itemType'' ''simple'' (pc_extras c)"
    "str_get py ''parent_product_id'' [] (it_snapshot (item_of_change py n c)) =
       str_get py ''parentProductId'' [] (pc_extras c)"
    "str_get py ''variation_id'' [] (it_snapshot (item_of_change py n c)) =
       str_get py ''variationId'' [] (pc_extras c)"
proof -
  have look: "jget ''source_fingerprint'' (it_snapshot (item_of_change py n c)) =
        JStr (source_fingerprint py (jget ''source'' (pc_extras c)))"
      "jget ''item_type'' (it_snapshot (item_of_change py n c)) =
        JStr (str_get py ''itemType'' ''simple'' (pc_extras c))"
      "jget ''parent_product_id'' (it_snapshot (item_of_change py n c)) = jget ''parentProductId'' (pc_extras c)"
      "jget ''variation_id'' (it_snapshot (item_of_change py n c)) = jget ''variationId'' (pc_extras c)"
    by (simp_all add: item_of_change_def Let_def)
  have "str_get py ''itemType'' ''simple'' (pc_extras c) \<noteq> []"
    using py_str_nonempty[OF assms] by (simp add: str_get_def)
  then show "str_get py ''item_type'' ''simple'' (it_snapshot (item_of_change py n c)) =
       str_get py ''itemType'' ''simple'' (pc_extras c)"
    unfolding str_get_def[of py "''item_type''"] look by simp
  show "str_get py ''source_fingerprint'' [] (it_snapshot (item_of_change py n c)) =
       source_fingerprint py (jget ''source'' (pc_extras c))"
    unfolding str_get_def look by simp
  show "str_get py ''parent_product_id'' [] (it_snapshot (item_of_change py n c)) =
       str_get py ''parentProductId'' [] (pc_extras c)"
    "str_get py ''variation_id'' [] (it_snapshot (item_of_change py n c)) =
       str_get py ''variationId'' [] (pc_extras c)"
    by (rule str_get_same, rule look)+
qed (simp_all add: item_of_change_def Let_def)

lemma batch_hash_agrees:
  assumes "repr_nonempty (env_py (be_provider env))"
  shows "batch_hash_from_row env (batch_of_selection env adapter body user sel safety db) =
    wb_batch_hash (batch_of_selection env adapter body user sel safety db)"
proof -
  let ?py = "env_py (be_provider env)"
  let ?h = "\<lambda>p. item_of_change ?py (next_item_id db + int (fst p)) (snd p)"
  let ?b = "batch_of_selection env adapter body user sel safety db"
  let ?line = "\<lambda>c. hash_line [pc_product_id c, fmt4 (finite_value (pc_current_price c)),
        fmt4 (finite_value (pc_proposed_price c)), pc_currency c,
        source_fingerprint ?py (jget ''source'' (pc_extras c)),
        str_get ?py ''itemType'' ''simple'' (pc_extras c),
        str_get ?py ''parentProductId'' [] (pc_extras c),
        str_get ?py ''variationId'' [] (pc_extras c)]"
  have items: "wb_items ?b = map ?h (enumerate 0 (sel_changes sel))"
    by (simp add: batch_of_selection_def split_beta)
  have key: "it_channel_product_id \<circ> ?h = pc_product_id \<circ> snd"
    by (simp add: fun_eq_iff hash_columns(1)[OF assms])
  have sorted: "sort_key it_channel_product_id (wb_items ?b) =
      map ?h (sort_key (pc_product_id \<circ> snd) (enumerate 0 (sel_changes sel)))"
    by (simp only: items sort_key_map key)
  have "map (\<lambda>it. hash_line
       [it_channel_product_id it, fmt4 (it_current_price it), fmt4 (it_proposed_price it),
        it_currency it, str_get ?py ''source_fingerprint'' [] (it_snapshot it),
        str_get ?py ''item_type'' ''simple'' (it_snapshot it),
        str_get ?py ''parent_product_id'' [] (it_snapshot it),
        str_get ?py ''variation_id'' [] (it_snapshot it)])
       (sort_key it_channel_product_id (wb_items ?b)) =
      map ?line (map snd (sort_key (pc_product_id \<circ> snd) (enumerate 0 (sel_changes sel))))"
    unfolding sorted by (simp add: hash_columns[OF assms])
  also have "\<dots> = map ?line (sort_key pc_product_id (sel_changes sel))"
    by (simp only: sort_key_enumerate)
  finally show ?thesis
    by (simp add: batch_hash_from_row_def batch_hash_def Let_def batch_of_selection_def)
qed

section \<open>Running the session monad forward\<close>

named_theorems run_simps \<open>equations that execute the session monad\<close>

declare wbind_run [run_simps] wbind_raise [run_simps] run_primitive [run_simps]

lemma run_get_batch [run_simps]:
  "get_batch bid w = (case get_row wb_id bid (wd_batches (session w)) of
     None \<Rightarrow> (Inl (Http_error 404 ''Dry Run not found.''), w) | Some b \<Rightarrow> (Inr b, w))"
  by (simp add: get_batch_def wbind_def run_primitive split: option.split)

lemma run_record_event [run_simps]:
  "record_event env b ty msg it sev md corr w = (Inr (), w\<lparr>session := (session w)
     \<lparr>wd_events := wd_events (session w) @ [\<lparr>we_batch_id = b, we_item_id = it, we_event_type = ty,
         we_severity = sev, we_message = msg, we_metadata = redact_dict md,
         we_correlation_id = (if corr = [] then ''corr_'' @ env_uuid (be_provider env) (session w)
           else corr)\<rparr>]\<rparr>\<rparr>)"
  by (simp add: record_event_def run_primitive)

lemma create_dry_run_result:
  assumes "create_dry_run env body user selection w = (Inr b, w')"
  obtains sel adapter safety where "selection = Inr sel"
    "adapter_for env ''woocommerce:primary'' ''price_update'' = Inr adapter"
    "validate_changes adapter ''price_update'' (dr_preview_id body) (sel_summary sel) (sel_changes sel) = Inr safety"
    "b = batch_of_selection env adapter body user sel safety (session w)"
    "wd_batches (session w') = wd_batches (session w) @ [b]" "committed w' = session w'" "calls w' = calls w"
proof -
  have v: "validate_request_controls env body user w = (Inr (), w)"
    using assms
    by (auto simp: create_dry_run_def wbind_returns validate_request_controls_def run_simps
        split: option.splits prod.splits)
  with assms have rest: "(case selection of
       Inl (status, code) \<Rightarrow>
         wbind (record_preview_rejection env body user code) (\<lambda>_. wraise (Http_error status code))
     | Inr sel \<Rightarrow>
         wbind (wlift id (adapter_for env ''woocommerce:primary'' ''price_update'')) (\<lambda>adapter.
         wbind (wlift id (validate_changes adapter ''price_update'' (dr_preview_id body)
           (sel_summary sel) (sel_changes sel))) (\<lambda>safety.
         wbind (wget (batch_of_selection env adapter body user sel safety)) (\<lambda>b.
         wbind (wmodify (\<lambda>db. db\<lparr>wd_batches := wd_batches db @ [b]\<rparr>)) (\<lambda>_.
         wbind (record_event env (wb_id b) ''dry_run_created_from_preview''
           ''Dry Run created from immutable selected preview rows. No marketplace write was executed.''
           None ''info'' (dry_run_metadata b safety body user sel) []) (\<lambda>_.
         wbind commit (\<lambda>_. wret b))))))) w = (Inr b, w')"
    by (simp add: create_dry_run_def wbind_run[of "validate_request_controls env body user" w "()" w, OF v])
  then obtain sel where sel: "selection = Inr sel"
    by (cases selection) (auto simp: wbind_returns run_simps)
  from rest[unfolded sel sum.case] obtain adapter safety where
    "adapter_for env ''woocommerce:primary'' ''price_update'' = Inr adapter"
    "validate_changes adapter ''price_update'' (dr_preview_id body) (sel_summary sel) (sel_changes sel) = Inr safety"
    and b: "b = batch_of_selection env adapter body user sel safety (session w)"
    and w': "wd_batches (session w') = wd_batches (session w) @ [b]" "committed w' = session w'"
      "calls w' = calls w"
    by (auto simp: wbind_returns wlift_def run_simps split: sum.splits)
  with sel that show ?thesis by blast
qed

lemma validate_change_gates:
  assumes "validate_change adapter preview c = Inr d"
  shows "0 \<le> finite_value (pc_current_price c) \<and> 0 < finite_value (pc_proposed_price c) \<and>
    \<bar>delta_percent (finite_value (pc_current_price c)) (finite_value (pc_proposed_price c))\<bar> \<le> 50"
proof -
  from assms have "\<exists>x. price_delta (pc_current_price c) (pc_proposed_price c) = Inr x"
    by (auto simp: validate_change_def rbind_eq_Inr split: option.splits)
  then show ?thesis
    by (cases "pc_current_price c"; cases "pc_proposed_price c")
      (auto simp: price_delta_def finite_value_def MAX_DELTA_PERCENT_def not_less not_le split: if_splits)
qed

section \<open>Properties\<close>

text \<open>C12: a dry run can be approved exactly as it was created. The hash recomputed from the stored rows
  is the hash of the validated changes, so approval right after creation succeeds, records who
  approved, and calls no provider.\<close>

theorem dry_run_approvable:
  assumes "create_dry_run env body user selection w = (Inr b, w')"
    and "repr_nonempty (env_py (be_provider env))"
    and "wb_id b \<notin> wb_id ` set (wd_batches (session w))"
  shows "\<exists>b' w''. approve env (wb_id b) reason approver w' = (Inr b', w'') \<and> wb_status b' = ''approved'' \<and>
    wb_approved_by b' = Some approver \<and> wb_items b' = wb_items b \<and> wb_batch_hash b' = wb_batch_hash b \<and>
    calls w'' = calls w"
proof -
  from assms(1) obtain sel adapter safety where
    b: "b = batch_of_selection env adapter body user sel safety (session w)"
    and w': "wd_batches (session w') = wd_batches (session w) @ [b]" "calls w' = calls w"
    by (rule create_dry_run_result)
  have row: "get_row wb_id (wb_id b) (wd_batches (session w')) = Some b"
    using get_row_None[THEN iffD2, OF assms(3)] by (simp add: w' get_row_append)
  have status: "wb_status b = ''dry_run_ready''" by (simp add: b batch_of_selection_def)
  have hash: "batch_hash_from_row env b = wb_batch_hash b"
    unfolding b by (rule batch_hash_agrees[OF assms(2)])
  show ?thesis
    by (simp add: approve_def wbind_def run_simps row status hash assert_batch_hash_def
        update_batch_def get_row_upd w'(2))
qed

text \<open>a dry run holds only rows inside the safety gates: at most 100 rows, all from the preview the
  operator saw and eligible in it, one currency, positive prices, and no change of more than 50 percent. No
  provider is called.\<close>

theorem dry_run_inside_gates:
  assumes "create_dry_run env body user selection w = (Inr b, w')"
  shows "length (wb_items b) \<le> 100 \<and> calls w' = calls w \<and> wb_status b = ''dry_run_ready'' \<and>
    (\<forall>it \<in> set (wb_items b). 0 \<le> it_current_price it \<and> 0 < it_proposed_price it \<and>
       \<bar>it_delta_percent it\<bar> \<le> 50 \<and> it_currency it = wb_currency b \<and> it_status it = ''pending'')"
proof -
  from assms obtain sel adapter safety where
    val: "validate_changes adapter ''price_update'' (dr_preview_id body) (sel_summary sel) (sel_changes sel) = Inr safety"
    and b: "b = batch_of_selection env adapter body user sel safety (session w)" and w': "calls w' = calls w"
    by (rule create_dry_run_result)
  let ?cs = "sel_changes sel"
  from val obtain deltas where len: "length ?cs \<le> 100"
    and deltas: "rmap (validate_change adapter (dr_preview_id body)) ?cs = Inr deltas"
    and cur: "\<not> 1 < length (remdups (map pc_currency ?cs))"
    by (auto simp: validate_changes_def MAX_ITEMS_def rbind_eq_Inr split: if_splits)
  have one: "pc_currency c = pc_currency d" if "c \<in> set ?cs" "d \<in> set ?cs" for c d
  proof -
    have "length (remdups (map pc_currency ?cs)) = card (pc_currency ` set ?cs)"
      by (simp add: length_remdups_card_conv)
    with cur have "card (pc_currency ` set ?cs) \<le> Suc 0" by simp
    note all = iffD1[OF card_le_Suc0_iff_eq[OF finite_imageI[OF finite_set]] this]
    show ?thesis by (rule bspec[OF bspec[OF all imageI[OF that(1)]] imageI[OF that(2)]])
  qed
  have row: "0 \<le> finite_value (pc_current_price c) \<and> 0 < finite_value (pc_proposed_price c) \<and>
      \<bar>delta_percent (finite_value (pc_current_price c)) (finite_value (pc_proposed_price c))\<bar> \<le> 50"
    if c: "c \<in> set ?cs" for c
  proof -
    from rmap_all[OF deltas c] obtain d where "validate_change adapter (dr_preview_id body) c = Inr d" by blast
    then show ?thesis by (rule validate_change_gates)
  qed
  have items: "\<exists>n c. it = item_of_change (env_py (be_provider env)) n c \<and> c \<in> set ?cs"
    if it: "it \<in> set (wb_items b)" for it
  proof -
    from it obtain k c where "(k, c) \<in> set (enumerate 0 ?cs)"
      and "it = item_of_change (env_py (be_provider env)) (next_item_id (session w) + int k) c"
      by (auto simp: b batch_of_selection_def)
    moreover from this(1) have "c \<in> set ?cs" by (auto simp: in_set_enumerate_eq)
    ultimately show ?thesis by blast
  qed
  have currency: "wb_currency b = pc_currency c" if "c \<in> set ?cs" for c
  proof -
    from that obtain d ds where cs: "?cs = d # ds" by (cases ?cs) auto
    then have "wb_currency b = pc_currency d" by (simp add: b batch_of_selection_def)
    also have "\<dots> = pc_currency c" by (rule one[OF _ that]) (simp add: cs)
    finally show ?thesis .
  qed
  have "0 \<le> it_current_price it \<and> 0 < it_proposed_price it \<and> \<bar>it_delta_percent it\<bar> \<le> 50 \<and>
      it_currency it = wb_currency b \<and> it_status it = ''pending''" if "it \<in> set (wb_items b)" for it
  proof -
    from items[OF that] obtain n c where it: "it = item_of_change (env_py (be_provider env)) n c"
      and c: "c \<in> set ?cs" by blast
    from row[OF c] currency[OF c] show ?thesis by (simp add: it item_of_change_def Let_def)
  qed
  moreover have "length (wb_items b) = length ?cs" "wb_status b = ''dry_run_ready''"
    by (simp_all add: b batch_of_selection_def)
  ultimately show ?thesis using len w' by simp
qed

section \<open>Execution\<close>

lemma silent_finish_item: "silent (finish_item env b user corr results it)"
  unfolding finish_item_def record_event_def emit_channel_write_event_def Let_def split_beta
  by (intro silent_bind evidence) (auto intro!: evidence silent_emit split: option.split prod.split)

lemma silent_get_batch: "silent (get_batch bid)"
  unfolding get_batch_def by (intro silent_bind evidence) (auto intro: evidence split: option.split)

lemma silent_finish_batch: "silent (finish_batch env bid user corr results)"
  unfolding finish_batch_def close_batch_def Let_def update_batch_def record_event_def emit_batch_event_def
  by (intro silent_bind evidence silent_get_batch silent_mapM silent_finish_item)
    (auto intro: evidence silent_emit split: option.split prod.split)

text \<open>What the steps before the engine keep: the switches of the connectors, and no provider call.\<close>

definition gate_inv :: "(string \<times> bool) list \<Rightarrow> world \<Rightarrow> bool" where
  "gate_inv ro w \<longleftrightarrow> calls w = [] \<and> wd_connector_read_only (session w) = ro"

lemma gate_command:
  "triple (gate_inv ro) (legacy_batch_command env b user corr)
     (\<lambda>cmd w. gate_inv ro w \<and> (\<exists>auth. wc_intents cmd = map (legacy_intent env b auth) (wb_items b)))
     (gate_inv ro)"
  unfolding legacy_batch_command_def authority_snapshot_of_def
  by (intro triple_bind[where Q = "\<lambda>_. gate_inv ro"] triples)
    (auto simp: gate_inv_def seed_channels_def Let_def intro!: triples triple_bind[where Q = "\<lambda>_. gate_inv ro"]
      split: prod.split)

lemma gate_started:
  "triple (gate_inv ro) (wbind (update_batch bid f) (\<lambda>_. record_event env b ty msg it sev md corr))
     (\<lambda>_. gate_inv ro) (gate_inv ro)"
  unfolding update_batch_def record_event_def
  by (intro triple_bind[where Q = "\<lambda>_. gate_inv ro"] triples) (simp_all add: gate_inv_def)

lemma gate_enabled:
  "triple (gate_inv ro) (assert_channel_write_enabled b)
     (\<lambda>_ w. gate_inv ro w \<and> map_of ro (wb_channel_id b) = Some False) (gate_inv ro)"
  unfolding assert_channel_write_enabled_def
  by (rule triple_bind[OF triple_get[where Q = "\<lambda>x w. gate_inv ro w \<and> x = map_of ro (wb_channel_id b)"]])
    (auto simp: gate_inv_def intro!: triples)

lemma legacy_listings_distinct:
  assumes "distinct (map it_channel_product_id its)"
  shows "distinct (map wi_listing_id (map (legacy_intent env b auth) its))"
proof -
  have "map wi_listing_id (map (legacy_intent env b auth) its) =
      map (\<lambda>it. legacy_listing_id it (wb_channel_id b)) its"
    by (simp add: legacy_intent_def Let_def)
  also have "\<dots> = map (\<lambda>p. ''legacy:'' @ (if wb_channel_id b = [] then ''woocommerce:primary''
      else wb_channel_id b) @ '':'' @ p) (map it_channel_product_id its)"
    by (simp add: legacy_listing_id_def)
  finally show ?thesis using assms by (simp add: distinct_map inj_on_def)
qed

lemma execute_unfold:
  assumes "get_row wb_id bid (wd_batches (session w)) = Some b"
    and "wb_status b = ''approved'' \<or> resumable b" and "batch_hash_from_row env b = wb_batch_hash b"
  shows "execute env bid user w = wbind (wlift id (adapter_for env (wb_channel_id b) (wb_operation_type b)))
     (\<lambda>adapter. wbind (wget (\<lambda>db. case legacy_correlation_id b db of Some c \<Rightarrow> c
       | None \<Rightarrow> ''corr_'' @ env_uuid (be_provider env) db)) (\<lambda>corr.
     wbind (if resumable b then wret () else
       wbind (update_batch bid (\<lambda>r. r\<lparr>wb_status := ''executing''\<rparr>)) (\<lambda>_.
       record_event env bid ''execution_started'' ''Apply started from an approved Dry Run.'' None ''info''
         [(''approved_by'', jopt (wb_approved_by b)), (''requested_by'', JStr user),
          (''correlation_id'', JStr corr), (''source_workflow'', JStr ''legacy_write_pipeline'')] corr)) (\<lambda>_.
     wbind (legacy_batch_command env b user corr) (\<lambda>cmd.
     wbind (wget (has_attempts bid)) (\<lambda>attempted.
     wbind (if \<not> resumable b \<or> \<not> attempted then assert_channel_write_enabled b else wret ()) (\<lambda>_.
     wbind (execute_workspace (be_provider env) cmd (resumable b \<and> attempted)) (\<lambda>results.
     finish_batch env bid user corr results))))))) w"
  using assms by (auto simp: execute_def wbind_def[of "get_batch bid"] run_simps assert_batch_hash_def
      wbind_def[of "wret ()"])

text \<open>C10: a provider is asked to change something only for a batch that an operator approved, or that is
  being resumed, whose rows still hash to the approved value, whose channel and operation have a safe
  adapter, and whose connector is open for writing. This holds on every path of \<^verbatim>\<open>execute\<close>,
  the failing ones included.\<close>

theorem execute_is_gated:
  assumes "env_append_only (be_provider env)" and "calls w = []"
    and "\<forall>b \<in> set (wd_batches (session w)). distinct (map it_channel_product_id (wb_items b))"
    and "Apply_updates ch is db \<in> set (calls (snd (execute env bid user w)))"
  shows "\<exists>b. get_row wb_id bid (wd_batches (session w)) = Some b \<and>
    (wb_status b = ''approved'' \<or> resumable b) \<and> batch_hash_from_row env b = wb_batch_hash b \<and>
    is_ok (adapter_for env (wb_channel_id b) (wb_operation_type b)) \<and>
    map_of (wd_connector_read_only (session w)) (wb_channel_id b) = Some False"
proof (cases "get_row wb_id bid (wd_batches (session w))")
  case None
  with assms(2,4) show ?thesis by (simp add: execute_def wbind_def run_simps)
next
  case (Some b)
  have ok: "(wb_status b = ''approved'' \<or> resumable b) \<and> batch_hash_from_row env b = wb_batch_hash b"
  proof (rule ccontr)
    assume "\<not> ?thesis"
    then have "calls (snd (execute env bid user w)) = []"
      using Some assms(2) by (auto simp: execute_def wbind_def run_simps assert_batch_hash_def)
    with assms(4) show False by simp
  qed
  have dist: "distinct (map it_channel_product_id (wb_items b))"
    using assms(3) get_row_Some[OF Some] by blast
  let ?ro = "wd_connector_read_only (session w)"
  let ?P = "\<lambda>w'. Apply_updates ch is db \<in> set (calls w') \<longrightarrow>
    map_of ?ro (wb_channel_id b) = Some False \<and> is_ok (adapter_for env (wb_channel_id b) (wb_operation_type b))"
  have gate_P: "gate_inv ?ro w' \<Longrightarrow> ?P w'" for w' by (simp add: gate_inv_def)
  have engine: "triple (\<lambda>w'. gate_inv ?ro w' \<and>
        (\<not> (resumable b \<and> attempted) \<longrightarrow> map_of ?ro (wb_channel_id b) = Some False))
      (execute_workspace (be_provider env) cmd (resumable b \<and> attempted)) (\<lambda>_. ?P) ?P"
    if cmd: "wc_intents cmd = map (legacy_intent env b auth) (wb_items b)"
      and ad: "adapter_for env (wb_channel_id b) (wb_operation_type b) = Inr adapter"
    for cmd attempted auth adapter
  proof -
    have "?P (snd (execute_workspace (be_provider env) cmd (resumable b \<and> attempted) w'))"
      if "gate_inv ?ro w' \<and> (\<not> (resumable b \<and> attempted) \<longrightarrow> map_of ?ro (wb_channel_id b) = Some False)" for w'
    proof
      assume call: "Apply_updates ch is db \<in>
        set (calls (snd (execute_workspace (be_provider env) cmd (resumable b \<and> attempted) w')))"
      have d: "distinct (map wi_listing_id (wc_intents cmd))"
        unfolding cmd by (rule legacy_listings_distinct[OF dist])
      have c: "calls w' = []" using that by (simp add: gate_inv_def)
      from bspec[OF execute_trail[OF assms(1) d c] call] have "\<not> (resumable b \<and> attempted)" by simp
      with that ad show "map_of ?ro (wb_channel_id b) = Some False \<and>
          is_ok (adapter_for env (wb_channel_id b) (wb_operation_type b))" by simp
    qed
    then show ?thesis
      by (intro tripleI) (metis snd_conv)+
  qed
  have finish: "triple ?P (finish_batch env bid user corr results) (\<lambda>_. ?P) ?P" for corr results
  proof (rule tripleI)
    fix w1 e w2 assume "?P w1" "finish_batch env bid user corr results w1 = (Inl e, w2)"
    with triple_Inl[OF silent_triple[OF silent_finish_batch] refl this(2)] show "?P w2" by simp
  next
    fix w1 x w2 assume "?P w1" "finish_batch env bid user corr results w1 = (Inr x, w2)"
    with triple_Inr[OF silent_triple[OF silent_finish_batch] refl this(2)] show "?P w2" by simp
  qed
  have run: "triple (gate_inv ?ro) (wbind (wlift id (adapter_for env (wb_channel_id b) (wb_operation_type b)))
     (\<lambda>adapter. wbind (wget (\<lambda>db. case legacy_correlation_id b db of Some c \<Rightarrow> c
       | None \<Rightarrow> ''corr_'' @ env_uuid (be_provider env) db)) (\<lambda>corr.
     wbind (if resumable b then wret () else
       wbind (update_batch bid (\<lambda>r. r\<lparr>wb_status := ''executing''\<rparr>)) (\<lambda>_.
       record_event env bid ''execution_started'' ''Apply started from an approved Dry Run.'' None ''info''
         [(''approved_by'', jopt (wb_approved_by b)), (''requested_by'', JStr user),
          (''correlation_id'', JStr corr), (''source_workflow'', JStr ''legacy_write_pipeline'')] corr)) (\<lambda>_.
     wbind (legacy_batch_command env b user corr) (\<lambda>cmd.
     wbind (wget (has_attempts bid)) (\<lambda>attempted.
     wbind (if \<not> resumable b \<or> \<not> attempted then assert_channel_write_enabled b else wret ()) (\<lambda>_.
     wbind (execute_workspace (be_provider env) cmd (resumable b \<and> attempted)) (\<lambda>results.
     finish_batch env bid user corr results)))))))) (\<lambda>_. ?P) ?P"
  proof (cases "adapter_for env (wb_channel_id b) (wb_operation_type b)")
    case (Inl e)
    then show ?thesis by (auto simp: triple_def wbind_def wlift_def gate_inv_def)
  next
    case (Inr adapter)
    have lift: "triple (gate_inv ?ro) (wlift id (adapter_for env (wb_channel_id b) (wb_operation_type b)))
        (\<lambda>_. gate_inv ?ro) ?P"
      by (rule triple_lift) (simp_all add: gate_P)
    have get: "triple (gate_inv ?ro) (wget f) (\<lambda>_. gate_inv ?ro) ?P" for f :: "write_db \<Rightarrow> 'x"
      by (rule triple_get)
    have started: "triple (gate_inv ?ro) (if resumable b then wret () else
        wbind (update_batch bid f) (\<lambda>_. record_event env bid ty msg it sev md corr))
        (\<lambda>_. gate_inv ?ro) ?P" for f ty msg it sev md corr
      using triple_err[OF gate_started gate_P] by (auto intro: triple_ret)
    have command: "triple (gate_inv ?ro) (legacy_batch_command env b user corr)
        (\<lambda>cmd w. gate_inv ?ro w \<and> (\<exists>auth. wc_intents cmd = map (legacy_intent env b auth) (wb_items b))) ?P"
      for corr by (rule triple_err[OF gate_command gate_P])
    have enabled: "triple (gate_inv ?ro)
        (if \<not> resumable b \<or> \<not> attempted then assert_channel_write_enabled b else wret ())
        (\<lambda>_ w'. gate_inv ?ro w' \<and> (\<not> (resumable b \<and> attempted) \<longrightarrow> map_of ?ro (wb_channel_id b) = Some False)) ?P"
      for attempted
      using triple_err[OF gate_enabled gate_P] by (auto intro: triple_ret elim: triple_post)
    have tail: "triple (\<lambda>w'. gate_inv ?ro w' \<and> (\<exists>auth. wc_intents cmd = map (legacy_intent env b auth) (wb_items b)))
        (wbind (wget (has_attempts bid)) (\<lambda>attempted.
         wbind (if \<not> resumable b \<or> \<not> attempted then assert_channel_write_enabled b else wret ()) (\<lambda>_.
         wbind (execute_workspace (be_provider env) cmd (resumable b \<and> attempted)) (\<lambda>results.
         finish_batch env bid user corr results)))) (\<lambda>_. ?P) ?P" for cmd corr
    proof (cases "\<exists>auth. wc_intents cmd = map (legacy_intent env b auth) (wb_items b)")
      case True
      then obtain auth where cmd: "wc_intents cmd = map (legacy_intent env b auth) (wb_items b)" by blast
      have "triple (gate_inv ?ro) (wbind (wget (has_attempts bid)) (\<lambda>attempted.
         wbind (if \<not> resumable b \<or> \<not> attempted then assert_channel_write_enabled b else wret ()) (\<lambda>_.
         wbind (execute_workspace (be_provider env) cmd (resumable b \<and> attempted)) (\<lambda>results.
         finish_batch env bid user corr results)))) (\<lambda>_. ?P) ?P"
        by (rule triple_bind[OF get], rule triple_bind[OF enabled],
            rule triple_bind[OF engine[OF cmd Inr]], rule finish)
      then show ?thesis by (rule triple_pre) simp
    next
      case False
      then show ?thesis by (simp add: triple_def)
    qed
    show ?thesis
      by (rule triple_bind[OF lift], rule triple_bind[OF get], rule triple_bind[OF started],
          rule triple_bind[OF command], rule tail)
  qed
  have "gate_inv ?ro w" using assms(2) by (simp add: gate_inv_def)
  from triple_snd[OF run this] have "?P (snd (execute env bid user w))"
    by (simp only: execute_unfold[OF Some conjunct1[OF ok] conjunct2[OF ok]])
  with assms(4) Some ok show ?thesis by blast
qed

section \<open>The outcome\<close>

lemma wmapM_returns:
  "wmapM f xs w = (Inr ys, w') \<Longrightarrow> y \<in> set ys \<Longrightarrow> \<exists>x w1 w2. f x w1 = (Inr y, w2)"
proof (induction xs arbitrary: w ys)
  case Nil
  then show ?case by (simp add: run_simps)
next
  case (Cons x xs)
  then obtain z zs w1 w2 where "f x w = (Inr z, w1)" "wmapM f xs w1 = (Inr zs, w2)" "ys = z # zs" "w2 = w'"
    by (auto simp: wbind_returns run_simps)
  with Cons show ?case by auto
qed

fun status_of :: "item_event \<Rightarrow> string" where
  "status_of E_applied = ''applied''"
| "status_of E_reconciliation = ''reconciliation_required''"
| "status_of E_failed = ''failed''"

lemma settle_status: "settle_item it r = (it', ev) \<Longrightarrow> it_status it' = status_of ev"
  by (auto simp: settle_item_def split: option.splits write_outcome.splits)

lemma finish_item_status:
  "finish_item env b user corr results it0 w = (Inr (it, ev), w') \<Longrightarrow> it_status it = status_of ev"
  by (cases "settle_item it0 (map_of results (legacy_listing_id it0 (wb_channel_id b)))")
    (auto simp: finish_item_def Let_def wbind_returns run_simps dest: settle_status)

lemma emit_keeps_batches:
  "emit_business_event env mk w = (Inr u, w') \<Longrightarrow> wd_batches (session w') = wd_batches (session w)"
  by (auto simp: emit_business_event_def wbind_returns run_simps wlift_def split: sum.splits)

lemma emit_batch_keeps:
  "emit_batch_event env b s f r corr w = (Inr u, w') \<Longrightarrow> wd_batches (session w') = wd_batches (session w)"
  by (auto simp: emit_batch_event_def run_simps dest: emit_keeps_batches split: option.splits)

lemma close_batch_result:
  assumes "close_batch env bid user corr b0 ps w = (Inr b, w')"
  shows "\<exists>now r. b = settled_batch now ps r \<and> get_row wb_id bid (wd_batches (session w')) = Some b"
proof -
  let ?now = "env_now (be_provider env) (session w)"
  let ?s = "count_event E_applied ps" and ?f = "count_event E_failed ps"
    and ?r = "count_event E_reconciliation ps"
  define w2 where "w2 = snd (wbind (update_batch bid (settled_batch ?now ps)) (\<lambda>_.
      record_event env bid ''execution_finished'' ''Apply finished.'' None ''info''
        (finished_metadata b0 user ?s ?f ?r) corr) w)"
  have rows: "wd_batches (session w2) = upd_row wb_id bid (settled_batch ?now ps) (wd_batches (session w))"
    by (simp add: w2_def update_batch_def record_event_def run_bind run_primitive)
  have tail: "wbind (emit_batch_event env (settled_batch ?now ps b0) ?s ?f ?r corr)
      (\<lambda>_. wbind commit (\<lambda>_. get_batch bid)) w2 = (Inr b, w')"
    using assms
    by (simp add: close_batch_def Let_def w2_def update_batch_def record_event_def run_bind run_primitive)
  then obtain u w3 where e: "emit_batch_event env (settled_batch ?now ps b0) ?s ?f ?r corr w2 = (Inr u, w3)"
    and g: "wbind commit (\<lambda>_. get_batch bid) w3 = (Inr b, w')"
    by (auto simp: wbind_returns)
  have b: "get_row wb_id bid (wd_batches (session w3)) = Some b" and w': "session w' = session w3"
    using g by (auto simp: wbind_def run_primitive run_get_batch split: option.splits)
  have "get_row wb_id bid (upd_row wb_id bid (settled_batch ?now ps) (wd_batches (session w))) = Some b"
    using b emit_batch_keeps[OF e] rows by simp
  then have "\<exists>r. b = settled_batch ?now ps r"
    by (auto simp: get_row_upd settled_batch_def)
  with b w' show ?thesis by auto
qed

lemma finish_batch_result:
  assumes "finish_batch env bid user corr results w = (Inr b, w')"
  obtains ps where "wb_items b = map fst ps" "\<forall>(it, ev) \<in> set ps. it_status it = status_of ev"
    "wb_status b = batch_outcome (count_event E_applied ps) (count_event E_failed ps)
       (count_event E_reconciliation ps)"
    "get_row wb_id bid (wd_batches (session w')) = Some b"
proof -
  from assms obtain b0 ps w1 w2 where
    m: "wmapM (finish_item env b0 user corr (rev (map (\<lambda>r. (wr_listing r, r)) results))) (wb_items b0) w1
        = (Inr ps, w2)"
    and c: "close_batch env bid user corr b0 ps w2 = (Inr b, w')"
    unfolding finish_batch_def wbind_returns by blast
  have "it_status it = status_of ev" if "(it, ev) \<in> set ps" for it ev
    using wmapM_returns[OF m that] finish_item_status by fastforce
  then have st: "\<forall>(it, ev) \<in> set ps. it_status it = status_of ev" by blast
  from close_batch_result[OF c] obtain now r where b: "b = settled_batch now ps r"
    and row: "get_row wb_id bid (wd_batches (session w')) = Some b" by blast
  show ?thesis by (rule that[OF _ st _ row]) (simp_all add: b settled_batch_def)
qed

lemma execute_finishes:
  assumes "execute env bid user w = (Inr b, w')"
  shows "\<exists>corr results w1. finish_batch env bid user corr results w1 = (Inr b, w')"
  using assms unfolding execute_def
  by (auto simp: wbind_returns run_primitive(2) split: if_splits)

lemma count_event_pos: "0 < count_event ev ps \<longleftrightarrow> (\<exists>p \<in> set ps. snd p = ev)"
  by (auto simp: count_event_def filter_empty_conv)

text \<open>C11: the status of an executed batch tells the truth: it is \<^verbatim>\<open>applied\<close> exactly when every item was
  verified as applied. A batch in which one item was applied while another still needs
  reconciliation ends as \<^verbatim>\<open>partially_failed\<close>, and from there no further execution is accepted: the
  uncertain item cannot be verified again through the batch.\<close>

theorem execute_outcome:
  assumes "execute env bid user w = (Inr b, w')"
  shows "(wb_status b = ''applied'' \<longleftrightarrow> (\<forall>it \<in> set (wb_items b). it_status it = ''applied'')) \<and>
    ((\<exists>it \<in> set (wb_items b). it_status it = ''applied'') \<and>
       (\<exists>it \<in> set (wb_items b). it_status it = ''reconciliation_required'') \<longrightarrow>
     wb_status b = ''partially_failed'' \<and>
     execute env bid user' w' = (Inl (Http_error 409 ''Apply requires a separate approved Dry Run.''), w'))"
proof -
  from execute_finishes[OF assms] obtain corr results w1 where
    "finish_batch env bid user corr results w1 = (Inr b, w')" by blast
  then obtain ps where items: "wb_items b = map fst ps"
    and st: "\<forall>(it, ev) \<in> set ps. it_status it = status_of ev"
    and out: "wb_status b = batch_outcome (count_event E_applied ps) (count_event E_failed ps)
       (count_event E_reconciliation ps)"
    and row: "get_row wb_id bid (wd_batches (session w')) = Some b"
    by (rule finish_batch_result)
  have inj: "status_of e = status_of e' \<longleftrightarrow> e = e'" for e e' by (cases e; cases e') simp_all
  have some: "(\<exists>it \<in> set (wb_items b). it_status it = status_of ev) \<longleftrightarrow> 0 < count_event ev ps" for ev
  proof -
    have "it_status (fst p) = status_of (snd p)" if "p \<in> set ps" for p using st that by auto
    then have "(\<exists>p \<in> set ps. it_status (fst p) = status_of ev) \<longleftrightarrow> (\<exists>p \<in> set ps. snd p = ev)"
      by (simp add: inj)
    then show ?thesis by (simp add: items count_event_pos)
  qed
  have all: "(\<forall>it \<in> set (wb_items b). it_status it = ''applied'') \<longleftrightarrow>
      count_event E_failed ps = 0 \<and> count_event E_reconciliation ps = 0"
  proof -
    have "(\<forall>it \<in> set (wb_items b). it_status it = ''applied'') \<longleftrightarrow> (\<forall>p \<in> set ps. snd p = E_applied)"
    proof -
      have "it_status (fst p) = status_of (snd p)" if "p \<in> set ps" for p using st that by auto
      then have "(\<forall>p \<in> set ps. it_status (fst p) = status_of E_applied) \<longleftrightarrow> (\<forall>p \<in> set ps. snd p = E_applied)"
        by (simp add: inj del: status_of.simps)
      then show ?thesis by (simp add: items)
    qed
    also have "\<dots> \<longleftrightarrow> (\<forall>p \<in> set ps. snd p \<noteq> E_failed \<and> snd p \<noteq> E_reconciliation)"
      by (metis item_event.exhaust item_event.distinct)
    finally show ?thesis using count_event_pos[of E_failed ps] count_event_pos[of E_reconciliation ps] by auto
  qed
  have stuck: "wb_status b = ''partially_failed'' \<and>
     execute env bid user' w' = (Inl (Http_error 409 ''Apply requires a separate approved Dry Run.''), w')"
    if "0 < count_event E_applied ps" "0 < count_event E_reconciliation ps"
  proof -
    have "wb_status b = ''partially_failed''" using that by (simp add: out batch_outcome_def)
    then show ?thesis by (simp add: execute_def wbind_def run_simps row resumable_def)
  qed
  have "wb_status b = ''applied'' \<longleftrightarrow> count_event E_failed ps = 0 \<and> count_event E_reconciliation ps = 0"
    by (simp add: out batch_outcome_def)
  with all stuck some[of E_applied] some[of E_reconciliation] show ?thesis by simp
qed

section \<open>Concrete runs\<close>

definition demo_adapter :: write_adapter where
  "demo_adapter = \<lparr>ad_supports = \<lambda>ch op. op = ''price_update'',
     ad_channel_type = ''woocommerce'', ad_channel_ids = [''woocommerce:primary''],
     ad_scheduler_supported = False, ad_automatic_apply_supported = False,
     ad_validate_item = \<lambda>c. None\<rparr>"

text \<open>The provider verifies the first product and leaves the second in doubt.\<close>

definition demo_provider :: provider_env where
  "demo_provider = demo_env\<lparr>env_apply := \<lambda>ch is who db. (Inr (map (\<lambda>i.
       write_result (wi_listing_id i) (if wi_external_primary_id i = ''7'' then W_VERIFIED_APPLIED
         else W_RECONCILIATION_REQUIRED)) is), db),
     env_py := \<lparr>repr_of = \<lambda>v. ''{}'', float_of_string = \<lambda>s. None\<rparr>\<rparr>"

definition demo_batch_env :: batch_env where
  "demo_batch_env = \<lparr>be_provider = demo_provider, be_registry = [demo_adapter],
     be_sha256 = \<lambda>s. take 3 (rev s), be_catalog = [''woocommerce:primary'', ''c:p'']\<rparr>"

definition demo_change :: "string \<Rightarrow> price_change" where
  "demo_change pid = \<lparr>pc_product_id = pid, pc_product_name = ''P'', pc_sku = ''sku'',
     pc_current_price = Finite 100, pc_proposed_price = Finite 120, pc_currency = ''EUR'',
     pc_extras = [(''source'', JObj [(''previewId'', JStr ''p1'')]), (''eligible_for_dry_run'', JBool True)]\<rparr>"

definition demo_selection :: preview_selection where
  "demo_selection = \<lparr>sel_changes = [demo_change ''8'', demo_change ''7''], sel_summary = [],
     sel_preview_hash = ''ph''\<rparr>"

definition demo_request :: dry_run_request where
  "demo_request = \<lparr>dr_preview_id = ''p1'', dr_selected_row_ids = [''r1'', ''r2''], dr_extras = []\<rparr>"

definition demo_batch_world :: world where
  "demo_batch_world = (let db = demo_write_db\<lparr>wd_connector_read_only := [(''woocommerce:primary'', False)]\<rparr>
     in \<lparr>committed = db, session = db, calls = []\<rparr>)"

definition demo_created :: "(write_error + write_batch) \<times> world" where
  "demo_created = create_dry_run demo_batch_env demo_request ''op'' (Inr demo_selection) demo_batch_world"

definition demo_approved :: "(write_error + write_batch) \<times> world" where
  "demo_approved = approve demo_batch_env (wb_id (projr (fst demo_created))) None ''boss'' (snd demo_created)"

lemma demo_created_ok: "is_ok (fst demo_created)"
  by code_simp

lemma demo_created_eq: "demo_created = (Inr (projr (fst demo_created)), snd demo_created)"
  using demo_created_ok by (simp add: is_ok_iff prod_eq_iff) (metis sum.sel(2))

text \<open>An approved batch of two items, ready to execute.\<close>

definition demo_item :: "int \<Rightarrow> string \<Rightarrow> write_item" where
  "demo_item n pid = \<lparr>it_id = n, it_channel_product_id = pid, it_sku = [], it_product_name = [],
     it_current_price = 100, it_proposed_price = 120, it_delta_amount = 20, it_delta_percent = 20,
     it_currency = ''E'', it_snapshot = [], it_status = ''pending'', it_provider_result = [],
     it_error_code = None, it_error_message = None\<rparr>"

definition demo_ready :: write_batch where
  "demo_ready = \<lparr>wb_id = ''b'', wb_channel_id = ''c:p'', wb_channel_type = ''c'',
     wb_operation_type = ''price_update'', wb_status = ''approved'', wb_source_preview_id = None,
     wb_batch_hash = ''||e'', wb_item_count = 2, wb_currency = ''E'', wb_created_by = ''o'',
     wb_approved_by = Some ''a'', wb_approval_reason = None, wb_safety_summary = [],
     wb_approved_at = None, wb_executed_at = None, wb_items = [demo_item 1 ''8'', demo_item 2 ''7'']\<rparr>"
definition demo_gate_world :: world where
  "demo_gate_world = (let db = demo_write_db\<lparr>wd_connector_read_only := [(''c:p'', False)],
      wd_batches := [demo_ready], wd_jobs := []\<rparr>
     in \<lparr>committed = db, session = db, calls = []\<rparr>)"

text \<open>The continuations of execute, named so that evaluation reaches them only with their values.\<close>

definition finish_items :: "batch_env \<Rightarrow> string \<Rightarrow> string \<Rightarrow> string \<Rightarrow> workspace_write_result list \<Rightarrow> write_batch
    \<Rightarrow> write_batch wp" where
  "finish_items env bid user corr results b =
     wbind (wmapM (finish_item env b user corr (rev (map (\<lambda>r. (wr_listing r, r)) results))) (wb_items b))
       (close_batch env bid user corr b)"

lemma finish_batch_staged [code]: "finish_batch env bid user corr results =
    wbind (get_batch bid) (finish_items env bid user corr results)"
  by (simp add: finish_batch_def finish_items_def[abs_def])

definition dispatch_stage :: "batch_env \<Rightarrow> string \<Rightarrow> string \<Rightarrow> write_batch \<Rightarrow> string
    \<Rightarrow> workspace_write_batch_command \<Rightarrow> bool \<Rightarrow> write_batch wp" where
  "dispatch_stage env bid user b corr cmd attempted =
     wbind (if \<not> resumable b \<or> \<not> attempted then assert_channel_write_enabled b else wret ()) (\<lambda>_.
     wbind (execute_workspace (be_provider env) cmd (resumable b \<and> attempted))
       (finish_batch env bid user corr))"

definition command_stage :: "batch_env \<Rightarrow> string \<Rightarrow> string \<Rightarrow> write_batch \<Rightarrow> string
    \<Rightarrow> workspace_write_batch_command \<Rightarrow> write_batch wp" where
  "command_stage env bid user b corr cmd =
     wbind (wget (has_attempts bid)) (dispatch_stage env bid user b corr cmd)"

definition start_stage :: "batch_env \<Rightarrow> string \<Rightarrow> string \<Rightarrow> write_batch \<Rightarrow> string \<Rightarrow> write_batch wp" where
  "start_stage env bid user b corr =
     wbind (if resumable b then wret () else
       wbind (update_batch bid (\<lambda>r. r\<lparr>wb_status := ''executing''\<rparr>)) (\<lambda>_.
       record_event env bid ''execution_started'' ''Apply started from an approved Dry Run.'' None ''info''
         [(''approved_by'', jopt (wb_approved_by b)), (''requested_by'', JStr user),
          (''correlation_id'', JStr corr), (''source_workflow'', JStr ''legacy_write_pipeline'')] corr)) (\<lambda>_.
     wbind (legacy_batch_command env b user corr) (command_stage env bid user b corr))"

definition gate_stage :: "batch_env \<Rightarrow> string \<Rightarrow> string \<Rightarrow> write_batch \<Rightarrow> write_batch wp" where
  "gate_stage env bid user b =
     (if wb_status b \<noteq> ''approved'' \<and> \<not> resumable b
      then wraise (Http_error 409 ''Apply requires a separate approved Dry Run.'') else
      wbind (assert_batch_hash env b) (\<lambda>_.
      wbind (wlift id (adapter_for env (wb_channel_id b) (wb_operation_type b))) (\<lambda>_.
      wbind (wget (\<lambda>db. case legacy_correlation_id b db of Some c \<Rightarrow> c
        | None \<Rightarrow> ''corr_'' @ env_uuid (be_provider env) db)) (start_stage env bid user b))))"

lemma execute_staged [code]: "execute env bid user = wbind (get_batch bid) (gate_stage env bid user)"
  unfolding execute_def gate_stage_def[abs_def] start_stage_def[abs_def] command_stage_def[abs_def]
    dispatch_stage_def[abs_def] ..

definition demo_executed :: "(write_error + write_batch) \<times> world" where
  "demo_executed = execute demo_batch_env ''b'' ''o'' demo_gate_world"

lemma demo_executed_run:
  "(case demo_executed of (r, w) \<Rightarrow> (is_ok r, map it_status (wb_items (projr r)), map call_summary (calls w))) =
     (True, [''reconciliation_required'', ''applied''],
      [(True, ''c:p'', [''legacy:c:p:8'', ''legacy:c:p:7''])])"
  by code_simp

lemma demo_executed_status:
  "is_ok (fst demo_executed)" "map it_status (wb_items (projr (fst demo_executed))) =
     [''reconciliation_required'', ''applied'']"
  "map call_summary (calls (snd demo_executed)) = [(True, ''c:p'', [''legacy:c:p:8'', ''legacy:c:p:7''])]"
  using demo_executed_run by (simp_all add: split_beta)

lemma demo_executed_eq: "demo_executed = (Inr (projr (fst demo_executed)), snd demo_executed)"
  using demo_executed_status(1) by (simp add: is_ok_iff prod_eq_iff) (metis sum.sel(2))

theorem dry_run_approvable_witness:
  "\<exists>b w. approve demo_batch_env (wb_id (projr (fst demo_created))) None ''boss'' (snd demo_created) = (Inr b, w) \<and>
     wb_status b = ''approved''"
proof -
  have r: "repr_nonempty (env_py (be_provider demo_batch_env))"
    by (simp add: repr_nonempty_def demo_batch_env_def demo_provider_def)
  have f: "wb_id (projr (fst demo_created)) \<notin> wb_id ` set (wd_batches (session demo_batch_world))"
    by (simp add: demo_batch_world_def demo_write_db_def Let_def)
  from dry_run_approvable[OF demo_created_eq[unfolded demo_created_def] r,
      folded demo_created_def, OF f, of None "''boss''"]
  show ?thesis by blast
qed

theorem dry_run_inside_gates_witness:
  "length (wb_items (projr (fst demo_created))) \<le> 100 \<and> wb_status (projr (fst demo_created)) = ''dry_run_ready''"
  using dry_run_inside_gates[OF demo_created_eq[unfolded demo_created_def], folded demo_created_def]
  by blast

theorem execute_is_gated_witness:
  "\<exists>b. get_row wb_id ''b'' (wd_batches (session demo_gate_world)) = Some b \<and> wb_status b = ''approved''"
proof -
  have e: "env_append_only (be_provider demo_batch_env)"
    by (simp add: env_append_only_def demo_batch_env_def demo_provider_def demo_env_def)
  have c: "calls demo_gate_world = []" by (simp add: demo_gate_world_def Let_def)
  have d: "\<forall>b \<in> set (wd_batches (session demo_gate_world)). distinct (map it_channel_product_id (wb_items b))"
    by (simp add: demo_gate_world_def demo_ready_def demo_item_def Let_def)
  obtain "is" db where a: "Apply_updates ''c:p'' is db \<in> set (calls (snd demo_executed))"
    using summary_apply[of "calls (snd demo_executed)" "''c:p''" "[''legacy:c:p:8'', ''legacy:c:p:7'']" "[]"]
      demo_executed_status(3) by auto
  from execute_is_gated[OF e c d a[unfolded demo_executed_def]] show ?thesis
    by (auto simp: demo_gate_world_def demo_ready_def Let_def)
qed

theorem execute_outcome_witness:
  "wb_status (projr (fst demo_executed)) = ''partially_failed'' \<and>
   execute demo_batch_env ''b'' ''o'' (snd demo_executed) =
     (Inl (Http_error 409 ''Apply requires a separate approved Dry Run.''), snd demo_executed)"
proof -
  have "''applied'' \<in> set (map it_status (wb_items (projr (fst demo_executed))))"
    "''reconciliation_required'' \<in> set (map it_status (wb_items (projr (fst demo_executed))))"
    unfolding demo_executed_status(2) by simp_all
  then have "\<exists>it \<in> set (wb_items (projr (fst demo_executed))). it_status it = ''applied''"
    "\<exists>it \<in> set (wb_items (projr (fst demo_executed))). it_status it = ''reconciliation_required''"
    unfolding set_map image_iff by metis+
  with execute_outcome[OF demo_executed_eq[unfolded demo_executed_def], folded demo_executed_def, of "''o''"]
  show ?thesis by blast
qed

end
