(* ===== verification/DerivedValues.thy ===== *)
theory DerivedValues
  imports PricingRules Json
begin

text \<open>
  Derived values of a Frozen Evaluation Package (\<^verbatim>\<open>app/flowhub/pricing_evaluation/derived.py\<close>,
  \<^verbatim>\<open>contracts.py\<close>): the closed operators, the three-colour depth-first validation of the dependency
  graph, and the topological order the evaluation follows. The recursive \<^verbatim>\<open>visit\<close> closures take a
  bound on the depth of the recursion; one more than the number of definitions is always enough.
\<close>

section \<open>Definitions of derived values\<close>

datatype evaluation_error = Dependency_error string | Derived_error string | Key_error
  | Integrity_error string | Recursion_error

datatype derived_operator = ADD_CONSTANT | MULTIPLY_PERCENT | FLOOR_TO_STEP | ROUND_UP_TO_STEP
  | MIN_NONZERO_SELECTION | MULTIPLY_CONSTANT | DIVIDE_CONSTANT

datatype dependency_ref_kind = Observation | Manual_input | Derived

record dependency_ref =
  dr_kind :: dependency_ref_kind
  dr_key :: string

record definition_draft =
  dd_definition_key :: string
  dd_operator :: derived_operator
  dd_parameters :: json_dict
  dd_dependencies :: "dependency_ref list"

type_synonym drafts = "(string, definition_draft) dict"

definition DERIVED_MAX_DEPTH :: nat where "DERIVED_MAX_DEPTH = 8"

section \<open>Operators\<close>

definition parameters_invalid :: "evaluation_error + 'a" where
  "parameters_invalid = Inl (Derived_error ''derived_parameters_invalid'')"

definition require_single :: "rat list \<Rightarrow> evaluation_error + rat" where
  "require_single vs = (case vs of [v] \<Rightarrow> Inr v | _ \<Rightarrow> parameters_invalid)"

definition int_param :: "json_dict \<Rightarrow> string \<Rightarrow> evaluation_error + int" where
  "int_param ps k = (case jget k ps of JInt i \<Rightarrow> Inr i | _ \<Rightarrow> parameters_invalid)"

definition floor_to_step :: "rat \<Rightarrow> int \<Rightarrow> int" where
  "floor_to_step v step = (let (n, d) = quotient_of v in n div (d * step) * step)"

definition round_up_to_step :: "rat \<Rightarrow> int \<Rightarrow> int" where
  "round_up_to_step v step = (let (n, d) = quotient_of v; units = n div (d * step)
     in (if n mod (d * step) \<noteq> 0 then units + 1 else units) * step)"

definition evaluate_operator ::
  "derived_operator \<Rightarrow> json_dict \<Rightarrow> rat list \<Rightarrow> evaluation_error + rat" where
  "evaluate_operator operator ps vs = (case operator of
     ADD_CONSTANT \<Rightarrow> rbind (require_single vs) (\<lambda>basis.
       rbind (int_param ps ''addend_minor'') (\<lambda>a. Inr (basis + of_int a)))
   | MULTIPLY_PERCENT \<Rightarrow> rbind (require_single vs) (\<lambda>basis.
       rbind (int_param ps ''percent_bp'') (\<lambda>bp. Inr (basis * (of_int (10000 + bp) / 10000))))
   | FLOOR_TO_STEP \<Rightarrow> rbind (require_single vs) (\<lambda>v. rbind (int_param ps ''step_minor'') (\<lambda>step.
       if step < 1 then parameters_invalid else Inr (of_int (floor_to_step v step))))
   | ROUND_UP_TO_STEP \<Rightarrow> rbind (require_single vs) (\<lambda>v. rbind (int_param ps ''step_minor'') (\<lambda>step.
       if step < 1 then parameters_invalid else Inr (of_int (round_up_to_step v step))))
   | MIN_NONZERO_SELECTION \<Rightarrow> (case min_by id (filter (\<lambda>v. v > 0) vs) of
       None \<Rightarrow> Inl (Derived_error ''derived_no_eligible_input'') | Some v \<Rightarrow> Inr v)
   | MULTIPLY_CONSTANT \<Rightarrow> rbind (require_single vs) (\<lambda>v.
       rbind (int_param ps ''factor_numerator'') (\<lambda>n. rbind (int_param ps ''factor_denominator'') (\<lambda>d.
       if d = 0 then parameters_invalid else Inr (v * (of_int n / of_int d)))))
   | DIVIDE_CONSTANT \<Rightarrow> rbind (require_single vs) (\<lambda>v.
       rbind (int_param ps ''divisor_numerator'') (\<lambda>n. rbind (int_param ps ''divisor_denominator'') (\<lambda>d.
       if d = 0 \<or> n = 0 then parameters_invalid else Inr (v / (of_int n / of_int d))))))"

text \<open>Both step operators are instances of the Pricing Matrix's rounding, so they obey its laws.\<close>

lemma floor_to_step_rounds: "floor_to_step v s = round_units v s FLOOR * s"
  by (simp add: floor_to_step_def round_units_def Let_def split: prod.splits)

lemma round_up_to_step_rounds: "round_up_to_step v s = round_units v s CEIL * s"
  by (simp add: round_up_to_step_def round_units_def Let_def split: prod.splits)

interpretation derived_floor: step_rounding floor_to_step
  using rounding.step_rounding_axioms[of FLOOR] by (simp add: floor_to_step_rounds[abs_def])

interpretation derived_ceiling: step_rounding round_up_to_step
  using rounding.step_rounding_axioms[of CEIL] by (simp add: round_up_to_step_rounds[abs_def])

section \<open>Validation of the graph\<close>

datatype colour = WHITE | GRAY | BLACK

record dag_state =
  ds_color :: "string \<rightharpoonup> colour"
  ds_depth :: "string \<rightharpoonup> nat"

definition paint :: "string \<Rightarrow> colour \<Rightarrow> dag_state \<Rightarrow> dag_state" where
  "paint k c st = st\<lparr>ds_color := (ds_color st)(k \<mapsto> c)\<rparr>"

fun visit_deps :: "(string \<Rightarrow> dag_state \<Rightarrow> evaluation_error + nat \<times> dag_state) \<Rightarrow> drafts
    \<Rightarrow> dependency_ref list \<Rightarrow> nat \<Rightarrow> dag_state \<Rightarrow> evaluation_error + nat \<times> dag_state" where
  "visit_deps v defs [] m st = Inr (m, st)"
| "visit_deps v defs (r # rs) m st =
     (if dr_kind r \<noteq> Derived then visit_deps v defs rs m st
      else if map_of defs (dr_key r) = None then Inl (Derived_error ''derived_dependency_missing'')
      else if ds_color st (dr_key r) = Some GRAY then Inl (Derived_error ''derived_cycle_detected'')
      else rbind (if ds_color st (dr_key r) = Some WHITE then v (dr_key r) st
                  else case ds_depth st (dr_key r) of None \<Rightarrow> Inl Key_error | Some d \<Rightarrow> Inr (d, st))
             (\<lambda>(d, st'). visit_deps v defs rs (max m d) st'))"

fun visit :: "nat \<Rightarrow> drafts \<Rightarrow> string \<Rightarrow> dag_state \<Rightarrow> evaluation_error + nat \<times> dag_state" where
  "visit 0 defs key st = Inl Recursion_error"
| "visit (Suc n) defs key st = (case ds_depth st key of Some d \<Rightarrow> Inr (d, st) | None \<Rightarrow>
     (case map_of defs key of None \<Rightarrow> Inl Key_error | Some draft \<Rightarrow>
        rbind (visit_deps (visit n defs) defs (dd_dependencies draft) 0 (paint key GRAY st))
          (\<lambda>(m, st'). let st'' = paint key BLACK st'; this_depth = m + 1 in
             if this_depth > DERIVED_MAX_DEPTH then Inl (Derived_error ''derived_depth_exceeded'')
             else Inr (this_depth, st''\<lparr>ds_depth := (ds_depth st'')(key \<mapsto> this_depth)\<rparr>))))"

fun visit_all :: "nat \<Rightarrow> drafts \<Rightarrow> string list \<Rightarrow> dag_state \<Rightarrow> evaluation_error + dag_state" where
  "visit_all n defs [] st = Inr st"
| "visit_all n defs (k # ks) st =
     (if ds_color st k = Some WHITE then rbind (visit n defs k st) (\<lambda>(d, st'). visit_all n defs ks st')
      else visit_all n defs ks st)"

definition white_state :: "drafts \<Rightarrow> dag_state" where
  "white_state defs = \<lparr>ds_color = map_option (\<lambda>_. WHITE) \<circ> map_of defs, ds_depth = Map.empty\<rparr>"

definition validate_dag :: "drafts \<Rightarrow> evaluation_error + unit" where
  "validate_dag defs =
     rbind (visit_all (Suc (length defs)) defs (map fst defs) (white_state defs)) (\<lambda>_. Inr ())"

section \<open>Topological order\<close>

type_synonym topo_state = "string list \<times> string list"

fun topo_deps :: "(string \<Rightarrow> topo_state \<Rightarrow> evaluation_error + topo_state) \<Rightarrow> dependency_ref list
    \<Rightarrow> topo_state \<Rightarrow> evaluation_error + topo_state" where
  "topo_deps v [] st = Inr st"
| "topo_deps v (r # rs) st =
     (if dr_kind r = Derived then rbind (v (dr_key r) st) (topo_deps v rs) else topo_deps v rs st)"

fun topo_visit :: "nat \<Rightarrow> drafts \<Rightarrow> string \<Rightarrow> topo_state \<Rightarrow> evaluation_error + topo_state" where
  "topo_visit 0 defs key st = Inl Recursion_error"
| "topo_visit (Suc n) defs key (visited, order) =
     (if key \<in> set visited then Inr (visited, order)
      else case map_of defs key of None \<Rightarrow> Inl Key_error | Some draft \<Rightarrow>
        rbind (topo_deps (topo_visit n defs) (sort_key dr_key (dd_dependencies draft)) (key # visited, order))
          (\<lambda>(visited', order'). Inr (visited', order' @ [key])))"

fun topo_all :: "nat \<Rightarrow> drafts \<Rightarrow> string list \<Rightarrow> topo_state \<Rightarrow> evaluation_error + topo_state" where
  "topo_all n defs [] st = Inr st"
| "topo_all n defs (k # ks) st = rbind (topo_visit n defs k st) (topo_all n defs ks)"

definition topological_order :: "drafts \<Rightarrow> evaluation_error + string list" where
  "topological_order defs =
     rbind (topo_all (Suc (length defs)) defs (sort (map fst defs)) ([], [])) (\<lambda>(_, order). Inr order)"

section \<open>The depth of a definition\<close>

text \<open>
  The reference: \<^verbatim>\<open>chain_within defs n k\<close> says that every chain of derived dependencies from \<^verbatim>\<open>k\<close> stays
  inside the graph and has at most \<^verbatim>\<open>n\<close> definitions; the depth of \<^verbatim>\<open>k\<close> is the least such bound.
\<close>

definition derived_keys :: "definition_draft \<Rightarrow> string list" where
  "derived_keys d = map dr_key (filter (\<lambda>r. dr_kind r = Derived) (dd_dependencies d))"

fun chain_within :: "drafts \<Rightarrow> nat \<Rightarrow> string \<Rightarrow> bool" where
  "chain_within defs 0 k = False"
| "chain_within defs (Suc n) k = (case map_of defs k of None \<Rightarrow> False
     | Some d \<Rightarrow> list_all (chain_within defs n) (derived_keys d))"

definition exact_depth :: "drafts \<Rightarrow> string \<Rightarrow> nat \<Rightarrow> bool" where
  "exact_depth defs k d \<longleftrightarrow> chain_within defs d k \<and> (\<forall>n. chain_within defs n k \<longrightarrow> d \<le> n)"

definition depends :: "drafts \<Rightarrow> string \<Rightarrow> string \<Rightarrow> bool" where
  "depends defs k r \<longleftrightarrow> (\<exists>d. map_of defs k = Some d \<and> r \<in> set (derived_keys d))"

lemma chain_within_Suc:
  "chain_within defs (Suc n) k \<longleftrightarrow> map_of defs k \<noteq> None \<and> (\<forall>r. depends defs k r \<longrightarrow> chain_within defs n r)"
  by (auto simp: depends_def list_all_iff split: option.splits)

declare chain_within.simps(2) [simp del]

lemma chain_within_mono: "chain_within defs n k \<Longrightarrow> n \<le> m \<Longrightarrow> chain_within defs m k"
proof (induction n arbitrary: k m)
  case 0
  then show ?case by simp
next
  case (Suc n)
  then show ?case by (cases m) (auto simp: chain_within_Suc)
qed

lemma exact_unique: "exact_depth defs k d \<Longrightarrow> exact_depth defs k e \<Longrightarrow> d = e"
  by (meson exact_depth_def le_antisym)

lemma exact_ex: "chain_within defs n k \<Longrightarrow> \<exists>d \<le> n. exact_depth defs k d"
  unfolding exact_depth_def by (intro exI[of _ "LEAST n. chain_within defs n k"]) (auto intro: LeastI Least_le)

lemma exact_Suc:
  assumes "map_of defs k \<noteq> None"
    and "\<And>r. depends defs k r \<Longrightarrow> \<exists>d \<le> m. exact_depth defs r d"
    and "m = 0 \<or> (\<exists>r. depends defs k r \<and> exact_depth defs r m)"
  shows "exact_depth defs k (Suc m)"
proof -
  have "chain_within defs m r" if "depends defs k r" for r
    using assms(2)[OF that] chain_within_mono by (auto simp: exact_depth_def)
  then have "chain_within defs (Suc m) k" using assms(1) by (simp add: chain_within_Suc)
  moreover have "Suc m \<le> n" if w: "chain_within defs n k" for n
  proof (cases n)
    case 0
    with w show ?thesis by simp
  next
    case (Suc n')
    with w assms(3) show ?thesis by (auto simp: chain_within_Suc exact_depth_def)
  qed
  ultimately show ?thesis by (simp add: exact_depth_def)
qed

lemma exact_decreases:
  assumes "exact_depth defs k d" and "depends defs k r"
  shows "\<exists>e < d. exact_depth defs r e"
proof (cases d)
  case 0
  with assms(1) show ?thesis by (simp add: exact_depth_def)
next
  case (Suc n)
  then have "chain_within defs n r" using assms by (simp add: exact_depth_def chain_within_Suc)
  from exact_ex[OF this] obtain e where "e \<le> n" "exact_depth defs r e" by blast
  with Suc show ?thesis by (auto intro: exI[of _ e])
qed

lemma depends_chain_depth:
  "(depends defs)\<^sup>+\<^sup>+ k r \<Longrightarrow> exact_depth defs k d \<Longrightarrow> \<exists>e < d. exact_depth defs r e"
  by (induction rule: tranclp_induct) (use exact_decreases in \<open>blast intro: order.strict_trans\<close>)+

lemma bounded_acyclic: "chain_within defs n k \<Longrightarrow> \<not> (depends defs)\<^sup>+\<^sup>+ k k"
  using exact_ex depends_chain_depth exact_unique by blast

section \<open>Validation computes the depth\<close>

definition dag_inv :: "drafts \<Rightarrow> dag_state \<Rightarrow> bool" where
  "dag_inv defs st \<longleftrightarrow> (\<forall>k. ds_color st k = Some BLACK \<longleftrightarrow> ds_depth st k \<noteq> None) \<and>
     (\<forall>k. ds_color st k \<noteq> None \<longleftrightarrow> map_of defs k \<noteq> None) \<and>
     (\<forall>k d. ds_depth st k = Some d \<longrightarrow> exact_depth defs k d \<and> d \<le> DERIVED_MAX_DEPTH)"

definition dag_le :: "dag_state \<Rightarrow> dag_state \<Rightarrow> bool" where
  "dag_le st st' \<longleftrightarrow> (\<forall>k. ds_color st k = Some GRAY \<longleftrightarrow> ds_color st' k = Some GRAY) \<and>
     (\<forall>k d. ds_depth st k = Some d \<longrightarrow> ds_depth st' k = Some d)"

definition whites :: "dag_state \<Rightarrow> string set" where
  "whites st = {k. ds_color st k = Some WHITE}"

lemma dag_le_refl [simp]: "dag_le st st"
  by (simp add: dag_le_def)

lemma paint_simps [simp]:
  "ds_color (paint k c st) = (ds_color st)(k \<mapsto> c)" "ds_depth (paint k c st) = ds_depth st"
  by (simp_all add: paint_def)

lemma dag_le_gray: "dag_le st st' \<Longrightarrow> ds_color st k = Some GRAY \<longleftrightarrow> ds_color st' k = Some GRAY"
  by (simp add: dag_le_def)

lemma dag_le_trans: "dag_le a b \<Longrightarrow> dag_le b c \<Longrightarrow> dag_le a c"
  by (simp add: dag_le_def)

lemma whites_shrink:
  assumes "dag_inv defs st" "dag_inv defs st'" "dag_le st st'"
  shows "whites st' \<subseteq> whites st"
proof
  fix k
  assume "k \<in> whites st'"
  then have w: "ds_color st' k = Some WHITE" by (simp add: whites_def)
  then have "ds_color st k \<noteq> None" using assms(1,2) unfolding dag_inv_def by (metis option.distinct(1))
  moreover have "ds_color st k \<noteq> Some GRAY" using assms(3) w by (simp add: dag_le_def)
  moreover have "ds_color st k \<noteq> Some BLACK"
  proof
    assume "ds_color st k = Some BLACK"
    then obtain d where "ds_depth st k = Some d" using assms(1) unfolding dag_inv_def by blast
    then have "ds_depth st' k \<noteq> None" using assms(3) by (auto simp: dag_le_def)
    then show False using assms(2) w unfolding dag_inv_def by force
  qed
  ultimately show "k \<in> whites st" by (auto simp: whites_def) (metis colour.exhaust)
qed

lemma dag_inv_gray:
  "dag_inv defs st \<Longrightarrow> ds_color st k = Some WHITE \<Longrightarrow> dag_inv defs (paint k GRAY st)"
  by (auto simp: dag_inv_def paint_def split: if_splits) force+

definition visits :: "drafts \<Rightarrow> (string \<Rightarrow> dag_state \<Rightarrow> evaluation_error + nat \<times> dag_state) \<Rightarrow> bool" where
  "visits defs v \<longleftrightarrow> (\<forall>k st d st'. dag_inv defs st \<longrightarrow> ds_color st k = Some WHITE \<longrightarrow> v k st = Inr (d, st') \<longrightarrow>
     dag_inv defs st' \<and> dag_le st st' \<and> ds_depth st' k = Some d)"

lemma visit_deps_step:
  assumes "visits defs v" "dag_inv defs st" "visit_deps v defs (r # rs) m st = Inr (m', st')" "dr_kind r = Derived"
  obtains d st1 where "dag_inv defs st1" "dag_le st st1" "ds_depth st1 (dr_key r) = Some d"
    "visit_deps v defs rs (max m d) st1 = Inr (m', st')"
proof (cases "ds_color st (dr_key r) = Some WHITE")
  case True
  then obtain d st1 where "v (dr_key r) st = Inr (d, st1)" "visit_deps v defs rs (max m d) st1 = Inr (m', st')"
    using assms(3,4) by (auto simp: rbind_eq_Inr split: if_splits)
  with True assms(1,2) that show ?thesis unfolding visits_def by blast
next
  case False
  then obtain d where "ds_depth st (dr_key r) = Some d" "visit_deps v defs rs (max m d) st = Inr (m', st')"
    using assms(3,4) by (auto simp: rbind_eq_Inr split: if_splits option.splits)
  with assms(2) that show ?thesis by (metis dag_le_refl)
qed

lemma visit_deps_sound:
  assumes "visits defs v"
  shows "dag_inv defs st \<Longrightarrow> visit_deps v defs rs m st = Inr (m', st') \<Longrightarrow>
    dag_inv defs st' \<and> dag_le st st' \<and> m \<le> m' \<and>
    (\<forall>r \<in> set rs. dr_kind r = Derived \<longrightarrow> (\<exists>d \<le> m'. ds_depth st' (dr_key r) = Some d)) \<and>
    (m' = m \<or> (\<exists>r \<in> set rs. dr_kind r = Derived \<and> ds_depth st' (dr_key r) = Some m'))"
proof (induction rs arbitrary: m st)
  case Nil
  then show ?case by simp
next
  case (Cons r rs)
  show ?case
  proof (cases "dr_kind r = Derived")
    case False
    then show ?thesis using Cons by auto
  next
    case True
    from visit_deps_step[OF assms Cons.prems True] obtain d st1 where s:
      "dag_inv defs st1" "dag_le st st1" "ds_depth st1 (dr_key r) = Some d"
      "visit_deps v defs rs (max m d) st1 = Inr (m', st')" by blast
    from Cons.IH[OF s(1,4)] have ih: "dag_inv defs st'" "dag_le st1 st'" "max m d \<le> m'"
      "\<forall>r \<in> set rs. dr_kind r = Derived \<longrightarrow> (\<exists>d \<le> m'. ds_depth st' (dr_key r) = Some d)"
      "m' = max m d \<or> (\<exists>r \<in> set rs. dr_kind r = Derived \<and> ds_depth st' (dr_key r) = Some m')" by blast+
    have d: "ds_depth st' (dr_key r) = Some d" using s(3) ih(2) by (simp add: dag_le_def)
    have "m' = m \<or> (\<exists>q \<in> set (r # rs). dr_kind q = Derived \<and> ds_depth st' (dr_key q) = Some m')"
      using ih(5) True d by (auto simp: max_def split: if_splits)
    with True d ih(1,3,4) dag_le_trans[OF s(2) ih(2)] show ?thesis by auto
  qed
qed

lemma depends_refs:
  "map_of defs k = Some d \<Longrightarrow>
    depends defs k r \<longleftrightarrow> (\<exists>q \<in> set (dd_dependencies d). dr_kind q = Derived \<and> dr_key q = r)"
  by (auto simp: depends_def derived_keys_def)

lemma visits_depth:
  assumes "visits defs v" "dag_inv defs st" "ds_color st k = Some WHITE" "map_of defs k = Some draft"
    "visit_deps v defs (dd_dependencies draft) 0 (paint k GRAY st) = Inr (m, st')"
  shows "dag_inv defs st' \<and> dag_le (paint k GRAY st) st' \<and> exact_depth defs k (Suc m)"
proof -
  from visit_deps_sound[OF assms(1) dag_inv_gray[OF assms(2,3)] assms(5)]
  have inv: "dag_inv defs st'" and le: "dag_le (paint k GRAY st) st'"
    and all: "\<forall>r \<in> set (dd_dependencies draft). dr_kind r = Derived \<longrightarrow> (\<exists>d \<le> m. ds_depth st' (dr_key r) = Some d)"
    and ex: "m = 0 \<or> (\<exists>r \<in> set (dd_dependencies draft). dr_kind r = Derived \<and> ds_depth st' (dr_key r) = Some m)"
    by blast+
  have e: "exact_depth defs r d" if "ds_depth st' r = Some d" for r d
    using inv that by (simp add: dag_inv_def)
  have "exact_depth defs k (Suc m)"
  proof (rule exact_Suc)
    show "map_of defs k \<noteq> None" using assms(4) by simp
    show "\<exists>d \<le> m. exact_depth defs r d" if "depends defs k r" for r
      using that all e by (auto simp: depends_refs[OF assms(4)]) blast
    show "m = 0 \<or> (\<exists>r. depends defs k r \<and> exact_depth defs r m)"
      using ex e by (auto simp: depends_refs[OF assms(4)])
  qed
  with inv le show ?thesis by blast
qed

lemma dag_finish:
  assumes "dag_inv defs st'" "dag_le (paint k GRAY st) st'" "ds_color st k = Some WHITE"
    "exact_depth defs k d" "d \<le> DERIVED_MAX_DEPTH"
  shows "dag_inv defs ((paint k BLACK st')\<lparr>ds_depth := (ds_depth (paint k BLACK st'))(k \<mapsto> d)\<rparr>) \<and>
    dag_le st ((paint k BLACK st')\<lparr>ds_depth := (ds_depth (paint k BLACK st'))(k \<mapsto> d)\<rparr>)"
proof -
  have g: "ds_color st' k = Some GRAY" using dag_le_gray[OF assms(2), of k] by simp
  then have n: "ds_depth st' k = None" using assms(1) unfolding dag_inv_def by force
  have "map_of defs k \<noteq> None" using assms(1) g unfolding dag_inv_def by force
  then have "dag_inv defs ((paint k BLACK st')\<lparr>ds_depth := (ds_depth (paint k BLACK st'))(k \<mapsto> d)\<rparr>)"
    using assms(1,4,5) by (auto simp: dag_inv_def paint_def)
  moreover have "dag_le st ((paint k BLACK st')\<lparr>ds_depth := (ds_depth (paint k BLACK st'))(k \<mapsto> d)\<rparr>)"
    using assms(2,3) n by (auto simp: dag_le_def paint_def split: if_splits)
  ultimately show ?thesis by blast
qed

lemma visit_sound: "visits defs (visit n defs)"
proof (induction n)
  case 0
  then show ?case by (simp add: visits_def)
next
  case (Suc n)
  show ?case
    unfolding visits_def
  proof (intro allI impI)
    fix k st d st'
    assume inv: "dag_inv defs st" and w: "ds_color st k = Some WHITE"
      and v: "visit (Suc n) defs k st = Inr (d, st')"
    have "ds_depth st k = None" using inv w unfolding dag_inv_def by force
    with v obtain draft m st1 where draft: "map_of defs k = Some draft"
      and deps: "visit_deps (visit n defs) defs (dd_dependencies draft) 0 (paint k GRAY st) = Inr (m, st1)"
      and d: "d = Suc m" "d \<le> DERIVED_MAX_DEPTH"
      and st': "st' = (paint k BLACK st1)\<lparr>ds_depth := (ds_depth (paint k BLACK st1))(k \<mapsto> d)\<rparr>"
      by (auto simp: rbind_eq_Inr Let_def split: option.splits if_splits)
    from visits_depth[OF Suc inv w draft deps] d
    have "dag_inv defs st1" "dag_le (paint k GRAY st) st1" "exact_depth defs k d" by auto
    from dag_finish[OF this(1,2) w this(3) d(2)] st'
    show "dag_inv defs st' \<and> dag_le st st' \<and> ds_depth st' k = Some d" by simp
  qed
qed

lemma white_state_inv: "dag_inv defs (white_state defs)"
  by (auto simp: dag_inv_def white_state_def)

lemma white_state_gray [simp]: "ds_color (white_state defs) k \<noteq> Some GRAY"
  by (simp add: white_state_def)

lemma visit_all_sound:
  "dag_inv defs st \<Longrightarrow> visit_all n defs ks st = Inr st' \<Longrightarrow>
     dag_inv defs st' \<and> dag_le st st' \<and> (\<forall>k \<in> set ks. ds_color st' k \<noteq> Some WHITE)"
proof (induction ks arbitrary: st)
  case Nil
  then show ?case by simp
next
  case (Cons k ks)
  have keep: "ds_color st' k \<noteq> Some WHITE"
    if "dag_inv defs st1" "dag_inv defs st'" "dag_le st1 st'" "ds_color st1 k \<noteq> Some WHITE" for st1
    using whites_shrink[OF that(1-3)] that(4) by (auto simp: whites_def)
  show ?case
  proof (cases "ds_color st k = Some WHITE")
    case True
    with Cons.prems(2) obtain d st1 where v: "visit n defs k st = Inr (d, st1)"
      and rest: "visit_all n defs ks st1 = Inr st'" by (auto simp: rbind_eq_Inr)
    from v Cons.prems(1) True visit_sound[of defs n]
    have s: "dag_inv defs st1" "dag_le st st1" "ds_depth st1 k = Some d" unfolding visits_def by blast+
    have "ds_color st1 k \<noteq> Some WHITE" using s(1,3) unfolding dag_inv_def by force
    with Cons.IH[OF s(1) rest] s keep dag_le_trans show ?thesis by auto
  next
    case False
    with Cons.prems(2) have rest: "visit_all n defs ks st = Inr st'" by simp
    from Cons.IH[OF Cons.prems(1) rest] keep[OF Cons.prems(1) _ _ False] show ?thesis by auto
  qed
qed

section \<open>Validation never runs out of stack and accepts what it should\<close>

lemma finite_whites: "dag_inv defs st \<Longrightarrow> finite (whites st) \<and> card (whites st) \<le> length defs"
proof -
  assume "dag_inv defs st"
  then have "whites st \<subseteq> fst ` set defs"
    by (auto simp: whites_def dag_inv_def dest: map_of_SomeD) (metis domI dom_map_of_conv_image_fst option.distinct(1))
  moreover have "card (fst ` set defs) \<le> length defs"
    using card_image_le[of "set defs" fst] card_length[of defs] by simp
  ultimately show ?thesis by (meson card_mono finite_imageI finite_set finite_subset le_trans)
qed

lemma visit_deps_bounded:
  assumes "visits defs v"
    and "\<And>k st. dag_inv defs st \<Longrightarrow> ds_color st k = Some WHITE \<Longrightarrow> whites st \<subseteq> W \<Longrightarrow> v k st \<noteq> Inl Recursion_error"
  shows "dag_inv defs st \<Longrightarrow> whites st \<subseteq> W \<Longrightarrow> visit_deps v defs rs m st \<noteq> Inl Recursion_error"
proof (induction rs arbitrary: m st)
  case Nil
  then show ?case by simp
next
  case (Cons r rs)
  show ?case
  proof (cases "ds_color st (dr_key r) = Some WHITE \<and> dr_kind r = Derived")
    case True
    then have nv: "v (dr_key r) st \<noteq> Inl Recursion_error" using assms(2) Cons.prems by blast
    have "visit_deps v defs rs (max m d) st1 \<noteq> Inl Recursion_error" if "v (dr_key r) st = Inr (d, st1)" for d st1
    proof -
      have "dag_inv defs st1" "dag_le st st1" using assms(1) True Cons.prems(1) that unfolding visits_def by blast+
      with whites_shrink[OF Cons.prems(1) this] Cons.prems(2) Cons.IH show ?thesis by blast
    qed
    with nv True show ?thesis by (cases "v (dr_key r) st") auto
  next
    case False
    then show ?thesis using Cons by (auto split: option.splits)
  qed
qed

lemma visit_bounded:
  "dag_inv defs st \<Longrightarrow> ds_color st k = Some WHITE \<Longrightarrow> card (whites st) \<le> n \<Longrightarrow>
     visit n defs k st \<noteq> Inl Recursion_error"
proof (induction n arbitrary: k st)
  case 0
  then have "whites st = {}" using finite_whites by fastforce
  with 0 show ?case by (simp add: whites_def)
next
  case (Suc n)
  let ?g = "paint k GRAY st"
  have g: "dag_inv defs ?g" by (rule dag_inv_gray[OF Suc.prems(1,2)])
  have "whites ?g = whites st - {k}" by (auto simp: whites_def)
  moreover have "k \<in> whites st" using Suc.prems(2) by (simp add: whites_def)
  ultimately have card: "card (whites ?g) \<le> n" using Suc.prems(3) finite_whites[OF Suc.prems(1)] by simp
  have "visit_deps (visit n defs) defs (dd_dependencies draft) 0 ?g \<noteq> Inl Recursion_error" for draft
  proof (rule visit_deps_bounded[OF visit_sound _ g subset_refl])
    fix k' st'
    assume "dag_inv defs st'" "ds_color st' k' = Some WHITE" "whites st' \<subseteq> whites ?g"
    moreover from this(3) have "card (whites st') \<le> n"
      using card_mono[OF conjunct1[OF finite_whites[OF g]]] card le_trans by blast
    ultimately show "visit n defs k' st' \<noteq> Inl Recursion_error" using Suc.IH by blast
  qed
  then show ?case by (auto simp: rbind_eq_Inl Let_def split: option.splits prod.splits if_splits)
qed

definition rank :: "drafts \<Rightarrow> string \<Rightarrow> nat" where
  "rank defs k = (LEAST n. chain_within defs n k)"

definition dag_ok :: "drafts \<Rightarrow> bool" where
  "dag_ok defs \<longleftrightarrow> list_all (chain_within defs DERIVED_MAX_DEPTH) (map fst defs)"

lemma dag_okD: "dag_ok defs \<Longrightarrow> map_of defs k \<noteq> None \<Longrightarrow> chain_within defs DERIVED_MAX_DEPTH k"
  by (force simp: dag_ok_def list_all_iff dest: map_of_SomeD)

lemma rank_exact: "chain_within defs n k \<Longrightarrow> exact_depth defs k (rank defs k)"
  unfolding exact_depth_def rank_def by (auto intro: LeastI Least_le)

lemma dag_ok_rank:
  assumes "dag_ok defs" "map_of defs k \<noteq> None"
  shows "exact_depth defs k (rank defs k)" "rank defs k \<le> DERIVED_MAX_DEPTH"
  using rank_exact[OF dag_okD[OF assms]] dag_okD[OF assms] by (auto simp: exact_depth_def)

lemma dag_ok_depends:
  assumes "dag_ok defs" "depends defs k r"
  shows "map_of defs r \<noteq> None \<and> rank defs r < rank defs k"
proof -
  have "map_of defs k \<noteq> None" using assms(2) by (auto simp: depends_def)
  from exact_decreases[OF dag_ok_rank(1)[OF assms(1) this] assms(2)]
  obtain e where e: "e < rank defs k" "exact_depth defs r e" by blast
  from e(2) have "chain_within defs e r" by (simp add: exact_depth_def)
  from exact_unique[OF rank_exact[OF this] e(2)] have "rank defs r = e" .
  moreover have "map_of defs r \<noteq> None"
    using e(2) by (cases e) (auto simp: exact_depth_def chain_within_Suc)
  ultimately show ?thesis using e(1) by simp
qed

lemma visit_deps_complete:
  assumes "visits defs v" and ok: "dag_ok defs"
    and v: "\<And>k st e. dag_inv defs st \<Longrightarrow> ds_color st k = Some WHITE \<Longrightarrow>
      (\<forall>g. ds_color st g = Some GRAY \<longrightarrow> rank defs k < rank defs g) \<Longrightarrow> v k st = Inl e \<Longrightarrow> e = Recursion_error"
  shows "dag_inv defs st \<Longrightarrow> (\<forall>g. ds_color st g = Some GRAY \<longrightarrow> b \<le> rank defs g) \<Longrightarrow>
    (\<forall>r \<in> set rs. dr_kind r = Derived \<longrightarrow> map_of defs (dr_key r) \<noteq> None \<and> rank defs (dr_key r) < b) \<Longrightarrow>
    visit_deps v defs rs m st = Inl e \<Longrightarrow> e = Recursion_error"
proof (induction rs arbitrary: m st)
  case Nil
  then show ?case by simp
next
  case (Cons r rs)
  show ?case
  proof (cases "dr_kind r = Derived")
    case False
    with Cons show ?thesis by auto
  next
    case True
    have r: "map_of defs (dr_key r) \<noteq> None" "rank defs (dr_key r) < b" using Cons.prems(3) True by auto
    have ng: "ds_color st (dr_key r) \<noteq> Some GRAY" using Cons.prems(2) r(2) by (meson not_le)
    show ?thesis
    proof (cases "ds_color st (dr_key r) = Some WHITE")
      case white: True
      have low: "\<forall>g. ds_color st g = Some GRAY \<longrightarrow> rank defs (dr_key r) < rank defs g"
        using Cons.prems(2) r(2) order.strict_trans2 by blast
      show ?thesis
      proof (cases "v (dr_key r) st")
        case (Inl e')
        with v[OF Cons.prems(1) white low] Cons.prems(4) True r(1) white show ?thesis by simp
      next
        case (Inr p)
        then obtain d st1 where p: "v (dr_key r) st = Inr (d, st1)" by (cases p) auto
        then have s: "dag_inv defs st1" "dag_le st st1"
          using assms(1) white Cons.prems(1) unfolding visits_def by blast+
        have "\<forall>g. ds_color st1 g = Some GRAY \<longrightarrow> b \<le> rank defs g"
          using Cons.prems(2) dag_le_gray[OF s(2)] by blast
        moreover have "visit_deps v defs rs (max m d) st1 = Inl e" using Cons.prems(4) True r(1) white p by simp
        ultimately show ?thesis using Cons.IH[OF s(1)] Cons.prems(3) by auto
      qed
    next
      case False
      have "ds_color st (dr_key r) \<noteq> None" using Cons.prems(1) r(1) unfolding dag_inv_def by metis
      with False ng have "ds_color st (dr_key r) = Some BLACK" by (metis colour.exhaust not_None_eq)
      then obtain d where "ds_depth st (dr_key r) = Some d" using Cons.prems(1) unfolding dag_inv_def by blast
      then show ?thesis using Cons.IH[OF Cons.prems(1,2)] Cons.prems(3,4) True r(1) False ng by auto
    qed
  qed
qed

lemma visit_complete:
  assumes ok: "dag_ok defs"
  shows "dag_inv defs st \<Longrightarrow> ds_color st k = Some WHITE \<Longrightarrow>
    (\<forall>g. ds_color st g = Some GRAY \<longrightarrow> rank defs k < rank defs g) \<Longrightarrow> visit n defs k st = Inl e \<Longrightarrow>
    e = Recursion_error"
proof (induction n arbitrary: k st e)
  case 0
  then show ?case by simp
next
  case (Suc n)
  have kn: "map_of defs k \<noteq> None" "ds_depth st k = None"
    using Suc.prems(1,2) unfolding dag_inv_def by force+
  then obtain draft where draft: "map_of defs k = Some draft" by blast
  let ?deps = "visit_deps (visit n defs) defs (dd_dependencies draft) 0 (paint k GRAY st)"
  have deps: "e' = Recursion_error" if "?deps = Inl e'" for e'
  proof (rule visit_deps_complete[OF visit_sound ok Suc.IH dag_inv_gray[OF Suc.prems(1,2)] _ _ that])
    show "\<forall>g. ds_color (paint k GRAY st) g = Some GRAY \<longrightarrow> rank defs k \<le> rank defs g"
      using Suc.prems(3) by (auto intro: less_imp_le)
    show "\<forall>r \<in> set (dd_dependencies draft). dr_kind r = Derived \<longrightarrow>
        map_of defs (dr_key r) \<noteq> None \<and> rank defs (dr_key r) < rank defs k"
      using dag_ok_depends[OF ok] depends_refs[OF draft] by blast
  qed
  have "Suc m \<le> DERIVED_MAX_DEPTH" if "?deps = Inr (m, st1)" for m st1
    using visits_depth[OF visit_sound Suc.prems(1,2) draft that] dag_ok_rank[OF ok kn(1)] exact_unique by metis
  with Suc.prems(4) kn draft deps show ?case
    by (auto simp: rbind_eq_Inl Let_def split: if_splits)
qed

lemma visit_all_ok:
  assumes ok: "dag_ok defs"
  shows "dag_inv defs st \<Longrightarrow> (\<forall>k. ds_color st k \<noteq> Some GRAY) \<Longrightarrow> \<exists>st'. visit_all (Suc (length defs)) defs ks st = Inr st'"
proof (induction ks arbitrary: st)
  case Nil
  then show ?case by simp
next
  case (Cons k ks)
  show ?case
  proof (cases "ds_color st k = Some WHITE")
    case False
    with Cons show ?thesis by simp
  next
    case True
    have "card (whites st) \<le> Suc (length defs)" using finite_whites[OF Cons.prems(1)] by simp
    from visit_bounded[OF Cons.prems(1) True this] visit_complete[OF ok Cons.prems(1) True, of "Suc (length defs)"]
    obtain d st1 where v: "visit (Suc (length defs)) defs k st = Inr (d, st1)"
      using Cons.prems(2) by (cases "visit (Suc (length defs)) defs k st") fastforce+
    then have s: "dag_inv defs st1" "dag_le st st1"
      using visit_sound[of defs "Suc (length defs)"] Cons.prems(1) True unfolding visits_def by blast+
    have "\<forall>k. ds_color st1 k \<noteq> Some GRAY" using dag_le_gray[OF s(2)] Cons.prems(2) by blast
    from Cons.IH[OF s(1) this] v True show ?thesis by (auto simp del: visit.simps)
  qed
qed

lemma visit_all_bounded:
  "dag_inv defs st \<Longrightarrow> visit_all (Suc (length defs)) defs ks st \<noteq> Inl Recursion_error"
proof (induction ks arbitrary: st)
  case Nil
  then show ?case by simp
next
  case (Cons k ks)
  show ?case
  proof (cases "ds_color st k = Some WHITE")
    case False
    with Cons show ?thesis by simp
  next
    case True
    have "card (whites st) \<le> Suc (length defs)" using finite_whites[OF Cons.prems(1)] by simp
    note nr = visit_bounded[OF Cons.prems(1) True this]
    have "visit_all (Suc (length defs)) defs ks st1 \<noteq> Inl Recursion_error"
      if "visit (Suc (length defs)) defs k st = Inr (d, st1)" for d st1
      using visit_sound[of defs "Suc (length defs)"] Cons.prems(1) True that Cons.IH unfolding visits_def by blast
    with nr True show ?thesis by (cases "visit (Suc (length defs)) defs k st") (auto simp del: visit.simps)
  qed
qed

lemma validate_dag_iff: "validate_dag defs = Inr () \<longleftrightarrow> dag_ok defs"
proof
  assume "validate_dag defs = Inr ()"
  then obtain st where v: "visit_all (Suc (length defs)) defs (map fst defs) (white_state defs) = Inr st"
    by (auto simp: validate_dag_def rbind_eq_Inr)
  from visit_all_sound[OF white_state_inv v] have inv: "dag_inv defs st" and le: "dag_le (white_state defs) st"
    and nw: "\<forall>k \<in> fst ` set defs. ds_color st k \<noteq> Some WHITE" by simp_all
  have "chain_within defs DERIVED_MAX_DEPTH k" if k: "k \<in> fst ` set defs" for k
  proof -
    have "map_of defs k \<noteq> None" using k by (simp add: map_of_eq_None_iff)
    then have "ds_color st k \<noteq> None" using inv unfolding dag_inv_def by metis
    moreover have "ds_color st k \<noteq> Some GRAY" using dag_le_gray[OF le, of k] by simp
    ultimately have "ds_color st k = Some BLACK" using nw k by (metis colour.exhaust not_None_eq)
    then obtain d where "exact_depth defs k d" "d \<le> DERIVED_MAX_DEPTH"
      using inv unfolding dag_inv_def by blast
    then show ?thesis using chain_within_mono by (auto simp: exact_depth_def)
  qed
  then show "dag_ok defs" by (simp add: dag_ok_def list_all_iff)
next
  assume "dag_ok defs"
  from visit_all_ok[OF this white_state_inv] obtain st where
    "visit_all (Suc (length defs)) defs (map fst defs) (white_state defs) = Inr st" by fastforce
  then show "validate_dag defs = Inr ()" by (simp add: validate_dag_def)
qed

section \<open>The topological order\<close>

definition deps_first :: "drafts \<Rightarrow> string list \<Rightarrow> bool" where
  "deps_first defs ord \<longleftrightarrow> (\<forall>i < length ord. \<forall>r. depends defs (ord ! i) r \<longrightarrow> r \<in> set (take i ord))"

lemma deps_first_snoc:
  "deps_first defs ord \<Longrightarrow> (\<And>r. depends defs k r \<Longrightarrow> r \<in> set ord) \<Longrightarrow> deps_first defs (ord @ [k])"
  by (auto simp: deps_first_def nth_append less_Suc_eq)

definition derived_refs :: "dependency_ref list \<Rightarrow> string set" where
  "derived_refs rs = {dr_key r |r. r \<in> set rs \<and> dr_kind r = Derived}"

lemma derived_refs_simps [simp]:
  "derived_refs [] = {}"
  "derived_refs (r # rs) = (if dr_kind r = Derived then insert (dr_key r) (derived_refs rs) else derived_refs rs)"
  "derived_refs (sort_key f rs) = derived_refs rs"
  by (auto simp: derived_refs_def)

lemma derived_refs_depends: "map_of defs k = Some d \<Longrightarrow> derived_refs (dd_dependencies d) = {r. depends defs k r}"
  by (auto simp: derived_refs_def depends_refs)

definition topo_inv :: "drafts \<Rightarrow> topo_state \<Rightarrow> bool" where
  "topo_inv defs st \<longleftrightarrow> distinct (snd st) \<and> set (snd st) \<subseteq> set (fst st) \<and>
     set (fst st) \<subseteq> dom (map_of defs) \<and> deps_first defs (snd st)"

definition in_progress :: "topo_state \<Rightarrow> string set" where
  "in_progress st = set (fst st) - set (snd st)"

definition unvisited :: "drafts \<Rightarrow> topo_state \<Rightarrow> string set" where
  "unvisited defs st = dom (map_of defs) - set (fst st)"

definition topo_le :: "topo_state \<Rightarrow> topo_state \<Rightarrow> bool" where
  "topo_le st st' \<longleftrightarrow> in_progress st' = in_progress st \<and> set (fst st) \<subseteq> set (fst st') \<and> set (snd st) \<subseteq> set (snd st')"

lemma topo_le_refl [simp]: "topo_le st st"
  by (simp add: topo_le_def)

lemma topo_le_trans: "topo_le a b \<Longrightarrow> topo_le b c \<Longrightarrow> topo_le a c"
  by (auto simp: topo_le_def)

lemma finite_unvisited [simp]: "finite (unvisited defs st)"
  by (simp add: unvisited_def finite_dom_map_of)

lemma unvisited_le: "topo_le st st' \<Longrightarrow> card (unvisited defs st') \<le> card (unvisited defs st)"
  by (rule card_mono) (auto simp: topo_le_def unvisited_def finite_dom_map_of)

text \<open>What a call that visits one definition may assume and must deliver.\<close>

definition topo_pre :: "drafts \<Rightarrow> nat \<Rightarrow> string \<Rightarrow> topo_state \<Rightarrow> bool" where
  "topo_pre defs n k st \<longleftrightarrow> topo_inv defs st \<and> map_of defs k \<noteq> None \<and>
     (\<forall>g \<in> in_progress st. rank defs k < rank defs g) \<and> card (unvisited defs st) < n"

definition topo_post :: "drafts \<Rightarrow> string set \<Rightarrow> topo_state \<Rightarrow> topo_state \<Rightarrow> bool" where
  "topo_post defs ks st st' \<longleftrightarrow> topo_inv defs st' \<and> topo_le st st' \<and> ks \<subseteq> set (snd st')"

lemma topo_post_trans:
  assumes "topo_post defs A st st1" "topo_post defs B st1 st2"
  shows "topo_post defs (A \<union> B) st st2"
proof -
  have "topo_le st st2" using assms topo_le_trans[of st st1 st2] by (simp add: topo_post_def)
  moreover have "A \<subseteq> set (snd st2)" using assms by (auto simp: topo_post_def topo_le_def)
  ultimately show ?thesis using assms(2) by (simp add: topo_post_def)
qed

lemma topo_deps_ok:
  assumes v: "\<And>k st. topo_pre defs n k st \<Longrightarrow> \<exists>st'. v k st = Inr st' \<and> topo_post defs {k} st st'"
  shows "topo_inv defs st \<Longrightarrow> card (unvisited defs st) < n \<Longrightarrow> (\<forall>g \<in> in_progress st. b \<le> rank defs g) \<Longrightarrow>
    (\<forall>r \<in> derived_refs rs. map_of defs r \<noteq> None \<and> rank defs r < b) \<Longrightarrow>
    \<exists>st'. topo_deps v rs st = Inr st' \<and> topo_post defs (derived_refs rs) st st'"
proof (induction rs arbitrary: st)
  case Nil
  then show ?case by (simp add: topo_post_def)
next
  case (Cons r rs)
  show ?case
  proof (cases "dr_kind r = Derived")
    case False
    with Cons show ?thesis by simp
  next
    case True
    have "topo_pre defs n (dr_key r) st"
      using Cons.prems True order.strict_trans2 unfolding topo_pre_def by auto
    then obtain st1 where v1: "v (dr_key r) st = Inr st1" and p1: "topo_post defs {dr_key r} st st1"
      using v by blast
    then have s: "topo_inv defs st1" "topo_le st st1" "dr_key r \<in> set (snd st1)" by (auto simp: topo_post_def)
    have "card (unvisited defs st1) < n" using unvisited_le[OF s(2)] Cons.prems(2) le_less_trans by blast
    moreover have "\<forall>g \<in> in_progress st1. b \<le> rank defs g" using s(2) Cons.prems(3) by (simp add: topo_le_def)
    ultimately obtain st2 where v2: "topo_deps v rs st1 = Inr st2"
      and p2: "topo_post defs (derived_refs rs) st1 st2"
      using Cons.IH[OF s(1)] Cons.prems(4) True by auto
    from topo_post_trans[OF p1 p2] True have "topo_post defs (derived_refs (r # rs)) st st2" by simp
    with v1 v2 True show ?thesis by auto
  qed
qed

lemma topo_visit_ok:
  assumes ok: "dag_ok defs"
  shows "topo_pre defs n k st \<Longrightarrow> \<exists>st'. topo_visit n defs k st = Inr st' \<and> topo_post defs {k} st st'"
proof (induction n arbitrary: k st)
  case 0
  then show ?case by (simp add: topo_pre_def)
next
  case (Suc n)
  obtain vis ord where st: "st = (vis, ord)" by fastforce
  from Suc.prems have inv: "topo_inv defs st" and kn: "map_of defs k \<noteq> None"
    and low: "\<forall>g \<in> in_progress st. rank defs k < rank defs g" and card: "card (unvisited defs st) < Suc n"
    by (auto simp: topo_pre_def)
  show ?case
  proof (cases "k \<in> set vis")
    case True
    then have "k \<in> set ord" using low by (auto simp: st in_progress_def)
    with True inv show ?thesis by (simp add: st topo_post_def)
  next
    case False
    from kn obtain draft where draft: "map_of defs k = Some draft" by blast
    let ?st = "(k # vis, ord)"
    have inv1: "topo_inv defs ?st" using inv kn by (auto simp: st topo_inv_def)
    have "unvisited defs ?st = unvisited defs st - {k}" "k \<in> unvisited defs st"
      using False kn by (auto simp: st unvisited_def)
    then have card1: "card (unvisited defs ?st) < n" if "0 < n"
      using card that by (simp add: card_Diff_singleton)
    have prog: "\<forall>g \<in> in_progress ?st. rank defs k \<le> rank defs g"
      using low by (auto simp: st in_progress_def intro: less_imp_le)
    have refs: "\<forall>r \<in> derived_refs (sort_key dr_key (dd_dependencies draft)).
        map_of defs r \<noteq> None \<and> rank defs r < rank defs k"
      using dag_ok_depends[OF ok] by (simp add: derived_refs_depends[OF draft])
    have "\<exists>st'. topo_deps (topo_visit n defs) (sort_key dr_key (dd_dependencies draft)) ?st = Inr st' \<and>
        topo_post defs {r. depends defs k r} ?st st'"
    proof (cases n)
      case 0
      then have "unvisited defs st = {}" using card by simp
      then show ?thesis using False kn by (auto simp: st unvisited_def)
    next
      case (Suc n')
      then show ?thesis
        using topo_deps_ok[OF Suc.IH inv1 card1 prog refs] by (simp add: derived_refs_depends[OF draft])
    qed
    then obtain vis' ord' where d: "topo_deps (topo_visit n defs) (sort_key dr_key (dd_dependencies draft)) ?st = Inr (vis', ord')"
      and post: "topo_inv defs (vis', ord')" "topo_le ?st (vis', ord')" "{r. depends defs k r} \<subseteq> set ord'"
      by (auto simp: topo_post_def)
    have k: "k \<in> set vis'" "k \<notin> set ord'"
      using post(2) False inv by (auto simp: st topo_le_def in_progress_def topo_inv_def)
    have "topo_inv defs (vis', ord' @ [k])"
      using post(1,3) k deps_first_snoc[of defs ord' k] by (auto simp: topo_inv_def)
    moreover have "topo_le st (vis', ord' @ [k])"
      using post(2) k False inv by (auto simp: st topo_le_def in_progress_def topo_inv_def)
    ultimately show ?thesis using False draft d by (simp add: st topo_post_def)
  qed
qed

lemma topo_all_ok:
  assumes ok: "dag_ok defs"
  shows "topo_inv defs st \<Longrightarrow> in_progress st = {} \<Longrightarrow> card (unvisited defs st) < n \<Longrightarrow>
    \<forall>k \<in> set ks. map_of defs k \<noteq> None \<Longrightarrow> \<exists>st'. topo_all n defs ks st = Inr st' \<and> topo_post defs (set ks) st st'"
proof (induction ks arbitrary: st)
  case Nil
  then show ?case by (simp add: topo_post_def)
next
  case (Cons k ks)
  have "topo_pre defs n k st" using Cons.prems by (simp add: topo_pre_def)
  from topo_visit_ok[OF ok this] obtain st1 where v: "topo_visit n defs k st = Inr st1"
    and p: "topo_inv defs st1" "topo_le st st1" "k \<in> set (snd st1)" by (auto simp: topo_post_def)
  have "in_progress st1 = {}" using p(2) Cons.prems(2) by (simp add: topo_le_def)
  moreover have "card (unvisited defs st1) < n" using unvisited_le[OF p(2)] Cons.prems(3) le_less_trans by blast
  ultimately obtain st2 where v2: "topo_all n defs ks st1 = Inr st2" and p2: "topo_post defs (set ks) st1 st2"
    using Cons.IH[OF p(1)] Cons.prems(4) by auto
  have "topo_post defs {k} st st1" using p by (simp add: topo_post_def)
  from topo_post_trans[OF this p2] v v2 show ?case by simp
qed

lemma topological_order_ok:
  assumes ok: "dag_ok defs"
  obtains order where "topological_order defs = Inr order" "distinct order" "set order = fst ` set defs"
    "deps_first defs order"
proof -
  have inv: "topo_inv defs ([], [])" by (simp add: topo_inv_def deps_first_def)
  have "card (dom (map_of defs)) \<le> length defs"
    using card_image_le[of "set defs" fst] card_length[of defs] by (simp add: dom_map_of_conv_image_fst)
  then have "card (unvisited defs ([], [])) < Suc (length defs)" by (simp add: unvisited_def)
  moreover have "in_progress ([], []) = {}" by (simp add: in_progress_def)
  moreover have "\<forall>k \<in> set (sort (map fst defs)). map_of defs k \<noteq> None" by (simp add: map_of_eq_None_iff)
  ultimately obtain st where t: "topo_all (Suc (length defs)) defs (sort (map fst defs)) ([], []) = Inr st"
    and p: "topo_post defs (set (sort (map fst defs))) ([], []) st"
    using topo_all_ok[OF ok inv, of "Suc (length defs)" "sort (map fst defs)"] by blast
  have "topological_order defs = Inr (snd st)" unfolding topological_order_def t by (simp add: split_beta)
  moreover have "set (snd st) = fst ` set defs"
    using p by (auto simp: topo_post_def topo_inv_def dom_map_of_conv_image_fst)
  ultimately show ?thesis using that p by (auto simp: topo_post_def topo_inv_def)
qed

section \<open>Independence of the listing order\<close>

lemma topo_visit_cong:
  assumes "map_of defs = map_of defs'"
  shows "topo_visit n defs k st = topo_visit n defs' k st"
proof (induction n arbitrary: k st)
  case 0
  then show ?case by simp
next
  case (Suc n)
  then have "topo_visit n defs = topo_visit n defs'" by blast
  then show ?case by (cases st) (simp add: assms split: option.split)
qed

lemma topo_all_cong: "map_of defs = map_of defs' \<Longrightarrow> topo_all n defs ks st = topo_all n defs' ks st"
  by (induction ks arbitrary: st) (simp_all add: topo_visit_cong[of defs defs'] rbind_def split: sum.split)

lemma step_operators:
  assumes "1 \<le> s"
  shows "of_int (floor_to_step v s) \<le> v \<and> v < of_int (floor_to_step v s + s) \<and>
    of_int (round_up_to_step v s - s) < v \<and> v \<le> of_int (round_up_to_step v s)"
proof -
  have pos: "(0 :: rat) < of_int s" using assms by simp
  have scale: "a * of_int s \<le> b * of_int s \<longleftrightarrow> a \<le> b" "a * of_int s < b * of_int s \<longleftrightarrow> a < b" for a b :: rat
    using pos by simp_all
  define x where "x = v / of_int s"
  have v: "v = x * of_int s" using pos by (simp add: x_def)
  have f: "floor_to_step v s = \<lfloor>x\<rfloor> * s" "round_up_to_step v s = \<lceil>x\<rceil> * s"
    by (simp_all add: floor_to_step_rounds round_up_to_step_rounds round_units_spec[OF assms] rounded_units_def x_def)
  have "of_int \<lfloor>x\<rfloor> * of_int s \<le> x * of_int s" "x * of_int s < (of_int \<lfloor>x\<rfloor> + 1) * of_int s"
    "(of_int \<lceil>x\<rceil> - 1) * of_int s < x * of_int s" "x * of_int s \<le> of_int \<lceil>x\<rceil> * of_int s"
    unfolding scale using floor_correct[of x] ceiling_correct[of x] by simp_all
  then show ?thesis unfolding f by (simp add: v distrib_right left_diff_distrib)
qed

section \<open>Properties\<close>

text \<open>C31: validation of a derived-value graph is exact and always ends. It never runs out of stack, and
  it accepts precisely the graphs in which every derived reference resolves and no chain of derived
  dependencies, cycles included, has more than eight definitions.\<close>

theorem validate_dag_exact:
  "validate_dag defs \<noteq> Inl Recursion_error \<and>
   (validate_dag defs = Inr () \<longleftrightarrow> list_all (chain_within defs DERIVED_MAX_DEPTH) (map fst defs))"
  using visit_all_bounded[OF white_state_inv, of defs] validate_dag_iff[of defs]
  by (auto simp: validate_dag_def rbind_eq_Inl dag_ok_def simp del: visit_all.simps)

text \<open>on a validated graph the evaluation order exists and is topological: it lists every definition
  exactly once, each after all the derived values it depends on, and no definition depends on itself.\<close>

theorem topological_order_sound:
  assumes "validate_dag defs = Inr ()"
  shows "\<exists>order. topological_order defs = Inr order \<and> distinct order \<and> set order = fst ` set defs \<and>
    (\<forall>i < length order. \<forall>r. depends defs (order ! i) r \<longrightarrow> r \<in> set (take i order)) \<and>
    (\<forall>k \<in> set order. \<not> (depends defs)\<^sup>+\<^sup>+ k k)"
proof -
  have ok: "dag_ok defs" using assms by (simp add: validate_dag_iff)
  then have acyclic: "\<not> (depends defs)\<^sup>+\<^sup>+ k k" if "k \<in> fst ` set defs" for k
    using that bounded_acyclic by (auto simp: dag_ok_def list_all_iff)
  from topological_order_ok[OF ok] obtain order where
    "topological_order defs = Inr order" "distinct order" "set order = fst ` set defs" "deps_first defs order" .
  with acyclic show ?thesis by (auto simp: deps_first_def)
qed

text \<open>the evaluation order is deterministic: it depends on the definitions only as a mapping, not on
  the order in which they are listed.\<close>

theorem topological_order_deterministic:
  assumes "distinct (map fst defs)" "distinct (map fst defs')" "map_of defs = map_of defs'"
  shows "topological_order defs = topological_order defs'"
proof -
  have "set (map fst defs) = set (map fst defs')"
    using assms(3) by (metis dom_map_of_conv_image_fst set_map)
  moreover have "sort xs = sorted_list_of_set (set xs)" if "distinct xs" for xs :: "string list"
    using that by (simp add: sorted_list_of_set_sort_remdups distinct_remdups_id)
  ultimately have "sort (map fst defs) = sort (map fst defs')" using assms(1,2) by simp
  moreover from this have "length defs = length defs'" by (metis length_map length_sort)
  ultimately show ?thesis by (simp add: topological_order_def topo_all_cong[OF assms(3)])
qed

text \<open>The step operators are exact on rationals: flooring gives a multiple of the step not above the
  value, rounding up one not below it, each less than one step away, and a step below one is refused.\<close>

theorem step_operators_exact:
  assumes "evaluate_operator op ps vs = Inr x" and "op \<in> {FLOOR_TO_STEP, ROUND_UP_TO_STEP}"
  shows "\<exists>v step k. vs = [v] \<and> jget ''step_minor'' ps = JInt step \<and> 1 \<le> step \<and> x = of_int (k * step) \<and>
    (if op = FLOOR_TO_STEP then x \<le> v \<and> v < x + of_int step else x - of_int step < v \<and> v \<le> x)"
proof -
  let ?f = "if op = FLOOR_TO_STEP then floor_to_step else round_up_to_step"
  from assms obtain v step where v: "vs = [v]" and p: "jget ''step_minor'' ps = JInt step" and s: "1 \<le> step"
    and x: "x = of_int (?f v step)"
    by (auto simp: evaluate_operator_def require_single_def int_param_def parameters_invalid_def rbind_eq_Inr
        split: list.splits json.splits if_splits)
  have "step dvd ?f v step" using derived_floor.rnd_dvd[OF s] derived_ceiling.rnd_dvd[OF s] by simp
  then obtain k where "?f v step = k * step" by (metis dvd_def mult.commute)
  with v p s x step_operators[OF s, of v] show ?thesis
    by (intro exI[of _ v] exI[of _ step] exI[of _ k]) (auto split: if_splits)
qed

section \<open>Concrete runs\<close>

definition demo_draft :: "string \<Rightarrow> (dependency_ref_kind \<times> string) list \<Rightarrow> string \<times> definition_draft" where
  "demo_draft k refs = (k, \<lparr>dd_definition_key = k, dd_operator = MIN_NONZERO_SELECTION, dd_parameters = [],
     dd_dependencies = map (\<lambda>(kd, r). \<lparr>dr_kind = kd, dr_key = r\<rparr>) refs\<rparr>)"

definition demo_graph :: drafts where
  "demo_graph = [demo_draft ''total'' [(Derived, ''net''), (Derived, ''base'')],
     demo_draft ''net'' [(Derived, ''base''), (Observation, ''cost'')], demo_draft ''base'' [(Observation, ''cost'')]]"

theorem topological_order_sound_witness:
  "\<exists>order. topological_order demo_graph = Inr order \<and> set order = {''base'', ''net'', ''total''}"
proof -
  have "validate_dag demo_graph = Inr ()" by code_simp
  moreover have "fst ` set demo_graph = {''base'', ''net'', ''total''}"
    by (auto simp: demo_graph_def demo_draft_def)
  ultimately show ?thesis using topological_order_sound by metis
qed

theorem topological_order_deterministic_witness:
  "topological_order (rev demo_graph) = topological_order demo_graph"
  by (rule topological_order_deterministic) (simp_all add: demo_graph_def demo_draft_def fun_eq_iff)

theorem step_operators_exact_witness:
  "evaluate_operator ROUND_UP_TO_STEP [(''step_minor'', JInt 100)] [-150] = Inr (-100) \<and> -100 - 100 < (-150 :: rat)"
proof -
  have e: "evaluate_operator ROUND_UP_TO_STEP [(''step_minor'', JInt 100)] [-150] = Inr (-100)" by code_simp
  from step_operators_exact[OF e] show ?thesis by (auto simp: e)
qed

end
