(* ===== verification/EvidenceSelection.thy ===== *)
theory EvidenceSelection
  imports DerivedValues "HOL-Library.Multiset"
begin

text \<open>
  Selection of the evidence a Frozen Evaluation Package pins
  (\<^verbatim>\<open>app/flowhub/pricing_evaluation/selection.py\<close>, \<^verbatim>\<open>manual_inputs.py\<close>): one Observation per
  required Source by one of six modes, its freshness, the skew across Sources, and the current
  decision on a manual input. Every failure is one of the fixed reason codes.
\<close>

section \<open>The unique newest entry\<close>

text \<open>Both selections take the entries at the maximal time and refuse a tie.\<close>

definition newest :: "('a \<Rightarrow> instant) \<Rightarrow> 'a list \<Rightarrow> 'a list" where
  "newest time xs = filter (\<lambda>x. time x = Max (set (map time xs))) xs"

definition strictly_newest :: "('a \<Rightarrow> instant) \<Rightarrow> 'a list \<Rightarrow> 'a \<Rightarrow> bool" where
  "strictly_newest time xs x \<longleftrightarrow> (\<exists>rest. mset xs = add_mset x rest \<and> (\<forall>y \<in># rest. time y < time x))"

lemma newest_nonempty: "xs \<noteq> [] \<Longrightarrow> newest time xs \<noteq> []"
proof -
  assume "xs \<noteq> []"
  then have "Max (set (map time xs)) \<in> time ` set xs" using Max_in[of "set (map time xs)"] by simp
  then show ?thesis unfolding newest_def filter_empty_conv by (metis (no_types) imageE)
qed

lemma newest_unique: "xs \<noteq> [] \<Longrightarrow> newest time xs = [x] \<longleftrightarrow> strictly_newest time xs x"
proof
  assume "xs \<noteq> []" and n: "newest time xs = [x]"
  have "mset xs = mset (newest time xs) + filter_mset (\<lambda>y. \<not> time y = Max (set (map time xs))) (mset xs)"
    by (simp add: newest_def)
  then have m: "mset xs = {#x#} + filter_mset (\<lambda>y. \<not> time y = Max (set (map time xs))) (mset xs)"
    unfolding n by simp
  have "x \<in> set (newest time xs)" unfolding n by simp
  from this[unfolded newest_def set_filter] have x: "time x = Max (set (map time xs))" by blast
  have "time y < time x" if "y \<in> set xs" "time y \<noteq> time x" for y
    using that x Max_ge[of "set (map time xs)" "time y"] by (simp add: order_less_le)
  with m x show "strictly_newest time xs x"
    unfolding strictly_newest_def
    by (intro exI[of _ "filter_mset (\<lambda>y. \<not> time y = Max (set (map time xs))) (mset xs)"]) auto
next
  assume "xs \<noteq> []" and "strictly_newest time xs x"
  then obtain rest where m: "mset xs = add_mset x rest" and r: "\<forall>y \<in># rest. time y < time x"
    by (auto simp: strictly_newest_def)
  have s: "set xs = insert x (set_mset rest)" using m by (metis set_mset_add_mset_insert set_mset_mset)
  have "Max (set (map time xs)) = time x"
    unfolding set_map s by (rule Max_eqI) (use r in \<open>auto intro: less_imp_le\<close>)
  then have "mset (newest time xs) = filter_mset (\<lambda>y. time y = time x) (add_mset x rest)"
    by (simp add: newest_def m)
  also have "\<dots> = {#x#}" using r by auto
  finally show "newest time xs = [x]" by simp
qed

lemma newest_mset: "mset xs = mset ys \<Longrightarrow> mset (newest time xs) = mset (newest time ys)"
proof -
  assume m: "mset xs = mset ys"
  then have "set (map time xs) = set (map time ys)" by (metis mset_map set_mset_mset)
  with m show ?thesis by (simp add: newest_def)
qed

lemma short_mset: "mset xs = mset ys \<Longrightarrow> length xs \<le> 1 \<Longrightarrow> xs = ys"
  by (cases xs rule: remdups_adj.cases) auto

section \<open>Observations\<close>

datatype observation_selection_mode = LATEST_ELIGIBLE_AS_OF | ALIGNED_BUSINESS_CYCLE
  | BUSINESS_EFFECTIVE_DATE | LAST_APPROVED | EXPLICIT_OBSERVATION | LEGACY_CONSUMED_OBSERVATION

datatype freshness_result = FRESH | STALE | UNKNOWN
datatype skew_result = WITHIN_TOLERANCE | VIOLATION | NOT_APPLICABLE

record observation_candidate =
  oc_observation_id :: string
  oc_checksum :: string
  oc_observed_at :: instant
  oc_business_cycle_identity :: "string option"
  oc_is_legacy_consumed :: bool

record selection_result =
  sr_candidate :: observation_candidate
  sr_freshness_result :: freshness_result

definition dependency_failure :: "string \<Rightarrow> evaluation_error + 'a" where
  "dependency_failure code = Inl (Dependency_error code)"

text \<open>\<^verbatim>\<open>sole\<close>: none is missing, several are ambiguous.\<close>

definition sole :: "'a list \<Rightarrow> evaluation_error + 'a" where
  "sole xs = (case xs of [] \<Rightarrow> dependency_failure ''observation_missing'' | [x] \<Rightarrow> Inr x
     | _ \<Rightarrow> dependency_failure ''observation_ambiguous'')"

definition latest_before :: "observation_candidate list \<Rightarrow> instant \<Rightarrow> evaluation_error + observation_candidate" where
  "latest_before cs bound = (let eligible = filter (\<lambda>c. oc_observed_at c \<le> bound) cs in
     if eligible = [] then dependency_failure ''observation_missing''
     else sole (newest oc_observed_at eligible))"

definition pick_candidate :: "observation_selection_mode \<Rightarrow> observation_candidate list \<Rightarrow> instant option
    \<Rightarrow> string option \<Rightarrow> instant option \<Rightarrow> string option \<Rightarrow> evaluation_error + observation_candidate" where
  "pick_candidate mode cs as_of cycle effective explicit = (case mode of
     LATEST_ELIGIBLE_AS_OF \<Rightarrow> (case as_of of None \<Rightarrow> dependency_failure ''as_of_required''
       | Some b \<Rightarrow> latest_before cs b)
   | BUSINESS_EFFECTIVE_DATE \<Rightarrow> (case effective of
         None \<Rightarrow> dependency_failure ''business_effective_date_required'' | Some b \<Rightarrow> latest_before cs b)
   | ALIGNED_BUSINESS_CYCLE \<Rightarrow> if \<not> truthy cycle then dependency_failure ''business_cycle_required''
       else sole (filter (\<lambda>c. oc_business_cycle_identity c = cycle) cs)
   | LAST_APPROVED \<Rightarrow> sole (newest oc_observed_at cs)
   | EXPLICIT_OBSERVATION \<Rightarrow> if \<not> truthy explicit then dependency_failure ''explicit_observation_required''
       else (case filter (\<lambda>c. Some (oc_observation_id c) = explicit) cs of
           [] \<Rightarrow> dependency_failure ''observation_missing'' | c # _ \<Rightarrow> Inr c)
   | LEGACY_CONSUMED_OBSERVATION \<Rightarrow> sole (filter oc_is_legacy_consumed cs))"

definition freshness_of :: "instant \<Rightarrow> duration option \<Rightarrow> instant \<Rightarrow> freshness_result" where
  "freshness_of now max_age observed = (case max_age of None \<Rightarrow> UNKNOWN
     | Some m \<Rightarrow> let age = now - observed in
         if age < 0 then UNKNOWN else if age \<le> m then FRESH else STALE)"

definition select_observation :: "observation_selection_mode \<Rightarrow> observation_candidate list \<Rightarrow> instant
    \<Rightarrow> instant option \<Rightarrow> string option \<Rightarrow> instant option \<Rightarrow> string option \<Rightarrow> duration option \<Rightarrow> bool
    \<Rightarrow> evaluation_error + selection_result" where
  "select_observation mode cs now as_of cycle effective explicit max_age require_fresh =
     (if cs = [] then dependency_failure ''observation_missing'' else
      rbind (pick_candidate mode cs as_of cycle effective explicit) (\<lambda>selected.
      let freshness = freshness_of now max_age (oc_observed_at selected) in
      if require_fresh \<and> freshness = STALE then dependency_failure ''observation_stale''
      else Inr \<lparr>sr_candidate = selected, sr_freshness_result = freshness\<rparr>))"

definition evaluate_cross_source_skew :: "(string, instant) dict \<Rightarrow> duration option \<Rightarrow> skew_result" where
  "evaluate_cross_source_skew observed tolerance = (case tolerance of None \<Rightarrow> NOT_APPLICABLE
     | Some t \<Rightarrow> if length observed < 2 then NOT_APPLICABLE
         else if Max (snd ` set observed) - Min (snd ` set observed) \<le> t then WITHIN_TOLERANCE else VIOLATION)"

section \<open>Decisions on manual inputs\<close>

datatype manual_input_decision_kind = APPROVED | REJECTED | REVOKED

record decision_record =
  dc_id :: string
  dc_decision :: manual_input_decision_kind
  dc_created_at :: instant

definition resolve_current_decision ::
  "decision_record list \<Rightarrow> instant \<Rightarrow> instant option \<Rightarrow> evaluation_error + decision_record" where
  "resolve_current_decision ds now expires_at =
     (if ds = [] then dependency_failure ''manual_input_missing''
      else case newest dc_created_at ds of
          [current] \<Rightarrow>
            if dc_decision current = REVOKED then dependency_failure ''manual_input_revoked''
            else if dc_decision current = REJECTED then dependency_failure ''manual_input_not_approved''
            else if (case expires_at of None \<Rightarrow> False | Some e \<Rightarrow> e \<le> now)
            then dependency_failure ''manual_input_expired'' else Inr current
        | _ \<Rightarrow> dependency_failure ''manual_input_decision_ambiguous'')"

section \<open>Lemmas\<close>

lemma dependency_failure_simps [simp]:
  "dependency_failure c \<noteq> Inr x" "dependency_failure c = Inl e \<longleftrightarrow> e = Dependency_error c"
  by (auto simp: dependency_failure_def)

lemma sole_Inr [simp]: "sole xs = Inr x \<longleftrightarrow> xs = [x]"
  by (auto simp: sole_def split: list.splits)

lemma sole_cong: "mset xs = mset ys \<Longrightarrow> sole xs = sole ys"
proof (cases xs rule: remdups_adj.cases)
  case (3 x y zs)
  assume m: "mset xs = mset ys"
  then have "length ys = length zs + 2" using 3 by (metis add_2_eq_Suc' length_Cons size_mset)
  then obtain a b cs where "ys = a # b # cs" by (cases ys rule: remdups_adj.cases) auto
  with 3 show ?thesis by (simp add: sole_def)
qed auto

lemma latest_before_Inr:
  "latest_before cs b = Inr c \<longleftrightarrow> strictly_newest oc_observed_at (filter (\<lambda>c. oc_observed_at c \<le> b) cs) c"
proof (cases "filter (\<lambda>c. oc_observed_at c \<le> b) cs = []")
  case True
  then show ?thesis by (simp add: latest_before_def strictly_newest_def)
next
  case False
  then show ?thesis by (simp add: latest_before_def Let_def newest_unique)
qed

text \<open>What each mode promises about the candidate it picks.\<close>

definition eligible_by_mode :: "observation_selection_mode \<Rightarrow> observation_candidate list \<Rightarrow> instant option
    \<Rightarrow> string option \<Rightarrow> instant option \<Rightarrow> string option \<Rightarrow> observation_candidate \<Rightarrow> bool" where
  "eligible_by_mode mode cs as_of cycle effective explicit c = (case mode of
     LATEST_ELIGIBLE_AS_OF \<Rightarrow> (\<exists>b. as_of = Some b \<and>
       strictly_newest oc_observed_at (filter (\<lambda>c. oc_observed_at c \<le> b) cs) c)
   | BUSINESS_EFFECTIVE_DATE \<Rightarrow> (\<exists>b. effective = Some b \<and>
       strictly_newest oc_observed_at (filter (\<lambda>c. oc_observed_at c \<le> b) cs) c)
   | ALIGNED_BUSINESS_CYCLE \<Rightarrow> truthy cycle \<and> filter (\<lambda>c. oc_business_cycle_identity c = cycle) cs = [c]
   | LAST_APPROVED \<Rightarrow> strictly_newest oc_observed_at cs c
   | EXPLICIT_OBSERVATION \<Rightarrow> explicit = Some (oc_observation_id c) \<and> c \<in> set cs
   | LEGACY_CONSUMED_OBSERVATION \<Rightarrow> filter oc_is_legacy_consumed cs = [c])"

lemma filter_Cons_member: "filter P xs = x # ys \<Longrightarrow> x \<in> set xs \<and> P x"
proof -
  assume "filter P xs = x # ys"
  then have "x \<in> set (filter P xs)" by simp
  then show ?thesis by simp
qed

lemma pick_candidate_eligible:
  "cs \<noteq> [] \<Longrightarrow> pick_candidate mode cs as_of cycle effective explicit = Inr c \<Longrightarrow>
     eligible_by_mode mode cs as_of cycle effective explicit c"
  by (cases mode)
    (auto simp: pick_candidate_def eligible_by_mode_def latest_before_Inr newest_unique
      split: option.splits if_splits list.splits dest: filter_Cons_member)

lemma eligible_member: "eligible_by_mode mode cs as_of cycle effective explicit c \<Longrightarrow> c \<in> set cs"
proof -
  have s: "x \<in> set xs" if "strictly_newest f xs x" for f and x :: observation_candidate and xs
    using that by (auto simp: strictly_newest_def) (metis set_mset_mset union_single_eq_member)
  have f: "x \<in> set cs" if "filter P cs = [x]" for P x
    using filter_Cons_member[OF that] by simp
  show "eligible_by_mode mode cs as_of cycle effective explicit c \<Longrightarrow> ?thesis"
    by (cases mode) (auto simp: eligible_by_mode_def dest: s f)
qed

lemma first_with_id:
  assumes "mset cs = mset cs'" and "distinct (map oc_observation_id cs)"
  shows "filter (\<lambda>c. Some (oc_observation_id c) = i) cs = filter (\<lambda>c. Some (oc_observation_id c) = i) cs'"
proof -
  let ?f = "filter (\<lambda>c. Some (oc_observation_id c) = i)"
  have "length (?f cs) \<le> 1"
  proof (rule ccontr)
    assume "\<not> length (?f cs) \<le> 1"
    then obtain a b rest where "?f cs = a # b # rest" by (cases "?f cs" rule: remdups_adj.cases) auto
    moreover have "distinct (map oc_observation_id (?f cs))" using assms(2) by (rule distinct_map_filter)
    moreover have "Some (oc_observation_id c) = i" if "c \<in> set (?f cs)" for c using that by simp
    ultimately show False by (metis distinct_length_2_or_more list.map(2) list.set_intros(1,2) option.sel)
  qed
  moreover have "mset (?f cs) = mset (?f cs')" using assms(1) by simp
  ultimately show ?thesis by (rule short_mset[rotated])
qed

lemma pick_candidate_cong:
  assumes "mset cs = mset cs'" and "distinct (map oc_observation_id cs)"
  shows "pick_candidate mode cs as_of cycle effective explicit = pick_candidate mode cs' as_of cycle effective explicit"
proof -
  have f: "mset (filter P cs) = mset (filter P cs')" for P using assms(1) by simp
  have e: "filter P cs = [] \<longleftrightarrow> filter P cs' = []" for P using f[of P] by (metis mset_zero_iff_right mset.simps(1))
  have l: "latest_before cs b = latest_before cs' b" for b
    using sole_cong[OF newest_mset[OF f]] e by (simp add: latest_before_def Let_def)
  have s: "sole (filter P cs) = sole (filter P cs')" for P by (rule sole_cong[OF f])
  have n: "sole (newest oc_observed_at cs) = sole (newest oc_observed_at cs')"
    by (rule sole_cong[OF newest_mset[OF assms(1)]])
  show ?thesis
    by (cases mode) (simp_all only: pick_candidate_def observation_selection_mode.case l s n first_with_id[OF assms])
qed

lemma freshness_not_stale:
  "freshness_of now (Some m) observed \<noteq> STALE \<longleftrightarrow> now - observed \<le> m \<or> now < observed"
  by (auto simp: freshness_of_def Let_def)

lemma selection_sound:
  assumes "select_observation mode cs now as_of cycle effective explicit max_age require_fresh = Inr res"
  shows "sr_candidate res \<in> set cs \<and>
    eligible_by_mode mode cs as_of cycle effective explicit (sr_candidate res) \<and>
    sr_freshness_result res = freshness_of now max_age (oc_observed_at (sr_candidate res)) \<and>
    (require_fresh \<longrightarrow> (\<forall>m. max_age = Some m \<longrightarrow> now - oc_observed_at (sr_candidate res) \<le> m \<or>
       now < oc_observed_at (sr_candidate res)))"
proof -
  from assms obtain c where ne: "cs \<noteq> []" and c: "pick_candidate mode cs as_of cycle effective explicit = Inr c"
    and fresh: "\<not> (require_fresh \<and> freshness_of now max_age (oc_observed_at c) = STALE)"
    and res: "res = \<lparr>sr_candidate = c, sr_freshness_result = freshness_of now max_age (oc_observed_at c)\<rparr>"
    by (auto simp: select_observation_def rbind_eq_Inr Let_def split: if_splits)
  from pick_candidate_eligible[OF ne c] eligible_member fresh show ?thesis
    unfolding res using freshness_not_stale by auto
qed

lemma current_decision_iff:
  "resolve_current_decision ds now expires_at = Inr d \<longleftrightarrow>
     ds \<noteq> [] \<and> strictly_newest dc_created_at ds d \<and> dc_decision d = APPROVED \<and>
     (case expires_at of None \<Rightarrow> True | Some e \<Rightarrow> now < e)"
proof (cases "ds = []")
  case True
  then show ?thesis by (simp add: resolve_current_decision_def)
next
  case False
  have "dc_decision d = APPROVED \<longleftrightarrow> dc_decision d \<noteq> REVOKED \<and> dc_decision d \<noteq> REJECTED" for d
    by (cases "dc_decision d") auto
  then show ?thesis using False
    by (auto simp: resolve_current_decision_def newest_unique[OF False, symmetric]
        split: list.splits if_splits option.splits)
qed

section \<open>Properties\<close>

text \<open>selection is sound and never falls back. A selected Observation is one of the candidates, it
  is the one its mode singles out (the strictly newest inside the bound, the only one of the business
  cycle, the only consumed one, the named one), and where freshness is required and an age limit is
  configured it is not older than the limit.\<close>

theorem select_observation_sound:
  assumes "select_observation mode cs now as_of cycle effective explicit max_age require_fresh = Inr res"
  shows "sr_candidate res \<in> set cs \<and>
    eligible_by_mode mode cs as_of cycle effective explicit (sr_candidate res) \<and>
    sr_freshness_result res = freshness_of now max_age (oc_observed_at (sr_candidate res)) \<and>
    (require_fresh \<longrightarrow> (\<forall>m. max_age = Some m \<longrightarrow> now - oc_observed_at (sr_candidate res) \<le> m \<or>
       now < oc_observed_at (sr_candidate res)))"
  by (rule selection_sound[OF assms])

text \<open>selection does not depend on the order in which the candidates were loaded, provided their
  identifiers are distinct: same result, same error.\<close>

theorem select_observation_order_independent:
  assumes "mset cs = mset cs'" and "distinct (map oc_observation_id cs)"
  shows "select_observation mode cs now as_of cycle effective explicit max_age require_fresh =
    select_observation mode cs' now as_of cycle effective explicit max_age require_fresh"
proof -
  have "cs = [] \<longleftrightarrow> cs' = []" using assms(1) by auto
  then show ?thesis by (simp add: select_observation_def pick_candidate_cong[OF assms])
qed

text \<open>the decision on a manual input is current exactly when it is the strictly newest of its
  lineage, approves, and the input has not expired; so a later revocation or rejection always
  supersedes an approval, and a tie is refused.\<close>

theorem current_decision_exact:
  "resolve_current_decision ds now expires_at = Inr d \<longleftrightarrow>
     ds \<noteq> [] \<and> strictly_newest dc_created_at ds d \<and> dc_decision d = APPROVED \<and>
     (case expires_at of None \<Rightarrow> True | Some e \<Rightarrow> now < e)"
  by (rule current_decision_iff)

section \<open>Concrete runs\<close>

definition demo_candidate :: "string \<Rightarrow> instant \<Rightarrow> observation_candidate" where
  "demo_candidate i t = \<lparr>oc_observation_id = i, oc_checksum = ''c'', oc_observed_at = t,
     oc_business_cycle_identity = None, oc_is_legacy_consumed = False\<rparr>"

definition demo_candidates :: "observation_candidate list" where
  "demo_candidates = [demo_candidate ''a'' 10, demo_candidate ''b'' 30, demo_candidate ''c'' 20]"

lemma demo_selected:
  "select_observation LATEST_ELIGIBLE_AS_OF demo_candidates 35 (Some 25) None None None (Some 15) True =
     Inr \<lparr>sr_candidate = demo_candidate ''c'' 20, sr_freshness_result = FRESH\<rparr>"
  by code_simp

theorem select_observation_sound_witness:
  "strictly_newest oc_observed_at (filter (\<lambda>c. oc_observed_at c \<le> 25) demo_candidates) (demo_candidate ''c'' 20)"
  using select_observation_sound[OF demo_selected] by (simp add: eligible_by_mode_def)

theorem select_observation_order_independent_witness:
  "select_observation LATEST_ELIGIBLE_AS_OF (rev demo_candidates) 35 (Some 25) None None None (Some 15) True =
     Inr \<lparr>sr_candidate = demo_candidate ''c'' 20, sr_freshness_result = FRESH\<rparr>"
  unfolding demo_selected[symmetric]
  by (rule select_observation_order_independent) (simp_all add: demo_candidates_def demo_candidate_def)

end
