(* ===== verification/FrozenPackages.thy ===== *)
theory FrozenPackages
  imports EvidenceSelection
begin

text \<open>
  Frozen Evaluation Packages (\<^verbatim>\<open>app/flowhub/pricing_evaluation/service.py\<close>, \<^verbatim>\<open>fingerprint.py\<close>,
  \<^verbatim>\<open>models.py\<close>): one call pins an Observation per Source and a decision per manual input, evaluates
  the derived values in topological order, records the override, and stores all of it as one
  immutable unit, or raises and stores nothing.

  SHA-256, \<^verbatim>\<open>json.dumps\<close>, \<^verbatim>\<open>uuid4\<close> and \<^verbatim>\<open>isoformat\<close> are parameters; the i-th identifier a call draws is
  \<^verbatim>\<open>pe_uuid env i\<close>. A violated uniqueness constraint or an integer outside the column's 64 bits is
  \<^verbatim>\<open>Integrity_error\<close>, raised by the flush that meets it.
\<close>

section \<open>Rows\<close>

datatype manual_input_kind = REFERENCE_PRICE | PRICING_FACTOR | PRICE_OVERRIDE | PRICING_ADJUSTMENT
  | MANUAL_METADATA

record manual_input_revision =
  mr_id :: string
  mr_kind :: manual_input_kind
  mr_channel_id :: "string option"
  mr_product_ref :: "string option"
  mr_currency :: "string option"
  mr_unit :: "string option"
  mr_expires_at :: "instant option"

record manual_input_decision =
  md_id :: string
  md_manual_input_revision_id :: string
  md_decision :: manual_input_decision_kind
  md_created_at :: instant

record source_pin =
  sp_id :: string
  sp_package_id :: string
  sp_source_role :: string
  sp_source_id :: string
  sp_binding_revision_id :: string
  sp_observation_id :: string
  sp_observation_checksum :: string
  sp_observed_at :: instant
  sp_selection_mode :: observation_selection_mode
  sp_selection_policy_version :: "string option"
  sp_as_of :: "instant option"
  sp_business_effective_date :: "instant option"
  sp_business_cycle_identity :: "string option"
  sp_freshness_result :: freshness_result
  sp_cross_source_skew_result :: skew_result
  sp_schema_unit_context :: json_dict

record manual_pin =
  mp_id :: string
  mp_package_id :: string
  mp_manual_input_revision_id :: string
  mp_manual_input_decision_id :: string

datatype effective_output_source = CALCULATED_CANDIDATE | OVERRIDE_VALUE

record price_override =
  po_id :: string
  po_package_id :: string
  po_calculated_candidate :: rat
  po_override_value :: "rat option"
  po_override_decision_id :: "string option"
  po_effective_output :: rat
  po_effective_output_source :: effective_output_source

record derived_definition =
  vd_id :: string
  vd_operator :: derived_operator
  vd_parameters :: json_dict
  vd_dependency_refs :: json
  vd_checksum :: string

record derived_evaluation =
  ve_id :: string
  ve_package_id :: string
  ve_definition_id :: string
  ve_evaluation_order :: nat
  ve_result :: rat
  ve_inputs_snapshot :: json_dict
  ve_checksum :: string

record frozen_package =
  fp_id :: string
  fp_workspace_id :: "string option"
  fp_channel_id :: string
  fp_product_ref :: string
  fp_evaluated_at :: instant
  fp_pricing_policy_revision_id :: "string option"
  fp_formula_shape_id :: string
  fp_translator_version :: string
  fp_fx_snapshot_id :: "string option"
  fp_currency_unit_registry_version :: string
  fp_channel_config_revision_id :: "string option"
  fp_mapping_revision_id :: "string option"
  fp_product_metadata_fingerprint :: "string option"
  fp_arithmetic_version :: string
  fp_dependency_fingerprint :: string
  fp_checksum :: string
  fp_created_by_user_id :: "int option"

record package_db =
  pk_channels :: "string list"
  pk_manual_revisions :: "manual_input_revision list"
  pk_manual_decisions :: "manual_input_decision list"
  pk_definitions :: "derived_definition list"
  pk_source_pins :: "source_pin list"
  pk_manual_pins :: "manual_pin list"
  pk_evaluations :: "derived_evaluation list"
  pk_overrides :: "price_override list"
  pk_packages :: "frozen_package list"

section \<open>Requests\<close>

record source_requirement =
  rq_source_role :: string
  rq_source_id :: string
  rq_mode :: observation_selection_mode
  rq_candidates :: "observation_candidate list"
  rq_value :: rat
  rq_binding_revision_id :: "string option"
  rq_as_of :: "instant option"
  rq_business_cycle_identity :: "string option"
  rq_business_effective_date :: "instant option"
  rq_explicit_observation_id :: "string option"
  rq_freshness_max_age :: "duration option"
  rq_require_fresh :: bool
  rq_selection_policy_version :: "string option"
  rq_schema_unit_context :: json_dict

record source_binding_context =
  sb_currency :: string
  sb_unit :: string
  sb_scale_numerator :: int
  sb_scale_denominator :: int

record manual_input_requirement =
  ir_manual_input_revision_id :: string
  ir_key :: string
  ir_value :: rat

record override_request =
  or_override_value :: rat
  or_manual_input_decision_id :: string

record package_request =
  pr_channel_id :: string
  pr_product_ref :: string
  pr_workspace_id :: "string option"
  pr_evaluated_at :: instant
  pr_formula_shape_id :: string
  pr_translator_version :: string
  pr_pricing_policy_revision_id :: "string option"
  pr_currency_unit_registry_version :: string
  pr_fx_snapshot_id :: "string option"
  pr_channel_config_revision_id :: "string option"
  pr_mapping_revision_id :: "string option"
  pr_product_metadata_fingerprint :: "string option"
  pr_source_requirements :: "source_requirement list"
  pr_manual_input_requirements :: "manual_input_requirement list"
  pr_skew_tolerance :: "duration option"
  pr_derived_definitions :: "definition_draft list"
  pr_calculated_candidate :: "rat option"
  pr_override :: "override_request option"
  pr_created_by_user_id :: "int option"

record package_env =
  pe_sha256 :: "string \<Rightarrow> string"
  pe_dumps :: "json \<Rightarrow> string"
  pe_isoformat :: "instant \<Rightarrow> string"
  pe_uuid :: "nat \<Rightarrow> string"

definition checksum :: "package_env \<Rightarrow> json \<Rightarrow> string" where
  "checksum env v = pe_sha256 env (pe_dumps env v)"

section \<open>Binding context\<close>

definition coerce_non_empty_str :: "json \<Rightarrow> string \<Rightarrow> evaluation_error + string" where
  "coerce_non_empty_str v reason = (case v of
     JStr s \<Rightarrow> if py_strip s = [] then dependency_failure reason else Inr (py_strip s)
   | _ \<Rightarrow> dependency_failure reason)"

definition coerce_positive_int :: "json \<Rightarrow> string \<Rightarrow> evaluation_error + int" where
  "coerce_positive_int v reason = (case v of
     JInt i \<Rightarrow> if i \<le> 0 then dependency_failure reason else Inr i
   | _ \<Rightarrow> dependency_failure reason)"

definition extract_source_binding_context :: "json_dict \<Rightarrow> evaluation_error + source_binding_context" where
  "extract_source_binding_context ctx =
     rbind (coerce_non_empty_str (jget ''currency'' ctx) ''source_currency_unresolved'') (\<lambda>currency.
     rbind (coerce_non_empty_str (jget ''unit'' ctx) ''source_unit_unresolved'') (\<lambda>unit.
     case jget ''scale'' ctx of
       JObj scale \<Rightarrow>
         rbind (coerce_positive_int (jget ''numerator'' scale) ''source_scale_unresolved'') (\<lambda>n.
         rbind (coerce_positive_int (jget ''denominator'' scale) ''source_scale_unresolved'') (\<lambda>d.
         Inr \<lparr>sb_currency = py_upper currency, sb_unit = py_upper unit, sb_scale_numerator = n,
           sb_scale_denominator = d\<rparr>))
     | _ \<Rightarrow> dependency_failure ''source_scale_unresolved''))"

section \<open>Pinned Sources and manual inputs\<close>

type_synonym selected_source = "source_requirement \<times> selection_result \<times> source_binding_context"

definition select_requirement :: "instant \<Rightarrow> source_requirement \<Rightarrow> evaluation_error + selected_source" where
  "select_requirement now r =
     rbind (extract_source_binding_context (rq_schema_unit_context r)) (\<lambda>ctx.
     if rq_binding_revision_id r = None then dependency_failure ''source_binding_revision_missing'' else
     rbind (select_observation (rq_mode r) (rq_candidates r) now (rq_as_of r) (rq_business_cycle_identity r)
         (rq_business_effective_date r) (rq_explicit_observation_id r) (rq_freshness_max_age r)
         (rq_require_fresh r)) (\<lambda>res. Inr (r, res, ctx)))"

fun select_sources :: "instant \<Rightarrow> string list \<Rightarrow> source_requirement list \<Rightarrow> evaluation_error + selected_source list" where
  "select_sources now seen [] = Inr []"
| "select_sources now seen (r # rs) =
     (if rq_source_role r \<in> set seen then dependency_failure ''source_role_duplicate'' else
      rbind (select_requirement now r) (\<lambda>s.
      rbind (select_sources now (rq_source_role r # seen) rs) (\<lambda>ss. Inr (s # ss))))"

definition observed_at_by_role :: "selected_source list \<Rightarrow> (string, instant) dict" where
  "observed_at_by_role ss = map (\<lambda>(r, res, _). (rq_source_role r, oc_observed_at (sr_candidate res))) ss"

definition resolve_manual_input ::
  "package_db \<Rightarrow> string \<Rightarrow> instant \<Rightarrow> evaluation_error + manual_input_decision" where
  "resolve_manual_input db rid now = (case get_row mr_id rid (pk_manual_revisions db) of
     None \<Rightarrow> dependency_failure ''manual_input_missing''
   | Some revision \<Rightarrow>
       rbind (resolve_current_decision
           (map (\<lambda>d. \<lparr>dc_id = md_id d, dc_decision = md_decision d, dc_created_at = md_created_at d\<rparr>)
             (filter (\<lambda>d. md_manual_input_revision_id d = rid) (pk_manual_decisions db)))
           now (mr_expires_at revision)) (\<lambda>current.
       case get_row md_id (dc_id current) (pk_manual_decisions db) of
         None \<Rightarrow> Inl Key_error | Some row \<Rightarrow> Inr row))"

definition scope_ok :: "string \<Rightarrow> string \<Rightarrow> manual_input_revision \<Rightarrow> bool" where
  "scope_ok channel product r \<longleftrightarrow>
     \<not> (mr_kind r = MANUAL_METADATA \<and> (mr_currency r = None \<or> mr_unit r = None)) \<and>
     (mr_channel_id r = None \<or> mr_channel_id r = Some channel) \<and>
     (mr_product_ref r = None \<or> mr_product_ref r = Some product)"

fun pin_manual_inputs :: "package_db \<Rightarrow> string \<Rightarrow> string \<Rightarrow> instant \<Rightarrow> string list \<Rightarrow> manual_input_requirement list
    \<Rightarrow> evaluation_error + (manual_input_requirement \<times> manual_input_decision) list" where
  "pin_manual_inputs db channel product now keys [] = Inr []"
| "pin_manual_inputs db channel product now keys (q # qs) =
     (if ir_key q \<in> set keys then dependency_failure ''manual_input_key_duplicate''
      else case get_row mr_id (ir_manual_input_revision_id q) (pk_manual_revisions db) of
        None \<Rightarrow> dependency_failure ''manual_input_missing''
      | Some revision \<Rightarrow>
          if \<not> scope_ok channel product revision then dependency_failure ''manual_input_scope_mismatch'' else
          rbind (resolve_manual_input db (ir_manual_input_revision_id q) now) (\<lambda>d.
          rbind (pin_manual_inputs db channel product now (ir_key q # keys) qs) (\<lambda>ps. Inr ((q, d) # ps))))"

section \<open>Derived values\<close>

record evaluation_state =
  es_definition_ids :: "string \<rightharpoonup> string"
  es_values :: "string \<rightharpoonup> rat"
  es_definitions :: "derived_definition list"
  es_rows :: "derived_evaluation list"
  es_next :: nat

fun ref_kind_value :: "dependency_ref_kind \<Rightarrow> string" where
  "ref_kind_value Observation = ''observation''"
| "ref_kind_value Manual_input = ''manual_input''"
| "ref_kind_value Derived = ''derived''"

fun operator_value :: "derived_operator \<Rightarrow> string" where
  "operator_value ADD_CONSTANT = ''add_constant''"
| "operator_value MULTIPLY_PERCENT = ''multiply_percent''"
| "operator_value FLOOR_TO_STEP = ''floor_to_step''"
| "operator_value ROUND_UP_TO_STEP = ''round_up_to_step''"
| "operator_value MIN_NONZERO_SELECTION = ''min_nonzero_selection''"
| "operator_value MULTIPLY_CONSTANT = ''multiply_constant''"
| "operator_value DIVIDE_CONSTANT = ''divide_constant''"

definition fraction_str :: "rat \<Rightarrow> string" where
  "fraction_str v = (let (n, d) = quotient_of v in
     if d = 1 then show_int n else show_int n @ ''/'' @ show_int d)"

definition resolve_ref :: "evaluation_state \<Rightarrow> dependency_ref \<Rightarrow> evaluation_error + json \<times> rat" where
  "resolve_ref st r =
     (let found = (\<lambda>k. JObj [(''kind'', JStr (ref_kind_value (dr_kind r))), (''key'', JStr k)]) in
      if dr_kind r = Derived
      then (case (es_definition_ids st (dr_key r), es_values st (dr_key r)) of
          (Some i, Some v) \<Rightarrow> Inr (found i, v) | _ \<Rightarrow> Inl Key_error)
      else (case es_values st (dr_key r) of
          None \<Rightarrow> Inl (Derived_error ''derived_dependency_missing'') | Some v \<Rightarrow> Inr (found (dr_key r), v)))"

text \<open>The stored definition with the checksum, or a new row, whose flush also writes the pending pins.\<close>

definition intern_definition :: "package_env \<Rightarrow> bool \<Rightarrow> definition_draft \<Rightarrow> json \<Rightarrow> evaluation_state
    \<Rightarrow> evaluation_error + string \<times> evaluation_state" where
  "intern_definition env pins_ok draft refs st =
     (let sum = checksum env (JObj [(''operator'', JStr (operator_value (dd_operator draft))),
            (''parameters'', JObj (dd_parameters draft)), (''dependency_refs'', refs)])
      in case get_row vd_checksum sum (es_definitions st) of
           Some d \<Rightarrow> Inr (vd_id d, st)
         | None \<Rightarrow> if \<not> pins_ok then Inl (Integrity_error ''uq_pev_manual_pin_package_revision'') else
             let i = pe_uuid env (es_next st) in Inr (i, st\<lparr>es_definitions := es_definitions st @
               [\<lparr>vd_id = i, vd_operator = dd_operator draft, vd_parameters = dd_parameters draft,
                 vd_dependency_refs = refs, vd_checksum = sum\<rparr>], es_next := es_next st + 1\<rparr>))"

definition evaluation_row :: "package_env \<Rightarrow> string \<Rightarrow> string \<Rightarrow> nat \<Rightarrow> json \<Rightarrow> rat list \<Rightarrow> rat \<Rightarrow> nat
    \<Rightarrow> derived_evaluation" where
  "evaluation_row env package_id definition_id index refs inputs result next =
     (let values = JList (map (JStr \<circ> fraction_str) inputs) in
      \<lparr>ve_id = pe_uuid env next, ve_package_id = package_id, ve_definition_id = definition_id,
       ve_evaluation_order = index, ve_result = result,
       ve_inputs_snapshot = [(''refs'', refs), (''values'', values)],
       ve_checksum = checksum env (JObj [(''package_id'', JStr package_id),
         (''definition_id'', JStr definition_id), (''inputs'', values), (''result'', JStr (fraction_str result))])\<rparr>)"

definition evaluate_definition :: "package_env \<Rightarrow> string \<Rightarrow> bool \<Rightarrow> drafts \<Rightarrow> nat \<Rightarrow> string \<Rightarrow> evaluation_state
    \<Rightarrow> evaluation_error + evaluation_state" where
  "evaluate_definition env package_id pins_ok defs index key st = (case map_of defs key of
     None \<Rightarrow> Inl Key_error
   | Some draft \<Rightarrow>
       rbind (rmap (resolve_ref st) (dd_dependencies draft)) (\<lambda>inputs.
       let refs = JList (map fst inputs) in
       rbind (intern_definition env pins_ok draft refs st) (\<lambda>(i, st1).
       rbind (evaluate_operator (dd_operator draft) (dd_parameters draft) (map snd inputs)) (\<lambda>v.
       Inr (st1\<lparr>es_definition_ids := (es_definition_ids st1)(key \<mapsto> i), es_values := (es_values st1)(key \<mapsto> v),
         es_rows := es_rows st1 @ [evaluation_row env package_id i index refs (map snd inputs) v (es_next st1)],
         es_next := es_next st1 + 1\<rparr>)))))"

fun evaluate_all :: "package_env \<Rightarrow> string \<Rightarrow> bool \<Rightarrow> drafts \<Rightarrow> nat \<Rightarrow> string list \<Rightarrow> evaluation_state
    \<Rightarrow> evaluation_error + evaluation_state" where
  "evaluate_all env pid pins_ok defs index [] st = Inr st"
| "evaluate_all env pid pins_ok defs index (k # ks) st =
     rbind (evaluate_definition env pid pins_ok defs index k st)
       (evaluate_all env pid pins_ok defs (index + 1) ks)"

section \<open>Fingerprint and checksum\<close>

definition opt_json :: "string option \<Rightarrow> json" where
  "opt_json v = (case v of None \<Rightarrow> JNull | Some s \<Rightarrow> JStr s)"

definition arithmetic_version :: string where
  "arithmetic_version = ''pricing-evaluation-arithmetic-v1''"

type_synonym manual_tuple = "string \<times> string \<times> string \<times> int \<times> int"

definition source_tuple :: "nat \<times> selected_source \<Rightarrow> json" where
  "source_tuple = (\<lambda>(position, r, res, ctx). JList [JInt (int position), JStr (rq_source_role r),
     JStr (rq_source_id r), opt_json (rq_binding_revision_id r),
     JStr (oc_observation_id (sr_candidate res)), JStr (oc_checksum (sr_candidate res)),
     JStr (sb_currency ctx), JStr (sb_unit ctx), JInt (sb_scale_numerator ctx), JInt (sb_scale_denominator ctx)])"

definition manual_tuple :: "manual_input_requirement \<times> manual_input_decision \<Rightarrow> manual_tuple" where
  "manual_tuple = (\<lambda>(q, d). (ir_manual_input_revision_id q, md_id d, ir_key q,
     fst (quotient_of (ir_value q)), snd (quotient_of (ir_value q))))"

definition manual_tuple_json :: "manual_tuple \<Rightarrow> json" where
  "manual_tuple_json = (\<lambda>(r, d, k, n, m). JList [JStr r, JStr d, JStr k, JInt n, JInt m])"

definition compute_dependency_fingerprint :: "package_env \<Rightarrow> package_request \<Rightarrow> selected_source list
    \<Rightarrow> manual_tuple list \<Rightarrow> string list \<Rightarrow> string" where
  "compute_dependency_fingerprint env rq ss ms definition_ids = checksum env (JObj [
     (''channel_id'', JStr (pr_channel_id rq)), (''product_ref'', JStr (pr_product_ref rq)),
     (''formula_shape_id'', JStr (pr_formula_shape_id rq)),
     (''translator_version'', JStr (pr_translator_version rq)),
     (''fx_snapshot_id'', opt_json (pr_fx_snapshot_id rq)),
     (''currency_unit_registry_version'', JStr (pr_currency_unit_registry_version rq)),
     (''channel_config_revision_id'', opt_json (pr_channel_config_revision_id rq)),
     (''mapping_revision_id'', opt_json (pr_mapping_revision_id rq)),
     (''product_metadata_fingerprint'', opt_json (pr_product_metadata_fingerprint rq)),
     (''arithmetic_version'', JStr arithmetic_version),
     (''pricing_policy_revision_id'', opt_json (pr_pricing_policy_revision_id rq)),
     (''source_pins'', JList (map source_tuple (enumerate 0 ss))),
     (''manual_input_pins'', JList (map manual_tuple_json (sort ms))),
     (''derived_definition_ids'', JList (map JStr (sort definition_ids)))])"

definition compute_package_checksum :: "package_env \<Rightarrow> package_request \<Rightarrow> string \<Rightarrow> string" where
  "compute_package_checksum env rq fingerprint = checksum env (JObj [
     (''channel_id'', JStr (pr_channel_id rq)), (''product_ref'', JStr (pr_product_ref rq)),
     (''workspace_id'', opt_json (pr_workspace_id rq)),
     (''workspace_pricing_evaluated_at'', JStr (pe_isoformat env (pr_evaluated_at rq))),
     (''dependency_fingerprint'', JStr fingerprint)])"

section \<open>Construction\<close>

record package_result =
  pkr_package :: frozen_package
  pkr_source_pins :: "source_pin list"
  pkr_manual_pins :: "manual_pin list"
  pkr_evaluations :: "derived_evaluation list"
  pkr_override :: "price_override option"

definition source_pin_row :: "package_env \<Rightarrow> string \<Rightarrow> skew_result \<Rightarrow> nat \<times> selected_source \<Rightarrow> source_pin" where
  "source_pin_row env package_id skew = (\<lambda>(n, r, res, ctx). \<lparr>sp_id = pe_uuid env n, sp_package_id = package_id,
     sp_source_role = rq_source_role r, sp_source_id = rq_source_id r,
     sp_binding_revision_id = (case rq_binding_revision_id r of None \<Rightarrow> [] | Some b \<Rightarrow> b),
     sp_observation_id = oc_observation_id (sr_candidate res),
     sp_observation_checksum = oc_checksum (sr_candidate res),
     sp_observed_at = oc_observed_at (sr_candidate res), sp_selection_mode = rq_mode r,
     sp_selection_policy_version = rq_selection_policy_version r, sp_as_of = rq_as_of r,
     sp_business_effective_date = rq_business_effective_date r,
     sp_business_cycle_identity = oc_business_cycle_identity (sr_candidate res),
     sp_freshness_result = sr_freshness_result res, sp_cross_source_skew_result = skew,
     sp_schema_unit_context = rq_schema_unit_context r\<rparr>)"

definition manual_pin_row :: "package_env \<Rightarrow> string \<Rightarrow> nat \<times> manual_input_requirement \<times> manual_input_decision
    \<Rightarrow> manual_pin" where
  "manual_pin_row env package_id = (\<lambda>(n, q, d). \<lparr>mp_id = pe_uuid env n, mp_package_id = package_id,
     mp_manual_input_revision_id = ir_manual_input_revision_id q, mp_manual_input_decision_id = md_id d\<rparr>)"

definition override_row :: "package_env \<Rightarrow> string \<Rightarrow> nat \<Rightarrow> rat option \<Rightarrow> override_request option
    \<Rightarrow> price_override option" where
  "override_row env package_id n candidate override = (case candidate of None \<Rightarrow> None
     | Some c \<Rightarrow> Some (case override of
         Some ov \<Rightarrow> \<lparr>po_id = pe_uuid env n, po_package_id = package_id, po_calculated_candidate = c,
           po_override_value = Some (or_override_value ov),
           po_override_decision_id = Some (or_manual_input_decision_id ov),
           po_effective_output = or_override_value ov, po_effective_output_source = OVERRIDE_VALUE\<rparr>
       | None \<Rightarrow> \<lparr>po_id = pe_uuid env n, po_package_id = package_id, po_calculated_candidate = c,
           po_override_value = None, po_override_decision_id = None, po_effective_output = c,
           po_effective_output_source = CALCULATED_CANDIDATE\<rparr>))"

definition drafts_of :: "definition_draft list \<Rightarrow> drafts" where
  "drafts_of ds = foldl (\<lambda>m d. AList.update (dd_definition_key d) d m) [] ds"

text \<open>The leaves: a manual input replaces a Source whose role is its key.\<close>

definition leaf_values :: "selected_source list \<Rightarrow> (manual_input_requirement \<times> manual_input_decision) list
    \<Rightarrow> string \<rightharpoonup> rat" where
  "leaf_values ss ms = map_of (map (\<lambda>(r, _). (rq_source_role r, rq_value r)) ss) ++
     map_of (map (\<lambda>(q, _). (ir_key q, ir_value q)) ms)"

definition fits_bigint :: "rat \<Rightarrow> bool" where
  "fits_bigint v \<longleftrightarrow> (let (n, d) = quotient_of v in
     - 9223372036854775808 \<le> n \<and> n \<le> 9223372036854775807 \<and> d \<le> 9223372036854775807)"

definition flush_ok :: "bool \<Rightarrow> derived_evaluation list \<Rightarrow> price_override option \<Rightarrow> bool" where
  "flush_ok pins_ok evals override \<longleftrightarrow> pins_ok \<and> distinct (map ve_definition_id evals) \<and>
     list_all (fits_bigint \<circ> ve_result) evals \<and>
     (case override of None \<Rightarrow> True | Some ov \<Rightarrow> fits_bigint (po_calculated_candidate ov) \<and>
        fits_bigint (po_effective_output ov))"

definition package_row :: "package_env \<Rightarrow> package_request \<Rightarrow> string \<Rightarrow> string \<Rightarrow> frozen_package" where
  "package_row env rq package_id fingerprint = \<lparr>fp_id = package_id, fp_workspace_id = pr_workspace_id rq,
     fp_channel_id = pr_channel_id rq, fp_product_ref = pr_product_ref rq, fp_evaluated_at = pr_evaluated_at rq,
     fp_pricing_policy_revision_id = pr_pricing_policy_revision_id rq,
     fp_formula_shape_id = pr_formula_shape_id rq, fp_translator_version = pr_translator_version rq,
     fp_fx_snapshot_id = pr_fx_snapshot_id rq,
     fp_currency_unit_registry_version = pr_currency_unit_registry_version rq,
     fp_channel_config_revision_id = pr_channel_config_revision_id rq,
     fp_mapping_revision_id = pr_mapping_revision_id rq,
     fp_product_metadata_fingerprint = pr_product_metadata_fingerprint rq,
     fp_arithmetic_version = arithmetic_version, fp_dependency_fingerprint = fingerprint,
     fp_checksum = compute_package_checksum env rq fingerprint,
     fp_created_by_user_id = pr_created_by_user_id rq\<rparr>"

definition definition_ids :: "evaluation_state \<Rightarrow> string list \<Rightarrow> string list" where
  "definition_ids st order = List.map_filter (es_definition_ids st) order"

definition evaluate_request :: "package_env \<Rightarrow> package_request \<Rightarrow> selected_source list
    \<Rightarrow> (manual_input_requirement \<times> manual_input_decision) list \<Rightarrow> bool \<Rightarrow> package_db
    \<Rightarrow> evaluation_error + string list \<times> evaluation_state" where
  "evaluate_request env rq ss ms pins_ok db =
     (let defs = drafts_of (pr_derived_definitions rq) in
      rbind (validate_dag defs) (\<lambda>_.
      rbind (topological_order defs) (\<lambda>order.
      rbind (evaluate_all env (pe_uuid env 0) pins_ok defs 0 order
          \<lparr>es_definition_ids = Map.empty, es_values = leaf_values ss ms, es_definitions = pk_definitions db,
           es_rows = [], es_next = 1 + length ss + length ms\<rparr>) (\<lambda>st. Inr (order, st)))))"

definition store_package :: "package_env \<Rightarrow> package_request \<Rightarrow> skew_result \<Rightarrow> selected_source list
    \<Rightarrow> (manual_input_requirement \<times> manual_input_decision) list \<Rightarrow> package_db
    \<Rightarrow> evaluation_error + package_result \<times> package_db" where
  "store_package env rq skew ss ms db =
     (let pid = pe_uuid env 0;
          pins_ok = distinct (map (ir_manual_input_revision_id \<circ> fst) ms)
      in rbind (evaluate_request env rq ss ms pins_ok db) (\<lambda>(order, st).
         let source_pins = map (source_pin_row env pid skew) (enumerate 1 ss);
             manual_pins = map (manual_pin_row env pid) (enumerate (1 + length ss) ms);
             override = override_row env pid (es_next st) (pr_calculated_candidate rq) (pr_override rq);
             package = package_row env rq pid
               (compute_dependency_fingerprint env rq ss (map manual_tuple ms) (definition_ids st order))
         in if \<not> flush_ok pins_ok (es_rows st) override then Inl (Integrity_error ''flush'') else
            Inr (\<lparr>pkr_package = package, pkr_source_pins = source_pins, pkr_manual_pins = manual_pins,
                   pkr_evaluations = es_rows st, pkr_override = override\<rparr>,
                 db\<lparr>pk_definitions := es_definitions st, pk_source_pins := pk_source_pins db @ source_pins,
                    pk_manual_pins := pk_manual_pins db @ manual_pins,
                    pk_evaluations := pk_evaluations db @ es_rows st,
                    pk_overrides := pk_overrides db @ (case override of None \<Rightarrow> [] | Some ov \<Rightarrow> [ov]),
                    pk_packages := pk_packages db @ [package]\<rparr>)))"

definition create_package :: "package_env \<Rightarrow> package_request \<Rightarrow> instant \<Rightarrow> package_db
    \<Rightarrow> evaluation_error + package_result \<times> package_db" where
  "create_package env rq now db =
     (if pr_channel_id rq \<notin> set (pk_channels db)
      then dependency_failure ''pricing_evaluation_channel_not_found'' else
      rbind (select_sources now [] (pr_source_requirements rq)) (\<lambda>ss.
      let skew = evaluate_cross_source_skew (observed_at_by_role ss) (pr_skew_tolerance rq) in
      if skew = VIOLATION then dependency_failure ''cross_source_skew_violation'' else
      rbind (pin_manual_inputs db (pr_channel_id rq) (pr_product_ref rq) now []
          (pr_manual_input_requirements rq)) (\<lambda>ms.
      store_package env rq skew ss ms db)))"

end
