(* ===== verification/PackageSafety.thy ===== *)
theory PackageSafety
  imports FrozenPackages
begin

text \<open>
  What a Frozen Evaluation Package guarantees: its derived values are those of the definitions read
  as a recursive expression, its pins satisfy the selection rules, and the evidence tables stay
  closed under any sequence of calls.
\<close>

section \<open>The reference meaning of a derived value\<close>

lemma rmap_cong: "(\<And>x. x \<in> set xs \<Longrightarrow> f x = g x) \<Longrightarrow> rmap f xs = rmap g xs"
  by (induction xs) auto

lemma rmap_transfer:
  "rmap f xs = Inr ys \<Longrightarrow> (\<And>x y. x \<in> set xs \<Longrightarrow> f x = Inr y \<Longrightarrow> g x = Inr (h y)) \<Longrightarrow>
     rmap g xs = Inr (map h ys)"
  by (induction xs arbitrary: ys) (auto simp: rbind_eq_Inr)

definition leaf_input :: "(string \<rightharpoonup> rat) \<Rightarrow> string \<Rightarrow> evaluation_error + rat" where
  "leaf_input leaf k = (case leaf k of None \<Rightarrow> Inl (Derived_error ''derived_dependency_missing'')
     | Some v \<Rightarrow> Inr v)"

fun denote :: "nat \<Rightarrow> drafts \<Rightarrow> (string \<rightharpoonup> rat) \<Rightarrow> string \<Rightarrow> evaluation_error + rat" where
  "denote 0 defs leaf k = Inl Recursion_error"
| "denote (Suc n) defs leaf k = (case map_of defs k of None \<Rightarrow> Inl Key_error
     | Some d \<Rightarrow> rbind (rmap (\<lambda>r. if dr_kind r = Derived then denote n defs leaf (dr_key r)
           else leaf_input leaf (dr_key r)) (dd_dependencies d))
         (evaluate_operator (dd_operator d) (dd_parameters d)))"

lemma denote_mono: "chain_within defs m k \<Longrightarrow> m \<le> n \<Longrightarrow> denote n defs leaf k = denote m defs leaf k"
proof (induction m arbitrary: k n)
  case 0
  then show ?case by simp
next
  case (Suc m)
  then obtain n' where n: "n = Suc n'" "m \<le> n'" by (cases n) auto
  from Suc.prems(1) obtain d where d: "map_of defs k = Some d" by (auto simp: chain_within_Suc)
  have "rmap (\<lambda>r. if dr_kind r = Derived then denote n' defs leaf (dr_key r) else leaf_input leaf (dr_key r)) (dd_dependencies d)
      = rmap (\<lambda>r. if dr_kind r = Derived then denote m defs leaf (dr_key r) else leaf_input leaf (dr_key r)) (dd_dependencies d)"
  proof (rule rmap_cong)
    fix r
    assume "r \<in> set (dd_dependencies d)"
    then have "chain_within defs m (dr_key r)" if "dr_kind r = Derived"
      using Suc.prems(1) that depends_refs[OF d] by (auto simp: chain_within_Suc)
    then show "(if dr_kind r = Derived then denote n' defs leaf (dr_key r) else leaf_input leaf (dr_key r)) =
        (if dr_kind r = Derived then denote m defs leaf (dr_key r) else leaf_input leaf (dr_key r))"
      using Suc.IH[OF _ n(2)] by simp
  qed
  then show ?case by (simp only: n(1) denote.simps d option.case)
qed

section \<open>Evaluation in topological order\<close>

text \<open>After the definitions \<^verbatim>\<open>done\<close> have been evaluated, the table of values is the leaves extended by
  their meanings.\<close>

definition values_of :: "drafts \<Rightarrow> (string \<rightharpoonup> rat) \<Rightarrow> string set \<Rightarrow> evaluation_state \<Rightarrow> bool" where
  "values_of defs leaf finished st \<longleftrightarrow>
     (\<forall>k. if k \<in> finished then \<exists>v. es_values st k = Some v \<and> denote DERIVED_MAX_DEPTH defs leaf k = Inr v
          else es_values st k = leaf k)"

lemma intern_keeps:
  "intern_definition env ok draft refs st = Inr (i, st1) \<Longrightarrow>
     es_values st1 = es_values st \<and> es_rows st1 = es_rows st \<and> es_definition_ids st1 = es_definition_ids st"
  by (auto simp: intern_definition_def Let_def split: option.splits if_splits)

lemma evaluate_definition_Inr:
  assumes "evaluate_definition env pid ok defs index k st = Inr st'"
  obtains draft inputs i st1 v where "map_of defs k = Some draft"
    "rmap (resolve_ref st) (dd_dependencies draft) = Inr inputs"
    "intern_definition env ok draft (JList (map fst inputs)) st = Inr (i, st1)"
    "evaluate_operator (dd_operator draft) (dd_parameters draft) (map snd inputs) = Inr v"
    "es_values st' = (es_values st)(k \<mapsto> v)" "es_definition_ids st' = (es_definition_ids st)(k \<mapsto> i)"
    "es_definitions st' = es_definitions st1"
    "\<exists>row. es_rows st' = es_rows st @ [row] \<and> ve_result row = v \<and> ve_definition_id row = i \<and> ve_package_id row = pid"
proof -
  from assms obtain draft where d: "map_of defs k = Some draft"
    by (auto simp: evaluate_definition_def split: option.splits)
  with assms obtain inputs where inputs: "rmap (resolve_ref st) (dd_dependencies draft) = Inr inputs"
    by (auto simp: evaluate_definition_def rbind_eq_Inr Let_def)
  with d assms obtain i st1 where i: "intern_definition env ok draft (JList (map fst inputs)) st = Inr (i, st1)"
    by (auto simp: evaluate_definition_def rbind_eq_Inr Let_def)
  with d inputs assms obtain v where v: "evaluate_operator (dd_operator draft) (dd_parameters draft) (map snd inputs) = Inr v"
    by (auto simp: evaluate_definition_def rbind_eq_Inr Let_def)
  have st': "st' = st1\<lparr>es_definition_ids := (es_definition_ids st1)(k \<mapsto> i), es_values := (es_values st1)(k \<mapsto> v),
       es_rows := es_rows st1 @ [evaluation_row env pid i index (JList (map fst inputs)) (map snd inputs) v (es_next st1)],
       es_next := es_next st1 + 1\<rparr>"
    using assms by (simp add: evaluate_definition_def d inputs i v Let_def)
  show ?thesis
    by (rule that[OF d inputs i v])
      (use intern_keeps[OF i] in \<open>simp_all add: st' evaluation_row_def Let_def\<close>)
qed

text \<open>No reference to a Source or a manual input carries the key of a derived definition.\<close>

definition refs_separate :: "drafts \<Rightarrow> bool" where
  "refs_separate defs \<longleftrightarrow> (\<forall>k d r. map_of defs k = Some d \<longrightarrow> r \<in> set (dd_dependencies d) \<longrightarrow>
     dr_kind r \<noteq> Derived \<longrightarrow> map_of defs (dr_key r) = None)"

lemma resolve_meaning:
  assumes "values_of defs leaf finished st" "finished \<subseteq> dom (map_of defs)" "resolve_ref st r = Inr y"
    "dr_kind r = Derived \<Longrightarrow> dr_key r \<in> finished" "dr_kind r \<noteq> Derived \<Longrightarrow> map_of defs (dr_key r) = None"
  shows "(if dr_kind r = Derived then denote DERIVED_MAX_DEPTH defs leaf (dr_key r)
    else leaf_input leaf (dr_key r)) = Inr (snd y)"
proof -
  have v: "es_values st (dr_key r) = Some (snd y)"
    using assms(3) by (auto simp: resolve_ref_def Let_def split: if_splits option.splits)
  have "if dr_key r \<in> finished then \<exists>v. es_values st (dr_key r) = Some v \<and> denote DERIVED_MAX_DEPTH defs leaf (dr_key r) = Inr v
        else es_values st (dr_key r) = leaf (dr_key r)"
    using assms(1) unfolding values_of_def by blast
  with v assms(2,4,5) show ?thesis by (auto simp: leaf_input_def split: if_splits)
qed

lemma denote_unfold:
  assumes "dag_ok defs" and "map_of defs k = Some d"
  shows "denote DERIVED_MAX_DEPTH defs leaf k =
    rbind (rmap (\<lambda>r. if dr_kind r = Derived then denote DERIVED_MAX_DEPTH defs leaf (dr_key r)
        else leaf_input leaf (dr_key r)) (dd_dependencies d)) (evaluate_operator (dd_operator d) (dd_parameters d))"
proof -
  obtain m where m: "DERIVED_MAX_DEPTH = Suc m" by (simp add: DERIVED_MAX_DEPTH_def eval_nat_numeral)
  have "chain_within defs (Suc m) k" using dag_okD[OF assms(1), of k] assms(2) by (simp add: m)
  then have "denote DERIVED_MAX_DEPTH defs leaf (dr_key r) = denote m defs leaf (dr_key r)"
    if "r \<in> set (dd_dependencies d)" "dr_kind r = Derived" for r
    using that depends_refs[OF assms(2)] denote_mono[of defs m _ "Suc m"] by (auto simp: chain_within_Suc m)
  then have "rmap (\<lambda>r. if dr_kind r = Derived then denote m defs leaf (dr_key r) else leaf_input leaf (dr_key r)) (dd_dependencies d)
      = rmap (\<lambda>r. if dr_kind r = Derived then denote DERIVED_MAX_DEPTH defs leaf (dr_key r) else leaf_input leaf (dr_key r)) (dd_dependencies d)"
    by (intro rmap_cong) simp
  moreover have "denote DERIVED_MAX_DEPTH defs leaf k = denote (Suc m) defs leaf k" by (simp only: m)
  ultimately show ?thesis by (simp only: denote.simps assms(2) option.case)
qed

lemma evaluate_definition_values:
  assumes ok: "dag_ok defs" and sep: "refs_separate defs" and v: "values_of defs leaf finished st"
    and sub: "finished \<subseteq> dom (map_of defs)" and deps: "\<And>r. depends defs k r \<Longrightarrow> r \<in> finished"
    and e: "evaluate_definition env pid pok defs index k st = Inr st'"
  shows "values_of defs leaf (insert k finished) st' \<and> map_of defs k \<noteq> None \<and>
    (\<exists>row. es_rows st' = es_rows st @ [row] \<and> denote DERIVED_MAX_DEPTH defs leaf k = Inr (ve_result row))"
proof -
  from evaluate_definition_Inr[OF e] obtain d inputs x where d: "map_of defs k = Some d"
    and inputs: "rmap (resolve_ref st) (dd_dependencies d) = Inr inputs"
    and x: "evaluate_operator (dd_operator d) (dd_parameters d) (map snd inputs) = Inr x"
    and st': "es_values st' = (es_values st)(k \<mapsto> x)"
    and row: "\<exists>row. es_rows st' = es_rows st @ [row] \<and> ve_result row = x" by metis
  have "rmap (\<lambda>r. if dr_kind r = Derived then denote DERIVED_MAX_DEPTH defs leaf (dr_key r)
      else leaf_input leaf (dr_key r)) (dd_dependencies d) = Inr (map snd inputs)"
  proof (rule rmap_transfer[OF inputs])
    fix r y
    assume r: "r \<in> set (dd_dependencies d)" and y: "resolve_ref st r = Inr y"
    show "(if dr_kind r = Derived then denote DERIVED_MAX_DEPTH defs leaf (dr_key r) else leaf_input leaf (dr_key r)) = Inr (snd y)"
    proof (rule resolve_meaning[OF v sub y])
      show "dr_key r \<in> finished" if "dr_kind r = Derived"
        using deps depends_refs[OF d] r that by blast
      show "map_of defs (dr_key r) = None" if "dr_kind r \<noteq> Derived"
        using sep d r that unfolding refs_separate_def by blast
    qed
  qed
  then have "denote DERIVED_MAX_DEPTH defs leaf k = Inr x"
    by (simp add: denote_unfold[OF ok d] x)
  with v st' d row show ?thesis by (auto simp: values_of_def)
qed

lemma evaluate_all_values:
  assumes ok: "dag_ok defs" and sep: "refs_separate defs"
  shows "values_of defs leaf (set xs) st \<Longrightarrow> set xs \<subseteq> dom (map_of defs) \<Longrightarrow> deps_first defs (xs @ ks) \<Longrightarrow>
    evaluate_all env pid pok defs index ks st = Inr st' \<Longrightarrow>
    \<exists>rows. es_rows st' = es_rows st @ rows \<and> map (\<lambda>e. Inr (ve_result e)) rows = map (denote DERIVED_MAX_DEPTH defs leaf) ks"
proof (induction ks arbitrary: xs st index)
  case Nil
  then show ?case by simp
next
  case (Cons k ks)
  from Cons.prems(4) obtain st1 where e: "evaluate_definition env pid pok defs index k st = Inr st1"
    and rest: "evaluate_all env pid pok defs (index + 1) ks st1 = Inr st'" by (auto simp: rbind_eq_Inr)
  have deps: "r \<in> set xs" if "depends defs k r" for r
    using Cons.prems(3) that unfolding deps_first_def by (auto dest: spec[of _ "length xs"])
  from evaluate_definition_values[OF ok sep Cons.prems(1,2) deps e] obtain row where
    v1: "values_of defs leaf (set (xs @ [k])) st1" and k: "map_of defs k \<noteq> None"
    and row: "es_rows st1 = es_rows st @ [row]" "denote DERIVED_MAX_DEPTH defs leaf k = Inr (ve_result row)" by auto
  have sub: "set (xs @ [k]) \<subseteq> dom (map_of defs)" using Cons.prems(2) k by auto
  from Cons.IH[OF v1 sub _ rest] Cons.prems(3) obtain rows where
    "es_rows st' = es_rows st1 @ rows" "map (\<lambda>e. Inr (ve_result e)) rows = map (denote DERIVED_MAX_DEPTH defs leaf) ks" by auto
  with row show ?case by (intro exI[of _ "row # rows"]) simp
qed

section \<open>What one call does\<close>

definition request_leaves :: "package_request \<Rightarrow> string \<rightharpoonup> rat" where
  "request_leaves rq = map_of (map (\<lambda>r. (rq_source_role r, rq_value r)) (pr_source_requirements rq)) ++
     map_of (map (\<lambda>q. (ir_key q, ir_value q)) (pr_manual_input_requirements rq))"

abbreviation request_drafts :: "package_request \<Rightarrow> drafts" where
  "request_drafts rq \<equiv> drafts_of (pr_derived_definitions rq)"

lemma select_requirement_Inr:
  "select_requirement now r = Inr s \<Longrightarrow> \<exists>res ctx. s = (r, res, ctx) \<and> rq_binding_revision_id r \<noteq> None \<and>
     select_observation (rq_mode r) (rq_candidates r) now (rq_as_of r) (rq_business_cycle_identity r)
       (rq_business_effective_date r) (rq_explicit_observation_id r) (rq_freshness_max_age r) (rq_require_fresh r) = Inr res"
  by (auto simp: select_requirement_def rbind_eq_Inr split: if_splits)

lemma select_sources_Inr:
  "select_sources now seen rs = Inr ss \<Longrightarrow> map fst ss = rs \<and>
     list_all2 (\<lambda>r s. select_requirement now r = Inr s) rs ss \<and> distinct (map rq_source_role rs) \<and>
     (\<forall>r \<in> set rs. rq_source_role r \<notin> set seen)"
proof (induction rs arbitrary: seen ss)
  case Nil
  then show ?case by simp
next
  case (Cons r rs)
  from Cons.prems obtain s ss' where s: "select_requirement now r = Inr s"
    and ss': "select_sources now (rq_source_role r # seen) rs = Inr ss'" and ss: "ss = s # ss'"
    and new: "rq_source_role r \<notin> set seen"
    by (auto simp: rbind_eq_Inr split: if_splits)
  from select_requirement_Inr[OF s] have "fst s = r" by auto
  with Cons.IH[OF ss'] s ss new show ?case by auto
qed

lemma pin_manual_inputs_Inr:
  "pin_manual_inputs db c p now keys qs = Inr ms \<Longrightarrow> map fst ms = qs \<and>
     (\<forall>(q, d) \<in> set ms. \<exists>rvn. get_row mr_id (ir_manual_input_revision_id q) (pk_manual_revisions db) = Some rvn \<and>
        scope_ok c p rvn \<and> resolve_manual_input db (ir_manual_input_revision_id q) now = Inr d)"
proof (induction qs arbitrary: keys ms)
  case Nil
  then show ?case by simp
next
  case (Cons q qs)
  from Cons.prems obtain rvn d ms' where
    "get_row mr_id (ir_manual_input_revision_id q) (pk_manual_revisions db) = Some rvn" "scope_ok c p rvn"
    "resolve_manual_input db (ir_manual_input_revision_id q) now = Inr d"
    "pin_manual_inputs db c p now (ir_key q # keys) qs = Inr ms'" "ms = (q, d) # ms'"
    by (auto simp: rbind_eq_Inr split: if_splits option.splits)
  with Cons.IH show ?case by fastforce
qed

lemma create_package_Inr:
  assumes "create_package env rq now db = Inr (res, db')"
  obtains skew ss ms order st where "select_sources now [] (pr_source_requirements rq) = Inr ss"
    "pin_manual_inputs db (pr_channel_id rq) (pr_product_ref rq) now [] (pr_manual_input_requirements rq) = Inr ms"
    "evaluate_request env rq ss ms (distinct (map (ir_manual_input_revision_id \<circ> fst) ms)) db = Inr (order, st)"
    "flush_ok (distinct (map (ir_manual_input_revision_id \<circ> fst) ms)) (es_rows st)
       (override_row env (pe_uuid env 0) (es_next st) (pr_calculated_candidate rq) (pr_override rq))"
    "pkr_source_pins res = map (source_pin_row env (pe_uuid env 0) skew) (enumerate 1 ss)"
    "pkr_manual_pins res = map (manual_pin_row env (pe_uuid env 0)) (enumerate (1 + length ss) ms)"
    "pkr_evaluations res = es_rows st"
    "pkr_override res = override_row env (pe_uuid env 0) (es_next st) (pr_calculated_candidate rq) (pr_override rq)"
    "fp_id (pkr_package res) = pe_uuid env 0"
    "db' = db\<lparr>pk_definitions := es_definitions st, pk_source_pins := pk_source_pins db @ pkr_source_pins res,
       pk_manual_pins := pk_manual_pins db @ pkr_manual_pins res,
       pk_evaluations := pk_evaluations db @ pkr_evaluations res,
       pk_overrides := pk_overrides db @ (case pkr_override res of None \<Rightarrow> [] | Some ov \<Rightarrow> [ov]),
       pk_packages := pk_packages db @ [pkr_package res]\<rparr>"
proof -
  from assms obtain ss where ss: "select_sources now [] (pr_source_requirements rq) = Inr ss"
    by (auto simp: create_package_def rbind_eq_Inr split: if_splits)
  let ?skew = "evaluate_cross_source_skew (observed_at_by_role ss) (pr_skew_tolerance rq)"
  from assms ss obtain ms where
    ms: "pin_manual_inputs db (pr_channel_id rq) (pr_product_ref rq) now [] (pr_manual_input_requirements rq) = Inr ms"
    and store: "store_package env rq ?skew ss ms db = Inr (res, db')"
    by (auto simp: create_package_def rbind_eq_Inr Let_def split: if_splits)
  from store obtain order st where
    ev: "evaluate_request env rq ss ms (distinct (map (ir_manual_input_revision_id \<circ> fst) ms)) db = Inr (order, st)"
    by (auto simp: store_package_def rbind_eq_Inr Let_def)
  show ?thesis
    by (rule that[OF ss ms ev])
      (use store in \<open>simp_all add: store_package_def ev Let_def package_row_def split: if_splits\<close>, auto)
qed

lemma evaluate_request_Inr:
  assumes "evaluate_request env rq ss ms ok db = Inr (order, st)"
  shows "dag_ok (request_drafts rq)" "topological_order (request_drafts rq) = Inr order"
    "evaluate_all env (pe_uuid env 0) ok (request_drafts rq) 0 order
       \<lparr>es_definition_ids = Map.empty, es_values = leaf_values ss ms, es_definitions = pk_definitions db,
        es_rows = [], es_next = 1 + length ss + length ms\<rparr> = Inr st"
proof -
  from assms have "validate_dag (request_drafts rq) = Inr ()"
    by (auto simp: evaluate_request_def Let_def rbind_eq_Inr)
  then show "dag_ok (request_drafts rq)" by (simp add: validate_dag_iff)
  from assms show "topological_order (request_drafts rq) = Inr order"
    "evaluate_all env (pe_uuid env 0) ok (request_drafts rq) 0 order
       \<lparr>es_definition_ids = Map.empty, es_values = leaf_values ss ms, es_definitions = pk_definitions db,
        es_rows = [], es_next = 1 + length ss + length ms\<rparr> = Inr st"
    by (auto simp: evaluate_request_def Let_def rbind_eq_Inr)
qed

lemma leaf_values_request:
  assumes "map fst ss = pr_source_requirements rq" "map fst ms = pr_manual_input_requirements rq"
  shows "leaf_values ss ms = request_leaves rq"
proof -
  have "map (\<lambda>(r, _). (rq_source_role r, rq_value r)) ss = map (\<lambda>r. (rq_source_role r, rq_value r)) (map fst ss)"
    "map (\<lambda>(q, _). (ir_key q, ir_value q)) ms = map (\<lambda>q. (ir_key q, ir_value q)) (map fst ms)"
    by (simp_all add: split_beta)
  then show ?thesis unfolding leaf_values_def request_leaves_def assms by simp
qed

section \<open>The evidence tables\<close>

definition evidence_closed :: "package_db \<Rightarrow> bool" where
  "evidence_closed db \<longleftrightarrow> distinct (map vd_checksum (pk_definitions db)) \<and>
     (\<forall>e \<in> set (pk_evaluations db). (\<exists>d \<in> set (pk_definitions db). vd_id d = ve_definition_id e) \<and>
        (\<exists>p \<in> set (pk_packages db). fp_id p = ve_package_id e)) \<and>
     (\<forall>p \<in> set (pk_source_pins db). \<exists>q \<in> set (pk_packages db). fp_id q = sp_package_id p) \<and>
     (\<forall>p \<in> set (pk_manual_pins db). \<exists>q \<in> set (pk_packages db). fp_id q = mp_package_id p) \<and>
     (\<forall>ov \<in> set (pk_overrides db). (\<exists>q \<in> set (pk_packages db). fp_id q = po_package_id ov) \<and>
        po_effective_output ov = (case po_override_value ov of None \<Rightarrow> po_calculated_candidate ov | Some v \<Rightarrow> v))"

definition package_store_empty :: "package_db \<Rightarrow> bool" where
  "package_store_empty db \<longleftrightarrow> pk_definitions db = [] \<and> pk_evaluations db = [] \<and> pk_source_pins db = [] \<and>
     pk_manual_pins db = [] \<and> pk_overrides db = [] \<and> pk_packages db = []"

inductive package_step :: "package_db \<Rightarrow> package_db \<Rightarrow> bool" where
  create: "create_package env rq now db = Inr (res, db') \<Longrightarrow> package_step db db'"
| decide: "package_step db (db\<lparr>pk_manual_decisions := pk_manual_decisions db @ [d]\<rparr>)"
| revise: "package_step db (db\<lparr>pk_manual_revisions := pk_manual_revisions db @ [r]\<rparr>)"
| add_channel: "package_step db (db\<lparr>pk_channels := pk_channels db @ [c]\<rparr>)"

definition interned :: "package_db \<Rightarrow> string \<Rightarrow> evaluation_state \<Rightarrow> bool" where
  "interned db pid st \<longleftrightarrow> distinct (map vd_checksum (es_definitions st)) \<and>
     set (pk_definitions db) \<subseteq> set (es_definitions st) \<and>
     (\<forall>e \<in> set (es_rows st). ve_package_id e = pid \<and> (\<exists>d \<in> set (es_definitions st). vd_id d = ve_definition_id e))"

lemma intern_definition_interned:
  assumes "intern_definition env ok draft refs st = Inr (i, st1)" "distinct (map vd_checksum (es_definitions st))"
  shows "distinct (map vd_checksum (es_definitions st1)) \<and> set (es_definitions st) \<subseteq> set (es_definitions st1) \<and>
    (\<exists>d \<in> set (es_definitions st1). vd_id d = i)"
  using assms
  by (auto simp: intern_definition_def Let_def get_row_None dest: get_row_Some split: option.splits if_splits)

lemma evaluate_all_interned:
  "evaluate_all env pid ok defs index ks st = Inr st' \<Longrightarrow> interned db pid st \<Longrightarrow> interned db pid st'"
proof (induction ks arbitrary: st index)
  case Nil
  then show ?case by simp
next
  case (Cons k ks)
  from Cons.prems(1) obtain st1 where e: "evaluate_definition env pid ok defs index k st = Inr st1"
    and rest: "evaluate_all env pid ok defs (index + 1) ks st1 = Inr st'" by (auto simp: rbind_eq_Inr)
  obtain draft i st2 row and inputs :: "(json \<times> rat) list" where
    i: "intern_definition env ok draft (JList (map fst inputs)) st = Inr (i, st2)"
    and d: "es_definitions st1 = es_definitions st2"
    and row: "es_rows st1 = es_rows st @ [row]" "ve_definition_id row = i" "ve_package_id row = pid"
    by (rule evaluate_definition_Inr[OF e]) auto
  from intern_definition_interned[OF i] Cons.prems(2) d row have "interned db pid st1"
    by (auto simp: interned_def) blast
  with Cons.IH rest show ?case by blast
qed

lemma evidence_closed_create:
  assumes "create_package env rq now db = Inr (res, db')" "evidence_closed db"
  shows "evidence_closed db' \<and> set (pk_definitions db) \<subseteq> set (pk_definitions db')"
proof -
  from create_package_Inr[OF assms(1)] obtain skew ss ms order st where
    ev: "evaluate_request env rq ss ms (distinct (map (ir_manual_input_revision_id \<circ> fst) ms)) db = Inr (order, st)"
    and sp: "pkr_source_pins res = map (source_pin_row env (pe_uuid env 0) skew) (enumerate 1 ss)"
    and mp: "pkr_manual_pins res = map (manual_pin_row env (pe_uuid env 0)) (enumerate (1 + length ss) ms)"
    and er: "pkr_evaluations res = es_rows st"
    and ov: "pkr_override res = override_row env (pe_uuid env 0) (es_next st) (pr_calculated_candidate rq) (pr_override rq)"
    and pid: "fp_id (pkr_package res) = pe_uuid env 0"
    and db': "db' = db\<lparr>pk_definitions := es_definitions st, pk_source_pins := pk_source_pins db @ pkr_source_pins res,
       pk_manual_pins := pk_manual_pins db @ pkr_manual_pins res,
       pk_evaluations := pk_evaluations db @ pkr_evaluations res,
       pk_overrides := pk_overrides db @ (case pkr_override res of None \<Rightarrow> [] | Some ov \<Rightarrow> [ov]),
       pk_packages := pk_packages db @ [pkr_package res]\<rparr>" .
  have "interned db (pe_uuid env 0) st"
    by (rule evaluate_all_interned[OF evaluate_request_Inr(3)[OF ev]])
      (use assms(2) in \<open>simp add: interned_def evidence_closed_def\<close>)
  moreover have "sp_package_id p = pe_uuid env 0" if "p \<in> set (pkr_source_pins res)" for p
    using that by (auto simp: sp source_pin_row_def)
  moreover have "mp_package_id p = pe_uuid env 0" if "p \<in> set (pkr_manual_pins res)" for p
    using that by (auto simp: mp manual_pin_row_def)
  moreover have "po_package_id x = pe_uuid env 0 \<and> po_effective_output x =
      (case po_override_value x of None \<Rightarrow> po_calculated_candidate x | Some v \<Rightarrow> v)" if "pkr_override res = Some x" for x
    using that by (auto simp: ov override_row_def split: option.splits)
  ultimately show ?thesis
    using assms(2) unfolding evidence_closed_def interned_def db'
    by (auto simp: er pid split: option.splits) blast+
qed

interpretation packages: invariant_system package_store_empty package_step evidence_closed
proof unfold_locales
  show "evidence_closed db" if "package_store_empty db" for db
    using that by (simp add: package_store_empty_def evidence_closed_def)
  show "evidence_closed db'" if "package_step db db'" "evidence_closed db" for db db'
    using that by (cases rule: package_step.cases)
      (auto simp: evidence_closed_def dest: evidence_closed_create[unfolded evidence_closed_def])
qed

section \<open>Equal definitions in one package\<close>

definition ground :: "definition_draft \<Rightarrow> bool" where
  "ground d \<longleftrightarrow> list_all (\<lambda>r. dr_kind r \<noteq> Derived) (dd_dependencies d)"

definition ground_checksum :: "package_env \<Rightarrow> definition_draft \<Rightarrow> string" where
  "ground_checksum env d = checksum env (JObj [(''operator'', JStr (operator_value (dd_operator d))),
     (''parameters'', JObj (dd_parameters d)), (''dependency_refs'', JList (map (\<lambda>r. JObj
       [(''kind'', JStr (ref_kind_value (dr_kind r))), (''key'', JStr (dr_key r))]) (dd_dependencies d)))])"

definition stored :: "package_env \<Rightarrow> evaluation_state \<Rightarrow> definition_draft \<Rightarrow> string \<Rightarrow> bool" where
  "stored env st d i \<longleftrightarrow> (\<exists>x. get_row vd_checksum (ground_checksum env d) (es_definitions st) = Some x \<and> vd_id x = i)"

lemma ground_refs:
  "ground d \<Longrightarrow> rmap (resolve_ref st) (dd_dependencies d) = Inr inputs \<Longrightarrow>
     map fst inputs = map (\<lambda>r. JObj [(''kind'', JStr (ref_kind_value (dr_kind r))), (''key'', JStr (dr_key r))]) (dd_dependencies d)"
proof -
  have "map fst ys = map (\<lambda>r. JObj [(''kind'', JStr (ref_kind_value (dr_kind r))), (''key'', JStr (dr_key r))]) rs"
    if "rmap (resolve_ref st) rs = Inr ys" "list_all (\<lambda>r. dr_kind r \<noteq> Derived) rs" for rs and ys :: "(json \<times> rat) list"
    using that
    by (induction rs arbitrary: ys) (auto simp: rbind_eq_Inr resolve_ref_def Let_def split: option.splits)
  then show "ground d \<Longrightarrow> rmap (resolve_ref st) (dd_dependencies d) = Inr inputs \<Longrightarrow> ?thesis"
    by (simp add: ground_def)
qed

lemma stored_intern:
  "intern_definition env ok draft refs st = Inr (j, st1) \<Longrightarrow> stored env st d i \<Longrightarrow> stored env st1 d i"
  by (auto simp: intern_definition_def stored_def Let_def get_row_append split: option.splits if_splits)

lemma evaluate_definition_stored:
  assumes "evaluate_definition env pid ok defs index k st = Inr st'"
  shows "(stored env st d i \<longrightarrow> stored env st' d i) \<and>
    (\<exists>row. es_rows st' = es_rows st @ [row] \<and>
      (\<forall>d. map_of defs k = Some d \<longrightarrow> ground d \<longrightarrow> stored env st' d (ve_definition_id row)))"
proof -
  obtain draft j st1 row and inputs :: "(json \<times> rat) list" where
    draft: "map_of defs k = Some draft" and inputs: "rmap (resolve_ref st) (dd_dependencies draft) = Inr inputs"
    and j: "intern_definition env ok draft (JList (map fst inputs)) st = Inr (j, st1)"
    and d: "es_definitions st' = es_definitions st1"
    and row: "es_rows st' = es_rows st @ [row]" "ve_definition_id row = j"
    by (rule evaluate_definition_Inr[OF assms]) auto
  have "stored env st1 draft j" if "ground draft"
    using j unfolding ground_refs[OF that inputs]
    by (auto simp: intern_definition_def stored_def ground_checksum_def Let_def get_row_append get_row_single
        split: option.splits if_splits)
  with stored_intern[OF j] d draft row show ?thesis by (auto simp: stored_def)
qed

lemma evaluate_all_stored:
  "evaluate_all env pid ok defs index ks st = Inr st' \<Longrightarrow>
    (stored env st d0 i0 \<longrightarrow> stored env st' d0 i0) \<and>
    (\<exists>rows. es_rows st' = es_rows st @ rows \<and> length rows = length ks \<and>
      (\<forall>j < length ks. \<forall>d. map_of defs (ks ! j) = Some d \<longrightarrow> ground d \<longrightarrow> stored env st' d (ve_definition_id (rows ! j))))"
proof (induction ks arbitrary: st index d0 i0)
  case Nil
  then show ?case by simp
next
  case (Cons k ks)
  from Cons.prems obtain st1 where e: "evaluate_definition env pid ok defs index k st = Inr st1"
    and rest: "evaluate_all env pid ok defs (index + 1) ks st1 = Inr st'" by (auto simp: rbind_eq_Inr)
  from evaluate_definition_stored[OF e] obtain row where row: "es_rows st1 = es_rows st @ [row]"
    and own: "\<And>d. map_of defs k = Some d \<Longrightarrow> ground d \<Longrightarrow> stored env st1 d (ve_definition_id row)" by blast
  from Cons.IH[OF rest] obtain rows where rows: "es_rows st' = es_rows st1 @ rows" "length rows = length ks"
    "\<And>j d. j < length ks \<Longrightarrow> map_of defs (ks ! j) = Some d \<Longrightarrow> ground d \<Longrightarrow> stored env st' d (ve_definition_id (rows ! j))"
    by blast
  have "stored env st' d (ve_definition_id row)" if "map_of defs k = Some d" "ground d" for d
    using own[OF that] Cons.IH[OF rest] by blast
  then have "\<forall>j < length (k # ks). \<forall>d. map_of defs ((k # ks) ! j) = Some d \<longrightarrow> ground d \<longrightarrow>
      stored env st' d (ve_definition_id ((row # rows) ! j))"
    using rows(3) by (auto simp: nth_Cons split: nat.splits)
  moreover have "stored env st d0 i0 \<longrightarrow> stored env st' d0 i0"
    using evaluate_definition_stored[OF e] Cons.IH[OF rest] by blast
  ultimately show ?case using row rows(1,2) by (intro conjI exI[of _ "row # rows"]) auto
qed

section \<open>Properties\<close>


definition pin_sound :: "instant \<Rightarrow> source_requirement \<Rightarrow> source_pin \<Rightarrow> bool" where
  "pin_sound now r p \<longleftrightarrow> sp_source_role p = rq_source_role r \<and> (\<exists>c. c \<in> set (rq_candidates r) \<and>
     eligible_by_mode (rq_mode r) (rq_candidates r) (rq_as_of r) (rq_business_cycle_identity r)
       (rq_business_effective_date r) (rq_explicit_observation_id r) c \<and>
     sp_observation_id p = oc_observation_id c \<and> sp_observation_checksum p = oc_checksum c \<and>
     sp_observed_at p = oc_observed_at c \<and>
     (rq_require_fresh r \<longrightarrow> sp_freshness_result p \<noteq> STALE))"

definition manual_pin_sound :: "package_db \<Rightarrow> package_request \<Rightarrow> instant \<Rightarrow> manual_pin \<Rightarrow> bool" where
  "manual_pin_sound db rq now p \<longleftrightarrow> (\<exists>rvn d. rvn \<in> set (pk_manual_revisions db) \<and>
     mr_id rvn = mp_manual_input_revision_id p \<and> scope_ok (pr_channel_id rq) (pr_product_ref rq) rvn \<and>
     d \<in> set (pk_manual_decisions db) \<and> md_id d = mp_manual_input_decision_id p \<and> md_decision d = APPROVED \<and>
     md_manual_input_revision_id d = mr_id rvn \<and>
     (case mr_expires_at rvn of None \<Rightarrow> True | Some e \<Rightarrow> now < e) \<and>
     (\<forall>d' \<in> set (pk_manual_decisions db). md_manual_input_revision_id d' = mr_id rvn \<longrightarrow> md_id d' \<noteq> md_id d \<longrightarrow>
        md_created_at d' < md_created_at d))"

lemma resolve_manual_input_Inr:
  assumes "resolve_manual_input db rid now = Inr d" "get_row mr_id rid (pk_manual_revisions db) = Some rvn"
    "distinct (map md_id (pk_manual_decisions db))"
  shows "d \<in> set (pk_manual_decisions db) \<and> md_manual_input_revision_id d = rid \<and> md_decision d = APPROVED \<and>
    (case mr_expires_at rvn of None \<Rightarrow> True | Some e \<Rightarrow> now < e) \<and>
    (\<forall>d' \<in> set (pk_manual_decisions db). md_manual_input_revision_id d' = rid \<longrightarrow> md_id d' \<noteq> md_id d \<longrightarrow>
       md_created_at d' < md_created_at d)"
proof -
  let ?f = "\<lambda>d. \<lparr>dc_id = md_id d, dc_decision = md_decision d, dc_created_at = md_created_at d\<rparr>"
  let ?ds = "filter (\<lambda>d. md_manual_input_revision_id d = rid) (pk_manual_decisions db)"
  from assms(1,2) obtain current where cur: "resolve_current_decision (map ?f ?ds) now (mr_expires_at rvn) = Inr current"
    and row: "get_row md_id (dc_id current) (pk_manual_decisions db) = Some d"
    by (auto simp: resolve_manual_input_def rbind_eq_Inr split: option.splits)
  from cur[unfolded current_decision_iff] obtain rest where m: "mset (map ?f ?ds) = add_mset current rest"
    and older: "\<forall>y \<in># rest. dc_created_at y < dc_created_at current" and ok: "dc_decision current = APPROVED"
    "case mr_expires_at rvn of None \<Rightarrow> True | Some e \<Rightarrow> now < e"
    by (auto simp: strictly_newest_def)
  have s: "?f ` set ?ds = insert current (set_mset rest)"
    using arg_cong[OF m, of set_mset] by simp
  then obtain e where e: "e \<in> set ?ds" "current = ?f e" by blast
  have "d \<in> set (pk_manual_decisions db)" "md_id d = md_id e" using row e(2) by (auto dest: get_row_Some)
  then have d: "d = e" using e(1) assms(3) by (auto simp: distinct_map inj_on_def)
  have "md_created_at d' < md_created_at d"
    if "d' \<in> set (pk_manual_decisions db)" "md_manual_input_revision_id d' = rid" "md_id d' \<noteq> md_id d" for d'
  proof -
    have "?f d' \<in> insert current (set_mset rest)" using that(1,2) s by auto
    moreover have "?f d' \<noteq> current" using that(3) d e(2) by simp
    ultimately show ?thesis using older d e(2) by auto
  qed
  with e d ok show ?thesis by auto
qed


text \<open>the evidence tables stay closed. In every state that package creation, new decisions,
  revisions and Channels can reach, definitions are stored once per checksum, every evaluation names a
  stored definition and package, every pin and override its package, and the effective output is the
  override where there is one and the calculated candidate otherwise.\<close>

theorem package_store_closed:
  assumes "reach package_store_empty package_step db"
  shows "evidence_closed db"
  by (rule packages.reach_inv[OF assms])

text \<open>two definitions of one package with the same operator, parameters and leaf references share
  one stored definition, so the uniqueness of evaluations per package refuses the whole package.\<close>

theorem equal_definitions_refused:
  assumes "map_of (request_drafts rq) k = Some d" "map_of (request_drafts rq) k' = Some d'" "k \<noteq> k'"
    and "ground d" "dd_operator d' = dd_operator d" "dd_parameters d' = dd_parameters d"
    "dd_dependencies d' = dd_dependencies d"
  shows "\<not> is_ok (create_package env rq now db)"
proof
  assume "is_ok (create_package env rq now db)"
  then obtain res db' where c: "create_package env rq now db = Inr (res, db')" by (auto simp: is_ok_iff)
  from create_package_Inr[OF c] obtain ss ms order st where
    ev: "evaluate_request env rq ss ms (distinct (map (ir_manual_input_revision_id \<circ> fst) ms)) db = Inr (order, st)"
    and fl: "flush_ok (distinct (map (ir_manual_input_revision_id \<circ> fst) ms)) (es_rows st)
       (override_row env (pe_uuid env 0) (es_next st) (pr_calculated_candidate rq) (pr_override rq))" by metis
  note e = evaluate_request_Inr[OF ev]
  from topological_order_ok[OF e(1)] e(2) have "set order = fst ` set (request_drafts rq)" by auto
  with assms(1,2) have "k \<in> set order" "k' \<in> set order" by (force dest: map_of_SomeD)+
  then obtain i j where ij: "i < length order" "order ! i = k" "j < length order" "order ! j = k'"
    by (auto simp: in_set_conv_nth)
  from evaluate_all_stored[OF e(3)] obtain rows where rows: "es_rows st = rows" "length rows = length order"
    "\<And>j d. j < length order \<Longrightarrow> map_of (request_drafts rq) (order ! j) = Some d \<Longrightarrow> ground d \<Longrightarrow>
       stored env st d (ve_definition_id (rows ! j))" by auto
  have "ground d'" "ground_checksum env d' = ground_checksum env d"
    using assms(4-7) by (simp_all add: ground_def ground_checksum_def)
  then have "ve_definition_id (rows ! i) = ve_definition_id (rows ! j)"
    using rows(3)[of i d] rows(3)[of j d'] ij assms(1,2,4) by (auto simp: stored_def)
  moreover have "i \<noteq> j" using ij assms(3) by auto
  moreover have "distinct (map ve_definition_id rows)" using fl rows(1) by (simp add: flush_ok_def)
  ultimately show False using ij rows(2) by (simp add: distinct_conv_nth)
qed

text \<open>the decision behind an override is not examined. A package that stores an override under one
  decision identifier stores it under any other, approved or not, and the override is its effective
  output.\<close>

theorem override_decision_unchecked:
  assumes "create_package env rq now db = Inr (res, db')" and "pr_override rq = Some ov"
    and "pr_calculated_candidate rq = Some c"
  shows "\<exists>res' db''. create_package env (rq\<lparr>pr_override := Some (ov\<lparr>or_manual_input_decision_id := any\<rparr>)\<rparr>) now db =
      Inr (res', db'') \<and>
    map_option po_override_decision_id (pkr_override res') = Some (Some any) \<and>
    map_option po_effective_output (pkr_override res') = Some (or_override_value ov)"
proof -
  let ?rq = "rq\<lparr>pr_override := Some (ov\<lparr>or_manual_input_decision_id := any\<rparr>)\<rparr>"
  from assms(1) obtain ss where ch: "pr_channel_id rq \<in> set (pk_channels db)"
    and ss: "select_sources now [] (pr_source_requirements rq) = Inr ss"
    by (auto simp: create_package_def rbind_eq_Inr split: if_splits)
  let ?skew = "evaluate_cross_source_skew (observed_at_by_role ss) (pr_skew_tolerance rq)"
  from assms(1) ss obtain ms where sk: "?skew \<noteq> VIOLATION"
    and ms: "pin_manual_inputs db (pr_channel_id rq) (pr_product_ref rq) now [] (pr_manual_input_requirements rq) = Inr ms"
    and store: "store_package env rq ?skew ss ms db = Inr (res, db')"
    by (auto simp: create_package_def rbind_eq_Inr Let_def split: if_splits)
  from store obtain order st where
    ev: "evaluate_request env rq ss ms (distinct (map (ir_manual_input_revision_id \<circ> fst) ms)) db = Inr (order, st)"
    by (auto simp: store_package_def rbind_eq_Inr Let_def)
  have ev': "evaluate_request env ?rq ss ms ok db = evaluate_request env rq ss ms ok db" for ok
    by (simp add: evaluate_request_def)
  have fl: "flush_ok ok rows (override_row env pid n (Some c) (Some (ov\<lparr>or_manual_input_decision_id := any\<rparr>))) =
      flush_ok ok rows (override_row env pid n (Some c) (Some ov))" for ok rows pid n
    by (simp add: flush_ok_def override_row_def)
  have "\<exists>res' db''. store_package env ?rq ?skew ss ms db = Inr (res', db'') \<and> pkr_override res' =
      override_row env (pe_uuid env 0) (es_next st) (Some c) (Some (ov\<lparr>or_manual_input_decision_id := any\<rparr>))"
    using store assms(2,3) by (simp add: store_package_def ev' ev fl Let_def split: if_splits)
  then show ?thesis
    by (auto simp: create_package_def ch ss sk ms Let_def override_row_def)
qed

section \<open>Concrete runs\<close>

fun first_text :: "json \<Rightarrow> string" where
  "first_text (JObj ((k, JStr s) # d)) = s"
| "first_text v = []"

definition demo_package_env :: package_env where
  "demo_package_env = \<lparr>pe_sha256 = \<lambda>s. s, pe_dumps = first_text, pe_isoformat = \<lambda>t. [], pe_uuid = show_nat\<rparr>"

definition demo_source :: source_requirement where
  "demo_source = \<lparr>rq_source_role = ''cost'', rq_source_id = ''s'', rq_mode = EXPLICIT_OBSERVATION,
     rq_candidates = [demo_candidate ''o'' 10], rq_value = 100, rq_binding_revision_id = Some ''b'',
     rq_as_of = None, rq_business_cycle_identity = None, rq_business_effective_date = None,
     rq_explicit_observation_id = Some ''o'', rq_freshness_max_age = Some 50, rq_require_fresh = True,
     rq_selection_policy_version = None,
     rq_schema_unit_context = [(''currency'', JStr ''irr''), (''unit'', JStr ''rial''),
       (''scale'', JObj [(''numerator'', JInt 1), (''denominator'', JInt 1)])]\<rparr>"

definition demo_definition :: "string \<Rightarrow> derived_operator \<Rightarrow> (dependency_ref_kind \<times> string) list \<Rightarrow> definition_draft" where
  "demo_definition k op refs = \<lparr>dd_definition_key = k, dd_operator = op,
     dd_parameters = [(''addend_minor'', JInt 1)], dd_dependencies = map (\<lambda>(kd, r). \<lparr>dr_kind = kd, dr_key = r\<rparr>) refs\<rparr>"

definition demo_request_for :: "definition_draft list \<Rightarrow> package_request" where
  "demo_request_for ds = \<lparr>pr_channel_id = ''ch'', pr_product_ref = ''p'', pr_workspace_id = None, pr_evaluated_at = 20,
     pr_formula_shape_id = ''A1'', pr_translator_version = ''v'', pr_pricing_policy_revision_id = None,
     pr_currency_unit_registry_version = ''r'', pr_fx_snapshot_id = None, pr_channel_config_revision_id = None,
     pr_mapping_revision_id = None, pr_product_metadata_fingerprint = None,
     pr_source_requirements = [demo_source],
     pr_manual_input_requirements = [\<lparr>ir_manual_input_revision_id = ''m'', ir_key = ''floor'', ir_value = 150\<rparr>],
     pr_skew_tolerance = None, pr_derived_definitions = ds, pr_calculated_candidate = Some 90,
     pr_override = Some \<lparr>or_override_value = 95, or_manual_input_decision_id = ''d''\<rparr>,
     pr_created_by_user_id = None\<rparr>"

definition demo_package_db :: package_db where
  "demo_package_db = \<lparr>pk_channels = [''ch''],
     pk_manual_revisions = [\<lparr>mr_id = ''m'', mr_kind = PRICING_FACTOR, mr_channel_id = Some ''ch'',
       mr_product_ref = None, mr_currency = None, mr_unit = None, mr_expires_at = Some 90\<rparr>],
     pk_manual_decisions = [\<lparr>md_id = ''x'', md_manual_input_revision_id = ''m'', md_decision = REJECTED, md_created_at = 1\<rparr>,
       \<lparr>md_id = ''y'', md_manual_input_revision_id = ''m'', md_decision = APPROVED, md_created_at = 2\<rparr>],
     pk_definitions = [], pk_source_pins = [], pk_manual_pins = [], pk_evaluations = [], pk_overrides = [],
     pk_packages = []\<rparr>"

definition demo_package_request :: package_request where
  "demo_package_request = demo_request_for [demo_definition ''total'' MIN_NONZERO_SELECTION [(Derived, ''net''), (Manual_input, ''floor'')],
     demo_definition ''net'' ADD_CONSTANT [(Observation, ''cost'')]]"

definition demo_package :: "evaluation_error + package_result \<times> package_db" where
  "demo_package = create_package demo_package_env demo_package_request 30 demo_package_db"

lemma demo_package_run:
  "is_ok demo_package" "map ve_result (pkr_evaluations (fst (projr demo_package))) = [101, 101]"
  "map mp_manual_input_decision_id (pkr_manual_pins (fst (projr demo_package))) = [''y'']"
  by code_simp+

lemma demo_package_eq:
  "create_package demo_package_env demo_package_request 30 demo_package_db =
     Inr (fst (projr demo_package), snd (projr demo_package))"
  using demo_package_run(1) unfolding is_ok_iff demo_package_def by (metis prod.collapse sum.sel(2))

lemma demo_refs_separate: "refs_separate (request_drafts demo_package_request)"
  by (auto simp: refs_separate_def demo_package_request_def demo_request_for_def drafts_of_def demo_definition_def
      split: if_splits)



definition demo_store :: package_db where
  "demo_store = \<lparr>pk_channels = [], pk_manual_revisions = [], pk_manual_decisions = [], pk_definitions = [],
     pk_source_pins = [], pk_manual_pins = [], pk_evaluations = [], pk_overrides = [], pk_packages = []\<rparr>"

lemmas package_reach = reach_step[of package_store_empty package_step]

lemma demo_store_reach: "reach package_store_empty package_step (snd (projr demo_package))"
proof -
  have "reach package_store_empty package_step demo_store"
    by (rule reach_init) (simp add: package_store_empty_def demo_store_def)
  then have "reach package_store_empty package_step (demo_store\<lparr>pk_channels := pk_channels demo_store @ [''ch'']\<rparr>)"
    by (rule package_reach[OF _ add_channel])
  note package_reach[OF this revise, of "hd (pk_manual_revisions demo_package_db)"]
  note package_reach[OF this decide, of "pk_manual_decisions demo_package_db ! 0"]
  note package_reach[OF this decide, of "pk_manual_decisions demo_package_db ! 1"]
  then have "reach package_store_empty package_step demo_package_db" by (simp add: demo_store_def demo_package_db_def)
  from package_reach[OF this create[OF demo_package_eq]] show ?thesis .
qed

theorem package_store_closed_witness: "evidence_closed (snd (projr demo_package))"
  by (rule package_store_closed[OF demo_store_reach])

definition demo_twins :: package_request where
  "demo_twins = demo_request_for [demo_definition ''a'' ADD_CONSTANT [(Observation, ''cost'')],
     demo_definition ''b'' ADD_CONSTANT [(Observation, ''cost'')]]"

theorem equal_definitions_refused_witness:
  "\<not> is_ok (create_package demo_package_env demo_twins 30 demo_package_db)"
  by (rule equal_definitions_refused[of demo_twins "''a''" "demo_definition ''a'' ADD_CONSTANT [(Observation, ''cost'')]"
        "''b''" "demo_definition ''b'' ADD_CONSTANT [(Observation, ''cost'')]"])
    (simp_all add: demo_twins_def demo_request_for_def drafts_of_def demo_definition_def ground_def)

theorem override_decision_unchecked_witness:
  "\<exists>res' db''. create_package demo_package_env (demo_package_request\<lparr>pr_override :=
      Some \<lparr>or_override_value = 95, or_manual_input_decision_id = ''x''\<rparr>\<rparr>) 30 demo_package_db = Inr (res', db'')"
  using override_decision_unchecked[OF demo_package_eq, of "\<lparr>or_override_value = 95, or_manual_input_decision_id = ''d''\<rparr>" 90 "''x''"]
  by (simp add: demo_package_request_def demo_request_for_def) blast

text \<open>keys of derived definitions and Source roles share one namespace. A reference to an Observation
  whose role is also the key of a derived definition reads the derived value once that definition has
  been evaluated: the minimum over the Source ''cost'' of value 100 is stored as 101.\<close>

theorem derived_key_shadows_source:
  "map_option (\<lambda>r. map ve_result (pkr_evaluations (fst r)))
     (case create_package demo_package_env (demo_request_for
        [demo_definition ''cost'' ADD_CONSTANT [(Observation, ''cost'')],
         demo_definition ''total'' MIN_NONZERO_SELECTION [(Observation, ''cost'')]]) 30 demo_package_db of
      Inl e \<Rightarrow> None | Inr r \<Rightarrow> Some r) = Some [101, 101] \<and> rq_value demo_source = 100"
  by code_simp

end
