(* ===== verification/ApplyJobs.thy ===== *)
theory ApplyJobs
  imports WritePipeline
begin

text \<open>
  Apply jobs (\<^verbatim>\<open>app/flowhub/unified_workspace/services.py\<close>, \<^verbatim>\<open>listing_guard.py\<close>): the durable job of one
  confirmed selection, its lease and fencing token, the locks on its Listings, the dispatch through
  the shared write engine, the handler of a failed dispatch, the recovery of a job whose worker
  stopped, and the reconciliation of uncertain items. The checks of review, selection, draft and dry
  run that \<^verbatim>\<open>apply_selected\<close> makes around these steps are not part of this theory.

  A SQLAlchemy session keeps one object per row, so the variables \<^verbatim>\<open>job\<close> and \<^verbatim>\<open>durable_job\<close> of the
  code name the same object, and its attributes are read from the session's view of the row.
\<close>

section \<open>Environment, users, permissions\<close>

text \<open>
  \<^verbatim>\<open>sha256\<close> over the canonical JSON, the conversions between floats, decimals and text, and the text
  of an exception are the interpreter's.
\<close>

record apply_env =
  ae_provider :: provider_env
  ae_checksum :: "json \<Rightarrow> string"
  ae_format15 :: "rat \<Rightarrow> string"
  ae_decimal :: "rat \<Rightarrow> rat"
  ae_decimal_text :: "rat option \<Rightarrow> string"
  ae_exc_text :: "write_error \<Rightarrow> string"

record flowhub_user =
  us_id :: int
  us_username :: string
  us_role :: string

definition workspace_permission_list :: "string list" where
  "workspace_permission_list = [''workspace.read'', ''workspace.create'', ''workspace.edit'',
     ''draft.save'', ''review.generate'', ''apply.execute'', ''channel_cache.refresh'',
     ''mapping.approve'', ''audit.read'', ''workspace.admin'']"

definition role_workspace_permissions :: "string \<Rightarrow> string list" where
  "role_workspace_permissions role =
     (if role = ''owner'' \<or> role = ''super_admin'' \<or> role = ''admin'' then workspace_permission_list
      else if role = ''operator'' then [''workspace.read'', ''workspace.create'', ''workspace.edit'',
        ''draft.save'', ''review.generate'', ''apply.execute'', ''audit.read'']
      else if role = ''viewer'' then [''workspace.read'', ''audit.read''] else [])"

definition has_workspace_permission :: "flowhub_user \<Rightarrow> string \<Rightarrow> bool" where
  "has_workspace_permission u p \<longleftrightarrow> p \<in> set (role_workspace_permissions (us_role u))"

definition conflict :: "string \<Rightarrow> 'a wp" where
  "conflict code = wraise (Http_error 409 code)"

section \<open>Rollback and handlers\<close>

definition wrollback :: "unit wp" where
  "wrollback w = (Inr (), w\<lparr>session := committed w\<rparr>)"

definition wcatch :: "'a wp \<Rightarrow> (write_error \<Rightarrow> 'a wp) \<Rightarrow> 'a wp" where
  "wcatch m h w = (case m w of (Inl e, w') \<Rightarrow> h e w' | (Inr x, w') \<Rightarrow> (Inr x, w'))"

fun whandle :: "(write_error \<Rightarrow> 'a wp) \<Rightarrow> (write_error + 'a) \<times> world \<Rightarrow> (write_error + 'a) \<times> world" where
  "whandle h (Inl e, w) = h e w"
| "whandle h (Inr x, w) = (Inr x, w)"

lemma wcatch_code [code]: "wcatch m h w = whandle h (m w)"
  by (simp add: wcatch_def split: prod.splits sum.splits)

definition now_and_id :: "apply_env \<Rightarrow> (instant \<times> string) wp" where
  "now_and_id env = wget (\<lambda>db. (env_now (ae_provider env) db, env_uuid (ae_provider env) db))"

definition utcnow :: "apply_env \<Rightarrow> instant wp" where
  "utcnow env = wget (env_now (ae_provider env))"

section \<open>Audit\<close>

definition hidden_metadata_key :: "string \<Rightarrow> bool" where
  "hidden_metadata_key k \<longleftrightarrow> list_ex (\<lambda>t. contains t (py_lower k))
     [''password'', ''secret'', ''token'', ''credential'']"

definition audit ::
  "apply_env \<Rightarrow> string \<Rightarrow> flowhub_user \<Rightarrow> string \<Rightarrow> json_dict \<Rightarrow> json_dict \<Rightarrow> unit wp" where
  "audit env event_type u corr cols metadata =
     wbind (now_and_id env) (\<lambda>(now, uuid).
     (let safe = filter (\<lambda>(k, v). \<not> hidden_metadata_key k) metadata in
      wmodify (\<lambda>db. db\<lparr>wd_audit := wd_audit db @ [\<lparr>ua_id = uuid, ua_correlation_id = corr,
        ua_event_type = event_type, ua_user_id = us_id u, ua_occurred_at = now, ua_fields = cols,
        ua_metadata = safe, ua_metadata_checksum = ae_checksum env (JObj [
          (''event'', JStr event_type), (''user'', JInt (us_id u)), (''correlation'', JStr corr),
          (''fields'', JObj cols), (''metadata'', JObj safe)])\<rparr>]\<rparr>)))"

section \<open>Jobs and leases\<close>

fun state_value :: "apply_state \<Rightarrow> string" where
  "state_value S_PENDING = ''pending''"
| "state_value S_RUNNING = ''running''"
| "state_value S_PARTIALLY_APPLIED = ''partially_applied''"
| "state_value S_APPLIED = ''applied''"
| "state_value S_FAILED = ''failed''"
| "state_value S_CANCELLED = ''cancelled''"
| "state_value S_BLOCKED = ''blocked''"
| "state_value S_STALE = ''stale''"
| "state_value S_RECONCILIATION_REQUIRED = ''reconciliation_required''"

definition LOCK_MINUTES :: int where "LOCK_MINUTES = 15"

definition STALE_APPLY_MINUTES :: int where "STALE_APPLY_MINUTES = 5"

definition LEASE_MINUTES :: int where "LEASE_MINUTES = 15"

definition read_job :: "string \<Rightarrow> apply_job wp" where
  "read_job jid = wbind (wget (\<lambda>db. get_row aj_id jid (wd_jobs db))) (\<lambda>r. case r of
     None \<Rightarrow> wraise (Missing_row jid) | Some j \<Rightarrow> wret j)"

definition put_job :: "string \<Rightarrow> (apply_job \<Rightarrow> apply_job) \<Rightarrow> unit wp" where
  "put_job jid f = wmodify (\<lambda>db. db\<lparr>wd_jobs := upd_row aj_id jid f (wd_jobs db)\<rparr>)"

definition job_fields :: "apply_job \<Rightarrow> json_dict" where
  "job_fields j = [(''workspace_id'', JStr (aj_workspace_id j)), (''snapshot_id'', JStr (aj_snapshot_id j)),
     (''draft_revision_id'', JStr (aj_draft_revision_id j)), (''review_id'', JStr (aj_review_id j)),
     (''apply_job_id'', JStr (aj_id j))]"

definition lease_token :: "string \<Rightarrow> string \<Rightarrow> string" where
  "lease_token worker uuid = worker @ '':'' @ uuid"

definition claim_job_lease :: "apply_env \<Rightarrow> string \<Rightarrow> string \<Rightarrow> string wp" where
  "claim_job_lease env jid worker = wbind (now_and_id env) (\<lambda>(now, uuid).
     (let tok = lease_token worker uuid in
      wbind (put_job jid (\<lambda>j. j\<lparr>aj_worker_id := Some worker, aj_lease_token := Some tok,
        aj_fencing_token := aj_fencing_token j + 1,
        aj_lease_expires_at := Some (now + minutes (STALE_APPLY_MINUTES * 2)),
        aj_recovery_attempts := aj_recovery_attempts j + 1\<rparr>)) (\<lambda>_. wret tok)))"

definition holds_lease :: "string \<Rightarrow> string \<Rightarrow> string \<Rightarrow> write_db \<Rightarrow> bool" where
  "holds_lease jid worker tok db = (case get_row aj_id jid (wd_jobs db) of None \<Rightarrow> False
     | Some j \<Rightarrow> aj_worker_id j = Some worker \<and> aj_lease_token j = Some tok)"

definition assert_job_lease :: "string \<Rightarrow> string \<Rightarrow> string \<Rightarrow> unit wp" where
  "assert_job_lease jid worker tok = wbind (wget (holds_lease jid worker tok)) (\<lambda>ok.
     if ok then wret () else conflict ''APPLY_WORKER_FENCED'')"

definition assert_job_fence :: "string \<Rightarrow> int option \<Rightarrow> string option \<Rightarrow> unit wp" where
  "assert_job_fence jid fencing lease =
     (if fencing = None \<or> \<not> truthy lease then wret () else
      wbind (wget (\<lambda>db. get_row aj_id jid (wd_jobs db))) (\<lambda>r. case r of
        None \<Rightarrow> conflict ''APPLY_WORKER_FENCED''
      | Some j \<Rightarrow>
          if Some (aj_fencing_token j) \<noteq> fencing \<or> aj_lease_token j \<noteq> lease \<or> aj_worker_id j = None
          then conflict ''APPLY_WORKER_FENCED'' else wret ()))"

section \<open>Locks on Listings\<close>

definition lock_scope :: "workspace_lock \<Rightarrow> string \<times> string" where
  "lock_scope l = (lk_channel_id l, lk_listing_id l)"

definition find_lock :: "string \<times> string \<Rightarrow> write_db \<Rightarrow> workspace_lock option" where
  "find_lock s db = get_row lock_scope s (wd_locks db)"

definition unfinished :: "apply_state list" where
  "unfinished = [S_PENDING, S_RUNNING, S_RECONCILIATION_REQUIRED]"

definition owner_unfinished :: "workspace_lock \<Rightarrow> write_db \<Rightarrow> bool" where
  "owner_unfinished l db = (case get_row aj_id (lk_apply_job_id l) (wd_jobs db) of None \<Rightarrow> False
     | Some j \<Rightarrow> aj_status j \<in> set unfinished)"

text \<open>The row is flushed at once; the table allows one lock per Channel and Listing.\<close>

definition insert_lock :: "workspace_lock \<Rightarrow> unit wp" where
  "insert_lock l = wbind (wget (find_lock (lock_scope l))) (\<lambda>existing.
     if existing \<noteq> None then wraise Integrity_error
     else wmodify (\<lambda>db. db\<lparr>wd_locks := wd_locks db @ [l]\<rparr>))"

definition delete_lock :: "workspace_lock \<Rightarrow> unit wp" where
  "delete_lock l = wmodify (\<lambda>db. db\<lparr>wd_locks := filter (\<lambda>l'. lk_id l' \<noteq> lk_id l) (wd_locks db)\<rparr>)"

definition reclaim_lock :: "instant \<Rightarrow> string \<times> string \<Rightarrow> unit wp" where
  "reclaim_lock now s = wbind (wget (find_lock s)) (\<lambda>existing. case existing of
     None \<Rightarrow> wret ()
   | Some l \<Rightarrow>
       if lk_expires_at l > now then conflict ''APPLY_SCOPE_LOCKED'' else
       wbind (wget (owner_unfinished l)) (\<lambda>busy.
         if busy then conflict ''APPLY_SCOPE_RECONCILIATION_REQUIRED'' else delete_lock l))"

definition lock_listing ::
  "apply_env \<Rightarrow> string \<Rightarrow> string \<Rightarrow> instant \<Rightarrow> listing_row list \<Rightarrow> unit \<Rightarrow> string \<times> string \<Rightarrow> unit wp" where
  "lock_listing env wid jid now listings = (\<lambda>_ (ch, li).
     case get_row li_id li listings of
       None \<Rightarrow> conflict ''APPLY_LISTING_IDENTITY_CHANGED''
     | Some row \<Rightarrow>
         if li_channel_id row \<noteq> ch then conflict ''APPLY_LISTING_IDENTITY_CHANGED'' else
         wbind (reclaim_lock now (ch, li)) (\<lambda>_.
         wbind (wget (env_uuid (ae_provider env))) (\<lambda>uuid.
         insert_lock \<lparr>lk_id = uuid, lk_workspace_id = wid, lk_channel_id = ch, lk_listing_id = li,
           lk_apply_job_id = jid, lk_acquired_at = now,
           lk_expires_at = now + minutes LOCK_MINUTES\<rparr>)))"

definition acquire_listing_locks ::
  "apply_env \<Rightarrow> string \<Rightarrow> string \<Rightarrow> (string \<times> string) list \<Rightarrow> unit wp" where
  "acquire_listing_locks env wid jid scopes =
     wbind (utcnow env) (\<lambda>now.
     wcatch
       (wbind (wget (\<lambda>db. filter (\<lambda>l. li_id l \<in> snd ` set scopes) (wd_listings db))) (\<lambda>listings.
        wbind (wfoldM (lock_listing env wid jid now listings) () (sort scopes)) (\<lambda>_. commit)))
       (\<lambda>e. wbind wrollback (\<lambda>_.
          if e = Integrity_error then conflict ''APPLY_SCOPE_LOCKED'' else wraise e)))"

definition release_listing_locks :: "string \<Rightarrow> unit wp" where
  "release_listing_locks jid =
     wmodify (\<lambda>db. db\<lparr>wd_locks := filter (\<lambda>l. lk_apply_job_id l \<noteq> jid) (wd_locks db)\<rparr>)"

section \<open>The guard of other writers\<close>

definition acquire_listing_guard :: "string \<Rightarrow> string \<Rightarrow> listing_row wp" where
  "acquire_listing_guard ch li =
     wbind (wget (\<lambda>db. List.find (\<lambda>l. li_id l = li \<and> li_channel_id l = ch) (wd_listings db))) (\<lambda>row.
     case row of None \<Rightarrow> wraise (Missing_row li)
     | Some listing \<Rightarrow>
         wbind (wget (find_lock (ch, li))) (\<lambda>lock. case lock of
           None \<Rightarrow> wret listing
         | Some l \<Rightarrow> wraise (Guard_conflict ch li (lk_apply_job_id l))))"

definition acquire_external_listing_guard :: "string \<Rightarrow> string \<Rightarrow> listing_row option wp" where
  "acquire_external_listing_guard ch ext =
     wbind (wget (\<lambda>db. List.find (\<lambda>l. li_channel_id l = ch \<and> li_external_primary_id l = ext)
       (wd_listings db))) (\<lambda>row. case row of
       None \<Rightarrow> wret None
     | Some listing \<Rightarrow> wbind (acquire_listing_guard ch (li_id listing)) (\<lambda>l. wret (Some l)))"

definition acquire_channel_listing_guards :: "string \<Rightarrow> listing_row list wp" where
  "acquire_channel_listing_guards ch =
     wbind (wget (\<lambda>db. sort (map li_id (filter (\<lambda>l. li_channel_id l = ch) (wd_listings db))))) (\<lambda>ids.
     wmapM (acquire_listing_guard ch) ids)"

definition assert_listing_unlocked :: "string \<Rightarrow> string \<Rightarrow> unit wp" where
  "assert_listing_unlocked ch li =
     wcatch (wbind (acquire_listing_guard ch li) (\<lambda>_. wret ()))
       (\<lambda>e. case e of Guard_conflict _ _ _ \<Rightarrow> conflict ''LISTING_MUTATION_LOCKED'' | _ \<Rightarrow> wraise e)"

section \<open>Outcomes of a Listing\<close>

definition item_fields :: "apply_job \<Rightarrow> review_item \<Rightarrow> string \<Rightarrow> json_dict" where
  "item_fields j it outcome = job_fields j @
     [(''canonical_product_id'', JStr (ri_canonical_product_id it)),
      (''listing_id'', JStr (ri_listing_id it)), (''channel_id'', JStr (ri_channel_id it)),
      (''changed_field'', JStr (ri_field it)), (''previous_value'', jstr_opt (ri_current_value it)),
      (''target_value'', JStr (ri_target_value it)), (''apply_result'', JStr outcome)]"

text \<open>The one job item of a review item; the job and the review item identify it.\<close>

definition put_job_item :: "string \<Rightarrow> string \<Rightarrow> (apply_job_item \<Rightarrow> apply_job_item) \<Rightarrow> unit wp" where
  "put_job_item jid rid f =
     wbind (wget (\<lambda>db. List.find (\<lambda>a. ai_apply_job_id a = jid \<and> ai_review_item_id a = rid)
       (wd_job_items db))) (\<lambda>found. case found of
       None \<Rightarrow> wraise (Missing_row rid)
     | Some a \<Rightarrow> wmodify (\<lambda>db. db\<lparr>wd_job_items := upd_row ai_id (ai_id a) f (wd_job_items db)\<rparr>))"

definition number_text :: "apply_env \<Rightarrow> rat \<Rightarrow> string" where
  "number_text env r = (if r = of_int \<lfloor>r\<rfloor> then show_int \<lfloor>r\<rfloor> else ae_format15 env r)"

definition patch_cache_field ::
  "apply_env \<Rightarrow> workspace_write_result \<Rightarrow> review_item \<Rightarrow> channel_cache \<times> bool \<Rightarrow> channel_cache \<times> bool" where
  "patch_cache_field env r it acc = (case acc of (c, patched) \<Rightarrow>
     if ri_field it = ''price'' \<and> wr_accepted_price r \<noteq> None
     then (c\<lparr>cc_price_raw := map_option (number_text env) (wr_accepted_price r)\<rparr>, True)
     else if ri_field it = ''stock'' \<and> wr_accepted_stock r \<noteq> None
     then (c\<lparr>cc_stock_quantity := map_option (ae_decimal env) (wr_accepted_stock r)\<rparr>, True)
     else if ri_field it = ''status'' \<and> wr_accepted_status r \<noteq> None
     then (c\<lparr>cc_status := wr_accepted_status r\<rparr>, True)
     else (c, patched))"

definition patch_cache ::
  "apply_env \<Rightarrow> string \<Rightarrow> workspace_write_result \<Rightarrow> review_item list \<Rightarrow> unit wp" where
  "patch_cache env jid r affected =
     wbind (wget (\<lambda>db. (get_row cc_listing_id (wr_listing r) (wd_channel_cache db),
                        env_now (ae_provider env) db))) (\<lambda>(found, now). case found of
       None \<Rightarrow> wret ()
     | Some c0 \<Rightarrow> (case fold (patch_cache_field env r) affected (c0, False) of (c, patched) \<Rightarrow>
         if \<not> patched then wret () else
         wmodify (\<lambda>db. db\<lparr>wd_channel_cache := upd_row cc_listing_id (wr_listing r) (\<lambda>_.
           c\<lparr>cc_cache_version := cc_cache_version c + 1,
             cc_checksum := ae_checksum env (JObj [(''listing'', JStr (cc_listing_id c)),
               (''price'', jstr_opt (cc_price_raw c)),
               (''stock'', JStr (ae_decimal_text env (cc_stock_quantity c))),
               (''status'', jstr_opt (cc_status c)), (''apply'', JStr jid)]),
             cc_freshness := ''fresh'', cc_fetch_status := ''success'', cc_fetched_at := now\<rparr>)
           (wd_channel_cache db)\<rparr>)))"

definition succeed_item :: "workspace_write_result \<Rightarrow> apply_job \<Rightarrow> instant \<Rightarrow> apply_job_item \<Rightarrow> apply_job_item" where
  "succeed_item r j now a = a\<lparr>ai_status := ''applied'', ai_attempt_number := ai_attempt_number a + 1,
     ai_connector_response := wr_response r, ai_external_response_id := wr_external_response_id r,
     ai_retry_eligible := False, ai_cache_sync_status := Some ''patched_verified'',
     ai_started_at := aj_started_at j, ai_completed_at := Some now\<rparr>"

definition fail_item :: "workspace_write_result \<Rightarrow> apply_job \<Rightarrow> instant \<Rightarrow> apply_job_item \<Rightarrow> apply_job_item" where
  "fail_item r j now a = a\<lparr>ai_status := ''failed'', ai_attempt_number := ai_attempt_number a + 1,
     ai_connector_response := wr_response r, ai_error_category := wr_error_category r,
     ai_error_message := wr_error_message r, ai_retry_eligible := wr_retry_eligible r,
     ai_cache_sync_status := Some ''not_updated'', ai_started_at := aj_started_at j,
     ai_completed_at := Some now\<rparr>"

definition reconcile_item :: "workspace_write_result \<Rightarrow> apply_job \<Rightarrow> instant \<Rightarrow> apply_job_item \<Rightarrow> apply_job_item" where
  "reconcile_item r j now a = a\<lparr>ai_status := ''reconciliation_required'',
     ai_attempt_number := ai_attempt_number a + 1, ai_connector_response := wr_response r,
     ai_external_response_id := wr_external_response_id r,
     ai_error_category := Some (str_or (wr_error_category r) ''provider_unknown''),
     ai_error_message := wr_error_message r, ai_retry_eligible := False,
     ai_cache_sync_status := Some ''reconciliation_required'', ai_started_at := aj_started_at j,
     ai_completed_at := Some now\<rparr>"

text \<open>The loop the three handlers share: one item row and one audit entry per affected review item.\<close>

definition record_items ::
  "apply_env \<Rightarrow> string \<Rightarrow> flowhub_user \<Rightarrow> string \<Rightarrow> (apply_job \<Rightarrow> instant \<Rightarrow> apply_job_item \<Rightarrow> apply_job_item)
     \<Rightarrow> (apply_job \<Rightarrow> review_item \<Rightarrow> json_dict) \<Rightarrow> review_item list \<Rightarrow> unit wp" where
  "record_items env jid u event upd cols affected =
     wfoldM (\<lambda>_ it. wbind (read_job jid) (\<lambda>j. wbind (utcnow env) (\<lambda>now.
       wbind (put_job_item jid (ri_id it) (upd j now)) (\<lambda>_.
       audit env event u (aj_correlation_id j) (cols j it) [])))) () affected"

definition record_listing_success ::
  "apply_env \<Rightarrow> string \<Rightarrow> workspace_write_result \<Rightarrow> review_item list \<Rightarrow> flowhub_user \<Rightarrow> unit wp" where
  "record_listing_success env jid r affected u =
     wbind (record_items env jid u ''apply_item_succeeded'' (succeed_item r)
       (\<lambda>j it. item_fields j it ''applied'') affected) (\<lambda>_. patch_cache env jid r affected)"

definition record_listing_failure ::
  "apply_env \<Rightarrow> string \<Rightarrow> workspace_write_result \<Rightarrow> review_item list \<Rightarrow> flowhub_user \<Rightarrow> unit wp" where
  "record_listing_failure env jid r affected u =
     record_items env jid u ''apply_item_failed'' (fail_item r)
       (\<lambda>j it. item_fields j it ''failed'' @ [(''reason'', jstr_opt (wr_error_message r))]) affected"

definition record_listing_reconciliation ::
  "apply_env \<Rightarrow> string \<Rightarrow> workspace_write_result \<Rightarrow> review_item list \<Rightarrow> flowhub_user \<Rightarrow> unit wp" where
  "record_listing_reconciliation env jid r affected u =
     record_items env jid u ''apply_item_reconciliation_required'' (reconcile_item r)
       (\<lambda>j it. item_fields j it ''reconciliation_required'' @
          [(''reason'', JStr (str_or (wr_error_message r)
              ''Provider outcome requires reconciliation.''))]) affected"

definition apply_items :: "string \<Rightarrow> write_db \<Rightarrow> apply_job_item list" where
  "apply_items jid db = sort_key (\<lambda>a. (ai_channel_id a, ai_listing_id a))
     (filter (\<lambda>a. ai_apply_job_id a = jid) (wd_job_items db))"

definition uncertain_states :: "string list" where
  "uncertain_states = [''reconciliation_required'', ''recovering'', ''dispatched'', ''provider_accepted'']"

definition status_from_states :: "string list \<Rightarrow> apply_state" where
  "status_from_states states =
     (if states \<noteq> [] \<and> list_all (\<lambda>s. s = ''applied'') states then S_APPLIED
      else if list_ex (\<lambda>s. s \<in> set uncertain_states) states then S_RECONCILIATION_REQUIRED
      else if list_ex (\<lambda>s. s = ''applied'') states then S_PARTIALLY_APPLIED else S_FAILED)"

definition apply_status_from_items :: "string \<Rightarrow> write_db \<Rightarrow> apply_state" where
  "apply_status_from_items jid db = status_from_states (map ai_status (apply_items jid db))"

section \<open>Creating and starting a job\<close>

record apply_request =
  ar_workspace_id :: string
  ar_snapshot_id :: string
  ar_draft_id :: string
  ar_draft_revision_id :: string
  ar_review_id :: string
  ar_idempotency_key :: string
  ar_selection_checksum :: string
  ar_manifest_id :: string
  ar_manifest_checksum :: string
  ar_selected_ids :: "string list"

definition logical_operation_key :: "apply_env \<Rightarrow> apply_request \<Rightarrow> string" where
  "logical_operation_key env rq = ae_checksum env (JObj [
     (''workspace'', JStr (ar_workspace_id rq)), (''snapshot'', JStr (ar_snapshot_id rq)),
     (''draft_revision'', JStr (ar_draft_revision_id rq)), (''review'', JStr (ar_review_id rq)),
     (''selection'', JStr (ar_selection_checksum rq)), (''manifest'', JStr (ar_manifest_checksum rq)),
     (''operation_version'', JStr ''workspace-apply-v3'')])"

definition new_job_item :: "apply_env \<Rightarrow> string \<Rightarrow> string \<Rightarrow> review_item \<Rightarrow> apply_job_item" where
  "new_job_item env uuid jid it = \<lparr>ai_id = uuid, ai_apply_job_id = jid, ai_review_item_id = ri_id it,
     ai_canonical_product_id = ri_canonical_product_id it, ai_listing_id = ri_listing_id it,
     ai_channel_id = ri_channel_id it, ai_field = ri_field it,
     ai_payload_hash = ae_checksum env (JObj (ri_payload_summary it)), ai_status = ''pending'',
     ai_attempt_number = 0, ai_retry_eligible = False, ai_connector_response = [],
     ai_external_response_id = None, ai_error_category = None, ai_error_message = None,
     ai_cache_sync_status = None, ai_started_at = None, ai_completed_at = None\<rparr>"

definition add_job_item :: "apply_env \<Rightarrow> string \<Rightarrow> unit \<Rightarrow> review_item \<Rightarrow> unit wp" where
  "add_job_item env jid = (\<lambda>_ it. wbind (wget (env_uuid (ae_provider env))) (\<lambda>uuid.
     wmodify (\<lambda>db. db\<lparr>wd_job_items := wd_job_items db @ [new_job_item env uuid jid it]\<rparr>)))"

definition by_idempotency :: "string \<Rightarrow> write_db \<Rightarrow> apply_job option" where
  "by_idempotency key db = List.find (\<lambda>j. aj_idempotency_key j = key) (wd_jobs db)"

definition by_logical_operation :: "string \<Rightarrow> write_db \<Rightarrow> apply_job option" where
  "by_logical_operation key db = List.find (\<lambda>j. aj_logical_operation_key j = key) (wd_jobs db)"

text \<open>
  The job with its items and the audit entry in one transaction. The table refuses a second job with
  the same idempotency key or logical operation; then the job already stored under the idempotency
  key is the answer, marked \<^verbatim>\<open>False\<close> here, and without one the refusal is raised.
\<close>

definition create_apply_job ::
  "apply_env \<Rightarrow> apply_request \<Rightarrow> review_item list \<Rightarrow> flowhub_user \<Rightarrow> string \<Rightarrow> (bool \<times> string) wp" where
  "create_apply_job env rq items u corr =
     (let op = logical_operation_key env rq in
      wcatch
        (wbind (now_and_id env) (\<lambda>(now, jid).
         wbind (wget (\<lambda>db. by_idempotency (ar_idempotency_key rq) db \<noteq> None \<or> by_logical_operation op db \<noteq> None)) (\<lambda>taken.
         if taken then wraise Integrity_error else
         wbind (wmodify (\<lambda>db. db\<lparr>wd_jobs := wd_jobs db @ [\<lparr>aj_id = jid,
           aj_workspace_id = ar_workspace_id rq, aj_snapshot_id = ar_snapshot_id rq,
           aj_draft_revision_id = ar_draft_revision_id rq, aj_review_id = ar_review_id rq,
           aj_requested_by_user_id = us_id u, aj_idempotency_key = ar_idempotency_key rq,
           aj_logical_operation_key = op, aj_correlation_id = corr,
           aj_selection_checksum = ar_selection_checksum rq,
           aj_manifest_id = Some (ar_manifest_id rq),
           aj_manifest_checksum = Some (ar_manifest_checksum rq), aj_status = S_PENDING,
           aj_created_at = now, aj_started_at = None, aj_heartbeat_at = None,
           aj_completed_at = None, aj_worker_id = None, aj_fencing_token = 0,
           aj_lease_token = None, aj_lease_expires_at = None, aj_recovery_attempts = 0\<rparr>]\<rparr>)) (\<lambda>_.
         wbind (wfoldM (add_job_item env jid) () items) (\<lambda>_.
         wbind (read_job jid) (\<lambda>j.
         wbind (audit env ''apply_requested'' u corr
           (job_fields j @ [(''draft_id'', JStr (ar_draft_id rq))])
           [(''selected_only'', JBool True), (''selection_checksum'', JStr (ar_selection_checksum rq)),
            (''selected_count'', JInt (int (length (ar_selected_ids rq))))]) (\<lambda>_.
         wbind commit (\<lambda>_. wret (True, jid)))))))))
        (\<lambda>e. if e = Integrity_error then
            wbind wrollback (\<lambda>_. wbind (wget (by_idempotency (ar_idempotency_key rq))) (\<lambda>found.
            case found of Some j \<Rightarrow> wret (False, aj_id j) | None \<Rightarrow> wraise e))
          else wraise e))"

text \<open>A job that cannot lock its Listings fails.\<close>

definition lock_apply_job ::
  "apply_env \<Rightarrow> string \<Rightarrow> string \<Rightarrow> (string \<times> string) list \<Rightarrow> flowhub_user \<Rightarrow> string \<Rightarrow> unit wp" where
  "lock_apply_job env wid jid scopes u corr =
     wcatch (acquire_listing_locks env wid jid scopes) (\<lambda>e.
       wbind wrollback (\<lambda>_.
       wbind (wget (\<lambda>db. (get_row aj_id jid (wd_jobs db), env_now (ae_provider env) db))) (\<lambda>(found, now).
       case found of None \<Rightarrow> wraise e
       | Some j \<Rightarrow>
           wbind (put_job jid (\<lambda>j. j\<lparr>aj_status := S_FAILED, aj_completed_at := Some now\<rparr>)) (\<lambda>_.
           wbind (audit env ''apply_lock_failed'' u corr
             (job_fields j @ [(''apply_result'', JStr (state_value S_FAILED)),
                (''reason'', JStr (take 1000 (ae_exc_text env e)))]) []) (\<lambda>_.
           wbind commit (\<lambda>_. wraise e))))))"

definition start_apply_job :: "apply_env \<Rightarrow> string \<Rightarrow> flowhub_user \<Rightarrow> string \<Rightarrow> string wp" where
  "start_apply_job env jid u corr =
     wbind (utcnow env) (\<lambda>now.
     wbind (put_job jid (\<lambda>j. j\<lparr>aj_status := S_RUNNING, aj_started_at := Some now,
       aj_heartbeat_at := Some now\<rparr>)) (\<lambda>_.
     wbind (claim_job_lease env jid corr) (\<lambda>tok.
     wbind (read_job jid) (\<lambda>j.
     wbind (audit env ''apply_started'' u corr (job_fields j) []) (\<lambda>_.
     wbind commit (\<lambda>_. wret tok))))))"

section \<open>Dispatch and its handler\<close>

definition apply_command ::
  "apply_job \<Rightarrow> string \<Rightarrow> string \<Rightarrow> flowhub_user \<Rightarrow> workspace_write_intent list
     \<Rightarrow> workspace_write_batch_command" where
  "apply_command j tok corr u is = \<lparr>wc_workspace_id = aj_workspace_id j, wc_snapshot_id = aj_snapshot_id j,
     wc_draft_revision_id = aj_draft_revision_id j, wc_review_id = aj_review_id j,
     wc_selection_checksum = aj_selection_checksum j, wc_correlation_id = corr,
     wc_requested_by = us_username u, wc_intents = is, wc_fencing_token = Some (aj_fencing_token j),
     wc_lease_token = Some tok, wc_source_workflow = ''unified_workspace'',
     wc_pricing_origin = Some O_PRICING_MATRIX\<rparr>"

definition affected_by :: "review_item list \<Rightarrow> workspace_write_result \<Rightarrow> review_item list" where
  "affected_by items r = filter (\<lambda>it. ri_listing_id it = wr_listing r) items"

text \<open>The counters of applied, failed and uncertain review items.\<close>

type_synonym tally = "nat \<times> nat \<times> nat"

definition record_outcome ::
  "apply_env \<Rightarrow> string \<Rightarrow> review_item list \<Rightarrow> flowhub_user \<Rightarrow> tally \<Rightarrow> workspace_write_result \<Rightarrow> tally wp" where
  "record_outcome env jid items u = (\<lambda>(ok, failed, open') r.
     (let affected = affected_by items r; n = length affected in
      if wr_outcome r = W_VERIFIED_APPLIED
      then wbind (record_listing_success env jid r affected u) (\<lambda>_. wret (ok + n, failed, open'))
      else if wr_outcome r = W_RECONCILIATION_REQUIRED
      then wbind (record_listing_reconciliation env jid r affected u) (\<lambda>_. wret (ok, failed, open' + n))
      else wbind (record_listing_failure env jid r affected u) (\<lambda>_. wret (ok, failed + n, open'))))"

fun status_from_tally :: "tally \<Rightarrow> apply_state" where
  "status_from_tally (ok, failed, open') =
     (if open' \<noteq> 0 then S_RECONCILIATION_REQUIRED else if failed = 0 then S_APPLIED
      else if ok \<noteq> 0 then S_PARTIALLY_APPLIED else S_FAILED)"

definition for_workspace :: "string \<Rightarrow> write_db \<Rightarrow> draft_row option" where
  "for_workspace wid db = List.find (\<lambda>d. dr_workspace_id d = wid) (wd_drafts db)"

definition set_draft_status :: "string \<Rightarrow> string \<Rightarrow> unit wp" where
  "set_draft_status did s =
     wmodify (\<lambda>db. db\<lparr>wd_drafts := upd_row dr_id did (\<lambda>d. d\<lparr>dr_status := s\<rparr>) (wd_drafts db)\<rparr>)"

definition release_job :: "apply_job \<Rightarrow> apply_job" where
  "release_job j = j\<lparr>aj_worker_id := None, aj_lease_token := None, aj_lease_expires_at := None\<rparr>"

text \<open>What follows the return of the write engine: ownership, outcomes, the final status, the locks.\<close>

definition finish_apply ::
  "apply_env \<Rightarrow> string \<Rightarrow> string \<Rightarrow> string \<Rightarrow> review_item list \<Rightarrow> flowhub_user \<Rightarrow> string
     \<Rightarrow> workspace_write_result list \<Rightarrow> unit wp" where
  "finish_apply env jid did tok items u corr results =
     wbind (read_job jid) (\<lambda>j.
     wbind (assert_job_fence jid (Some (aj_fencing_token j)) (aj_lease_token j)) (\<lambda>_.
     wbind (assert_job_lease jid corr tok) (\<lambda>_.
     wbind (utcnow env) (\<lambda>now.
     wbind (put_job jid (\<lambda>j. j\<lparr>aj_heartbeat_at := Some now,
       aj_lease_expires_at := Some (now + minutes LEASE_MINUTES)\<rparr>)) (\<lambda>_.
     wbind (wfoldM (record_outcome env jid items u) (0, 0, 0) results) (\<lambda>tally.
     wbind commit (\<lambda>_.
     (let status = status_from_tally tally in
     wbind (utcnow env) (\<lambda>now.
     wbind (put_job jid (\<lambda>j. (release_job j)\<lparr>aj_completed_at := Some now, aj_status := status\<rparr>)) (\<lambda>_.
     wbind (if status = S_APPLIED then set_draft_status did ''applied'' else wret ()) (\<lambda>_.
     wbind (read_job jid) (\<lambda>j.
     wbind (audit env ''apply_completed'' u corr
       (job_fields j @ [(''draft_id'', JStr did), (''apply_result'', JStr (state_value status))])
       (case tally of (ok, failed, open') \<Rightarrow> [(''success_count'', JInt (int ok)),
          (''failure_count'', JInt (int failed)), (''reconciliation_count'', JInt (int open'))])) (\<lambda>_.
     wbind (if snd (snd tally) = 0 then release_listing_locks jid else wret ()) (\<lambda>_.
     commit))))))))))))))"

definition dispatched_outcomes :: "write_outcome list" where
  "dispatched_outcomes = [W_DISPATCHED, W_PROVIDER_ACCEPTED, W_VERIFIED_APPLIED, W_RECONCILIATION_REQUIRED]"

definition was_dispatched :: "string \<Rightarrow> write_db \<Rightarrow> bool" where
  "was_dispatched jid db \<longleftrightarrow> list_ex (\<lambda>e. ve_outcome e \<in> set dispatched_outcomes \<and>
     list_ex (\<lambda>a. pa_id a = ve_attempt_id e \<and> pa_apply_job_id a = Some jid) (wd_attempts db))
     (wd_attempt_events db)"

text \<open>
  The handler of every exception after the locks are held. \<^verbatim>\<open>self.db.get\<close> and the variable \<^verbatim>\<open>job\<close> give
  the one object the session keeps for the row, so both sides of the comparison of fencing tokens
  are read from that row.
\<close>

definition apply_failed :: "apply_env \<Rightarrow> string \<Rightarrow> flowhub_user \<Rightarrow> string \<Rightarrow> write_error \<Rightarrow> 'a wp" where
  "apply_failed env jid u corr e =
     wbind wrollback (\<lambda>_.
     wbind (wget (\<lambda>db. (get_row aj_id jid (wd_jobs db), env_now (ae_provider env) db))) (\<lambda>(found, now).
     case found of None \<Rightarrow> wraise e
     | Some durable_job \<Rightarrow>
         wbind (read_job jid) (\<lambda>job.
         if aj_fencing_token job \<noteq> 0 \<and> aj_fencing_token durable_job \<noteq> aj_fencing_token job
         then conflict ''APPLY_WORKER_FENCED'' else
         wbind (wget (was_dispatched jid)) (\<lambda>dispatched.
         (let status = (if dispatched then S_RECONCILIATION_REQUIRED else S_FAILED) in
         wbind (put_job jid (\<lambda>j. j\<lparr>aj_status := status, aj_completed_at := Some now\<rparr>)) (\<lambda>_.
         wbind (if dispatched then wret () else release_listing_locks jid) (\<lambda>_.
         wbind (audit env (if dispatched then ''apply_reconciliation_required'' else ''apply_pre_dispatch_failed'')
           u corr (job_fields job @ [(''apply_result'', JStr (state_value status)),
             (''reason'', JStr (take 1000 (ae_exc_text env e)))]) []) (\<lambda>_.
         wbind commit (\<lambda>_. wraise e)))))))))"

definition dispatch_apply_job ::
  "apply_env \<Rightarrow> string \<Rightarrow> string \<Rightarrow> string \<Rightarrow> review_item list \<Rightarrow> workspace_write_intent list
     \<Rightarrow> flowhub_user \<Rightarrow> string \<Rightarrow> unit wp" where
  "dispatch_apply_job env jid did tok items is u corr =
     wcatch
       (wbind (read_job jid) (\<lambda>j.
        wbind (execute_workspace (ae_provider env) (apply_command j tok corr u is) False) (\<lambda>results.
        finish_apply env jid did tok items u corr results)))
       (apply_failed env jid u corr)"

section \<open>Recovery of a stopped worker\<close>

definition heartbeat_of :: "apply_job \<Rightarrow> instant" where
  "heartbeat_of j = (case aj_heartbeat_at j of Some t \<Rightarrow> t | None \<Rightarrow>
     (case aj_started_at j of Some t \<Rightarrow> t | None \<Rightarrow> aj_created_at j))"

definition is_stale :: "instant \<Rightarrow> apply_job \<Rightarrow> bool" where
  "is_stale now j \<longleftrightarrow> aj_status j \<in> {S_PENDING, S_RUNNING} \<and>
     heartbeat_of j < now - minutes STALE_APPLY_MINUTES"

definition job_attempts :: "string \<Rightarrow> write_db \<Rightarrow> provider_write_attempt list" where
  "job_attempts jid db = sort_key pa_listing_id (filter (\<lambda>a. pa_apply_job_id a = Some jid) (wd_attempts db))"

definition latest_event :: "string \<Rightarrow> write_db \<Rightarrow> attempt_event option" where
  "latest_event aid db = max_by (\<lambda>e. (ve_occurred_at e, ve_id e))
     (filter (\<lambda>e. ve_attempt_id e = aid) (wd_attempt_events db))"

definition attempt_item_ids :: "py_runtime \<Rightarrow> json_dict \<Rightarrow> py_error + string list" where
  "attempt_item_ids py p = (case map_of p ''apply_item_ids'' of
     None \<Rightarrow> Inr [] | Some v \<Rightarrow> rbind (json_iter v) (\<lambda>vs. Inr (map (py_str py) vs)))"

definition attempt_items :: "string list \<Rightarrow> write_db \<Rightarrow> apply_job_item list" where
  "attempt_items ids db = List.map_filter (\<lambda>i. get_row ai_id i (wd_job_items db)) ids"

definition uncertain_outcomes :: "write_outcome list" where
  "uncertain_outcomes = [W_DISPATCHED, W_PROVIDER_ACCEPTED, W_RECONCILIATION_REQUIRED, W_RECOVERING]"

definition verified_result :: "workspace_write_intent \<Rightarrow> json_dict \<Rightarrow> workspace_write_result" where
  "verified_result i response = (write_result (wi_listing_id i) W_VERIFIED_APPLIED)
     \<lparr>wr_provider_accepted := True, wr_response := response, wr_accepted_price := wi_target_price i,
      wr_accepted_stock := wi_target_stock i, wr_accepted_status := wi_target_status i\<rparr>"

definition not_dispatched_item :: "apply_job_item \<Rightarrow> apply_job_item" where
  "not_dispatched_item a = (if ai_status a = ''applied'' then a else
     a\<lparr>ai_status := ''failed'', ai_error_category := Some ''stale_before_dispatch'',
       ai_error_message := Some ''Worker stopped before provider dispatch.'', ai_retry_eligible := False\<rparr>)"

definition uncertain_item :: "apply_job_item \<Rightarrow> apply_job_item" where
  "uncertain_item a = (if ai_status a \<in> {''applied'', ''failed'', ''cancelled''} then a else
     a\<lparr>ai_status := ''reconciliation_required'', ai_retry_eligible := False\<rparr>)"

definition put_items :: "(apply_job_item \<Rightarrow> bool) \<Rightarrow> (apply_job_item \<Rightarrow> apply_job_item) \<Rightarrow> unit wp" where
  "put_items p f = wmodify (\<lambda>db. db\<lparr>wd_job_items := map (\<lambda>a. if p a then f a else a) (wd_job_items db)\<rparr>)"

text \<open>The two sets of item identifiers a recovery collects: uncertain and verified.\<close>

type_synonym recovered = "string list \<times> string list"

definition recover_attempt ::
  "apply_env \<Rightarrow> string \<Rightarrow> flowhub_user \<Rightarrow> recovered \<Rightarrow> provider_write_attempt \<Rightarrow> recovered wp" where
  "recover_attempt env jid u = (\<lambda>(uncertain, verified') a.
     (let py = env_py (ae_provider env); payload = pa_normalized_payload a in
     wbind (wget (latest_event (pa_id a))) (\<lambda>latest.
     wbind (wlift Python_error (attempt_item_ids py payload)) (\<lambda>ids.
     wbind (wget (attempt_items ids)) (\<lambda>its.
     case latest of
       Some e \<Rightarrow>
         if ve_outcome e = W_VERIFIED_APPLIED then
           wbind (if list_all (\<lambda>x. ai_status x = ''applied'') its then wret () else
             wbind (wlift Python_error (from_persisted_payload py payload)) (\<lambda>i.
             wbind (wget (\<lambda>db. filter (\<lambda>it. ri_id it \<in> ai_review_item_id ` set its) (wd_review_items db))) (\<lambda>items.
             record_listing_success env jid (verified_result i (ve_provider_response e)) items u))) (\<lambda>_.
           wret (uncertain, verified' @ ids))
         else if ve_outcome e \<in> set uncertain_outcomes then wret (uncertain @ ids, verified')
         else wbind (put_items (\<lambda>x. ai_id x \<in> set ids) not_dispatched_item) (\<lambda>_. wret (uncertain, verified'))
     | None \<Rightarrow>
         wbind (put_items (\<lambda>x. ai_id x \<in> set ids) not_dispatched_item) (\<lambda>_. wret (uncertain, verified')))))))"

definition sorted_ids :: "string list \<Rightarrow> json" where
  "sorted_ids ids = JList (map JStr (sort (remdups ids)))"

definition recover_unattempted :: "apply_env \<Rightarrow> string \<Rightarrow> flowhub_user \<Rightarrow> string \<Rightarrow> unit wp" where
  "recover_unattempted env jid u corr =
     wbind (claim_job_lease env jid corr) (\<lambda>_.
     wbind (utcnow env) (\<lambda>now.
     wbind (put_job jid (\<lambda>j. j\<lparr>aj_status := S_FAILED, aj_completed_at := Some now\<rparr>)) (\<lambda>_.
     wbind (release_listing_locks jid) (\<lambda>_.
     wbind (read_job jid) (\<lambda>j.
     wbind (audit env ''apply_stale_pre_dispatch_recovered'' u corr
       (job_fields j @ [(''apply_result'', JStr (state_value S_FAILED)),
         (''reason'', JStr ''Worker stopped before durable provider dispatch intent.'')])
       [(''redispatch_allowed'', JBool False)]) (\<lambda>_. commit))))))"

definition recover_attempted ::
  "apply_env \<Rightarrow> string \<Rightarrow> provider_write_attempt list \<Rightarrow> flowhub_user \<Rightarrow> string \<Rightarrow> unit wp" where
  "recover_attempted env jid attempts u corr =
     wbind (claim_job_lease env jid corr) (\<lambda>_.
     wbind (wfoldM (recover_attempt env jid u) ([], []) attempts) (\<lambda>(uncertain, verified').
     wbind (put_items (\<lambda>x. ai_apply_job_id x = jid \<and> ai_id x \<in> set uncertain) uncertain_item) (\<lambda>_.
     wbind (wget (apply_status_from_items jid)) (\<lambda>status.
     wbind (utcnow env) (\<lambda>now.
     wbind (put_job jid (\<lambda>j. (release_job j)\<lparr>aj_status := status, aj_heartbeat_at := Some now\<rparr>)) (\<lambda>_.
     wbind (if status \<noteq> S_RECONCILIATION_REQUIRED then
         wbind (put_job jid (\<lambda>j. j\<lparr>aj_completed_at := Some now\<rparr>)) (\<lambda>_. release_listing_locks jid)
       else wret ()) (\<lambda>_.
     wbind (read_job jid) (\<lambda>j.
     wbind (audit env ''apply_stale_running_recovered'' u corr
       (job_fields j @ [(''apply_result'', JStr (state_value status))])
       [(''uncertain_item_ids'', sorted_ids uncertain),
        (''recovered_verified_item_ids'', sorted_ids verified'),
        (''redispatch_allowed'', JBool False)]) (\<lambda>_. commit)))))))))"

definition recover_job_if_stale :: "apply_env \<Rightarrow> string \<Rightarrow> flowhub_user \<Rightarrow> string \<Rightarrow> bool wp" where
  "recover_job_if_stale env jid u corr =
     wbind (read_job jid) (\<lambda>j.
     wbind (utcnow env) (\<lambda>now.
     if \<not> is_stale now j then wret False else
     wbind (wget (job_attempts jid)) (\<lambda>attempts.
     wbind (if attempts = [] then recover_unattempted env jid u corr
            else recover_attempted env jid attempts u corr) (\<lambda>_. wret True))))"

definition stale_candidate :: "instant \<Rightarrow> apply_job \<Rightarrow> bool" where
  "stale_candidate now j \<longleftrightarrow> (let cutoff = now - minutes STALE_APPLY_MINUTES in
     aj_status j \<in> {S_PENDING, S_RUNNING} \<and>
     (case aj_lease_expires_at j of Some t \<Rightarrow> t < now
      | None \<Rightarrow> (case aj_heartbeat_at j of Some t \<Rightarrow> t < cutoff | None \<Rightarrow> aj_created_at j < cutoff)))"

definition recover_stale_applies :: "apply_env \<Rightarrow> flowhub_user \<Rightarrow> string \<Rightarrow> string list wp" where
  "recover_stale_applies env u corr =
     (if \<not> has_workspace_permission u ''apply.execute''
      then wraise (Http_error 403 ''Apply permission is required.'') else
      wbind (wget (\<lambda>db. sort (map aj_id (filter (stale_candidate (env_now (ae_provider env) db)) (wd_jobs db))))) (\<lambda>ids.
      wbind (wfoldM (\<lambda>acc jid. wbind (recover_job_if_stale env jid u corr) (\<lambda>done'.
        wret (if done' then acc @ [jid] else acc))) [] ids) (\<lambda>recovered'.
      wbind commit (\<lambda>_. wret recovered'))))"

section \<open>Reconciliation\<close>

definition workspace_for_user :: "string \<Rightarrow> flowhub_user \<Rightarrow> bool \<Rightarrow> workspace_row wp" where
  "workspace_for_user wid u edit =
     wbind (wget (\<lambda>db. get_row ws_id wid (wd_workspaces db))) (\<lambda>found. case found of
       None \<Rightarrow> wraise (Http_error 404 ''WORKSPACE_NOT_FOUND'')
     | Some ws \<Rightarrow>
         if ws_owner_user_id ws \<noteq> us_id u \<and> \<not> has_workspace_permission u ''workspace.admin''
         then wraise (Http_error 403 ''WORKSPACE_ACCESS_DENIED'')
         else if \<not> has_workspace_permission u (if edit then ''workspace.edit'' else ''workspace.read'')
         then wraise (Http_error 403 ''WORKSPACE_PERMISSION_DENIED'') else wret ws)"

definition last_attempt :: "string \<Rightarrow> string \<Rightarrow> write_db \<Rightarrow> provider_write_attempt option" where
  "last_attempt jid li db = max_by pa_attempt_number
     (filter (\<lambda>a. pa_apply_job_id a = Some jid \<and> pa_listing_id a = li) (wd_attempts db))"

definition intent_from_immutable_attempt :: "apply_env \<Rightarrow> string \<Rightarrow> string \<Rightarrow> workspace_write_intent wp" where
  "intent_from_immutable_attempt env jid li =
     wbind (wget (last_attempt jid li)) (\<lambda>found. case found of
       None \<Rightarrow> conflict ''APPLY_ATTEMPT_MISSING''
     | Some a \<Rightarrow>
         (case from_persisted_payload (env_py (ae_provider env)) (pa_normalized_payload a) of
            Inl _ \<Rightarrow> conflict ''APPLY_ATTEMPT_PAYLOAD_INVALID'' | Inr i \<Rightarrow> wret i))"

definition uncertain_items_of :: "string \<Rightarrow> write_db \<Rightarrow> apply_job_item list" where
  "uncertain_items_of jid db =
     filter (\<lambda>a. ai_apply_job_id a = jid \<and> ai_status a \<in> set uncertain_states) (wd_job_items db)"

definition record_reconciled ::
  "apply_env \<Rightarrow> string \<Rightarrow> review_item list \<Rightarrow> flowhub_user \<Rightarrow> nat \<Rightarrow> workspace_write_result \<Rightarrow> nat wp" where
  "record_reconciled env jid items u unresolved r =
     (let affected = affected_by items r in
      if wr_outcome r = W_VERIFIED_APPLIED
      then wbind (record_listing_success env jid r affected u) (\<lambda>_. wret unresolved)
      else wbind (record_listing_reconciliation env jid r affected u) (\<lambda>_.
        wret (unresolved + length affected)))"

definition set_draft_applied :: "string \<Rightarrow> unit wp" where
  "set_draft_applied wid = wbind (wget (for_workspace wid)) (\<lambda>found. case found of
     None \<Rightarrow> wret () | Some d \<Rightarrow> set_draft_status (dr_id d) ''applied'')"

definition finish_reconcile ::
  "apply_env \<Rightarrow> string \<Rightarrow> string \<Rightarrow> review_item list \<Rightarrow> flowhub_user \<Rightarrow> string
     \<Rightarrow> workspace_write_result list \<Rightarrow> apply_state wp" where
  "finish_reconcile env jid tok items u corr results =
     wbind (assert_job_lease jid corr tok) (\<lambda>_.
     wbind (wfoldM (record_reconciled env jid items u) 0 results) (\<lambda>unresolved.
     wbind (wget (apply_status_from_items jid)) (\<lambda>status.
     wbind (utcnow env) (\<lambda>now.
     wbind (put_job jid (\<lambda>j. j\<lparr>aj_status := status,
       aj_completed_at := (if status \<in> {S_APPLIED, S_PARTIALLY_APPLIED, S_FAILED} then Some now
         else aj_completed_at j)\<rparr>)) (\<lambda>_.
     wbind (read_job jid) (\<lambda>j.
     wbind (if status = S_APPLIED
            then wbind (set_draft_applied (aj_workspace_id j)) (\<lambda>_. release_listing_locks jid)
            else wret ()) (\<lambda>_.
     wbind (audit env (if unresolved = 0 then ''apply_reconciled'' else ''apply_reconciliation_pending'')
       u corr (job_fields j @ [(''apply_result'', JStr (state_value status))])
       [(''unresolved_count'', JInt (int unresolved))]) (\<lambda>_.
     wbind commit (\<lambda>_. wret status)))))))))"

definition reconcile_apply ::
  "apply_env \<Rightarrow> string \<Rightarrow> string \<Rightarrow> flowhub_user \<Rightarrow> string \<Rightarrow> apply_state wp" where
  "reconcile_apply env wid jid u corr =
     wbind (workspace_for_user wid u True) (\<lambda>ws.
     if \<not> has_workspace_permission u ''apply.execute''
     then wraise (Http_error 403 ''Apply permission is required.'') else
     wbind (wget (\<lambda>db. get_row aj_id jid (wd_jobs db))) (\<lambda>found. case found of
       None \<Rightarrow> wraise (Http_error 404 ''APPLY_NOT_FOUND'')
     | Some j0 \<Rightarrow>
     if aj_workspace_id j0 \<noteq> ws_id ws then wraise (Http_error 404 ''APPLY_NOT_FOUND'') else
     wbind (recover_job_if_stale env jid u corr) (\<lambda>_.
     wbind (read_job jid) (\<lambda>j.
     if aj_status j \<noteq> S_RECONCILIATION_REQUIRED then conflict ''APPLY_RECONCILIATION_NOT_REQUIRED'' else
     wbind (wget (uncertain_items_of jid)) (\<lambda>open'.
     if open' = [] then conflict ''APPLY_RECONCILIATION_EMPTY'' else
     wbind (wget (\<lambda>db. filter (\<lambda>it. ri_id it \<in> ai_review_item_id ` set open') (wd_review_items db))) (\<lambda>items.
     wbind (wmapM (intent_from_immutable_attempt env jid)
       (sort (remdups (map ri_listing_id items)))) (\<lambda>is.
     wbind (claim_job_lease env jid corr) (\<lambda>tok.
     wbind (put_items (\<lambda>a. ai_id a \<in> ai_id ` set open') (\<lambda>a. a\<lparr>ai_status := ''recovering''\<rparr>)) (\<lambda>_.
     wbind commit (\<lambda>_.
     wbind (read_job jid) (\<lambda>j.
     wbind (execute_workspace (ae_provider env) (apply_command j tok corr u is) True) (\<lambda>results.
     finish_reconcile env jid tok items u corr results))))))))))))"

end
