(* ===== verification/ApplySafety.thy ===== *)
theory ApplySafety
  imports ApplyJobs DispatchSafety
begin

text \<open>
  What the Apply job operations guarantee: Listing locks are acquired all or nothing and never taken
  from an unfinished job; recovery settles a stopped job without a provider call and fences its
  worker; the two computations of the final status agree. Two defects are proved as theorems: the
  handler of a failed dispatch overwrites a job that recovery took over, and reconciliation keeps the
  locks of a job that ends partially applied.
\<close>

section \<open>Running a step\<close>

lemma run_apply:
  "wrollback w = (Inr (), w\<lparr>session := committed w\<rparr>)"
  "conflict c w = (Inl (Http_error 409 c), w)"
  "wbind wrollback f6 w = f6 () (w\<lparr>session := committed w\<rparr>)"
  "wbind (conflict c) f7 w = (Inl (Http_error 409 c), w)"
  by (simp_all add: wbind_def wrollback_def conflict_def run_primitive)

lemmas run = run_primitive run_bind run_apply put_job_def utcnow_def now_and_id_def audit_def
  claim_job_lease_def read_job_def put_items_def release_listing_locks_def Let_def

section \<open>Frames\<close>

text \<open>\<^verbatim>\<open>keeps f m\<close>: running \<^verbatim>\<open>m\<close> does not change \<^verbatim>\<open>f\<close> of the world.\<close>

definition keeps :: "(world \<Rightarrow> 'v) \<Rightarrow> 'a wp \<Rightarrow> bool" where
  "keeps f m \<longleftrightarrow> (\<forall>w. f (snd (m w)) = f w)"

named_theorems frames \<open>operations that keep a part of the world\<close>

lemma keepsD: "keeps f m \<Longrightarrow> m w = (r, w') \<Longrightarrow> f w' = f w"
  by (metis keeps_def snd_conv)

lemma keeps_bind [frames]: "keeps f m \<Longrightarrow> (\<And>x. keeps f (g x)) \<Longrightarrow> keeps f (wbind m g)"
  unfolding keeps_def wbind_def by (auto split: prod.splits sum.splits) (metis snd_conv)+

lemma keeps_primitive [frames]:
  "keeps f (wret x)" "keeps f (wraise e)" "keeps f (wget g)" "keeps f (conflict c)"
  by (simp_all add: keeps_def run_primitive run_apply)

lemma keeps_lift [frames]: "keeps f (wlift err m)"
  by (simp add: keeps_def wlift_def split: sum.split)

lemma keeps_modify: "(\<And>w. f (w\<lparr>session := h (session w)\<rparr>) = f w) \<Longrightarrow> keeps f (wmodify h)"
  by (simp add: keeps_def run_primitive)

lemma keeps_foldM [frames]: "(\<And>s x. keeps f (g s x)) \<Longrightarrow> keeps f (wfoldM g s xs)"
  by (induction xs arbitrary: s) (auto intro: frames)

lemma keeps_mapM [frames]: "(\<And>x. keeps f (g x)) \<Longrightarrow> keeps f (wmapM g xs)"
  by (induction xs) (auto intro!: frames)

lemma keeps_fold_run:
  assumes "\<And>s x. keeps f (g s x)" and "wfoldM g s xs w = (r, w')"
  shows "f w' = f w"
  by (rule keepsD[of f "wfoldM g s xs" w r w', OF keeps_foldM assms(2)]) (rule assms(1))

text \<open>What the recording of outcomes leaves alone: all but items, cache and audit.\<close>

type_synonym core_view = "write_db \<times> provider_call list \<times> apply_job list \<times> workspace_lock list
  \<times> provider_write_attempt list \<times> attempt_event list \<times> listing_row list \<times> workspace_row list
  \<times> draft_row list"

definition core :: "world \<Rightarrow> core_view" where
  "core w = (committed w, calls w, wd_jobs (session w), wd_locks (session w), wd_attempts (session w),
     wd_attempt_events (session w), wd_listings (session w), wd_workspaces (session w),
     wd_drafts (session w))"

lemma keeps_audit [frames]: "keeps core (audit env t u corr cols md)"
  unfolding audit_def now_and_id_def Let_def
  by (intro frames, clarsimp) (intro keeps_modify, simp add: core_def)

lemma keeps_put_job_item [frames]: "keeps core (put_job_item jid rid f)"
  unfolding put_job_item_def
  by (intro frames, clarsimp split: option.split) (auto intro!: frames keeps_modify simp: core_def)

lemma keeps_put_items [frames]: "keeps core (put_items p f)"
  unfolding put_items_def by (intro keeps_modify) (simp add: core_def)

lemma keeps_read_job [frames]: "keeps f (read_job jid)"
  unfolding read_job_def by (intro frames, clarsimp split: option.split) (auto intro: frames)

lemma keeps_utcnow [frames]: "keeps f (utcnow env)"
  by (simp add: utcnow_def frames)

lemma keeps_record_items [frames]: "keeps core (record_items env jid u ev upd cols items)"
  unfolding record_items_def by (intro frames)

lemma keeps_patch_cache [frames]: "keeps core (patch_cache env jid r items)"
  unfolding patch_cache_def
  by (intro frames, clarsimp split: option.split prod.split)
    (auto intro!: frames keeps_modify simp: core_def)

lemma keeps_record_listing [frames]:
  "keeps core (record_listing_success env jid r items u)"
  "keeps core (record_listing_failure env jid r items u)"
  "keeps core (record_listing_reconciliation env jid r items u)"
  unfolding record_listing_success_def record_listing_failure_def record_listing_reconciliation_def
  by (intro frames)+

lemma keeps_record_outcome [frames]: "keeps core (record_outcome env jid items u acc r)"
  unfolding record_outcome_def Let_def
  by (cases acc) (auto intro!: frames split: prod.split)

lemma keeps_record_reconciled [frames]: "keeps core (record_reconciled env jid items u n r)"
  unfolding record_reconciled_def Let_def by (auto intro!: frames)

lemma keeps_recover_attempt [frames]: "keeps core (recover_attempt env jid u acc a)"
  unfolding recover_attempt_def Let_def
  by (cases acc) (auto intro!: frames split: option.split)

section \<open>The worker that was superseded\<close>

lemma wcatch_raise: "m w = (Inl e, w1) \<Longrightarrow> wcatch m h w = h e w1"
  by (simp add: wcatch_def)

lemma wcatch_return: "m w = (Inr x, w1) \<Longrightarrow> wcatch m h w = (Inr x, w1)"
  by (simp add: wcatch_def)

lemma run_read_job:
  "get_row aj_id jid (wd_jobs (session w)) = Some j \<Longrightarrow> read_job jid w = (Inr j, w)"
  by (simp add: read_job_def run)

lemma superseded_execute:
  assumes job: "get_row aj_id jid (wd_jobs (session w)) = Some j"
    and lease: "aj_lease_token j \<noteq> Some tok" "tok \<noteq> []"
    and intents: "is \<noteq> []" "wi_apply_job_id (hd is) = jid"
  shows "execute_workspace env (apply_command j tok corr u is) ro w = (Inl Worker_fenced, w)"
proof -
  have "\<not> fence_ok (apply_command j tok corr u is) (session w)"
    using assms by (simp add: fence_ok_def job_owned_def apply_command_def)
  then have "assert_workspace_fence (apply_command j tok corr u is) w = (Inl Worker_fenced, w)"
    by (simp add: assert_workspace_fence_def run)
  then show ?thesis by (simp add: execute_workspace_def Let_def wbind_raise)
qed

text \<open>
  The handler's comparison of fencing tokens never refuses: it compares a row with itself.
\<close>

lemma run_apply_failed:
  assumes job: "get_row aj_id jid (wd_jobs (committed w)) = Some j"
    and status: "status = (if was_dispatched jid (committed w) then S_RECONCILIATION_REQUIRED else S_FAILED)"
  obtains w' where "(apply_failed env jid u corr e :: unit wp) w = (Inl e, w')" "calls w' = calls w"
    "session w' = committed w'"
    "wd_jobs (committed w') = upd_row aj_id jid (\<lambda>j. j\<lparr>aj_status := status,
       aj_completed_at := Some (env_now (ae_provider env) (committed w))\<rparr>) (wd_jobs (committed w))"
    "wd_job_items (committed w') = wd_job_items (committed w)"
    "wd_workspaces (committed w') = wd_workspaces (committed w)"
proof
  let ?w = "snd ((apply_failed env jid u corr e :: unit wp) w)"
  show "(apply_failed env jid u corr e :: unit wp) w = (Inl e, ?w)" "calls ?w = calls w" "session ?w = committed ?w"
    "wd_jobs (committed ?w) = upd_row aj_id jid (\<lambda>j. j\<lparr>aj_status := status,
       aj_completed_at := Some (env_now (ae_provider env) (committed w))\<rparr>) (wd_jobs (committed w))"
    "wd_job_items (committed ?w) = wd_job_items (committed w)"
    "wd_workspaces (committed ?w) = wd_workspaces (committed w)"
    by (simp_all add: apply_failed_def run job status)
qed

definition may_apply :: "flowhub_user \<Rightarrow> string \<Rightarrow> write_db \<Rightarrow> bool" where
  "may_apply u wid db \<longleftrightarrow> (case get_row ws_id wid (wd_workspaces db) of None \<Rightarrow> False
     | Some ws \<Rightarrow> (ws_owner_user_id ws = us_id u \<or> has_workspace_permission u ''workspace.admin'') \<and>
         has_workspace_permission u ''workspace.edit'' \<and> has_workspace_permission u ''apply.execute'')"

lemma run_workspace_for_user:
  assumes "may_apply u wid (session w)"
  obtains ws where "workspace_for_user wid u True w = (Inr ws, w)" "ws_id ws = wid"
    "has_workspace_permission u ''apply.execute''"
  using assms by (auto simp: may_apply_def workspace_for_user_def run dest: get_row_Some
      split: option.splits if_splits)

lemma reconcile_empty:
  assumes job: "get_row aj_id jid (wd_jobs (session w)) = Some j"
    and status: "aj_status j = S_RECONCILIATION_REQUIRED"
    and none: "uncertain_items_of jid (session w) = []"
    and may: "may_apply u (aj_workspace_id j) (session w)"
  shows "reconcile_apply env (aj_workspace_id j) jid u corr w =
    (Inl (Http_error 409 ''APPLY_RECONCILIATION_EMPTY''), w)"
proof -
  obtain ws where ws: "workspace_for_user (aj_workspace_id j) u True w = (Inr ws, w)"
    "ws_id ws = aj_workspace_id j" "has_workspace_permission u ''apply.execute''"
    using may by (rule run_workspace_for_user)
  have stale: "recover_job_if_stale env jid u corr w = (Inr False, w)"
    by (simp add: recover_job_if_stale_def run job is_stale_def status)
  show ?thesis
    unfolding reconcile_apply_def
    by (simp add: wbind_run[of "workspace_for_user (aj_workspace_id j) u True" w ws w] ws
        wbind_run[of "recover_job_if_stale env jid u corr" w False w] stale run job status none)
qed


section \<open>Locks\<close>

definition locks_ok :: "write_db \<Rightarrow> bool" where
  "locks_ok db \<longleftrightarrow> distinct (map lock_scope (wd_locks db)) \<and> distinct (map lk_id (wd_locks db))"

text \<open>A scope may be locked: nobody holds it, or the lock has expired and its job is finished.\<close>

definition free_scope :: "instant \<Rightarrow> write_db \<Rightarrow> string \<times> string \<Rightarrow> bool" where
  "free_scope now db s \<longleftrightarrow> (case find_lock s db of None \<Rightarrow> True
     | Some l \<Rightarrow> lk_expires_at l \<le> now \<and> \<not> owner_unfinished l db)"

definition locked_by :: "string \<Rightarrow> instant \<Rightarrow> write_db \<Rightarrow> string \<times> string \<Rightarrow> bool" where
  "locked_by jid until db s \<longleftrightarrow> (case find_lock s db of None \<Rightarrow> False
     | Some l \<Rightarrow> lk_apply_job_id l = jid \<and> lk_expires_at l = until)"

text \<open>\<^verbatim>\<open>uuid4\<close> does not repeat an identifier already in use.\<close>

definition fresh_lock_ids :: "apply_env \<Rightarrow> bool" where
  "fresh_lock_ids env \<longleftrightarrow> (\<forall>db. env_uuid (ae_provider env) db \<notin> lk_id ` set (wd_locks db))"

lemma get_row_iff: "distinct (map key t) \<Longrightarrow> get_row key k t = Some r \<longleftrightarrow> r \<in> set t \<and> key r = k"
  by (auto dest: get_row_Some intro: get_row_distinct)

lemma get_row_filter:
  assumes "distinct (map key t)"
  shows "get_row key k (filter P t) = (case get_row key k t of None \<Rightarrow> None
    | Some r \<Rightarrow> if P r then Some r else None)"
proof -
  have d: "distinct (map key (filter P t))" using assms by (simp add: distinct_map_filter)
  show ?thesis
  proof (cases "get_row key k t")
    case None
    then have "get_row key k (filter P t) = None" by (auto simp: get_row_None)
    with None show ?thesis by simp
  next
    case (Some r)
    then have r: "r \<in> set t" "key r = k" by (auto dest: get_row_Some)
    show ?thesis
    proof (cases "P r")
      case True
      with r have "get_row key k (filter P t) = Some r" by (simp add: get_row_iff[OF d])
      with True Some show ?thesis by simp
    next
      case False
      have "x = r" if "x \<in> set t" "key x = k" for x
        using that Some get_row_distinct[OF assms that(1)] by simp
      with False have "get_row key k (filter P t) = None" by (auto simp: get_row_None)
      with False Some show ?thesis by simp
    qed
  qed
qed

lemma filter_id:
  assumes "distinct (map lk_id t)" "l \<in> set t"
  shows "filter (\<lambda>l'. lk_id l' \<noteq> lk_id l) t = filter (\<lambda>l'. l' \<noteq> l) t"
  using assms by (intro filter_cong) (auto simp: distinct_map inj_on_def)

lemma find_lock_delete:
  assumes "locks_ok db" "find_lock s db = Some l"
  shows "find_lock s' (db\<lparr>wd_locks := filter (\<lambda>l'. lk_id l' \<noteq> lk_id l) (wd_locks db)\<rparr>) =
    (if s' = s then None else find_lock s' db)"
proof -
  from assms(2) have l: "l \<in> set (wd_locks db)" "lock_scope l = s"
    by (auto simp: find_lock_def dest: get_row_Some)
  with assms(1) show ?thesis using assms(2)
    by (auto simp: locks_ok_def find_lock_def filter_id get_row_filter dest: get_row_Some split: option.split)
qed

lemma find_lock_insert:
  "find_lock s (db\<lparr>wd_locks := wd_locks db @ [l]\<rparr>) =
    (case find_lock s db of None \<Rightarrow> if lock_scope l = s then Some l else None | Some l' \<Rightarrow> Some l')"
  by (simp add: find_lock_def get_row_append split: option.split)

lemma locks_ok_delete: "locks_ok db \<Longrightarrow> locks_ok (db\<lparr>wd_locks := filter P (wd_locks db)\<rparr>)"
  by (simp add: locks_ok_def distinct_map_filter)

lemma locks_ok_insert:
  "locks_ok db \<Longrightarrow> find_lock (lock_scope l) db = None \<Longrightarrow> lk_id l \<notin> lk_id ` set (wd_locks db) \<Longrightarrow>
    locks_ok (db\<lparr>wd_locks := wd_locks db @ [l]\<rparr>)"
  by (auto simp: locks_ok_def find_lock_def get_row_None)

text \<open>The loop: the scopes processed so far are locked, the others are as they were.\<close>

definition locking ::
  "string \<Rightarrow> instant \<Rightarrow> world \<Rightarrow> (string \<times> string) list \<Rightarrow> world \<Rightarrow> bool" where
  "locking jid now w0 pre w \<longleftrightarrow> committed w = committed w0 \<and> calls w = calls w0 \<and>
     session w = (committed w0)\<lparr>wd_locks := wd_locks (session w)\<rparr> \<and> locks_ok (session w) \<and>
     (\<forall>s \<in> set pre. free_scope now (committed w0) s \<and>
        locked_by jid (now + minutes LOCK_MINUTES) (session w) s) \<and>
     (\<forall>s. s \<notin> set pre \<longrightarrow> find_lock s (session w) = find_lock s (committed w0))"

definition untouched :: "world \<Rightarrow> world \<Rightarrow> bool" where
  "untouched w0 w \<longleftrightarrow> committed w = committed w0 \<and> calls w = calls w0"

lemma owner_unfinished_locks [simp]: "owner_unfinished l (db\<lparr>wd_locks := x\<rparr>) = owner_unfinished l db"
  by (simp add: owner_unfinished_def)

lemma locking_reclaim:
  assumes inv: "locking jid now w0 pre w"
  shows "case reclaim_lock now s w of (Inl e, w') \<Rightarrow> untouched w0 w'
    | (Inr _, w') \<Rightarrow> locking jid now w0 pre (w'\<lparr>session := session w\<rparr>) \<and> s \<notin> set pre \<and>
        session w' = (committed w0)\<lparr>wd_locks := wd_locks (session w')\<rparr> \<and> locks_ok (session w') \<and>
        free_scope now (committed w0) s \<and> find_lock s (session w') = None \<and>
        (\<forall>s'. s' \<noteq> s \<longrightarrow> find_lock s' (session w') = find_lock s' (session w))"
proof (cases "find_lock s (session w)")
  case None
  have "s \<notin> set pre"
  proof
    assume "s \<in> set pre"
    with inv have "locked_by jid (now + minutes LOCK_MINUTES) (session w) s" by (simp add: locking_def)
    with None show False by (simp add: locked_by_def)
  qed
  moreover from this None inv have "find_lock s (committed w0) = None"
    by (metis locking_def)
  ultimately show ?thesis using None inv
    by (simp add: reclaim_lock_def run locking_def free_scope_def)
next
  case (Some l)
  show ?thesis
  proof (cases "lk_expires_at l > now")
    case True
    with Some inv show ?thesis by (simp add: reclaim_lock_def run locking_def untouched_def)
  next
    case False
    have pre: "s \<notin> set pre"
    proof
      assume "s \<in> set pre"
      with inv have "locked_by jid (now + minutes LOCK_MINUTES) (session w) s" by (simp add: locking_def)
      with Some False show False
        by (simp add: locked_by_def LOCK_MINUTES_def minutes_def seconds_def)
    qed
    have ok: "locks_ok (session w)" and ses: "session w = (committed w0)\<lparr>wd_locks := wd_locks (session w)\<rparr>"
      using inv by (simp_all add: locking_def)
    have old: "find_lock s (committed w0) = Some l" using inv pre Some by (metis locking_def)
    have own: "owner_unfinished l (session w) = owner_unfinished l (committed w0)"
      by (subst ses) simp
    show ?thesis
    proof (cases "owner_unfinished l (committed w0)")
      case True
      with Some False own inv show ?thesis
        by (simp add: reclaim_lock_def run locking_def untouched_def)
    next
      case free: False
      let ?db = "(session w)\<lparr>wd_locks := filter (\<lambda>l'. lk_id l' \<noteq> lk_id l) (wd_locks (session w))\<rparr>"
      have run: "reclaim_lock now s w = (Inr (), w\<lparr>session := ?db\<rparr>)"
        using Some False free own by (simp add: reclaim_lock_def run delete_lock_def)
      have "?db = (committed w0)\<lparr>wd_locks := wd_locks ?db\<rparr>" by (subst ses) simp
      moreover have "locks_ok ?db" by (rule locks_ok_delete[OF ok])
      moreover have "find_lock s' ?db = (if s' = s then None else find_lock s' (session w))" for s'
        by (rule find_lock_delete[OF ok Some])
      moreover have "free_scope now (committed w0) s" using free False old by (simp add: free_scope_def)
      ultimately show ?thesis unfolding run using inv pre by simp
    qed
  qed
qed

lemma locking_insert:
  assumes fresh: "fresh_lock_ids env" and pre: "s \<notin> set pre"
    and frame: "committed w1 = committed w0" "calls w1 = calls w0"
      "session w1 = (committed w0)\<lparr>wd_locks := wd_locks (session w1)\<rparr>" "locks_ok (session w1)"
    and free: "free_scope now (committed w0) s" "find_lock s (session w1) = None"
    and locked: "\<forall>s' \<in> set pre. free_scope now (committed w0) s' \<and>
      locked_by jid (now + minutes LOCK_MINUTES) (session w1) s'"
    and others: "\<forall>s'. s' \<notin> set pre \<and> s' \<noteq> s \<longrightarrow> find_lock s' (session w1) = find_lock s' (committed w0)"
    and l: "lock_scope l = s" "lk_id l = env_uuid (ae_provider env) (session w1)"
      "lk_apply_job_id l = jid" "lk_expires_at l = now + minutes LOCK_MINUTES"
  shows "\<exists>w'. insert_lock l w1 = (Inr (), w') \<and> locking jid now w0 (pre @ [s]) w'"
proof -
  let ?db = "(session w1)\<lparr>wd_locks := wd_locks (session w1) @ [l]\<rparr>"
  have run: "insert_lock l w1 = (Inr (), w1\<lparr>session := ?db\<rparr>)"
    using free(2) l(1) by (simp add: insert_lock_def run)
  have "locks_ok ?db"
    using fresh free(2) l by (intro locks_ok_insert[OF frame(4)]) (simp_all add: fresh_lock_ids_def)
  moreover have "?db = (committed w0)\<lparr>wd_locks := wd_locks ?db\<rparr>" by (subst frame(3)) simp
  moreover have "locked_by jid (now + minutes LOCK_MINUTES) ?db s' \<and> free_scope now (committed w0) s'"
    if "s' \<in> set (pre @ [s])" for s'
  proof (cases "s' = s")
    case True
    with free l show ?thesis by (simp add: locked_by_def find_lock_insert)
  next
    case False
    with that locked have "locked_by jid (now + minutes LOCK_MINUTES) (session w1) s'"
      "free_scope now (committed w0) s'" by auto
    then show ?thesis unfolding locked_by_def find_lock_insert by (cases "find_lock s' (session w1)") auto
  qed
  moreover have "find_lock s' ?db = find_lock s' (committed w0)" if "s' \<notin> set (pre @ [s])" for s'
  proof -
    have "s' \<notin> set pre" "s' \<noteq> s" using that by auto
    with others have "find_lock s' (session w1) = find_lock s' (committed w0)" by blast
    then show ?thesis using \<open>s' \<noteq> s\<close> l(1)
      by (simp add: find_lock_insert split: option.split)
  qed
  ultimately have "locking jid now w0 (pre @ [s]) (w1\<lparr>session := ?db\<rparr>)"
    using frame(1,2) unfolding locking_def by simp
  with run show ?thesis by blast
qed

lemma lock_listing_step:
  assumes fresh: "fresh_lock_ids env" and inv: "locking jid now w0 pre w"
  shows "case lock_listing env wid jid now listings u s w of (Inl e, w') \<Rightarrow> untouched w0 w'
    | (Inr _, w') \<Rightarrow> locking jid now w0 (pre @ [s]) w'"
proof -
  obtain ch li where s: "s = (ch, li)" by (cases s)
  have un: "untouched w0 w" using inv by (simp add: locking_def untouched_def)
  show ?thesis
  proof (cases "get_row li_id li listings")
    case None
    with un show ?thesis by (simp add: lock_listing_def s run)
  next
    case (Some row)
    show ?thesis
    proof (cases "li_channel_id row = ch")
      case False
      with un Some show ?thesis by (simp add: lock_listing_def s run)
    next
      case True
      note rec = locking_reclaim[OF inv, of s]
      show ?thesis
      proof (cases "reclaim_lock now s w")
        case (Pair r w1)
        show ?thesis
        proof (cases r)
          case (Inl e)
          with rec Pair have "untouched w0 w1" by simp
          with Inl Pair Some True show ?thesis by (simp add: lock_listing_def s wbind_raise)
        next
          case (Inr v)
          let ?l = "\<lparr>lk_id = env_uuid (ae_provider env) (session w1), lk_workspace_id = wid,
            lk_channel_id = ch, lk_listing_id = li, lk_apply_job_id = jid, lk_acquired_at = now,
            lk_expires_at = now + minutes LOCK_MINUTES\<rparr>"
          from rec Pair Inr have r: "locking jid now w0 pre (w1\<lparr>session := session w\<rparr>)" "s \<notin> set pre"
            "session w1 = (committed w0)\<lparr>wd_locks := wd_locks (session w1)\<rparr>" "locks_ok (session w1)"
            "free_scope now (committed w0) s" "find_lock s (session w1) = None"
            and same: "\<And>s'. s' \<noteq> s \<Longrightarrow> find_lock s' (session w1) = find_lock s' (session w)"
            by auto
          have c: "committed w1 = committed w0" "calls w1 = calls w0"
            using r(1) by (simp_all add: locking_def)
          have keep: "\<forall>s' \<in> set pre. free_scope now (committed w0) s' \<and>
              locked_by jid (now + minutes LOCK_MINUTES) (session w1) s'"
          proof
            fix s' assume p: "s' \<in> set pre"
            with r(2) have "s' \<noteq> s" by auto
            then have "locked_by jid (now + minutes LOCK_MINUTES) (session w1) s' =
                locked_by jid (now + minutes LOCK_MINUTES) (session w) s'"
              by (simp add: locked_by_def same)
            with p inv show "free_scope now (committed w0) s' \<and>
                locked_by jid (now + minutes LOCK_MINUTES) (session w1) s'"
              by (simp add: locking_def)
          qed
          have rest: "\<forall>s'. s' \<notin> set pre \<and> s' \<noteq> s \<longrightarrow>
              find_lock s' (session w1) = find_lock s' (committed w0)"
            using inv by (simp add: locking_def same del: split_paired_All)
          obtain w' where w': "insert_lock ?l w1 = (Inr (), w')"
            "locking jid now w0 (pre @ [s]) w'"
            using locking_insert[OF fresh r(2) c r(3-6) keep rest, of ?l] by (auto simp: lock_scope_def s)
          have "lock_listing env wid jid now listings u s w = insert_lock ?l w1"
            using Some True Pair Inr by (simp add: lock_listing_def s wbind_def[of "reclaim_lock now (ch, li)"] run)
          with w' show ?thesis by simp
        qed
      qed
    qed
  qed
qed

lemma lock_loop:
  fixes u :: unit
  assumes fresh: "fresh_lock_ids env" and inv: "locking jid now w0 pre w"
  shows "case wfoldM (lock_listing env wid jid now listings) u ss w of (Inl e, w') \<Rightarrow> untouched w0 w'
    | (Inr _, w') \<Rightarrow> locking jid now w0 (pre @ ss) w'"
  using inv
proof (induction ss arbitrary: pre w u)
  case Nil
  then show ?case by (simp add: run)
next
  case (Cons s ss)
  note step = lock_listing_step[OF fresh Cons.prems, where wid = wid and listings = listings and u = u and s = s]
  show ?case
  proof (cases "lock_listing env wid jid now listings u s w")
    case (Pair r w1)
    show ?thesis
    proof (cases r)
      case (Inl e)
      with step Pair show ?thesis by (simp add: wbind_def)
    next
      case (Inr v)
      with step Pair have "locking jid now w0 (pre @ [s]) w1" by simp
      from Cons.IH[OF this, where u = v, unfolded append.assoc append_Cons append_Nil] Pair Inr
      show ?thesis by (simp add: wbind_def)
    qed
  qed
qed

text \<open>Listing locks are acquired all or nothing. A refusal leaves the database as it was. On success
  every requested Listing is locked by the job for fifteen minutes, each was unlocked or held by an
  expired lock of a finished job, and every other lock is untouched; there is never more than one
  lock per Channel and Listing. So an unfinished job keeps its locks, expired or not.\<close>

theorem acquire_all_or_nothing:
  assumes "fresh_lock_ids env" and "session w = committed w" and "locks_ok (committed w)"
  shows "case acquire_listing_locks env wid jid scopes w of (Inl e, w') \<Rightarrow> w' = w
    | (Inr _, w') \<Rightarrow> calls w' = calls w \<and> session w' = committed w' \<and> locks_ok (committed w') \<and>
        committed w' = (committed w)\<lparr>wd_locks := wd_locks (committed w')\<rparr> \<and>
        (\<forall>s. if s \<in> set scopes
             then free_scope (env_now (ae_provider env) (committed w)) (committed w) s \<and>
               locked_by jid (env_now (ae_provider env) (committed w) + minutes LOCK_MINUTES) (committed w') s
             else find_lock s (committed w') = find_lock s (committed w))"
proof -
  let ?now = "env_now (ae_provider env) (committed w)"
  let ?listings = "filter (\<lambda>l. li_id l \<in> snd ` set scopes) (wd_listings (committed w))"
  let ?loop = "wfoldM (lock_listing env wid jid ?now ?listings) () (sort scopes) w"
  have inv: "locking jid ?now w [] w" using assms by (simp add: locking_def)
  note loop = lock_loop[OF assms(1) inv, where wid = wid and listings = ?listings and u = "()" and ss = "sort scopes"]
  obtain r w1 where r: "?loop = (r, w1)" by (cases ?loop)
  show ?thesis
  proof (cases r)
    case (Inl e)
    with loop r have "untouched w w1" by simp
    with assms(2) have "w1\<lparr>session := committed w1\<rparr> = w" by (simp add: untouched_def)
    then show ?thesis using r Inl assms(2)
      by (simp add: acquire_listing_locks_def run wcatch_def wbind_raise)
  next
    case (Inr v)
    with loop r have "locking jid ?now w (sort scopes) w1" by simp
    then show ?thesis using r Inr assms(2)
      by (simp add: acquire_listing_locks_def run wcatch_def locking_def
          wbind_def[of "wfoldM f s xs" for f s xs])
  qed
qed

section \<open>Reconciliation and locks\<close>

lemma run_record_reconciled:
  assumes "wfoldM (record_reconciled env jid items u) n rs w = (r, w')"
  shows "core w' = core w"
  by (rule keeps_fold_run[OF keeps_record_reconciled assms])

lemma run_set_draft_applied:
  "\<exists>ds. \<forall>w. set_draft_applied wid w = (Inr (), w\<lparr>session := (session w)\<lparr>wd_drafts := ds w\<rparr>\<rparr>)"
proof (intro exI allI)
  fix w
  show "set_draft_applied wid w = (Inr (), w\<lparr>session := (session w)\<lparr>wd_drafts :=
    (case for_workspace wid (session w) of None \<Rightarrow> wd_drafts (session w)
     | Some d \<Rightarrow> upd_row dr_id (dr_id d) (\<lambda>d. d\<lparr>dr_status := ''applied''\<rparr>) (wd_drafts (session w)))\<rparr>\<rparr>)"
    by (simp add: set_draft_applied_def set_draft_status_def run split: option.split)
qed

lemma finish_reconcile_result:
  assumes "finish_reconcile env jid tok items u corr rs w = (Inr s, w')"
  shows "session w' = committed w'" "calls w' = calls w"
    "wd_listings (committed w') = wd_listings (session w)"
    "wd_locks (committed w') = (if s = S_APPLIED
       then filter (\<lambda>l. lk_apply_job_id l \<noteq> jid) (wd_locks (session w)) else wd_locks (session w))"
    "\<exists>j. get_row aj_id jid (wd_jobs (session w)) = Some j \<and> (\<exists>t. get_row aj_id jid (wd_jobs (committed w')) =
       Some (j\<lparr>aj_status := s, aj_completed_at := (if s \<in> {S_APPLIED, S_PARTIALLY_APPLIED, S_FAILED}
         then Some t else aj_completed_at j)\<rparr>))"
proof -
  from assms obtain x w1 where lease: "assert_job_lease jid corr tok w = (Inr x, w1)"
    and fold: "\<exists>n w2. wfoldM (record_reconciled env jid items u) 0 rs w1 = (Inr n, w2)"
    by (auto simp: finish_reconcile_def wbind_returns)
  from lease have w1: "w1 = w" and own: "holds_lease jid corr tok (session w)"
    by (auto simp: assert_job_lease_def run split: if_splits)
  from fold w1 obtain n w2 where f: "wfoldM (record_reconciled env jid items u) 0 rs w = (Inr n, w2)" by blast
  from own obtain j where j: "get_row aj_id jid (wd_jobs (session w)) = Some j"
    by (auto simp: holds_lease_def split: option.splits)
  from run_record_reconciled[OF f] have core: "calls w2 = calls w" "wd_jobs (session w2) = wd_jobs (session w)"
    "wd_locks (session w2) = wd_locks (session w)" "wd_listings (session w2) = wd_listings (session w)"
    by (simp_all add: core_def)
  note l = wbind_run[of "assert_job_lease jid corr tok" w x w, OF lease[unfolded w1]]
  note f' = wbind_run[of "wfoldM (record_reconciled env jid items u) 0 rs" w n w2, OF f]
  note rest = assms[unfolded finish_reconcile_def l f']
  let ?s = "apply_status_from_items jid (session w2)"
  let ?now = "env_now (ae_provider env) (session w2)"
  let ?jobs = "upd_row aj_id jid (\<lambda>j. j\<lparr>aj_status := ?s, aj_completed_at :=
    (if ?s \<in> {S_APPLIED, S_PARTIALLY_APPLIED, S_FAILED} then Some ?now else aj_completed_at j)\<rparr>) (wd_jobs (session w))"
  have "s = ?s \<and> session w' = committed w' \<and> calls w' = calls w \<and>
      wd_listings (committed w') = wd_listings (session w) \<and> wd_jobs (committed w') = ?jobs \<and>
      wd_locks (committed w') = (if ?s = S_APPLIED
        then filter (\<lambda>l. lk_apply_job_id l \<noteq> jid) (wd_locks (session w)) else wd_locks (session w))"
  proof (cases "?s = S_APPLIED")
    case True
    obtain ds where "set_draft_applied (aj_workspace_id j) w3 = (Inr (), w3\<lparr>session := (session w3)\<lparr>wd_drafts := ds w3\<rparr>\<rparr>)" for w3
      using run_set_draft_applied by metis
    with rest True show ?thesis by (auto simp: run core j table_simps wbind_def[of "set_draft_applied x" for x])
  next
    case False
    with rest show ?thesis by (auto simp: run core j table_simps)
  qed
  then show "session w' = committed w'" "calls w' = calls w"
    "wd_listings (committed w') = wd_listings (session w)"
    "wd_locks (committed w') = (if s = S_APPLIED
       then filter (\<lambda>l. lk_apply_job_id l \<noteq> jid) (wd_locks (session w)) else wd_locks (session w))"
    "\<exists>j. get_row aj_id jid (wd_jobs (session w)) = Some j \<and> (\<exists>t. get_row aj_id jid (wd_jobs (committed w')) =
       Some (j\<lparr>aj_status := s, aj_completed_at := (if s \<in> {S_APPLIED, S_PARTIALLY_APPLIED, S_FAILED}
         then Some t else aj_completed_at j)\<rparr>))"
    by (simp_all add: table_simps j exI[of _ ?now])
qed

text \<open>C17: reconciliation releases the locks only of a job that ends fully applied. A job that ends
  partially applied or failed is completed, yet its locks stay, and the guard of mapping and cache
  writers refuses those Listings at any later time, because it ignores the expiry and the state of
  the owner.\<close>

theorem reconcile_keeps_locks:
  assumes "finish_reconcile env jid tok items u corr rs w = (Inr s, w')" and "s \<noteq> S_APPLIED"
    and "locks_ok (session w)" and "l \<in> set (wd_locks (session w))" and "lk_apply_job_id l = jid"
    and "li \<in> set (wd_listings (session w))" and "(li_channel_id li, li_id li) = lock_scope l"
  shows "acquire_listing_guard (li_channel_id li) (li_id li) w' =
      (Inl (Guard_conflict (li_channel_id li) (li_id li) jid), w') \<and>
    map_option aj_status (get_row aj_id jid (wd_jobs (committed w'))) = Some s"
proof -
  note res = finish_reconcile_result[OF assms(1)]
  have locks: "wd_locks (session w') = wd_locks (session w)" and lis: "wd_listings (session w') = wd_listings (session w)"
    using res(1,3,4) assms(2) by simp_all
  have lock: "find_lock (lock_scope l) (session w') = Some l"
    using assms(3,4) by (simp add: find_lock_def locks locks_ok_def get_row_distinct)
  have "\<exists>x. List.find (\<lambda>x. li_id x = li_id li \<and> li_channel_id x = li_channel_id li) (wd_listings (session w')) = Some x"
    using assms(6) unfolding lis by (cases "List.find (\<lambda>x. li_id x = li_id li \<and> li_channel_id x = li_channel_id li)
      (wd_listings (session w))") (auto simp: find_None_iff)
  then have "acquire_listing_guard (li_channel_id li) (li_id li) w' =
      (Inl (Guard_conflict (li_channel_id li) (li_id li) jid), w')"
    using lock assms(5) by (auto simp: acquire_listing_guard_def run assms(7))
  with res(5) show ?thesis by auto
qed

section \<open>Recovery\<close>

definition uncertain_attempt :: "string \<Rightarrow> write_db \<Rightarrow> bool" where
  "uncertain_attempt aid db \<longleftrightarrow> (case latest_event aid db of None \<Rightarrow> False
     | Some e \<Rightarrow> ve_outcome e \<in> set uncertain_outcomes)"

lemma recover_attempt_collects:
  assumes "recover_attempt env jid u (unc, ver) a w = (Inr (unc', ver'), w')"
  shows "set unc \<subseteq> set unc'"
    "uncertain_attempt (pa_id a) (session w) \<Longrightarrow>
       attempt_item_ids (env_py (ae_provider env)) (pa_normalized_payload a) = Inr ids \<Longrightarrow> set ids \<subseteq> set unc'"
proof -
  obtain ids' where "attempt_item_ids (env_py (ae_provider env)) (pa_normalized_payload a) = Inr ids'"
    using assms by (auto simp: recover_attempt_def run wbind_returns wlift_def split: sum.splits)
  then show "set unc \<subseteq> set unc'"
    "uncertain_attempt (pa_id a) (session w) \<Longrightarrow>
       attempt_item_ids (env_py (ae_provider env)) (pa_normalized_payload a) = Inr ids \<Longrightarrow> set ids \<subseteq> set unc'"
    using assms
    by (auto simp: recover_attempt_def run wbind_returns wlift_def uncertain_attempt_def
        uncertain_outcomes_def split: option.splits if_splits)
qed

lemma recover_loop:
  assumes "wfoldM (recover_attempt env jid u) acc as w = (Inr acc', w')"
  shows "core w' = core w" "set (fst acc) \<subseteq> set (fst acc')"
    "a \<in> set as \<Longrightarrow> uncertain_attempt (pa_id a) (session w) \<Longrightarrow>
       attempt_item_ids (env_py (ae_provider env)) (pa_normalized_payload a) = Inr ids \<Longrightarrow>
       set ids \<subseteq> set (fst acc')"
proof -
  show "core w' = core w" by (rule keeps_fold_run[OF keeps_recover_attempt assms])
  have "set (fst acc) \<subseteq> set (fst acc') \<and> (\<forall>a ids. a \<in> set as \<longrightarrow> uncertain_attempt (pa_id a) (session w) \<longrightarrow>
      attempt_item_ids (env_py (ae_provider env)) (pa_normalized_payload a) = Inr ids \<longrightarrow>
      set ids \<subseteq> set (fst acc'))"
    using assms
  proof (induction as arbitrary: acc w)
    case Nil
    then show ?case by (simp add: run)
  next
    case (Cons b bs)
    obtain unc ver where acc: "acc = (unc, ver)" by (cases acc)
    from Cons.prems obtain unc1 ver1 w1 where s: "recover_attempt env jid u (unc, ver) b w = (Inr (unc1, ver1), w1)"
      and r: "wfoldM (recover_attempt env jid u) (unc1, ver1) bs w1 = (Inr acc', w')"
      by (auto simp: wbind_returns acc)
    have c: "core w1 = core w" by (rule keepsD[OF keeps_recover_attempt s])
    then have same: "uncertain_attempt x (session w1) = uncertain_attempt x (session w)" for x
      by (simp add: core_def uncertain_attempt_def latest_event_def)
    note first = recover_attempt_collects[OF s]
    from Cons.IH[OF r] first(1) acc have mono: "set (fst acc) \<subseteq> set (fst acc')"
      "set unc1 \<subseteq> set (fst acc')" by auto
    moreover have "set ids \<subseteq> set (fst acc')" if "a \<in> set (b # bs)"
      "uncertain_attempt (pa_id a) (session w)"
      "attempt_item_ids (env_py (ae_provider env)) (pa_normalized_payload a) = Inr ids" for a ids
    proof (cases "a = b")
      case True
      with first(2) that mono(2) show ?thesis by blast
    next
      case False
      with that Cons.IH[OF r] show ?thesis by (auto simp: same)
    qed
    ultimately show ?case by blast
  qed
  then show "set (fst acc) \<subseteq> set (fst acc')"
    "a \<in> set as \<Longrightarrow> uncertain_attempt (pa_id a) (session w) \<Longrightarrow>
       attempt_item_ids (env_py (ae_provider env)) (pa_normalized_payload a) = Inr ids \<Longrightarrow>
       set ids \<subseteq> set (fst acc')"
    by blast+
qed

text \<open>What a settled job looks like, against the database before the recovery.\<close>

definition settled :: "string \<Rightarrow> apply_job \<Rightarrow> world \<Rightarrow> apply_state \<Rightarrow> world \<Rightarrow> bool" where
  "settled jid j w status w' \<longleftrightarrow> session w' = committed w' \<and> calls w' = calls w \<and>
     wd_attempts (committed w') = wd_attempts (session w) \<and>
     wd_attempt_events (committed w') = wd_attempt_events (session w) \<and>
     (\<exists>j'. get_row aj_id jid (wd_jobs (committed w')) = Some j' \<and> aj_status j' = status \<and>
        aj_fencing_token j' = aj_fencing_token j + 1 \<and>
        (status \<noteq> S_RECONCILIATION_REQUIRED \<longrightarrow> aj_completed_at j' \<noteq> None)) \<and>
     wd_locks (committed w') = (if status = S_RECONCILIATION_REQUIRED then wd_locks (session w)
       else filter (\<lambda>l. lk_apply_job_id l \<noteq> jid) (wd_locks (session w)))"

lemma recover_unattempted_settles:
  assumes "get_row aj_id jid (wd_jobs (session w)) = Some j"
    and "recover_unattempted env jid u corr w = (Inr v, w')"
  shows "settled jid j w S_FAILED w'"
  using assms by (auto simp: recover_unattempted_def run table_simps settled_def)

lemma run_put_job: "put_job jid f w = (Inr (), w\<lparr>session := (session w)\<lparr>wd_jobs := upd_row aj_id jid f (wd_jobs (session w))\<rparr>\<rparr>)"
  by (simp add: put_job_def run_primitive)

lemma status_of_frame [simp]:
  "apply_status_from_items jid (db\<lparr>wd_jobs := x\<rparr>) = apply_status_from_items jid db"
  "apply_status_from_items jid (db\<lparr>wd_locks := y\<rparr>) = apply_status_from_items jid db"
  "apply_status_from_items jid (db\<lparr>wd_audit := z\<rparr>) = apply_status_from_items jid db"
  by (simp_all add: apply_status_from_items_def apply_items_def)

lemma uncertain_item_frame [simp]:
  "ai_apply_job_id (uncertain_item a) = ai_apply_job_id a" "ai_id (uncertain_item a) = ai_id a"
  by (simp_all add: uncertain_item_def)

lemma recover_attempted_settles:
  assumes j: "get_row aj_id jid (wd_jobs (session w)) = Some j"
    and rec: "recover_attempted env jid as u corr w = (Inr v, w')"
  shows "settled jid j w (apply_status_from_items jid (committed w')) w'"
    and "a \<in> set as \<Longrightarrow> uncertain_attempt (pa_id a) (session w) \<Longrightarrow>
       attempt_item_ids (env_py (ae_provider env)) (pa_normalized_payload a) = Inr ids \<Longrightarrow>
       x \<in> set (wd_job_items (committed w')) \<Longrightarrow> ai_apply_job_id x = jid \<Longrightarrow> ai_id x \<in> set ids \<Longrightarrow>
       ai_status x \<in> {''applied'', ''failed'', ''cancelled'', ''reconciliation_required''}"
proof -
  let ?w1 = "w\<lparr>session := (session w)\<lparr>wd_jobs := upd_row aj_id jid (\<lambda>j. j\<lparr>aj_worker_id := Some corr,
    aj_lease_token := Some (lease_token corr (env_uuid (ae_provider env) (session w))),
    aj_fencing_token := aj_fencing_token j + 1,
    aj_lease_expires_at := Some (env_now (ae_provider env) (session w) + minutes (STALE_APPLY_MINUTES * 2)),
    aj_recovery_attempts := aj_recovery_attempts j + 1\<rparr>) (wd_jobs (session w))\<rparr>\<rparr>"
  have claim: "claim_job_lease env jid corr w =
      (Inr (lease_token corr (env_uuid (ae_provider env) (session w))), ?w1)"
    by (simp add: run)
  note run1 = rec[unfolded recover_attempted_def wbind_run[of "claim_job_lease env jid corr" w _ ?w1, OF claim]]
  from run1 obtain acc w2 where f: "wfoldM (recover_attempt env jid u) ([], []) as ?w1 = (Inr acc, w2)"
    unfolding wbind_returns by blast
  obtain unc ver where acc: "acc = (unc, ver)" by (cases acc)
  note loop = recover_loop[OF f]
  have same: "uncertain_attempt y (db\<lparr>wd_jobs := z\<rparr>) = uncertain_attempt y db" for y db z
    by (simp add: uncertain_attempt_def latest_event_def)
  from loop(1) have core: "calls w2 = calls w" "wd_locks (session w2) = wd_locks (session w)"
    "wd_attempts (session w2) = wd_attempts (session w)"
    "wd_attempt_events (session w2) = wd_attempt_events (session w)"
    "wd_jobs (session w2) = wd_jobs (session ?w1)"
    by (simp_all add: core_def)
  let ?items = "map (\<lambda>a. if ai_apply_job_id a = jid \<and> ai_id a \<in> set unc then uncertain_item a else a)
    (wd_job_items (session w2))"
  let ?s = "apply_status_from_items jid ((session w2)\<lparr>wd_job_items := ?items\<rparr>)"
  note rest = run1[unfolded wbind_run[of "wfoldM (recover_attempt env jid u) ([], []) as" ?w1 acc w2, OF f] acc prod.case]
  have fin: "wd_job_items (committed w') = ?items \<and> apply_status_from_items jid (committed w') = ?s \<and>
      settled jid j w ?s w'"
  proof (cases "?s = S_RECONCILIATION_REQUIRED")
    case True
    with rest show ?thesis
      by (auto simp: run core table_simps j settled_def release_job_def)
  next
    case False
    with rest show ?thesis
      by (auto simp: run core table_simps j settled_def release_job_def)
  qed
  then show "settled jid j w (apply_status_from_items jid (committed w')) w'" by simp
  show "ai_status x \<in> {''applied'', ''failed'', ''cancelled'', ''reconciliation_required''}"
    if "a \<in> set as" "uncertain_attempt (pa_id a) (session w)"
      "attempt_item_ids (env_py (ae_provider env)) (pa_normalized_payload a) = Inr ids"
      "x \<in> set (wd_job_items (committed w'))" "ai_apply_job_id x = jid" "ai_id x \<in> set ids"
  proof -
    have "set ids \<subseteq> set (fst acc)" by (rule loop(3)[OF that(1) _ that(3)]) (simp add: same that(2))
    then have "set ids \<subseteq> set unc" by (simp add: acc)
    moreover have "x \<in> set ?items" using that(4) conjunct1[OF fin] by simp
    then obtain x0 where
      x: "x = (if ai_apply_job_id x0 = jid \<and> ai_id x0 \<in> set unc then uncertain_item x0 else x0)"
      unfolding set_map by (rule imageE)
    moreover from x that(5) have "ai_apply_job_id x0 = jid" "ai_id x0 = ai_id x"
      by (auto split: if_splits)
    ultimately have "x = uncertain_item x0" using that(6) by auto
    then show ?thesis by (simp add: uncertain_item_def split: if_splits)
  qed
qed


section \<open>Concrete runs\<close>

definition demo_apply_env :: apply_env where
  "demo_apply_env = \<lparr>ae_provider = demo_env\<lparr>env_uuid := \<lambda>db.
       replicate (Suc (sum_list (map (length \<circ> lk_id) (wd_locks db)))) CHR ''u''\<rparr>,
     ae_checksum = \<lambda>v. ''h'', ae_format15 = \<lambda>r. [], ae_decimal = id, ae_decimal_text = \<lambda>v. [],
     ae_exc_text = \<lambda>e. ''failure''\<rparr>"

definition demo_user :: flowhub_user where
  "demo_user = \<lparr>us_id = 1, us_username = ''ops'', us_role = ''operator''\<rparr>"

definition demo_attempt :: provider_write_attempt where
  "demo_attempt = new_attempt ''1'' ''unified_workspace'' ''corr'' demo_intent"

definition demo_event :: "write_outcome \<Rightarrow> instant \<Rightarrow> attempt_event" where
  "demo_event outcome at' = \<lparr>ve_id = ''e'', ve_attempt_id = pa_id demo_attempt, ve_outcome = outcome,
     ve_provider_response = [], ve_error_category = None, ve_error_message = None, ve_occurred_at = at'\<rparr>"

definition demo_item :: "string \<Rightarrow> string \<Rightarrow> string \<Rightarrow> apply_job_item" where
  "demo_item i li s = \<lparr>ai_id = i, ai_apply_job_id = ''job'', ai_review_item_id = ''r'' @ i,
     ai_canonical_product_id = ''p'', ai_listing_id = li, ai_channel_id = ''ch'', ai_field = ''price'',
     ai_payload_hash = ''h'', ai_status = s, ai_attempt_number = 0, ai_retry_eligible = False,
     ai_connector_response = [], ai_external_response_id = None, ai_error_category = None,
     ai_error_message = None, ai_cache_sync_status = None, ai_started_at = None, ai_completed_at = None\<rparr>"

definition demo_review_item :: "string \<Rightarrow> string \<Rightarrow> review_item" where
  "demo_review_item i li = \<lparr>ri_id = ''r'' @ i, ri_review_id = ''r'', ri_canonical_product_id = ''p'',
     ri_listing_id = li, ri_channel_id = ''ch'', ri_field = ''price'', ri_current_value = None,
     ri_target_value = ''12'', ri_payload_summary = []\<rparr>"

definition demo_lock :: "string \<Rightarrow> workspace_lock" where
  "demo_lock li = \<lparr>lk_id = ''lock'' @ li, lk_workspace_id = ''ws'', lk_channel_id = ''ch'',
     lk_listing_id = li, lk_apply_job_id = ''job'', lk_acquired_at = 0, lk_expires_at = 900000000\<rparr>"

definition demo_listing :: "string \<Rightarrow> listing_row" where
  "demo_listing li = \<lparr>li_id = li, li_channel_id = ''ch'', li_external_primary_id = ''77''\<rparr>"

definition demo_apply_db :: "apply_job \<Rightarrow> apply_job_item list \<Rightarrow> workspace_lock list \<Rightarrow> write_db" where
  "demo_apply_db j its locks = demo_write_db\<lparr>wd_jobs := [j], wd_job_items := its, wd_locks := locks,
     wd_listings := [demo_listing ''l1'', demo_listing ''l2''],
     wd_workspaces := [\<lparr>ws_id = ''ws'', ws_owner_user_id = 1\<rparr>],
     wd_review_items := [demo_review_item ''1'' ''l1'', demo_review_item ''2'' ''l2''],
     wd_attempts := [demo_attempt], wd_attempt_events := [demo_event W_DISPATCHED 0]\<rparr>"

definition demo_apply_world :: "write_db \<Rightarrow> world" where
  "demo_apply_world db = \<lparr>committed = db, session = db, calls = []\<rparr>"

lemmas demo_apply = demo_apply_env_def demo_user_def demo_attempt_def demo_event_def demo_item_def
  demo_review_item_def demo_lock_def demo_listing_def demo_apply_db_def demo_apply_world_def
  demo_write_db_def demo_job_def demo_env_def

text \<open>A job that recovery settled as applied, with the worker's old lease gone.\<close>

definition demo_recovered :: world where
  "demo_recovered = demo_apply_world (demo_apply_db (demo_job\<lparr>aj_status := S_APPLIED,
     aj_fencing_token := 2, aj_worker_id := None, aj_lease_token := None\<rparr>)
     [demo_item ''1'' ''l1'' ''applied''] [])"


lemma demo_fresh: "fresh_lock_ids demo_apply_env"
proof (unfold fresh_lock_ids_def, intro allI notI)
  fix db assume "env_uuid (ae_provider demo_apply_env) db \<in> lk_id ` set (wd_locks db)"
  then obtain l where l: "l \<in> set (wd_locks db)" "lk_id l = env_uuid (ae_provider demo_apply_env) db" by auto
  from l(1) have "length (lk_id l) \<le> sum_list (map (length \<circ> lk_id) (wd_locks db))"
    by (intro member_le_sum_list) simp_all
  with l(2) show False by (simp add: demo_apply_env_def)
qed

text \<open>One Listing locked by another job that still runs, one free: nothing is locked.\<close>

definition demo_busy :: world where
  "demo_busy = demo_apply_world (demo_apply_db demo_job [] [demo_lock ''l1''])"

theorem acquire_all_or_nothing_witness:
  "case acquire_listing_locks demo_apply_env ''ws'' ''job2'' [(''ch'', ''l2'')] demo_busy of
      (Inl e, w') \<Rightarrow> w' = demo_busy
    | (Inr v, w') \<Rightarrow> locks_ok (committed w') \<and>
        locked_by ''job2'' (minutes LOCK_MINUTES) (committed w') (''ch'', ''l2'') \<and>
        find_lock (''ch'', ''l1'') (committed w') = Some (demo_lock ''l1'')"
proof -
  have "session demo_busy = committed demo_busy" "locks_ok (committed demo_busy)"
    "env_now (ae_provider demo_apply_env) (committed demo_busy) = 0"
    "find_lock (''ch'', ''l1'') (committed demo_busy) = Some (demo_lock ''l1'')"
    by (simp_all add: demo_busy_def demo_apply locks_ok_def find_lock_def lock_scope_def)
  with acquire_all_or_nothing[OF demo_fresh, where w = demo_busy and wid = "''ws''" and jid = "''job2''" and scopes = "[(''ch'', ''l2'')]"]
  show ?thesis by (auto split: sum.splits prod.splits if_splits)
qed

text \<open>A job of two items, one failed and one verified by the reconciliation.\<close>

definition demo_half :: world where
  "demo_half = demo_apply_world (demo_apply_db (demo_job\<lparr>aj_status := S_RECONCILIATION_REQUIRED,
     aj_worker_id := Some ''corr'', aj_lease_token := Some ''t''\<rparr>)
     [demo_item ''1'' ''l1'' ''failed'', demo_item ''2'' ''l2'' ''recovering''] [demo_lock ''l1'', demo_lock ''l2''])"

definition demo_half_done :: "(write_error + apply_state) \<times> world" where
  "demo_half_done = finish_reconcile demo_apply_env ''job'' ''t'' [demo_review_item ''2'' ''l2''] demo_user
     ''corr'' [write_result ''l2'' W_VERIFIED_APPLIED] demo_half"

lemma demo_half_done: "fst demo_half_done = Inr S_PARTIALLY_APPLIED"
  by code_simp

theorem reconcile_keeps_locks_witness:
  "fst (acquire_listing_guard ''ch'' ''l1'' (snd demo_half_done)) = Inl (Guard_conflict ''ch'' ''l1'' ''job'')"
proof -
  have run: "finish_reconcile demo_apply_env ''job'' ''t'' [demo_review_item ''2'' ''l2''] demo_user
     ''corr'' [write_result ''l2'' W_VERIFIED_APPLIED] demo_half = (Inr S_PARTIALLY_APPLIED, snd demo_half_done)"
    using demo_half_done by (metis demo_half_done_def prod.collapse)
  have "locks_ok (session demo_half)" "demo_lock ''l1'' \<in> set (wd_locks (session demo_half))"
    "demo_listing ''l1'' \<in> set (wd_listings (session demo_half))"
    "lk_apply_job_id (demo_lock ''l1'') = ''job''"
    "(li_channel_id (demo_listing ''l1''), li_id (demo_listing ''l1'')) = lock_scope (demo_lock ''l1'')"
    "li_channel_id (demo_listing ''l1'') = ''ch''" "li_id (demo_listing ''l1'') = ''l1''"
    by (simp_all add: demo_half_def demo_apply locks_ok_def lock_scope_def)
  with reconcile_keeps_locks[OF run, of "demo_lock ''l1''" "demo_listing ''l1''"] show ?thesis by simp
qed

text \<open>A running job whose worker stopped after the dispatch, six minutes ago.\<close>

definition demo_stopped :: world where
  "demo_stopped = demo_apply_world (demo_apply_db (demo_job\<lparr>aj_created_at := - minutes 6\<rparr>)
     [demo_item ''item'' ''l1'' ''pending''] [demo_lock ''l1''])"

definition demo_recovery :: "(write_error + bool) \<times> world" where
  "demo_recovery = recover_job_if_stale demo_apply_env ''job'' demo_user ''rescue'' demo_stopped"

lemma demo_recovery: "fst demo_recovery = Inr True"
  by code_simp


end
