(* ===== verification/ApplyOutcome.thy ===== *)
theory ApplyOutcome
  imports ApplySafety
begin

text \<open>
  The two computations of a job's final status agree: the counters kept while the outcomes of a
  dispatch are recorded, and the derivation from the item rows that recovery and reconciliation use.
\<close>

section \<open>The status column\<close>

text \<open>What recording an outcome can change of an item row: its status, for a job and a review item.\<close>

type_synonym item_view = "string \<times> string \<times> string \<times> string"

definition view :: "apply_job_item \<Rightarrow> item_view" where
  "view a = (ai_id a, ai_apply_job_id a, ai_review_item_id a, ai_status a)"

definition views :: "world \<Rightarrow> item_view list" where
  "views w = map view (wd_job_items (session w))"

text \<open>The primary key, and the unique constraint on job and review item.\<close>

definition items_ok :: "item_view list \<Rightarrow> bool" where
  "items_ok vs \<longleftrightarrow> distinct (map fst vs) \<and> distinct (map (\<lambda>(i, j, r, s). (j, r)) vs)"

definition set_status :: "string \<Rightarrow> string set \<Rightarrow> string \<Rightarrow> item_view \<Rightarrow> item_view" where
  "set_status jid rids st = (\<lambda>(i, j, r, s). (i, j, r, if j = jid \<and> r \<in> rids then st else s))"

lemma items_ok_set_status [simp]: "items_ok (map (set_status jid rids st) vs) = items_ok vs"
proof -
  have "map fst (map (set_status jid rids st) vs) = map fst vs"
    "map (\<lambda>(i, j, r, s). (j, r)) (map (set_status jid rids st) vs) = map (\<lambda>(i, j, r, s). (j, r)) vs"
    by (auto simp: set_status_def)
  then show ?thesis by (simp only: items_ok_def)
qed

definition sets_status :: "string \<Rightarrow> (apply_job_item \<Rightarrow> apply_job_item) \<Rightarrow> bool" where
  "sets_status st f \<longleftrightarrow> (\<forall>a. view (f a) = (ai_id a, ai_apply_job_id a, ai_review_item_id a, st))"

lemma sets_status_items:
  "sets_status ''applied'' (succeed_item r j now)" "sets_status ''failed'' (fail_item r j now)"
  "sets_status ''reconciliation_required'' (reconcile_item r j now)"
  by (simp_all add: sets_status_def view_def succeed_item_def fail_item_def reconcile_item_def)

lemma view_update:
  assumes ok: "items_ok (map view t)" and f: "sets_status st f"
    and found: "List.find (\<lambda>a. ai_apply_job_id a = jid \<and> ai_review_item_id a = rid) t = Some a"
  shows "map view (upd_row ai_id (ai_id a) f t) = map (set_status jid {rid} st) (map view t)"
proof -
  from found have a: "a \<in> set t" "ai_apply_job_id a = jid" "ai_review_item_id a = rid"
    by (auto simp: find_Some_iff)
  have key: "inj_on ai_id (set t)" "inj_on (\<lambda>x. (ai_apply_job_id x, ai_review_item_id x)) (set t)"
    using ok by (auto simp: items_ok_def view_def distinct_map comp_def)
  have "(ai_id x = ai_id a) = (ai_apply_job_id x = jid \<and> ai_review_item_id x = rid)" if "x \<in> set t" for x
    using that a key by (auto dest: inj_onD)
  then show ?thesis using f
    by (auto simp: upd_row_def set_status_def sets_status_def view_def)
qed

lemma put_job_item_view:
  assumes "put_job_item jid rid f w = (Inr v, w')" and "items_ok (views w)" and "sets_status st f"
  shows "views w' = map (set_status jid {rid} st) (views w)"
  using assms view_update[OF _ assms(3), of "wd_job_items (session w)" jid rid]
  by (auto simp: put_job_item_def run views_def split: option.splits)

lemma keeps_views: "keeps views (audit env t u corr cols md)" "keeps views (patch_cache env jid r items)"
proof -
  show "keeps views (audit env t u corr cols md)"
    unfolding audit_def now_and_id_def Let_def
    by (intro frames, clarsimp) (intro keeps_modify, simp add: views_def)
  show "keeps views (patch_cache env jid r items)"
    unfolding patch_cache_def
    by (intro frames, clarsimp split: option.split prod.split)
      (auto intro!: frames keeps_modify simp: views_def)
qed

lemma set_status_insert:
  "map (set_status jid R st) (map (set_status jid {r} st) vs) = map (set_status jid (insert r R) st) vs"
  by (auto simp: set_status_def)

lemma set_status_none: "map (set_status jid {} st) vs = vs"
  by (induction vs) (auto simp: set_status_def)

lemma record_items_view:
  assumes "record_items env jid u ev upd cols items w = (Inr v, w')" and "items_ok (views w)"
    and "\<And>j now. sets_status st (upd j now)"
  shows "views w' = map (set_status jid (ri_id ` set items) st) (views w)"
  using assms(1,2)
proof (induction items arbitrary: w v)
  case Nil
  then show ?case by (simp add: record_items_def run set_status_none)
next
  case (Cons it its)
  from Cons.prems(1) obtain j w0 now w1 x w2 where
    steps: "read_job jid w = (Inr j, w0)" "utcnow env w0 = (Inr now, w1)"
      "put_job_item jid (ri_id it) (upd j now) w1 = (Inr x, w2)"
    and rest: "\<exists>w3 y. audit env ev u (aj_correlation_id j) (cols j it) [] w2 = (Inr y, w3) \<and>
      record_items env jid u ev upd cols its w3 = (Inr v, w')"
    by (auto simp: record_items_def wbind_returns)
  from steps(1) have "w0 = w" by (auto simp: read_job_def run split: option.splits)
  moreover from steps(2) have "w1 = w0" by (simp add: run)
  ultimately have v2: "views w2 = map (set_status jid {ri_id it} st) (views w)"
    using put_job_item_view[OF steps(3) _ assms(3)] Cons.prems(2) by simp
  from rest obtain w3 y where a: "audit env ev u (aj_correlation_id j) (cols j it) [] w2 = (Inr y, w3)"
    and r: "record_items env jid u ev upd cols its w3 = (Inr v, w')" by blast
  have "views w3 = views w2" by (rule keepsD[OF keeps_views(1) a])
  with Cons.IH[OF r] v2 Cons.prems(2) show ?case by (simp add: set_status_insert del: map_map)
qed

section \<open>The loop over the results\<close>

definition outcome_status :: "workspace_write_result \<Rightarrow> string" where
  "outcome_status r = (if wr_outcome r = W_VERIFIED_APPLIED then ''applied''
     else if wr_outcome r = W_RECONCILIATION_REQUIRED then ''reconciliation_required'' else ''failed'')"

definition record_view :: "string \<Rightarrow> review_item list \<Rightarrow> workspace_write_result \<Rightarrow> item_view \<Rightarrow> item_view" where
  "record_view jid items r = set_status jid (ri_id ` set (affected_by items r)) (outcome_status r)"

definition add_tally :: "review_item list \<Rightarrow> tally \<Rightarrow> workspace_write_result \<Rightarrow> tally" where
  "add_tally items = (\<lambda>(ok, failed, open') r. let n = length (affected_by items r) in
     if outcome_status r = ''applied'' then (ok + n, failed, open')
     else if outcome_status r = ''reconciliation_required'' then (ok, failed, open' + n)
     else (ok, failed + n, open'))"

lemma record_outcome_view:
  assumes run: "record_outcome env jid items u t r w = (Inr t', w')" and ok: "items_ok (views w)"
  shows "views w' = map (record_view jid items r) (views w) \<and> t' = add_tally items t r"
proof -
  obtain a b c where t: "t = (a, b, c)" by (cases t)
  consider "wr_outcome r = W_VERIFIED_APPLIED" | "wr_outcome r = W_RECONCILIATION_REQUIRED"
    | "wr_outcome r \<noteq> W_VERIFIED_APPLIED" "wr_outcome r \<noteq> W_RECONCILIATION_REQUIRED" by blast
  then show ?thesis
  proof cases
    case 1
    with run obtain x w1 y where
      s: "record_items env jid u ''apply_item_succeeded'' (succeed_item r)
        (\<lambda>j it. item_fields j it ''applied'') (affected_by items r) w = (Inr x, w1)"
      and p: "patch_cache env jid r (affected_by items r) w1 = (Inr y, w')"
      and t': "t' = (a + length (affected_by items r), b, c)"
      by (auto simp: record_outcome_def t Let_def wbind_returns record_listing_success_def run_primitive)
    from record_items_view[OF s ok sets_status_items(1)] keepsD[OF keeps_views(2) p] t' 1
    show ?thesis by (simp add: record_view_def outcome_status_def add_tally_def t Let_def)
  next
    case 2
    with run obtain x where
      s: "record_listing_reconciliation env jid r (affected_by items r) u w = (Inr x, w')"
      and t': "t' = (a, b, c + length (affected_by items r))"
      by (auto simp: record_outcome_def t Let_def wbind_returns run_primitive)
    from record_items_view[OF s[unfolded record_listing_reconciliation_def] ok sets_status_items(3)] t' 2
    show ?thesis by (simp add: record_view_def outcome_status_def add_tally_def t Let_def)
  next
    case 3
    with run obtain x where
      s: "record_listing_failure env jid r (affected_by items r) u w = (Inr x, w')"
      and t': "t' = (a, b + length (affected_by items r), c)"
      by (auto simp: record_outcome_def t Let_def wbind_returns run_primitive)
    from record_items_view[OF s[unfolded record_listing_failure_def] ok sets_status_items(2)] t' 3
    show ?thesis by (simp add: record_view_def outcome_status_def add_tally_def t Let_def)
  qed
qed

lemma record_loop_view:
  assumes "wfoldM (record_outcome env jid items u) t rs w = (Inr t', w')" and "items_ok (views w)"
  shows "views w' = map (fold (record_view jid items) rs) (views w) \<and> t' = foldl (add_tally items) t rs"
  using assms
proof (induction rs arbitrary: t w)
  case Nil
  then show ?case by (simp add: run)
next
  case (Cons r rs)
  from Cons.prems(1) obtain t1 w1 where s: "record_outcome env jid items u t r w = (Inr t1, w1)"
    and rest: "wfoldM (record_outcome env jid items u) t1 rs w1 = (Inr t', w')"
    by (auto simp: wbind_returns)
  from record_outcome_view[OF s Cons.prems(2)] have v: "views w1 = map (record_view jid items r) (views w)"
    and t1: "t1 = add_tally items t r" by simp_all
  have "items_ok (views w1)" using Cons.prems(2) by (simp add: v record_view_def del: map_map)
  from Cons.IH[OF rest this] show ?case by (simp add: v t1)
qed

lemma add_tally_nonzero:
  assumes "add_tally items (a, b, c) r = (a1, b1, c1)"
  shows "(a1 \<noteq> 0) = (a \<noteq> 0 \<or> affected_by items r \<noteq> [] \<and> outcome_status r = ''applied'')"
    "(b1 \<noteq> 0) = (b \<noteq> 0 \<or> affected_by items r \<noteq> [] \<and> outcome_status r = ''failed'')"
    "(c1 \<noteq> 0) = (c \<noteq> 0 \<or> affected_by items r \<noteq> [] \<and> outcome_status r = ''reconciliation_required'')"
  using assms by (auto simp: add_tally_def Let_def outcome_status_def split: if_splits)

lemma foldl_add_tally:
  assumes "foldl (add_tally items) (a, b, c) rs = (a', b', c')"
  shows "(a' \<noteq> 0) = (a \<noteq> 0 \<or> (\<exists>r \<in> set rs. affected_by items r \<noteq> [] \<and> outcome_status r = ''applied'')) \<and>
    (b' \<noteq> 0) = (b \<noteq> 0 \<or> (\<exists>r \<in> set rs. affected_by items r \<noteq> [] \<and> outcome_status r = ''failed'')) \<and>
    (c' \<noteq> 0) = (c \<noteq> 0 \<or> (\<exists>r \<in> set rs. affected_by items r \<noteq> [] \<and>
       outcome_status r = ''reconciliation_required''))"
  using assms
proof (induction rs arbitrary: a b c)
  case Nil
  then show ?case by simp
next
  case (Cons r rs)
  obtain a1 b1 c1 where t: "add_tally items (a, b, c) r = (a1, b1, c1)"
    by (cases "add_tally items (a, b, c) r")
  with Cons.prems have "foldl (add_tally items) (a1, b1, c1) rs = (a', b', c')" by simp
  note ih = Cons.IH[OF this]
  show ?case unfolding ih[THEN conjunct1] ih[THEN conjunct2, THEN conjunct1]
      ih[THEN conjunct2, THEN conjunct2] add_tally_nonzero[OF t] list.set by blast
qed

text \<open>Every item of the job has its review item among those dispatched, and every Listing of these
  has exactly one result.\<close>

definition one_result_each ::
  "string \<Rightarrow> review_item list \<Rightarrow> workspace_write_result list \<Rightarrow> item_view list \<Rightarrow> bool" where
  "one_result_each jid items rs vs \<longleftrightarrow> items \<noteq> [] \<and> distinct (map ri_id items) \<and>
     distinct (map wr_listing rs) \<and> ri_listing_id ` set items \<subseteq> wr_listing ` set rs \<and>
     {r. \<exists>i s. (i, jid, r, s) \<in> set vs} = ri_id ` set items"

lemma fold_record_view:
  assumes it: "it \<in> set items" and ids: "distinct (map ri_id items)"
    and d: "distinct (map wr_listing rs)" and res: "res \<in> set rs" "wr_listing res = ri_listing_id it"
  shows "fold (record_view jid items) rs (i, jid, ri_id it, s) = (i, jid, ri_id it, outcome_status res)"
proof -
  have hit: "ri_id it \<in> ri_id ` set (affected_by items r) \<longleftrightarrow> wr_listing r = ri_listing_id it" for r
  proof
    assume "ri_id it \<in> ri_id ` set (affected_by items r)"
    then obtain x where "x \<in> set items" "ri_id x = ri_id it" "ri_listing_id x = wr_listing r"
      by (auto simp: affected_by_def)
    with it ids have "x = it" by (auto simp: distinct_map dest: inj_onD)
    with \<open>ri_listing_id x = wr_listing r\<close> show "wr_listing r = ri_listing_id it" by simp
  qed (use it in \<open>auto simp: affected_by_def\<close>)
  have "fold (record_view jid items) rs (i, jid, ri_id it, s) = (i, jid, ri_id it,
      if res \<in> set rs then outcome_status res else s)"
    if "distinct (map wr_listing rs)" "res \<notin> set rs \<Longrightarrow> wr_listing res \<notin> wr_listing ` set rs" for rs s
    using that
  proof (induction rs arbitrary: s)
    case Nil
    then show ?case by simp
  next
    case (Cons r rs)
    have step: "record_view jid items r (i, jid, ri_id it, s) =
        (i, jid, ri_id it, if wr_listing r = wr_listing res then outcome_status r else s)"
      by (simp add: record_view_def set_status_def hit res(2))
    show ?case
    proof (cases "r = res")
      case True
      with Cons.prems have "res \<notin> set rs" "wr_listing res \<notin> wr_listing ` set rs" by auto
      with Cons.IH[of "outcome_status res"] Cons.prems(1) True step show ?thesis by simp
    next
      case False
      with Cons.prems have ne: "wr_listing r \<noteq> wr_listing res" by force
      have "res \<notin> set rs \<Longrightarrow> wr_listing res \<notin> wr_listing ` set rs" using Cons.prems(2) False by auto
      with Cons.IH[of s] Cons.prems(1) ne step False show ?thesis by simp
    qed
  qed
  from this[OF d] res show ?thesis by simp
qed

text \<open>The statuses of the job's items after the loop are those of the results that affect an item.\<close>

lemma recorded_statuses:
  assumes one: "one_result_each jid items rs vs"
  shows "{s. \<exists>i r. (i, jid, r, s) \<in> set (map (fold (record_view jid items) rs) vs)} =
    {outcome_status r | r. r \<in> set rs \<and> affected_by items r \<noteq> []}" (is "?L = ?R")
proof -
  have frame: "fst (fold (record_view jid items) rs v) = fst v \<and>
      fst (snd (fold (record_view jid items) rs v)) = fst (snd v) \<and>
      fst (snd (snd (fold (record_view jid items) rs v))) = fst (snd (snd v))" for v
    by (induction rs arbitrary: v) (simp_all add: record_view_def set_status_def split: prod.splits)
  have result: "\<exists>r \<in> set rs. wr_listing r = ri_listing_id it" if "it \<in> set items" for it
    using one that unfolding one_result_each_def by (metis image_eqI image_iff subsetD)
  show ?thesis
  proof (intro set_eqI iffI)
    fix s assume "s \<in> ?L"
    then obtain i r where "(i, jid, r, s) \<in> fold (record_view jid items) rs ` set vs"
      unfolding set_map by blast
    then obtain v where v: "v \<in> set vs" "fold (record_view jid items) rs v = (i, jid, r, s)"
      by (metis imageE)
    with frame[of v] obtain s0 where v0: "v = (i, jid, r, s0)" by (cases v) auto
    with v(1) one have "r \<in> ri_id ` set items" unfolding one_result_each_def by blast
    then obtain it where it: "it \<in> set items" "ri_id it = r" by blast
    obtain res where res: "res \<in> set rs" "wr_listing res = ri_listing_id it" using result it(1) by blast
    have "s = outcome_status res"
      using fold_record_view[OF it(1) _ _ res, of jid i s0] one v v0 it(2) by (simp add: one_result_each_def)
    moreover have "affected_by items res \<noteq> []" using it(1) res(2) by (auto simp: affected_by_def filter_empty_conv)
    ultimately show "s \<in> ?R" using res(1) by blast
  next
    fix s assume "s \<in> ?R"
    then obtain res it where res: "res \<in> set rs" "s = outcome_status res" "it \<in> set items"
      "wr_listing res = ri_listing_id it" by (auto simp: affected_by_def filter_empty_conv)
    with one have "ri_id it \<in> {r. \<exists>i s. (i, jid, r, s) \<in> set vs}" unfolding one_result_each_def by blast
    then obtain i s0 where v: "(i, jid, ri_id it, s0) \<in> set vs" by blast
    have "fold (record_view jid items) rs (i, jid, ri_id it, s0) = (i, jid, ri_id it, s)"
      using fold_record_view[OF res(3) _ _ res(1,4), of jid i s0] one res(2) by (simp add: one_result_each_def)
    with v show "s \<in> ?L" by (force simp del: fold.simps)
  qed
qed

lemma status_agrees:
  assumes one: "one_result_each jid items rs vs" and ok: "set ss = {outcome_status r | r. r \<in> set rs \<and> affected_by items r \<noteq> []}"
  shows "status_from_tally (foldl (add_tally items) (0, 0, 0) rs) = status_from_states ss"
proof -
  obtain a b c where t: "foldl (add_tally items) (0, 0, 0) rs = (a, b, c)"
    by (cases "foldl (add_tally items) (0, 0, 0) rs")
  have status: "x \<in> set ss \<longleftrightarrow> (\<exists>r \<in> set rs. affected_by items r \<noteq> [] \<and> outcome_status r = x)" for x
    unfolding ok by blast
  have mem: "(a \<noteq> 0) = (''applied'' \<in> set ss)" "(b \<noteq> 0) = (''failed'' \<in> set ss)"
    "(c \<noteq> 0) = (''reconciliation_required'' \<in> set ss)"
    using foldl_add_tally[OF t] by (simp_all add: status)
  from one obtain it where it: "it \<in> set items" by (cases items) (auto simp: one_result_each_def)
  with one obtain r where "r \<in> set rs" "wr_listing r = ri_listing_id it"
    unfolding one_result_each_def by (metis image_eqI image_iff subsetD)
  with it have "outcome_status r \<in> set ss" unfolding status
    by (intro bexI[of _ r]) (auto simp: affected_by_def filter_empty_conv)
  then have ne: "ss \<noteq> []" by auto
  have sub: "set ss \<subseteq> {''applied'', ''failed'', ''reconciliation_required''}"
    unfolding ok by (auto simp: outcome_status_def)
  have all: "list_all (\<lambda>s. s = ''applied'') ss = (b = 0 \<and> c = 0)"
    using sub mem by (auto simp: list_all_iff)
  have unc: "list_ex (\<lambda>s. s \<in> set uncertain_states) ss = (c \<noteq> 0)"
    using sub mem by (auto simp: list_ex_iff uncertain_states_def)
  have app: "list_ex (\<lambda>s. s = ''applied'') ss = (a \<noteq> 0)" using mem by (auto simp: list_ex_iff)
  show ?thesis by (simp add: t status_from_states_def ne all unc app)
qed

lemma finish_apply_result:
  assumes "finish_apply env jid did tok items u corr rs w = (Inr v, w')"
  shows "\<exists>t w2 j. wfoldM (record_outcome env jid items u) (0, 0, 0) rs (w\<lparr>session := (session w)\<lparr>wd_jobs :=
      upd_row aj_id jid (\<lambda>j. j\<lparr>aj_heartbeat_at := Some (env_now (ae_provider env) (session w)),
        aj_lease_expires_at := Some (env_now (ae_provider env) (session w) + minutes LEASE_MINUTES)\<rparr>)
      (wd_jobs (session w))\<rparr>\<rparr>) = (Inr t, w2) \<and>
    wd_job_items (committed w') = wd_job_items (session w2) \<and>
    get_row aj_id jid (wd_jobs (committed w')) = Some j \<and> aj_status j = status_from_tally t"
proof -
  from assms obtain j where j: "get_row aj_id jid (wd_jobs (session w)) = Some j"
    by (auto simp: finish_apply_def read_job_def run_primitive wbind_returns split: option.splits)
  let ?w1 = "w\<lparr>session := (session w)\<lparr>wd_jobs :=
      upd_row aj_id jid (\<lambda>j. j\<lparr>aj_heartbeat_at := Some (env_now (ae_provider env) (session w)),
        aj_lease_expires_at := Some (env_now (ae_provider env) (session w) + minutes LEASE_MINUTES)\<rparr>)
      (wd_jobs (session w))\<rparr>\<rparr>"
  have fence: "assert_job_fence jid (Some (aj_fencing_token j)) (aj_lease_token j) w =
      (if truthy (aj_lease_token j) \<and> aj_worker_id j = None
       then (Inl (Http_error 409 ''APPLY_WORKER_FENCED''), w) else (Inr (), w))"
    by (simp add: assert_job_fence_def run j)
  have lease: "assert_job_lease jid corr tok w = (if holds_lease jid corr tok (session w)
      then (Inr (), w) else (Inl (Http_error 409 ''APPLY_WORKER_FENCED''), w))"
    by (simp add: assert_job_lease_def run)
  have rj: "read_job jid w = (Inr j, w)" by (rule run_read_job[OF j])
  from assms have "holds_lease jid corr tok (session w)"
    "\<not> (truthy (aj_lease_token j) \<and> aj_worker_id j = None)"
    by (auto simp: finish_apply_def wbind_run[of "read_job jid" w j w, OF rj]
        wbind_def[of "assert_job_fence x y z" for x y z] wbind_def[of "assert_job_lease x y z" for x y z]
        fence lease split: if_splits)
  with fence lease have fence': "assert_job_fence jid (Some (aj_fencing_token j)) (aj_lease_token j) w = (Inr (), w)"
    and lease': "assert_job_lease jid corr tok w = (Inr (), w)" by simp_all
  note rest1 = assms[unfolded finish_apply_def wbind_run[of "read_job jid" w j w, OF rj]
    wbind_run[of "assert_job_fence jid (Some (aj_fencing_token j)) (aj_lease_token j)" w "()" w, OF fence']
    wbind_run[of "assert_job_lease jid corr tok" w "()" w, OF lease']]
  have put: "wbind (utcnow env) (\<lambda>now. wbind (put_job jid (\<lambda>j. j\<lparr>aj_heartbeat_at := Some now,
       aj_lease_expires_at := Some (now + minutes LEASE_MINUTES)\<rparr>)) k) w = k () ?w1" for k :: "unit \<Rightarrow> unit wp"
    by (simp add: run)
  note rest2 = rest1[unfolded put]
  from rest2 obtain t w2 where f: "wfoldM (record_outcome env jid items u) (0, 0, 0) rs ?w1 = (Inr t, w2)"
    unfolding wbind_returns by blast
  have core: "core w2 = core ?w1" by (rule keeps_fold_run[OF keeps_record_outcome f])
  then have jobs: "wd_jobs (session w2) = wd_jobs (session ?w1)" by (simp add: core_def)
  obtain n1 n2 n3 where t: "t = (n1, n2, n3)" by (cases t)
  note rest3 = rest2[unfolded wbind_run[of "wfoldM (record_outcome env jid items u) (0, 0, 0) rs" ?w1 t w2, OF f]]
  have "wd_job_items (committed w') = wd_job_items (session w2) \<and>
      (\<exists>j. get_row aj_id jid (wd_jobs (committed w')) = Some j \<and> aj_status j = status_from_tally t)"
    using rest3 unfolding t
    by (cases "status_from_tally (n1, n2, n3) = S_APPLIED"; cases "n3 = 0")
      (auto simp: run jobs table_simps j set_draft_status_def release_job_def simp del: status_from_tally.simps)
  with f show ?thesis by blast
qed

text \<open>C15: the status a finished dispatch gives the job from its counters is the status its item rows
  imply, which recovery and reconciliation compute, whenever every Listing has exactly one result.\<close>

theorem final_status_agrees:
  assumes "finish_apply env jid did tok items u corr rs w = (Inr v, w')"
    and "items_ok (views w)" and "one_result_each jid items rs (views w)"
  shows "map_option aj_status (get_row aj_id jid (wd_jobs (committed w'))) =
    Some (apply_status_from_items jid (committed w'))"
proof -
  from finish_apply_result[OF assms(1)] obtain t w1 w2 j where
    f: "wfoldM (record_outcome env jid items u) (0, 0, 0) rs w1 = (Inr t, w2)"
    and same: "views w1 = views w" and items: "wd_job_items (committed w') = wd_job_items (session w2)"
    and j: "get_row aj_id jid (wd_jobs (committed w')) = Some j" "aj_status j = status_from_tally t"
    by (fastforce simp: views_def)
  from record_loop_view[OF f] assms(2) same
  have v: "views w2 = map (fold (record_view jid items) rs) (views w)"
    and t: "t = foldl (add_tally items) (0, 0, 0) rs" by simp_all
  have "set (map ai_status (apply_items jid (committed w'))) =
      {s. \<exists>i r. (i, jid, r, s) \<in> set (views w2)}"
    by (auto simp: apply_items_def items views_def view_def)
  then have "set (map ai_status (apply_items jid (committed w'))) =
      {outcome_status r | r. r \<in> set rs \<and> affected_by items r \<noteq> []}"
    by (simp only: v recorded_statuses[OF assms(3)])
  from status_agrees[OF assms(3) this] j t show ?thesis by (simp add: apply_status_from_items_def)
qed

text \<open>Two Listings, one applied and one failed.\<close>

definition demo_dispatched :: world where
  "demo_dispatched = demo_apply_world (demo_apply_db (demo_job\<lparr>aj_worker_id := Some ''corr'',
     aj_lease_token := Some ''t''\<rparr>)
     [demo_item ''1'' ''l1'' ''pending'', demo_item ''2'' ''l2'' ''pending''] [demo_lock ''l1'', demo_lock ''l2''])"

definition demo_finished :: "(write_error + unit) \<times> world" where
  "demo_finished = finish_apply demo_apply_env ''job'' ''d'' ''t''
     [demo_review_item ''1'' ''l1'', demo_review_item ''2'' ''l2''] demo_user ''corr''
     [write_result ''l1'' W_VERIFIED_APPLIED, write_result ''l2'' W_FAILED] demo_dispatched"

lemma demo_finished: "fst demo_finished = Inr ()"
  "map_option aj_status (get_row aj_id ''job'' (wd_jobs (committed (snd demo_finished)))) = Some S_PARTIALLY_APPLIED"
  by code_simp+

theorem final_status_agrees_witness:
  "apply_status_from_items ''job'' (committed (snd demo_finished)) = S_PARTIALLY_APPLIED"
proof -
  have "finish_apply demo_apply_env ''job'' ''d'' ''t''
     [demo_review_item ''1'' ''l1'', demo_review_item ''2'' ''l2''] demo_user ''corr''
     [write_result ''l1'' W_VERIFIED_APPLIED, write_result ''l2'' W_FAILED] demo_dispatched =
     (Inr (), snd demo_finished)"
    using demo_finished(1) by (metis demo_finished_def prod.collapse)
  moreover have "items_ok (views demo_dispatched)" by code_simp
  moreover have "one_result_each ''job'' [demo_review_item ''1'' ''l1'', demo_review_item ''2'' ''l2'']
     [write_result ''l1'' W_VERIFIED_APPLIED, write_result ''l2'' W_FAILED] (views demo_dispatched)"
    by (auto simp: one_result_each_def views_def demo_dispatched_def demo_apply view_def write_result_def)
  ultimately have "map_option aj_status (get_row aj_id ''job'' (wd_jobs (committed (snd demo_finished)))) =
      Some (apply_status_from_items ''job'' (committed (snd demo_finished)))"
    by (rule final_status_agrees)
  then show ?thesis by (simp add: demo_finished(2))
qed

end
