(* ===== verification/FormulaShapes.thy ===== *)
theory FormulaShapes
  imports Json
begin

text \<open>
  The translator of legacy spreadsheet formulas (\<^verbatim>\<open>app/flowhub/formula_translator\<close>): thirteen formula
  shapes given as regular expressions over cell references, a table of what each shape becomes, and
  the declarative pricing rule emitted for the shapes that are translated. Texts are their UTF-8
  encodings; digits and blanks are those of ASCII.
\<close>

section \<open>Contracts\<close>

datatype translation_status = T_TRANSLATED | T_REVIEW_REQUIRED | T_UNSUPPORTED | T_QUARANTINED

datatype translation_reason = MATCHED_SUPPORTED | NEEDS_REVIEW | SHAPE_UNSUPPORTED | UNKNOWN_SHAPE
  | BROKEN_REFERENCE | BROKEN_VALUE | ANOMALOUS_FORMULA | SEMANTIC_GAP

fun status_value :: "translation_status \<Rightarrow> string" where
  "status_value T_TRANSLATED = ''translated''"
| "status_value T_REVIEW_REQUIRED = ''review_required''"
| "status_value T_UNSUPPORTED = ''unsupported''"
| "status_value T_QUARANTINED = ''quarantined''"

fun reason_value :: "translation_reason \<Rightarrow> string" where
  "reason_value MATCHED_SUPPORTED = ''matched_supported''"
| "reason_value NEEDS_REVIEW = ''review_required''"
| "reason_value SHAPE_UNSUPPORTED = ''shape_unsupported''"
| "reason_value UNKNOWN_SHAPE = ''unknown_shape''"
| "reason_value BROKEN_REFERENCE = ''broken_reference''"
| "reason_value BROKEN_VALUE = ''broken_value''"
| "reason_value ANOMALOUS_FORMULA = ''anomalous_formula''"
| "reason_value SEMANTIC_GAP = ''semantic_gap''"

fun default_reason :: "translation_status \<Rightarrow> translation_reason" where
  "default_reason T_TRANSLATED = MATCHED_SUPPORTED"
| "default_reason T_REVIEW_REQUIRED = NEEDS_REVIEW"
| "default_reason T_UNSUPPORTED = SHAPE_UNSUPPORTED"
| "default_reason T_QUARANTINED = SEMANTIC_GAP"

section \<open>Cell references\<close>

text \<open>\<^verbatim>\<open>R(?:\[\-?\d+\]|\d+)?C(?:\[\-?\d+\]|\d+)?\<close>\<close>

definition number :: "string \<Rightarrow> bool" where
  "number s \<longleftrightarrow> s \<noteq> [] \<and> list_all is_digit s"

definition axis :: "string \<Rightarrow> bool" where
  "axis s \<longleftrightarrow> s = [] \<or> number s \<or> (\<exists>d. number d \<and> (s = ''['' @ d @ '']'' \<or> s = ''[-'' @ d @ '']''))"

definition is_cell :: "string \<Rightarrow> bool" where
  "is_cell s \<longleftrightarrow> (\<exists>a b. axis a \<and> axis b \<and> s = ''R'' @ a @ ''C'' @ b)"

text \<open>The greedy scan of one axis and of a reference: what is consumed and what is left.\<close>

definition span_digits :: "string \<Rightarrow> string \<times> string" where
  "span_digits s = (takeWhile is_digit s, dropWhile is_digit s)"

definition bracketed :: "string \<Rightarrow> string \<Rightarrow> (string \<times> string) option" where
  "bracketed opening s = (case span_digits s of (d, r) \<Rightarrow>
     if d \<noteq> [] \<and> r \<noteq> [] \<and> hd r = CHR '']'' then Some (opening @ d @ '']'', tl r) else None)"

fun drop_prefix :: "string \<Rightarrow> string \<Rightarrow> string option" where
  "drop_prefix [] s = Some s"
| "drop_prefix (c # p) [] = None"
| "drop_prefix (c # p) (d # s) = (if c = d then drop_prefix p s else None)"

definition scan_axis :: "string \<Rightarrow> string \<times> string" where
  "scan_axis s = (case drop_prefix ''[-'' s of
     Some r \<Rightarrow> (case bracketed ''[-'' r of Some x \<Rightarrow> x | None \<Rightarrow> ([], s))
   | None \<Rightarrow> (case drop_prefix ''['' s of
       Some r \<Rightarrow> (case bracketed ''['' r of Some x \<Rightarrow> x | None \<Rightarrow> ([], s))
     | None \<Rightarrow> span_digits s))"

definition scan_cell :: "string \<Rightarrow> (string \<times> string) option" where
  "scan_cell s = (case s of [] \<Rightarrow> None | c # s1 \<Rightarrow> if c \<noteq> CHR ''R'' then None else
     (case scan_axis s1 of (a, r1) \<Rightarrow> (case r1 of [] \<Rightarrow> None | c' # s2 \<Rightarrow> if c' \<noteq> CHR ''C'' then None else
       (case scan_axis s2 of (b, r2) \<Rightarrow> Some (''R'' @ a @ ''C'' @ b, r2)))))"

section \<open>Patterns\<close>

text \<open>
  The regular expressions of the table: literals, named captures of a reference, back references, an
  optional literal and a choice of literals, matched against the whole text.
\<close>

datatype atom = P_Lit string | P_Cell string | P_Same string | P_Opt string | P_Alt "string list"

type_synonym captures = "(string \<times> string) list"

fun first_of :: "('a \<Rightarrow> 'b option) \<Rightarrow> 'a list \<Rightarrow> 'b option" where
  "first_of f [] = None"
| "first_of f (x # xs) = (case f x of Some y \<Rightarrow> Some y | None \<Rightarrow> first_of f xs)"

fun scan :: "atom list \<Rightarrow> captures \<Rightarrow> string \<Rightarrow> captures option" where
  "scan [] cs s = (if s = [] then Some cs else None)"
| "scan (P_Lit l # p) cs s = (case drop_prefix l s of None \<Rightarrow> None | Some r \<Rightarrow> scan p cs r)"
| "scan (P_Cell n # p) cs s = (case scan_cell s of None \<Rightarrow> None | Some (t, r) \<Rightarrow> scan p (cs @ [(n, t)]) r)"
| "scan (P_Same n # p) cs s = (case map_of cs n of None \<Rightarrow> None
     | Some t \<Rightarrow> (case drop_prefix t s of None \<Rightarrow> None | Some r \<Rightarrow> scan p cs r))"
| "scan (P_Opt l # p) cs s =
     (case (case drop_prefix l s of None \<Rightarrow> None | Some r \<Rightarrow> scan p cs r) of
        Some m \<Rightarrow> Some m | None \<Rightarrow> scan p cs s)"
| "scan (P_Alt ls # p) cs s =
     first_of (\<lambda>l. case drop_prefix l s of None \<Rightarrow> None | Some r \<Rightarrow> scan p cs r) ls"

section \<open>The table of shapes\<close>

definition mark_x :: atom where "mark_x = P_Lit ''\"x\"''"

text \<open>The cross mark U+274C, as itself or as its escape, between quotes.\<close>

definition cross_mark :: string where "cross_mark = [CHR 0xE2, CHR 0x9D, CHR 0x8C]"

definition mark_cross :: atom where
  "mark_cross = P_Alt [''\"'' @ cross_mark @ ''\"'', ''\"'' @ [CHR 0x5C] @ ''u274c\"'']"

definition xlfn_filter :: "atom list" where
  "xlfn_filter = [P_Opt ''_xlfn._xlws.'', P_Lit ''FILTER('', P_Cell ''range_start'', P_Lit '':'',
     P_Cell ''range_end'', P_Lit '','', P_Same ''range_start'', P_Lit '':'', P_Same ''range_end'',
     P_Lit ''<>0),'', mark_cross, P_Lit '')'']"

record shape_definition =
  sh_id :: string
  sh_pattern :: "atom list"
  sh_emits :: bool
  sh_status :: translation_status
  sh_reason :: translation_reason

definition shape ::
  "string \<Rightarrow> atom list \<Rightarrow> bool \<Rightarrow> translation_status \<Rightarrow> translation_reason \<Rightarrow> shape_definition" where
  "shape i p e st r = \<lparr>sh_id = i, sh_pattern = p, sh_emits = e, sh_status = st, sh_reason = r\<rparr>"

definition rate_part :: "atom list" where
  "rate_part = [P_Lit ''*(1+'', P_Cell ''rate_ref'', P_Lit ''/100)'']"

definition shape_definitions :: "shape_definition list" where
  "shape_definitions = [
     shape ''A1'' ([P_Lit ''=IF('', P_Cell ''guard_ref'', P_Lit ''=\"\",\"x\",IFERROR(FLOOR(('',
         P_Cell ''basis_ref''] @ rate_part @ [P_Lit ''+IF(ISNUMBER('', P_Cell ''addend_ref'', P_Lit ''),'',
         P_Same ''addend_ref'', P_Lit '',0))*1000000,50000),'', mark_x, P_Lit ''))''])
       True T_TRANSLATED MATCHED_SUPPORTED,
     shape ''A2'' (P_Lit ''=IFERROR(MIN('' # xlfn_filter) True T_TRANSLATED MATCHED_SUPPORTED,
     shape ''A3'' ([P_Lit ''=IFERROR(FLOOR('', P_Cell ''basis_ref''] @ rate_part @
         [P_Lit ''*1000,100000),'', mark_cross, P_Lit '')'']) True T_TRANSLATED MATCHED_SUPPORTED,
     shape ''A4'' ([P_Lit ''=IFERROR(FLOOR('', P_Cell ''basis_ref''] @ rate_part @
         [P_Lit ''*1000,100000)+500000,'', mark_cross, P_Lit '')'']) True T_TRANSLATED MATCHED_SUPPORTED,
     shape ''A5'' ([P_Lit ''=IFERROR(ROUNDUP('', P_Cell ''basis_ref''] @ rate_part @
         [P_Lit '',-2),'', mark_cross, P_Lit '')'']) True T_TRANSLATED MATCHED_SUPPORTED,
     shape ''A6'' [P_Lit ''=IF('', P_Cell ''guard_ref'', P_Lit ''=\"\",\"x\",IFERROR(FLOOR('',
         P_Cell ''multiplier_ref'', P_Lit ''*'', P_Cell ''basis_ref'', P_Lit '',50000)/10,\"x\"))'']
       False T_QUARANTINED SEMANTIC_GAP,
     shape ''A7'' [P_Lit ''=IFERROR('', P_Cell ''numerator_ref'', P_Lit ''/'', P_Cell ''denominator_ref'',
         P_Lit '','', mark_x, P_Lit '')''] False T_UNSUPPORTED SHAPE_UNSUPPORTED,
     shape ''A8'' [P_Lit ''='', P_Cell ''manual_ref''] False T_REVIEW_REQUIRED NEEDS_REVIEW,
     shape ''A9'' [P_Lit ''=IF('', P_Cell ''guard_ref'', P_Lit ''=\"\",\"x\",IFERROR(FLOOR(('',
         P_Cell ''basis_ref'', P_Lit ''*(1+#REF!/100)+IF(ISNUMBER(#REF!),#REF!,0))*1000000,50000),'',
         mark_x, P_Lit ''))''] False T_QUARANTINED BROKEN_REFERENCE,
     shape ''A10'' ([P_Lit ''=IFERROR(FLOOR(('', P_Cell ''basis_ref''] @ rate_part @
         [P_Lit ''*1000),100000),'', mark_cross, P_Lit '')'']) True T_TRANSLATED MATCHED_SUPPORTED,
     shape ''A11'' ([P_Lit ''=IFERROR(FLOOR(('', P_Cell ''basis_ref''] @ rate_part @
         [P_Lit ''*1000)+500000,100000),'', mark_cross, P_Lit '')'']) True T_TRANSLATED MATCHED_SUPPORTED,
     shape ''A12'' (P_Lit ''=IFNA(MIN('' # xlfn_filter) False T_QUARANTINED ANOMALOUS_FORMULA,
     shape ''A13'' [P_Lit ''=IFERROR(FLOOR((#REF!*(1+'', P_Cell ''rate_ref'',
         P_Lit ''/100)*1000),100000),'', mark_cross, P_Lit '')''] False T_QUARANTINED BROKEN_REFERENCE]"

fun find_shape :: "shape_definition list \<Rightarrow> string \<Rightarrow> (shape_definition \<times> captures) option" where
  "find_shape [] f = None"
| "find_shape (d # ds) f = (case scan (sh_pattern d) [] f of
     Some cs \<Rightarrow> Some (d, cs) | None \<Rightarrow> find_shape ds f)"

section \<open>Emission\<close>

definition pricing_rule_payload ::
  "captures \<Rightarrow> string option \<Rightarrow> string \<Rightarrow> int \<Rightarrow> int \<Rightarrow> string \<Rightarrow> int \<Rightarrow> json_dict" where
  "pricing_rule_payload cs addend mode step surcharge order scale =
     (let ref = (\<lambda>n. case map_of cs n of Some t \<Rightarrow> JStr t | None \<Rightarrow> JNull) in
      [(''target_kind'', JStr ''pricing_rule''), (''rate_mode'', JStr ''percent_bp''),
       (''basis_reference'', ref ''basis_ref''), (''rate_reference'', ref ''rate_ref''),
       (''fixed_addend_reference'', (case addend of None \<Rightarrow> JNull | Some n \<Rightarrow> ref n)),
       (''fixed_addend_when_not_number'', JInt 0), (''round_mode'', JStr mode),
       (''round_step_minor'', JInt step), (''surcharge_minor'', JInt surcharge),
       (''round_order'', JStr order),
       (''intermediate_scale'', JObj [(''numerator'', JInt scale), (''denominator'', JInt 1)])])"

definition basis_selection_payload :: "captures \<Rightarrow> json_dict" where
  "basis_selection_payload cs =
     (let ref = (\<lambda>n. case map_of cs n of Some t \<Rightarrow> JStr t | None \<Rightarrow> JNull) in
      [(''target_kind'', JStr ''basis_selection''), (''selection_mode'', JStr ''min_non_zero''),
       (''candidate_range'', JObj [(''start_ref'', ref ''range_start''), (''end_ref'', ref ''range_end'')])])"

definition emit :: "string \<Rightarrow> captures \<Rightarrow> json_dict" where
  "emit sid cs =
     (let after = ''round_then_surcharge'' in
      if sid = ''A1'' then pricing_rule_payload cs (Some ''addend_ref'') ''floor'' 50000 0 after 1000000
      else if sid = ''A2'' then basis_selection_payload cs
      else if sid = ''A3'' \<or> sid = ''A10'' then pricing_rule_payload cs None ''floor'' 100000 0 after 1000
      else if sid = ''A4'' then pricing_rule_payload cs None ''floor'' 100000 500000 after 1000
      else if sid = ''A5'' then pricing_rule_payload cs None ''ceil'' 100 0 after 1
      else if sid = ''A11'' then pricing_rule_payload cs None ''floor'' 100000 500000 ''surcharge_then_round'' 1000
      else [])"

section \<open>The checked-in registry\<close>

record shape_entry =
  se_shape_id :: string
  se_status :: translation_status
  se_default_reason :: translation_reason
  se_is_price_target :: bool
  se_cell_count :: int
  se_topology_hint :: string
  se_notes :: string

definition entry ::
  "string \<Rightarrow> translation_status \<Rightarrow> translation_reason \<Rightarrow> bool \<Rightarrow> int \<Rightarrow> string \<Rightarrow> string \<Rightarrow> shape_entry" where
  "entry i st r price n hint notes = \<lparr>se_shape_id = i, se_status = st, se_default_reason = r,
     se_is_price_target = price, se_cell_count = n, se_topology_hint = hint, se_notes = notes\<rparr>"

definition shape_registry :: "shape_entry list" where
  "shape_registry = [
     entry ''A1'' T_TRANSLATED MATCHED_SUPPORTED True 2291 ''price_target_candidate''
       ''basis + percentage (+ optional fixed addend), floor 50,000, scale 1,000,000'',
     entry ''A2'' T_TRANSLATED MATCHED_SUPPORTED False 1840 ''basis_selection''
       ''minimum non-zero basis candidate from row-wise vendor range'',
     entry ''A3'' T_TRANSLATED MATCHED_SUPPORTED True 663 ''price_target_candidate''
       ''basis + percentage, floor 100,000, scale 1,000'',
     entry ''A4'' T_TRANSLATED MATCHED_SUPPORTED True 90 ''price_target_candidate''
       ''A3 arithmetic with fixed surcharge added after floor'',
     entry ''A5'' T_TRANSLATED MATCHED_SUPPORTED True 7 ''price_target_candidate''
       ''basis + percentage, rounded up to two decimal places'',
     entry ''A6'' T_QUARANTINED SEMANTIC_GAP True 327 ''price_target_candidate''
       ''arithmetic proven; unsupported output semantics and /10 meaning remain unproven'',
     entry ''A7'' T_UNSUPPORTED SHAPE_UNSUPPORTED False 319 ''display_metric''
       ''ratio formula used as display metric; never a Channel price target'',
     entry ''A8'' T_REVIEW_REQUIRED NEEDS_REVIEW False 25 ''metadata_reference''
       ''manual metadata copy; requires downstream provenance evidence before use'',
     entry ''A9'' T_QUARANTINED BROKEN_REFERENCE True 254 ''price_target_candidate''
       ''A1 variant with missing cached references, cached as broken references'',
     entry ''A10'' T_TRANSLATED MATCHED_SUPPORTED True 94 ''price_target_candidate''
       ''parenthesized syntax variant of A3'',
     entry ''A11'' T_TRANSLATED MATCHED_SUPPORTED True 85 ''price_target_candidate''
       ''basis + percentage + fixed addend; floor 100,000 after add operation'',
     entry ''A12'' T_QUARANTINED ANOMALOUS_FORMULA False 1 ''anomalous_formula''
       ''cross-row minimum formula cached as #VALUE!; not interpreted'',
     entry ''A13'' T_QUARANTINED BROKEN_REFERENCE True 1 ''price_target_candidate''
       ''A10-like formula with missing basis reference; cached as broken formula'']"

definition FORMULA_TRANSLATOR_VERSION :: string where
  "FORMULA_TRANSLATOR_VERSION = ''formula-translator-schema-v1''"

definition FORMULA_SHAPE_REGISTRY_VERSION :: string where
  "FORMULA_SHAPE_REGISTRY_VERSION = ''appendix-a-shape-registry-v1''"

definition entry_payload :: "shape_entry \<Rightarrow> json_dict" where
  "entry_payload e = [(''shape_id'', JStr (se_shape_id e)),
     (''translation_status'', JStr (status_value (se_status e))),
     (''default_reason_code'', JStr (reason_value (se_default_reason e))),
     (''is_price_target'', JBool (se_is_price_target e)), (''formula_cell_count'', JInt (se_cell_count e)),
     (''topology_hint'', JStr (se_topology_hint e)), (''notes'', JStr (se_notes e)),
     (''registry_version'', JStr FORMULA_SHAPE_REGISTRY_VERSION)]"

definition formula_shape_registry_payload :: "json_dict list" where
  "formula_shape_registry_payload = map entry_payload (sort_key se_shape_id shape_registry)"

definition get_registry_entry :: "string \<Rightarrow> shape_entry option" where
  "get_registry_entry sid = (if sid = [] then None else List.find (\<lambda>e. se_shape_id e = sid) shape_registry)"

text \<open>\<^verbatim>\<open>checksum\<close> is sha256 over the canonical JSON, a parameter.\<close>

definition registry_checksum :: "(json \<Rightarrow> string) \<Rightarrow> string" where
  "registry_checksum digest = digest (JObj [(''registry_version'', JStr FORMULA_SHAPE_REGISTRY_VERSION),
     (''shapes'', JList (map JObj formula_shape_registry_payload))])"

section \<open>Translation\<close>

record translation_outcome =
  to_shape_id :: "string option"
  to_status :: translation_status
  to_reason :: translation_reason
  to_input :: json_dict
  to_output :: json_dict
  to_fingerprint :: string

definition jopt :: "string option \<Rightarrow> json" where
  "jopt v = (case v of None \<Rightarrow> JNull | Some s \<Rightarrow> JStr s)"

definition input_payload :: "string \<Rightarrow> string option \<Rightarrow> captures \<Rightarrow> json_dict" where
  "input_payload f sid cs = [(''formula'', JStr f),
     (''named_captures'', JObj (map (\<lambda>(n, t). (n, JStr t)) cs))] @
     (case sid of None \<Rightarrow> [] | Some i \<Rightarrow> [(''shape_id'', JStr i)])"

definition translation_checksum ::
  "(json \<Rightarrow> string) \<Rightarrow> string \<Rightarrow> string option \<Rightarrow> translation_status \<Rightarrow> translation_reason \<Rightarrow> json_dict
     \<Rightarrow> json_dict \<Rightarrow> string option \<Rightarrow> string option \<Rightarrow> string" where
  "translation_checksum digest identity sid st r inp out package reviewed = digest (JObj [
     (''formula_rule_identity'', JStr identity), (''translator_version'', JStr FORMULA_TRANSLATOR_VERSION),
     (''formula_shape_id'', jopt sid), (''translation_status'', JStr (status_value st)),
     (''reason_code'', JStr (reason_value r)), (''registry_version'', JStr FORMULA_SHAPE_REGISTRY_VERSION),
     (''registry_checksum'', JStr (registry_checksum digest)), (''translation_input_payload'', JObj inp),
     (''translation_output_payload'', JObj out), (''package_fingerprint'', jopt package),
     (''reviewed_by'', jopt reviewed)])"

definition translate_formula ::
  "(json \<Rightarrow> string) \<Rightarrow> string \<Rightarrow> string \<Rightarrow> string option \<Rightarrow> string option \<Rightarrow> translation_outcome" where
  "translate_formula digest formula identity reviewed package =
     (let f = py_strip formula;
          (sid, st, r, cs, out) = (case find_shape shape_definitions f of
             None \<Rightarrow> (None, T_QUARANTINED, UNKNOWN_SHAPE, [], [])
           | Some (d, cs) \<Rightarrow> (Some (sh_id d), sh_status d, sh_reason d, cs,
               if sh_emits d then emit (sh_id d) cs else []));
          inp = input_payload f sid cs
      in \<lparr>to_shape_id = sid, to_status = st, to_reason = r, to_input = inp, to_output = out,
          to_fingerprint = translation_checksum digest identity sid st r inp out package reviewed\<rparr>)"

section \<open>The language of a pattern\<close>

text \<open>What a regular expression means: the texts it covers, with the captures of its groups.\<close>

inductive matches :: "atom list \<Rightarrow> captures \<Rightarrow> string \<Rightarrow> captures \<Rightarrow> bool" where
  m_end: "matches [] cs [] cs"
| m_lit: "matches p cs s cs' \<Longrightarrow> matches (P_Lit l # p) cs (l @ s) cs'"
| m_cell: "is_cell t \<Longrightarrow> matches p (cs @ [(n, t)]) s cs' \<Longrightarrow> matches (P_Cell n # p) cs (t @ s) cs'"
| m_same: "map_of cs n = Some t \<Longrightarrow> matches p cs s cs' \<Longrightarrow> matches (P_Same n # p) cs (t @ s) cs'"
| m_opt: "matches p cs s cs' \<Longrightarrow> matches (P_Opt l # p) cs (l @ s) cs'"
| m_skip: "matches p cs s cs' \<Longrightarrow> matches (P_Opt l # p) cs s cs'"
| m_alt: "l \<in> set ls \<Longrightarrow> matches p cs s cs' \<Longrightarrow> matches (P_Alt ls # p) cs (l @ s) cs'"

inductive_cases matches_cases:
  "matches [] cs s cs'" "matches (P_Lit l # p) cs s cs'" "matches (P_Cell n # p) cs s cs'"
  "matches (P_Same n # p) cs s cs'" "matches (P_Opt l # p) cs s cs'" "matches (P_Alt ls # p) cs s cs'"

lemma drop_prefix_Some: "drop_prefix p s = Some r \<longleftrightarrow> s = p @ r"
  by (induction p s rule: drop_prefix.induct) auto

lemma drop_prefix_append [simp]: "drop_prefix p (p @ r) = Some r"
  by (simp add: drop_prefix_Some)

lemma first_of_Some: "first_of f xs = Some y \<Longrightarrow> \<exists>x \<in> set xs. f x = Some y"
  by (induction xs) (auto split: option.splits)

lemma bracketed_Some:
  assumes "bracketed opening s = Some (t, r)"
  shows "\<exists>d. number d \<and> t = opening @ d @ '']'' \<and> s = d @ '']'' @ r"
proof (intro exI conjI)
  let ?d = "takeWhile is_digit s"
  from assms have d: "?d \<noteq> []" "dropWhile is_digit s \<noteq> []" "hd (dropWhile is_digit s) = CHR '']''"
    and t: "t = opening @ ?d @ '']''" "r = tl (dropWhile is_digit s)"
    by (auto simp: bracketed_def span_digits_def split: if_splits)
  show "number ?d" using d(1) by (auto simp: number_def list_all_iff dest: set_takeWhileD)
  show "t = opening @ ?d @ '']''" by (rule t(1))
  have "dropWhile is_digit s = CHR '']'' # r" using d(2,3) t(2) by (cases "dropWhile is_digit s") auto
  then show "s = ?d @ '']'' @ r" by (metis append_Cons append_Nil takeWhile_dropWhile_id)
qed

lemma scan_axis_sound:
  assumes "scan_axis s = (t, r)" shows "axis t \<and> s = t @ r"
proof -
  have "list_all is_digit (takeWhile is_digit s)" by (auto simp: list_all_iff dest: set_takeWhileD)
  then have sp: "axis (takeWhile is_digit s)" by (simp add: axis_def number_def)
  have bracket: "axis (''['' @ d @ '']'')" "axis (''[-'' @ d @ '']'')" if "number d" for d
    using that by (auto simp: axis_def)
  have empty: "axis []" by (simp add: axis_def)
  from assms show ?thesis
    using bracket empty sp
    by (auto simp: scan_axis_def span_digits_def drop_prefix_Some dest!: bracketed_Some split: option.splits)
qed

lemma scan_cell_sound:
  assumes "scan_cell s = Some (t, r)" shows "is_cell t \<and> s = t @ r"
proof -
  from assms obtain s1 a s2 b where s: "s = CHR ''R'' # s1" "scan_axis s1 = (a, CHR ''C'' # s2)"
    "scan_axis s2 = (b, r)" "t = ''R'' @ a @ ''C'' @ b"
    by (auto simp: scan_cell_def split: list.splits if_splits prod.splits)
  with scan_axis_sound[OF s(2)] scan_axis_sound[OF s(3)] show ?thesis
    by (auto simp: is_cell_def)
qed

theorem scan_sound: "scan p cs s = Some cs' \<Longrightarrow> matches p cs s cs'"
proof (induction p cs s rule: scan.induct)
  case (3 n p cs s)
  then show ?case by (auto dest!: scan_cell_sound intro: matches.intros split: option.splits)
next
  case (6 ls p cs s)
  then obtain l r where "l \<in> set ls" "drop_prefix l s = Some r" "scan p cs r = Some cs'"
    by (auto dest!: first_of_Some split: option.splits)
  with 6 show ?case by (auto simp: drop_prefix_Some intro: matches.intros)
qed (auto simp: drop_prefix_Some intro: matches.intros split: option.splits if_splits)

text \<open>Completeness needs patterns in which a reference is followed by something that cannot extend it,
  and in which options exclude each other.\<close>

definition stops_cell :: "string \<Rightarrow> bool" where
  "stops_cell s \<longleftrightarrow> s = [] \<or> \<not> is_digit (hd s) \<and> hd s \<noteq> CHR ''[''"

fun diverge :: "string \<Rightarrow> string \<Rightarrow> bool" where
  "diverge (c # s) (d # t) = (if c = d then diverge s t else True)"
| "diverge _ _ = False"

fun determined :: "atom list \<Rightarrow> bool" where
  "determined [] = True"
| "determined (P_Lit l # p) = determined p"
| "determined (P_Cell n # p) = ((case p of [] \<Rightarrow> True | P_Lit l # _ \<Rightarrow> l \<noteq> [] \<and> stops_cell l | _ \<Rightarrow> False) \<and> determined p)"
| "determined (P_Same n # p) = determined p"
| "determined (P_Opt l # p) = ((case p of P_Lit l' # _ \<Rightarrow> diverge l l' | _ \<Rightarrow> False) \<and> determined p)"
| "determined (P_Alt ls # p) = ((\<forall>l \<in> set ls. \<forall>l' \<in> set ls. l = l' \<or> diverge l l') \<and> determined p)"

lemma diverge_prefix: "diverge l l' \<Longrightarrow> drop_prefix l (l' @ r) = None"
  by (induction l l' rule: diverge.induct) (auto split: if_splits)

lemma digits_span:
  assumes "list_all is_digit d" and "r = [] \<or> \<not> is_digit (hd r)"
  shows "span_digits (d @ r) = (d, r)"
proof -
  have "takeWhile is_digit r = []" "dropWhile is_digit r = r" using assms(2) by (cases r; simp)+
  moreover have "\<forall>x \<in> set d. is_digit x" using assms(1) by (simp add: list_all_iff)
  ultimately show ?thesis by (simp add: span_digits_def takeWhile_append dropWhile_append3)
qed

lemma bracketed_digits:
  assumes "number d" shows "bracketed opening (d @ '']'' @ r) = Some (opening @ d @ '']'', r)"
proof -
  have "\<not> is_digit (CHR '']'')" by code_simp
  with digits_span[of d "'']'' @ r"] assms show ?thesis by (simp add: bracketed_def number_def)
qed

lemma digit_not_bracket: "is_digit c \<Longrightarrow> c \<noteq> CHR ''['' \<and> c \<noteq> CHR ''-''"
proof -
  have "\<not> is_digit (CHR ''['')" "\<not> is_digit (CHR ''-'')" by code_simp+
  then show "is_digit c \<Longrightarrow> c \<noteq> CHR ''['' \<and> c \<noteq> CHR ''-''" by auto
qed

lemma scan_axis_complete:
  assumes "axis t" and "stops_cell r" shows "scan_axis (t @ r) = (t, r)"
proof -
  have stop: "r = [] \<or> \<not> is_digit (hd r)" and open': "drop_prefix (CHR ''['' # x) r = None" for x
    using assms(2) by (cases r; auto simp: stops_cell_def)+
  from assms(1) consider "t = []" | "number t" | d where "number d" "t = ''['' @ d @ '']''"
    | d where "number d" "t = ''[-'' @ d @ '']''"
    by (auto simp: axis_def)
  then show ?thesis
  proof cases
    case 1
    then show ?thesis using digits_span[of "[]" r] stop by (simp add: scan_axis_def open')
  next
    case 2
    then obtain c cs where t: "t = c # cs" "is_digit c" by (cases t) (auto simp: number_def)
    then have "drop_prefix (CHR ''['' # x) (t @ r) = None" for x
      using digit_not_bracket[of c] by (auto simp: t)
    then show ?thesis using 2 digits_span[of t r] stop by (simp add: scan_axis_def number_def)
  next
    case 3
    then obtain c cs where d: "d = c # cs" "is_digit c" by (cases d) (auto simp: number_def)
    then have "drop_prefix ''[-'' (t @ r) = None" using digit_not_bracket[of c] by (auto simp: 3)
    then show ?thesis using bracketed_digits[OF 3(1), of "''[''" r] by (simp add: scan_axis_def 3)
  next
    case 4
    then show ?thesis using bracketed_digits[OF 4(1), of "''[-''" r] by (simp add: scan_axis_def)
  qed
qed

lemma scan_cell_complete:
  assumes "is_cell t" and "stops_cell r" shows "scan_cell (t @ r) = Some (t, r)"
proof -
  from assms(1) obtain a b where ab: "axis a" "axis b" "t = ''R'' @ a @ ''C'' @ b"
    by (auto simp: is_cell_def)
  have "\<not> is_digit (CHR ''C'')" by code_simp
  then have "scan_axis (a @ ''C'' @ b @ r) = (a, ''C'' @ b @ r)"
    using scan_axis_complete[OF ab(1), of "''C'' @ b @ r"] by (simp add: stops_cell_def)
  with scan_axis_complete[OF ab(2) assms(2)] show ?thesis by (simp add: scan_cell_def ab(3))
qed

lemma literal_stops: "l \<noteq> [] \<Longrightarrow> stops_cell l \<Longrightarrow> stops_cell (l @ r)"
  by (cases l) (simp_all add: stops_cell_def)

lemma first_of_unique:
  "l \<in> set ls \<Longrightarrow> f l = Some y \<Longrightarrow> (\<And>l'. l' \<in> set ls \<Longrightarrow> l' \<noteq> l \<Longrightarrow> f l' = None) \<Longrightarrow> first_of f ls = Some y"
proof (induction ls)
  case (Cons a ls)
  then show ?case by (cases "a = l") (auto split: option.split)
qed simp

theorem scan_complete: "matches p cs s cs' \<Longrightarrow> determined p \<Longrightarrow> scan p cs s = Some cs'"
proof (induction p cs s cs' rule: matches.induct)
  case (m_cell t p cs n s cs')
  have "stops_cell s"
    using m_cell.hyps(2) m_cell.prems
    by (auto simp: stops_cell_def literal_stops elim: matches.cases split: list.splits atom.splits)
  with m_cell show ?case by (simp add: scan_cell_complete)
next
  case (m_skip p cs s cs' l)
  then obtain l' q where p: "p = P_Lit l' # q" "diverge l l'" by (auto split: list.splits atom.splits)
  from m_skip.hyps(1) p obtain r where "s = l' @ r" by (auto elim: matches.cases)
  with m_skip p show ?case by (simp add: diverge_prefix)
next
  case (m_alt l ls p cs s cs')
  have "drop_prefix l' (l @ s) = None" if "l' \<in> set ls" "l' \<noteq> l" for l'
    using that m_alt.hyps(1) m_alt.prems by (auto intro: diverge_prefix)
  with m_alt show ?case by (auto intro!: first_of_unique[of l])
qed auto

theorem scan_exact: "determined p \<Longrightarrow> scan p cs s = Some cs' \<longleftrightarrow> matches p cs s cs'"
  by (auto intro: scan_sound scan_complete)

section \<open>The shapes exclude each other\<close>

text \<open>
  Deleting every character a reference can contain leaves the literals of the pattern: a text in the
  language of a shape has one of finitely many skeletons.
\<close>

definition reference_char :: "char \<Rightarrow> bool" where
  "reference_char c \<longleftrightarrow> is_digit c \<or> c \<in> set ''RC[]-''"

definition skeleton :: "string \<Rightarrow> string" where
  "skeleton s = filter (\<lambda>c. \<not> reference_char c) s"

fun skeletons :: "atom list \<Rightarrow> string list" where
  "skeletons [] = [[]]"
| "skeletons (P_Lit l # p) = map ((@) (skeleton l)) (skeletons p)"
| "skeletons (P_Cell n # p) = skeletons p"
| "skeletons (P_Same n # p) = skeletons p"
| "skeletons (P_Opt l # p) = map ((@) (skeleton l)) (skeletons p) @ skeletons p"
| "skeletons (P_Alt ls # p) = concat (map (\<lambda>l. map ((@) (skeleton l)) (skeletons p)) ls)"

lemma skeleton_append [simp]: "skeleton (s @ t) = skeleton s @ skeleton t"
  by (simp add: skeleton_def)

lemma skeleton_cell: assumes "is_cell t" shows "skeleton t = []"
proof -
  have "skeleton a = []" if "axis a" for a
    using that by (auto simp: axis_def number_def skeleton_def reference_char_def list_all_iff filter_empty_conv)
  moreover have "skeleton ''R'' = []" "skeleton ''C'' = []" by code_simp+
  ultimately show ?thesis using assms by (auto simp: is_cell_def simp del: append.simps)
qed

lemma matches_skeleton:
  assumes "matches p cs s cs'" and "\<forall>n t. map_of cs n = Some t \<longrightarrow> is_cell t"
  shows "skeleton s \<in> set (skeletons p)"
  using assms
proof (induction p cs s cs' rule: matches.induct)
  case (m_cell t p cs n s cs')
  then have "\<forall>m u. map_of (cs @ [(n, t)]) m = Some u \<longrightarrow> is_cell u"
    by (auto simp: map_add_def split: option.splits if_splits)
  with m_cell show ?case by (simp add: skeleton_cell)
next
  case (m_same cs n t p s cs')
  then show ?case by (simp add: skeleton_cell)
qed (auto simp: skeleton_def[of "[]"])

definition shape_language :: "shape_definition \<Rightarrow> string \<Rightarrow> captures \<Rightarrow> bool" where
  "shape_language d f cs \<longleftrightarrow> matches (sh_pattern d) [] f cs"

lemma shape_patterns_determined: "list_all (\<lambda>d. determined (sh_pattern d)) shape_definitions"
  by code_simp

lemma shape_skeletons_disjoint:
  "list_all (\<lambda>d. list_all (\<lambda>e. sh_id d = sh_id e \<or> list_all (\<lambda>s. s \<notin> set (skeletons (sh_pattern e)))
     (skeletons (sh_pattern d))) shape_definitions) shape_definitions"
  by code_simp

lemma shape_ids_distinct: "distinct (map sh_id shape_definitions)"
  by code_simp

lemma shape_language_skeleton: "shape_language d f cs \<Longrightarrow> skeleton f \<in> set (skeletons (sh_pattern d))"
  unfolding shape_language_def using matches_skeleton[of "sh_pattern d" "[]" f cs] by simp

lemma one_shape:
  assumes "d \<in> set shape_definitions" "e \<in> set shape_definitions"
    and "shape_language d f cs" "shape_language e f cs'"
  shows "d = e"
proof -
  from shape_skeletons_disjoint assms(1,2)
  have "sh_id d = sh_id e \<or> (\<forall>s \<in> set (skeletons (sh_pattern d)). s \<notin> set (skeletons (sh_pattern e)))"
    unfolding list_all_iff by blast
  with shape_language_skeleton[OF assms(3)] shape_language_skeleton[OF assms(4)]
  have "sh_id d = sh_id e" by blast
  with assms(1,2) shape_ids_distinct show ?thesis by (auto simp: distinct_map dest: inj_onD)
qed

lemma find_shape_iff:
  assumes "\<And>d. d \<in> set ds \<Longrightarrow> determined (sh_pattern d)"
    and "\<And>d e cs cs'. d \<in> set ds \<Longrightarrow> e \<in> set ds \<Longrightarrow> shape_language d f cs \<Longrightarrow> shape_language e f cs' \<Longrightarrow> d = e"
  shows "find_shape ds f = Some (d, cs) \<longleftrightarrow> d \<in> set ds \<and> shape_language d f cs"
  using assms
proof (induction ds)
  case Nil
  then show ?case by simp
next
  case (Cons x xs)
  have x: "scan (sh_pattern x) [] f = Some c \<longleftrightarrow> shape_language x f c" for c
    using Cons.prems(1)[of x] by (simp add: scan_exact shape_language_def)
  have ih: "find_shape xs f = Some (d, cs) \<longleftrightarrow> d \<in> set xs \<and> shape_language d f cs"
    using Cons.prems by (intro Cons.IH) auto
  show ?case
  proof (cases "scan (sh_pattern x) [] f")
    case None
    then have "\<not> shape_language x f c" for c using x by (metis option.distinct(1))
    with None ih show ?thesis by auto
  next
    case (Some c)
    then have c: "shape_language x f c" by (simp add: x)
    have "d = x \<and> cs = c" if "d \<in> set (x # xs)" "shape_language d f cs"
    proof -
      have "d = x" using Cons.prems(2) that c by auto
      with that(2) x[of cs] Some show ?thesis by simp
    qed
    with Some c show ?thesis by auto
  qed
qed

text \<open>C36: recognition is exactly membership in the language of a shape: a formula is recognised as a
  shape with certain references if and only if the shape's regular expression covers it with these
  groups. No formula belongs to two shapes, so the order of the table does not matter.\<close>

theorem shape_recognition_exact:
  assumes "set ds = set shape_definitions"
  shows "find_shape ds f = Some (d, cs) \<longleftrightarrow> d \<in> set shape_definitions \<and> shape_language d f cs"
proof -
  have "determined (sh_pattern d)" if "d \<in> set ds" for d
    using shape_patterns_determined that assms by (simp add: list_all_iff)
  from find_shape_iff[of ds f d cs, OF this] one_shape assms show ?thesis by simp
qed

lemma shape_recognition: "find_shape shape_definitions f = Some (d, cs) \<Longrightarrow>
  d \<in> set shape_definitions \<and> shape_language d f cs"
proof -
  have "determined (sh_pattern d)" if "d \<in> set shape_definitions" for d
    using shape_patterns_determined that by (simp add: list_all_iff)
  then show "find_shape shape_definitions f = Some (d, cs) \<Longrightarrow> ?thesis"
    by (subst (asm) find_shape_iff) (auto intro: one_shape)
qed

section \<open>Parentheses\<close>

definition parens :: "string \<Rightarrow> nat \<times> nat" where
  "parens s = (count_list s (CHR ''(''), count_list s (CHR '')''))"

lemma parens_skeleton: "parens (skeleton s) = parens s"
proof -
  have "\<not> reference_char (CHR ''('')" "\<not> reference_char (CHR '')'')" by code_simp+
  moreover have "count_list (filter P s) c = count_list s c" if "P c" for P c
    using that by (induction s) auto
  ultimately show ?thesis by (simp add: parens_def skeleton_def)
qed

lemma shape_parens:
  "list_all (\<lambda>d. list_all (\<lambda>s. case parens s of (l, r) \<Rightarrow>
     l = r + (if sh_id d = ''A2'' \<or> sh_id d = ''A12'' then 1 else 0)) (skeletons (sh_pattern d))) shape_definitions"
  by code_simp

text \<open>C37: the expressions of the two FILTER shapes lack a closing parenthesis. They cover only formulas
  with one more opening than closing parenthesis, so no formula whose parentheses balance, as every
  formula of a workbook does, is ever translated as a basis selection; the other shapes cover only
  balanced formulas.\<close>

theorem filter_shapes_unbalanced:
  assumes "to_shape_id (translate_formula digest f identity reviewed package) = Some sid"
  shows "fst (parens (py_strip f)) = snd (parens (py_strip f)) + (if sid \<in> {''A2'', ''A12''} then 1 else 0)"
proof -
  from assms obtain d cs where d: "find_shape shape_definitions (py_strip f) = Some (d, cs)" "sh_id d = sid"
    by (auto simp: translate_formula_def Let_def split: option.splits prod.splits)
  with shape_recognition have s: "d \<in> set shape_definitions" "skeleton (py_strip f) \<in> set (skeletons (sh_pattern d))"
    by (auto intro: shape_language_skeleton)
  from bspec[OF bspec[OF shape_parens[unfolded list_all_iff] s(1)] s(2)] d(2) show ?thesis by (simp add: parens_skeleton split: prod.splits)
qed

section \<open>Outcomes\<close>

lemma registry_agrees:
  "list_all (\<lambda>d. sh_emits d = (sh_status d = T_TRANSLATED) \<and>
     map_option (\<lambda>e. (se_status e, se_default_reason e)) (get_registry_entry (sh_id d)) =
       Some (sh_status d, sh_reason d)) shape_definitions"
  by code_simp

lemma emitting_shapes:
  "list_all (\<lambda>d. sh_emits d \<longrightarrow> sh_id d \<in> set [''A1'', ''A2'', ''A3'', ''A4'', ''A5'', ''A10'', ''A11'']) shape_definitions"
  by code_simp

lemma emit_nonempty: "sid \<in> set [''A1'', ''A2'', ''A3'', ''A4'', ''A5'', ''A10'', ''A11''] \<Longrightarrow> emit sid cs \<noteq> []"
  by (auto simp: emit_def Let_def pricing_rule_payload_def basis_selection_payload_def)

text \<open>C38: every outcome is closed: an unrecognised formula is quarantined with nothing emitted, a
  recognised one carries the status and reason the checked-in registry states for its shape, and a
  payload is emitted exactly when the status is translated.\<close>

theorem translation_outcome_closed:
  "case to_shape_id (translate_formula digest f identity reviewed package) of
     None \<Rightarrow> (to_status (translate_formula digest f identity reviewed package),
         to_reason (translate_formula digest f identity reviewed package)) = (T_QUARANTINED, UNKNOWN_SHAPE) \<and>
       to_output (translate_formula digest f identity reviewed package) = []
   | Some sid \<Rightarrow>
       map_option (\<lambda>e. (se_status e, se_default_reason e)) (get_registry_entry sid) =
         Some (to_status (translate_formula digest f identity reviewed package),
           to_reason (translate_formula digest f identity reviewed package)) \<and>
       (to_output (translate_formula digest f identity reviewed package) \<noteq> []) =
         (to_status (translate_formula digest f identity reviewed package) = T_TRANSLATED)"
proof (cases "find_shape shape_definitions (py_strip f)")
  case None
  then show ?thesis by (simp add: translate_formula_def Let_def)
next
  case (Some x)
  obtain d cs where x: "x = (d, cs)" by (cases x)
  with Some shape_recognition have d: "d \<in> set shape_definitions" by blast
  from d registry_agrees have r: "sh_emits d = (sh_status d = T_TRANSLATED)"
    "map_option (\<lambda>e. (se_status e, se_default_reason e)) (get_registry_entry (sh_id d)) =
       Some (sh_status d, sh_reason d)" by (auto simp: list_all_iff)
  moreover have "sh_emits d \<Longrightarrow> emit (sh_id d) cs \<noteq> []"
    using d emitting_shapes emit_nonempty unfolding list_all_iff by blast
  ultimately show ?thesis using Some x by (simp add: translate_formula_def Let_def)
qed

section \<open>Concrete formulas\<close>

definition demo_formula :: string where
  "demo_formula = ''=IFERROR(FLOOR(RC[-2]*(1+R2C6/100)*1000,100000),\"'' @ cross_mark @ ''\")''"

theorem shape_recognition_exact_witness:
  "shape_language (shape_definitions ! 2) demo_formula [(''basis_ref'', ''RC[-2]''), (''rate_ref'', ''R2C6'')]"
proof -
  have "find_shape (rev shape_definitions) demo_formula =
      Some (shape_definitions ! 2, [(''basis_ref'', ''RC[-2]''), (''rate_ref'', ''R2C6'')])"
    by code_simp
  then show ?thesis by (subst (asm) shape_recognition_exact) simp_all
qed

text \<open>The basis selection as the workbook has it is quarantined; with the parenthesis missing it is translated.\<close>

definition demo_filter :: "string \<Rightarrow> string" where
  "demo_filter closing = ''=IFERROR(MIN(_xlfn._xlws.FILTER(RC[1]:RC[5],RC[1]:RC[5]<>0'' @ closing @ '',\"'' @ cross_mark @ ''\")''"

lemma demo_filter_outcomes:
  "to_shape_id (translate_formula (\<lambda>v. []) (demo_filter ''))'') ''rule'' None None) = None"
  "to_shape_id (translate_formula (\<lambda>v. []) (demo_filter '')'') ''rule'' None None) = Some ''A2''"
  by code_simp+

theorem filter_shapes_unbalanced_witness:
  "fst (parens (py_strip (demo_filter '')''))) = snd (parens (py_strip (demo_filter '')''))) + 1"
  using filter_shapes_unbalanced[OF demo_filter_outcomes(2)] by simp

end
