(* ===== verification/Session.thy ===== *)
theory Session
  imports Prelude
begin

text \<open>
  Database sessions of the services that keep tables of their own: an operation runs on the durable
  tables and the tables as the open transaction sees them, and returns or raises. \<^verbatim>\<open>commit\<close>
  publishes the pending tables, \<^verbatim>\<open>rollback\<close> restores the durable ones; while the code waits on
  something outside its transaction, other transactions may commit.
\<close>

record 'db tx =
  durable :: 'db
  pending :: 'db

type_synonym ('db, 'e, 'a) op = "'db tx \<Rightarrow> ('e + 'a) \<times> 'db tx"

definition opened :: "'db \<Rightarrow> 'db tx" where
  "opened db = \<lparr>durable = db, pending = db\<rparr>"

definition sret :: "'a \<Rightarrow> ('db, 'e, 'a) op" where
  "sret x s = (Inr x, s)"

definition sraise :: "'e \<Rightarrow> ('db, 'e, 'a) op" where
  "sraise e s = (Inl e, s)"

definition sbind :: "('db, 'e, 'a) op \<Rightarrow> ('a \<Rightarrow> ('db, 'e, 'b) op) \<Rightarrow> ('db, 'e, 'b) op" where
  "sbind m f s = (case m s of (Inl e, s') \<Rightarrow> (Inl e, s') | (Inr x, s') \<Rightarrow> f x s')"

definition sget :: "('db \<Rightarrow> 'a) \<Rightarrow> ('db, 'e, 'a) op" where
  "sget f s = (Inr (f (pending s)), s)"

definition smodify :: "('db \<Rightarrow> 'db) \<Rightarrow> ('db, 'e, unit) op" where
  "smodify f s = (Inr (), s\<lparr>pending := f (pending s)\<rparr>)"

definition scommit :: "('db, 'e, unit) op" where
  "scommit s = (Inr (), s\<lparr>durable := pending s\<rparr>)"

definition srollback :: "('db, 'e, unit) op" where
  "srollback s = (Inr (), s\<lparr>pending := durable s\<rparr>)"

text \<open>Other transactions commit while this session has nothing pending.\<close>

definition sawait :: "('db \<Rightarrow> 'db) \<Rightarrow> ('db, 'e, unit) op" where
  "sawait f s = (Inr (), opened (f (durable s)))"

definition slift :: "'e + 'a \<Rightarrow> ('db, 'e, 'a) op" where
  "slift r s = (r, s)"

text \<open>\<^verbatim>\<open>scatch\<close> is \<^verbatim>\<open>try/except\<close>, \<^verbatim>\<open>sfinally\<close> runs its second operation on every way out.\<close>

definition scatch :: "('db, 'e, 'a) op \<Rightarrow> ('e \<Rightarrow> ('db, 'e, 'a) op) \<Rightarrow> ('db, 'e, 'a) op" where
  "scatch m h s = (case m s of (Inl e, s') \<Rightarrow> h e s' | (Inr x, s') \<Rightarrow> (Inr x, s'))"

definition sfinally :: "('db, 'e, 'a) op \<Rightarrow> ('db, 'e, unit) op \<Rightarrow> ('db, 'e, 'a) op" where
  "sfinally m z s = (case m s of (r, s') \<Rightarrow>
     (case z s' of (Inl e, s'') \<Rightarrow> (Inl e, s'') | (Inr _, s'') \<Rightarrow> (r, s'')))"

text \<open>The \<^verbatim>\<open>for\<close> loop with state.\<close>

fun sfoldM :: "('s \<Rightarrow> 'a \<Rightarrow> ('db, 'e, 's) op) \<Rightarrow> 's \<Rightarrow> 'a list \<Rightarrow> ('db, 'e, 's) op" where
  "sfoldM f s [] = sret s"
| "sfoldM f s (x # xs) = sbind (f s x) (\<lambda>s'. sfoldM f s' xs)"

section \<open>Running an operation\<close>

text \<open>Evaluation enters a continuation only once the first operation has its value.\<close>

fun snext :: "('a \<Rightarrow> ('db, 'e, 'b) op) \<Rightarrow> ('e + 'a) \<times> 'db tx \<Rightarrow> ('e + 'b) \<times> 'db tx" where
  "snext f (Inl e, s) = (Inl e, s)"
| "snext f (Inr x, s) = f x s"

lemma sbind_code [code]: "sbind m f s = snext f (m s)"
  by (simp add: sbind_def split: prod.splits sum.splits)

fun shandle :: "('e \<Rightarrow> ('db, 'e, 'a) op) \<Rightarrow> ('e + 'a) \<times> 'db tx \<Rightarrow> ('e + 'a) \<times> 'db tx" where
  "shandle h (Inl e, s) = h e s"
| "shandle h (Inr x, s) = (Inr x, s)"

lemma scatch_code [code]: "scatch m h s = shandle h (m s)"
  by (simp add: scatch_def split: prod.splits sum.splits)

fun sclose :: "'e + 'a \<Rightarrow> ('e + unit) \<times> 'db tx \<Rightarrow> ('e + 'a) \<times> 'db tx" where
  "sclose r (Inl e, s) = (Inl e, s)"
| "sclose r (Inr _, s) = (r, s)"

lemma sfinally_code [code]: "sfinally m z s = (case m s of (r, s') \<Rightarrow> sclose r (z s'))"
  by (simp add: sfinally_def split: prod.splits sum.splits)

lemma opened_simps [simp]: "durable (opened db) = db" "pending (opened db) = db"
  by (simp_all add: opened_def)

lemma opened_update [simp]:
  "(opened db)\<lparr>pending := e, durable := e\<rparr> = opened e"
  "(opened db)\<lparr>pending := db\<rparr> = opened db" "(opened db)\<lparr>durable := db\<rparr> = opened db"
  by (simp_all add: opened_def)

lemma tx_eqI: "durable s = durable t \<Longrightarrow> pending s = pending t \<Longrightarrow> s = (t :: 'db tx)"
  by simp

lemma session_run:
  "sret x s = (Inr x, s)" "sraise e s = (Inl e, s)" "sget g s = (Inr (g (pending s)), s)"
  "smodify h s = (Inr (), s\<lparr>pending := h (pending s)\<rparr>)"
  "scommit s = (Inr (), s\<lparr>durable := pending s\<rparr>)"
  "srollback s = (Inr (), s\<lparr>pending := durable s\<rparr>)"
  "sawait k s = (Inr (), opened (k (durable s)))" "slift r s = (r, s)"
  by (simp_all add: sret_def sraise_def sget_def smodify_def scommit_def srollback_def sawait_def
      slift_def)

lemma session_bind:
  "sbind (sret x) f1 s = f1 x s" "sbind (sraise e) f2 s = (Inl e, s)"
  "sbind (sget g) f3 s = f3 (g (pending s)) s"
  "sbind (smodify h) f4 s = f4 () (s\<lparr>pending := h (pending s)\<rparr>)"
  "sbind scommit f5 s = f5 () (s\<lparr>durable := pending s\<rparr>)"
  "sbind srollback f6 s = f6 () (s\<lparr>pending := durable s\<rparr>)"
  "sbind (sawait k) f7 s = f7 () (opened (k (durable s)))"
  "sbind (slift r) f8 s = (case r of Inl e' \<Rightarrow> (Inl e', s) | Inr y \<Rightarrow> f8 y s)"
  "sbind (sbind m g1) f9 s = sbind m (\<lambda>x. sbind (g1 x) f9) s"
  by (simp_all add: sbind_def session_run split: prod.split sum.split)

lemma sbind_run: "m s = (Inr x, s1) \<Longrightarrow> sbind m f s = f x s1"
  by (simp add: sbind_def)

lemma sbind_raise: "m s = (Inl e, s1) \<Longrightarrow> sbind m f s = (Inl e, s1)"
  by (simp add: sbind_def)

lemma sbind_returns:
  "sbind m f s = (Inr y, s2) \<longleftrightarrow> (\<exists>x s1. m s = (Inr x, s1) \<and> f x s1 = (Inr y, s2))"
  by (auto simp: sbind_def split: prod.splits sum.splits)

lemma sbind_cases:
  assumes "sbind m f s = (r, s2)"
  obtains (raise) e where "m s = (Inl e, s2)" "r = Inl e"
  | (run) x s1 where "m s = (Inr x, s1)" "f x s1 = (r, s2)"
proof (cases "m s")
  case (Pair q s1)
  with assms that show ?thesis by (cases q) (auto simp: sbind_def)
qed

lemma scatch_run:
  "m s = (Inr x, s1) \<Longrightarrow> scatch m h s = (Inr x, s1)"
  "m s = (Inl e, s1) \<Longrightarrow> scatch m h s = h e s1"
  by (simp_all add: scatch_def)

lemma sfinally_run:
  "m s = (r, s1) \<Longrightarrow> z s1 = (Inr u, s2) \<Longrightarrow> sfinally m z s = (r, s2)"
  by (simp add: sfinally_def)

end
