(* ===== verification/RateBudget.thy ===== *)
theory RateBudget
  imports Session "HOL-Library.Option_ord"
begin

text \<open>
  The request budget of an exchange-rate provider (\<^verbatim>\<open>app/flowhub/exchange_rates/budget.py\<close> and the
  tables of \<^verbatim>\<open>models.py\<close>): every request to the provider reserves a unit of the day's budget by a
  compare-and-swap on the provider's row before it leaves the process. Time zones are a parameter:
  the offset from UTC that \<^verbatim>\<open>ZoneInfo\<close> gives at an instant, if the zone is known.
\<close>

section \<open>Rows\<close>

record provider_config =
  pc_provider_id :: string
  pc_provider_type :: string
  pc_display_name :: string
  pc_enabled :: bool
  pc_api_key_secret_reference :: "string option"
  pc_base_url :: string
  pc_request_timeout :: int
  pc_refreshes_per_day :: int
  pc_daily_request_limit :: int
  pc_reserved_request_count :: int
  pc_status :: string
  pc_last_success_at :: "instant option"
  pc_last_failure_at :: "instant option"
  pc_last_error :: "string option"
  pc_request_count_date :: "int option"
  pc_request_count :: int
  pc_request_completed_count :: int
  pc_provider_daily_usage :: "int option"
  pc_provider_hourly_usage :: "int option"
  pc_provider_monthly_usage :: "int option"
  pc_provider_last_use :: "string option"
  pc_usage_reconciled_at :: "instant option"
  pc_usage_next_sync_at :: "instant option"
  pc_usage_status :: string
  pc_usage_error_code :: "string option"
  pc_next_refresh_at :: "instant option"
  pc_last_scheduled_refresh_at :: "instant option"
  pc_consecutive_failures :: int
  pc_authentication_blocked :: bool
  pc_schedule_timezone :: string
  pc_refresh_lock_until :: "instant option"
  pc_refresh_lock_token :: "string option"
  pc_runner_id :: "string option"
  pc_runner_state :: "string option"
  pc_runner_heartbeat_at :: "instant option"
  pc_updated_at :: instant

record rate_definition =
  rf_id :: string
  rf_provider_id :: string
  rf_external_symbol :: string
  rf_canonical_code :: string
  rf_display_name :: string
  rf_display_name_fa :: string
  rf_classification :: string
  rf_side :: "string option"
  rf_unit :: string
  rf_active :: bool

record rate_snapshot =
  sn_id :: string
  sn_provider_id :: string
  sn_external_symbol :: string
  sn_canonical_code :: string
  sn_display_name :: string
  sn_display_name_fa :: string
  sn_value :: rat
  sn_unit :: string
  sn_classification :: string
  sn_side :: "string option"
  sn_change :: "rat option"
  sn_provider_timestamp :: "instant option"
  sn_fetched_at :: instant
  sn_status :: string
  sn_raw_reference :: "string option"
  sn_source_key :: "string option"

record rate_selection =
  rs_user_id :: int
  rs_position :: nat
  rs_provider_id :: string
  rs_external_symbol :: string
  rs_canonical_code :: "string option"
  rs_updated_at :: instant

record fetch_run =
  fr_id :: string
  fr_provider_id :: string
  fr_status :: string
  fr_started_at :: instant
  fr_finished_at :: "instant option"
  fr_request_count :: int
  fr_records_fetched :: int
  fr_error_code :: "string option"
  fr_error_message :: "string option"
  fr_trigger :: string
  fr_inserted :: "int option"
  fr_missing :: "int option"

record rate_db =
  rd_providers :: "provider_config list"
  rd_definitions :: "rate_definition list"
  rd_snapshots :: "rate_snapshot list"
  rd_selections :: "rate_selection list"
  rd_runs :: "fetch_run list"
  rd_config :: "(string, string) dict"

text \<open>
  \<^verbatim>\<open>ExchangeRateProviderError\<close> carries a code, a message and the HTTP status of the response, if there was one;
  every other exception of a refresh is \<^verbatim>\<open>Internal_error\<close> with its class.
\<close>

datatype rate_error =
    Provider_error string string "int option"
  | Invalid_value string
  | Internal_error string

type_synonym 'a rate_op = "(rate_db, rate_error, 'a) op"
type_synonym zone_table = "string \<Rightarrow> (instant \<Rightarrow> duration) option"

definition put_provider :: "string \<Rightarrow> (provider_config \<Rightarrow> provider_config) \<Rightarrow> rate_db \<Rightarrow> rate_db" where
  "put_provider pid f db = db\<lparr>rd_providers := upd_row pc_provider_id pid f (rd_providers db)\<rparr>"

definition find_provider :: "string \<Rightarrow> rate_db \<Rightarrow> provider_config option" where
  "find_provider pid db = get_row pc_provider_id pid (rd_providers db)"

text \<open>An \<^verbatim>\<open>UPDATE\<close> with a condition, and its \<^verbatim>\<open>rowcount\<close>.\<close>

definition update_where ::
    "string \<Rightarrow> (provider_config \<Rightarrow> bool) \<Rightarrow> (provider_config \<Rightarrow> provider_config) \<Rightarrow> nat rate_op" where
  "update_where pid c f =
     sbind (sget (find_provider pid)) (\<lambda>row.
     case row of None \<Rightarrow> sret 0
     | Some p \<Rightarrow> if c p then sbind (smodify (put_provider pid f)) (\<lambda>_. sret 1) else sret 0)"

section \<open>The budget day\<close>

definition local_budget_date :: "zone_table \<Rightarrow> instant \<Rightarrow> string \<Rightarrow> int" where
  "local_budget_date zones now name =
     (now + (case zones name of Some offset \<Rightarrow> offset now | None \<Rightarrow> 0)) div days 1"

definition new_budget_day :: "int \<Rightarrow> provider_config \<Rightarrow> provider_config" where
  "new_budget_day today p = p\<lparr>pc_request_count_date := Some today, pc_request_count := 0,
     pc_request_completed_count := 0, pc_provider_daily_usage := None,
     pc_provider_hourly_usage := None, pc_provider_monthly_usage := None,
     pc_provider_last_use := None, pc_usage_reconciled_at := None,
     pc_usage_status := ''unknown'', pc_usage_error_code := None\<rparr>"

definition reset_if_needed :: "zone_table \<Rightarrow> string \<Rightarrow> instant \<Rightarrow> int rate_op" where
  "reset_if_needed zones pid now =
     sbind (sget (find_provider pid)) (\<lambda>row.
     case row of None \<Rightarrow> sraise (Provider_error ''provider_not_configured''
         ''Exchange-rate provider is not configured.'' None)
     | Some p \<Rightarrow>
       (let today = local_budget_date zones now (pc_schedule_timezone p) in
        sbind (update_where pid (\<lambda>p. pc_request_count_date p \<noteq> Some today) (new_budget_day today)) (\<lambda>_.
        sbind scommit (\<lambda>_. sret today))))"

section \<open>Reading the budget\<close>

record budget_snapshot =
  bs_budget_date :: int
  bs_attempted :: int
  bs_completed :: int
  bs_provider_daily :: "int option"
  bs_provider_hourly :: "int option"
  bs_provider_monthly :: "int option"
  bs_effective_usage :: int
  bs_configured_limit :: int
  bs_reserve :: int
  bs_safe_limit :: int
  bs_safe_remaining :: int
  bs_discrepancy :: "int option"

definition effective_usage :: "provider_config \<Rightarrow> int" where
  "effective_usage p =
     max (pc_request_count p) (case pc_provider_daily_usage p of Some n \<Rightarrow> n | None \<Rightarrow> 0)"

definition safe_limit :: "provider_config \<Rightarrow> int" where
  "safe_limit p = max 0 (pc_daily_request_limit p - pc_reserved_request_count p)"

definition snapshot_row :: "int \<Rightarrow> provider_config \<Rightarrow> budget_snapshot" where
  "snapshot_row today p =
     \<lparr>bs_budget_date = today, bs_attempted = pc_request_count p,
      bs_completed = pc_request_completed_count p, bs_provider_daily = pc_provider_daily_usage p,
      bs_provider_hourly = pc_provider_hourly_usage p,
      bs_provider_monthly = pc_provider_monthly_usage p, bs_effective_usage = effective_usage p,
      bs_configured_limit = pc_daily_request_limit p, bs_reserve = pc_reserved_request_count p,
      bs_safe_limit = safe_limit p, bs_safe_remaining = max 0 (safe_limit p - effective_usage p),
      bs_discrepancy = map_option (\<lambda>n. \<bar>pc_request_count p - n\<bar>) (pc_provider_daily_usage p)\<rparr>"

definition snapshot :: "zone_table \<Rightarrow> string \<Rightarrow> instant \<Rightarrow> budget_snapshot rate_op" where
  "snapshot zones pid now =
     sbind (reset_if_needed zones pid now) (\<lambda>today.
     sbind (sget (find_provider pid)) (\<lambda>row.
     case row of None \<Rightarrow> sraise (Internal_error ''AssertionError'')
     | Some p \<Rightarrow> sret (snapshot_row today p)))"

section \<open>Reserving a request\<close>

definition budget_open :: "provider_config \<Rightarrow> bool" where
  "budget_open p \<longleftrightarrow> \<not> (safe_limit p < 1 \<or> safe_limit p \<le> effective_usage p)"

text \<open>The row still has the counters that were read.\<close>

definition same_counters :: "provider_config \<Rightarrow> provider_config \<Rightarrow> bool" where
  "same_counters seen p \<longleftrightarrow> pc_request_count_date p = pc_request_count_date seen \<and>
     pc_request_count p = pc_request_count seen \<and>
     pc_provider_daily_usage p = pc_provider_daily_usage seen"

definition count_request :: "provider_config \<Rightarrow> provider_config \<Rightarrow> provider_config" where
  "count_request seen p = p\<lparr>pc_request_count := pc_request_count seen + 1\<rparr>"

text \<open>
  The rounds that are left; \<^verbatim>\<open>others i\<close> is what other transactions commit between the read and the
  \<^verbatim>\<open>UPDATE\<close> of the round before the last \<^verbatim>\<open>i\<close>. A row remembered by the session from an earlier
  transaction is covered: it differs from the durable row as if it had been read before them.
\<close>

fun reserve_rounds ::
    "zone_table \<Rightarrow> (nat \<Rightarrow> rate_db \<Rightarrow> rate_db) \<Rightarrow> string \<Rightarrow> instant \<Rightarrow> nat \<Rightarrow> budget_snapshot rate_op" where
  "reserve_rounds zones others pid now 0 = sraise (Provider_error ''budget_contention''
     ''Provider request budget is busy; try again shortly.'' None)"
| "reserve_rounds zones others pid now (Suc k) =
     sbind (sget (find_provider pid)) (\<lambda>row.
     case row of None \<Rightarrow> sraise (Internal_error ''AssertionError'')
     | Some seen \<Rightarrow>
       if \<not> budget_open seen then sraise (Provider_error ''budget_exhausted''
         ''The configured safe provider request budget has been reached.'' None)
       else
         sbind (sawait (others k)) (\<lambda>_.
         sbind (update_where pid (same_counters seen) (count_request seen)) (\<lambda>n.
         if n = 1 then sbind scommit (\<lambda>_. snapshot zones pid now)
         else sbind srollback (\<lambda>_. reserve_rounds zones others pid now k))))"

definition reserve ::
    "zone_table \<Rightarrow> (nat \<Rightarrow> rate_db \<Rightarrow> rate_db) \<Rightarrow> string \<Rightarrow> instant \<Rightarrow> budget_snapshot rate_op" where
  "reserve zones others pid now =
     sbind (reset_if_needed zones pid now) (\<lambda>_. reserve_rounds zones others pid now 5)"

definition mark_completed :: "zone_table \<Rightarrow> string \<Rightarrow> instant \<Rightarrow> unit rate_op" where
  "mark_completed zones pid now =
     sbind (reset_if_needed zones pid now) (\<lambda>today.
     sbind (update_where pid (\<lambda>p. pc_request_count_date p = Some today)
       (\<lambda>p. p\<lparr>pc_request_completed_count := pc_request_completed_count p + 1\<rparr>)) (\<lambda>_.
     scommit))"

section \<open>Transactions of many workers\<close>

text \<open>
  What any number of workers do to one provider's row, a transaction at a time: the first one of a
  day opens the day, a worker that saw an open budget counts its request when the counters are still
  those it saw, and everything else (completions, usage reports, locks, schedules, settings) keeps
  the counter and its day. The log of grants is not state of the program.
\<close>

record request_grant =
  rg_owner :: nat
  rg_day :: "int option"
  rg_limit :: int

record budget_world =
  bw_db :: rate_db
  bw_grants :: "request_grant list"

definition counter_of :: "string \<Rightarrow> rate_db \<Rightarrow> (int option \<times> int) option" where
  "counter_of pid db =
     map_option (\<lambda>p. (pc_request_count_date p, pc_request_count p)) (find_provider pid db)"

inductive budget_step :: "string \<Rightarrow> budget_world \<Rightarrow> budget_world \<Rightarrow> bool" for pid where
  create: "counter_of pid db = None \<Longrightarrow> counter_of pid db' = Some (None, 0) \<Longrightarrow>
    budget_step pid \<lparr>bw_db = db, bw_grants = gs\<rparr> \<lparr>bw_db = db', bw_grants = gs\<rparr>"
| open_day: "counter_of pid db = Some (day, n) \<Longrightarrow> day < Some today \<Longrightarrow>
    budget_step pid \<lparr>bw_db = db, bw_grants = gs\<rparr>
      \<lparr>bw_db = put_provider pid (new_budget_day today) db, bw_grants = gs\<rparr>"
| grant: "find_provider pid db = Some p \<Longrightarrow> budget_open seen \<Longrightarrow> same_counters seen p \<Longrightarrow>
    budget_step pid \<lparr>bw_db = db, bw_grants = gs\<rparr>
      \<lparr>bw_db = put_provider pid (count_request seen) db,
       bw_grants = gs @ [\<lparr>rg_owner = w, rg_day = pc_request_count_date p, rg_limit = safe_limit seen\<rparr>]\<rparr>"
| other: "counter_of pid db' = counter_of pid db \<Longrightarrow>
    budget_step pid \<lparr>bw_db = db, bw_grants = gs\<rparr> \<lparr>bw_db = db', bw_grants = gs\<rparr>"

definition budget_init :: "string \<Rightarrow> budget_world \<Rightarrow> bool" where
  "budget_init pid w \<longleftrightarrow> bw_grants w = [] \<and> counter_of pid (bw_db w) \<in> {None, Some (None, 0)}"

text \<open>
  The contract: a ledger per day. A day is opened once, with nothing used; a request is granted while
  fewer than the limit have been.
\<close>

record quota =
  q_counter :: "(int option \<times> int) option"
  q_grants :: "request_grant list"

inductive quota_step :: "quota \<Rightarrow> quota \<Rightarrow> bool" where
  quota_keep: "quota_step q q"
| quota_setup: "quota_step \<lparr>q_counter = None, q_grants = gs\<rparr> \<lparr>q_counter = Some (None, 0), q_grants = gs\<rparr>"
| quota_day: "day < Some today \<Longrightarrow>
    quota_step \<lparr>q_counter = Some (day, n), q_grants = gs\<rparr> \<lparr>q_counter = Some (Some today, 0), q_grants = gs\<rparr>"
| quota_grant: "n < rg_limit g \<Longrightarrow> rg_day g = day \<Longrightarrow>
    quota_step \<lparr>q_counter = Some (day, n), q_grants = gs\<rparr>
      \<lparr>q_counter = Some (day, n + 1), q_grants = gs @ [g]\<rparr>"

definition quota_of :: "string \<Rightarrow> budget_world \<Rightarrow> quota" where
  "quota_of pid w = \<lparr>q_counter = counter_of pid (bw_db w), q_grants = bw_grants w\<rparr>"

text \<open>The ledger agrees with its log, and no grant went over the limit it was made under.\<close>

definition granted_on :: "int option \<Rightarrow> request_grant list \<Rightarrow> request_grant list" where
  "granted_on day gs = filter (\<lambda>g. rg_day g = day) gs"

fun within_limits :: "request_grant list \<Rightarrow> bool" where
  "within_limits [] = True"
| "within_limits (g # gs) \<longleftrightarrow> int (length (granted_on (rg_day g) gs)) < rg_limit g \<and> within_limits gs"

definition quota_ok :: "quota \<Rightarrow> bool" where
  "quota_ok q \<longleftrightarrow> within_limits (rev (q_grants q)) \<and>
     (case q_counter q of None \<Rightarrow> q_grants q = []
      | Some (day, n) \<Rightarrow> n = int (length (granted_on day (q_grants q))) \<and>
          (\<forall>g \<in> set (q_grants q). rg_day g \<le> day))"

lemma counter_put:
  assumes "find_provider pid db = Some p" and "\<And>r. pc_provider_id (f r) = pc_provider_id r"
  shows "find_provider pid (put_provider pid f db) = Some (f p)"
  using assms get_row_upd[of pc_provider_id pid f pid "rd_providers db"]
  by (simp add: find_provider_def put_provider_def)

lemma counter_of_Some:
  "counter_of pid db = Some (day, n) \<longleftrightarrow>
     (\<exists>p. find_provider pid db = Some p \<and> pc_request_count_date p = day \<and> pc_request_count p = n)"
  by (auto simp: counter_of_def)

lemma quota_refined: "budget_step pid w v \<Longrightarrow> quota_step (quota_of pid w) (quota_of pid v)"
proof (induction rule: budget_step.induct)
  case (create db db' gs)
  then show ?case by (simp add: quota_of_def quota_setup)
next
  case (open_day db day n today gs)
  then obtain p where p: "find_provider pid db = Some p" by (auto simp: counter_of_Some)
  have "counter_of pid (put_provider pid (new_budget_day today) db) = Some (Some today, 0)"
    using counter_put[OF p, of "new_budget_day today"] by (simp add: counter_of_def new_budget_day_def)
  with open_day show ?case by (simp add: quota_of_def quota_day)
next
  case (grant db p seen gs w)
  have "counter_of pid (put_provider pid (count_request seen) db) =
      Some (pc_request_count_date p, pc_request_count p + 1)"
    using counter_put[OF grant(1), of "count_request seen"] grant(3)
    by (simp add: counter_of_def count_request_def same_counters_def)
  moreover have "pc_request_count p < safe_limit seen"
    using grant(2,3) by (simp add: budget_open_def same_counters_def effective_usage_def not_le)
  moreover have "counter_of pid db = Some (pc_request_count_date p, pc_request_count p)"
    using grant(1) by (simp add: counter_of_def)
  ultimately show ?case by (simp add: quota_of_def quota_grant)
next
  case (other db' db gs)
  then show ?case by (simp add: quota_of_def quota_keep)
qed

lemma granted_on_snoc [simp]:
  "granted_on day (gs @ [g]) = granted_on day gs @ (if rg_day g = day then [g] else [])"
  by (simp add: granted_on_def)

lemma granted_on_rev [simp]: "length (granted_on day (rev gs)) = length (granted_on day gs)"
  by (simp add: granted_on_def flip: rev_filter)

lemma granted_on_Nil [simp]: "granted_on day [] = []"
  by (simp add: granted_on_def)

lemma granted_on_newer:
  assumes "\<forall>g \<in> set gs. rg_day g \<le> day" and "day < Some today"
  shows "granted_on (Some today) gs = []"
  using assms by (fastforce simp: granted_on_def filter_empty_conv)

lemma quota_ok_step: "quota_ok q \<Longrightarrow> quota_step q r \<Longrightarrow> quota_ok r"
  by (erule quota_step.cases) (auto simp: quota_ok_def granted_on_newer intro: order_trans less_imp_le)

text \<open>The ledger's invariant in every reachable state.\<close>

definition quota_init :: "quota \<Rightarrow> bool" where
  "quota_init q \<longleftrightarrow> q_grants q = [] \<and> q_counter q \<in> {None, Some (None, 0)}"

lemma quota_ok_init: "quota_init q \<Longrightarrow> quota_ok q"
  by (cases q) (auto simp: quota_init_def quota_ok_def granted_on_def)

interpretation ledger: invariant_system quota_init quota_step quota_ok
  by unfold_locales (auto intro: quota_ok_init quota_ok_step)

lemma budget_simulates:
  "reach (budget_init pid) (budget_step pid) w \<Longrightarrow> reach quota_init quota_step (quota_of pid w)"
proof (induction rule: reach.induct)
  case (reach_init s)
  then show ?case by (auto simp: budget_init_def quota_of_def quota_init_def intro: reach.reach_init)
next
  case (reach_step s t)
  then show ?case by (blast intro: reach.reach_step quota_refined)
qed

lemma within_limits_bound:
  assumes "within_limits gs" and "\<forall>g \<in> set gs. rg_day g = day \<longrightarrow> rg_limit g \<le> limit" and "0 \<le> limit"
  shows "int (length (granted_on day gs)) \<le> limit"
  using assms by (induction gs) (auto simp: granted_on_def)

section \<open>One reservation\<close>

lemma steps_trans: "steps st a b \<Longrightarrow> steps st b c \<Longrightarrow> steps st a c"
  by (rotate_tac, induction rule: steps.induct) (auto intro: steps.intros)

lemma steps_one: "st a b \<Longrightarrow> steps st a b"
  by (blast intro: steps.intros)

lemma update_where_run:
  "find_provider pid (pending s) = Some p \<Longrightarrow> update_where pid c f s =
     (if c p then (Inr 1, s\<lparr>pending := put_provider pid f (pending s)\<rparr>) else (Inr 0, s))"
  by (simp add: update_where_def session_run session_bind)

definition day_opened :: "string \<Rightarrow> int \<Rightarrow> rate_db \<Rightarrow> rate_db" where
  "day_opened pid today db =
     (case find_provider pid db of None \<Rightarrow> db
      | Some p \<Rightarrow> if pc_request_count_date p = Some today then db
          else put_provider pid (new_budget_day today) db)"

lemma reset_run:
  "find_provider pid db = Some p \<Longrightarrow> local_budget_date zones now (pc_schedule_timezone p) = today \<Longrightarrow>
     reset_if_needed zones pid now (opened db) = (Inr today, opened (day_opened pid today db))"
  by (simp add: reset_if_needed_def session_bind sbind_run update_where_run session_run Let_def
      day_opened_def)

lemma day_opened_row:
  assumes "find_provider pid db = Some p"
  obtains q where "find_provider pid (day_opened pid today db) = Some q"
    "pc_request_count_date q = Some today" "pc_schedule_timezone q = pc_schedule_timezone p"
  using assms counter_put[OF assms, of "new_budget_day today"] that
  by (cases "pc_request_count_date p = Some today") (auto simp: day_opened_def new_budget_day_def)

lemma day_opened_steps:
  assumes "find_provider pid db = Some p" and "pc_request_count_date p \<le> Some today"
  shows "steps (budget_step pid) \<lparr>bw_db = db, bw_grants = gs\<rparr> \<lparr>bw_db = day_opened pid today db, bw_grants = gs\<rparr>"
  using assms
  by (cases "pc_request_count_date p = Some today")
    (auto simp: day_opened_def counter_of_def intro!: steps_refl steps_one open_day)

lemma snapshot_same_day:
  assumes "find_provider pid db = Some p" "pc_request_count_date p = Some today"
    and "local_budget_date zones now (pc_schedule_timezone p) = today"
  shows "snapshot zones pid now (opened db) = (Inr (snapshot_row today p), opened db)"
  using assms reset_run[OF assms(1,3)]
  by (simp add: snapshot_def sbind_run session_bind session_run day_opened_def)

text \<open>
  What a reservation asks of the transactions that may come between its read and its update: they are
  transactions of other workers, on the same day and in the same time zone.
\<close>

definition neighbours :: "string \<Rightarrow> nat \<Rightarrow> (rate_db \<Rightarrow> rate_db) \<Rightarrow> bool" where
  "neighbours pid me f \<longleftrightarrow>
     (\<forall>db p gs. find_provider pid db = Some p \<longrightarrow>
        (\<exists>q gs'. find_provider pid (f db) = Some q \<and>
           pc_request_count_date q = pc_request_count_date p \<and>
           pc_schedule_timezone q = pc_schedule_timezone p \<and>
           steps (budget_step pid) \<lparr>bw_db = db, bw_grants = gs\<rparr> \<lparr>bw_db = f db, bw_grants = gs @ gs'\<rparr> \<and>
           (\<forall>g \<in> set gs'. rg_owner g \<noteq> me)))"

definition own_grants :: "nat \<Rightarrow> request_grant list \<Rightarrow> nat" where
  "own_grants me gs = length (filter (\<lambda>g. rg_owner g = me) gs)"

lemma own_grants_simps [simp]:
  "own_grants me [] = 0" "own_grants me (gs @ hs) = own_grants me gs + own_grants me hs"
  "own_grants me [g] = (if rg_owner g = me then 1 else 0)"
  by (simp_all add: own_grants_def)

lemma own_grants_others: "\<forall>g \<in> set gs. rg_owner g \<noteq> me \<Longrightarrow> own_grants me gs = 0"
  by (simp add: own_grants_def filter_empty_conv)

lemma no_grants:
  "\<exists>gs' e. opened db = opened e \<and>
     steps (budget_step pid) \<lparr>bw_db = db, bw_grants = gs\<rparr> \<lparr>bw_db = e, bw_grants = gs @ gs'\<rparr> \<and>
     own_grants me gs' = 0"
  by (rule exI[of _ "[]"], rule exI[of _ db]) (simp add: steps_refl)

lemma reserve_rounds_steps:
  assumes "\<And>k. neighbours pid me (others k)"
    and "local_budget_date zones now zone = today"
    and "find_provider pid db = Some p" "pc_request_count_date p = Some today" "pc_schedule_timezone p = zone"
    and "reserve_rounds zones others pid now n (opened db) = (r, s)"
  shows "\<exists>gs' e. s = opened e \<and>
    steps (budget_step pid) \<lparr>bw_db = db, bw_grants = gs\<rparr> \<lparr>bw_db = e, bw_grants = gs @ gs'\<rparr> \<and>
    own_grants me gs' = (if is_ok r then 1 else 0)"
  using assms(3-)
proof (induction n arbitrary: db p gs)
  case 0
  then show ?case using no_grants by (auto simp: session_run)
next
  case (Suc n)
  let ?w = "\<lambda>db gs. \<lparr>bw_db = db, bw_grants = gs\<rparr>"
  show ?case
  proof (cases "budget_open p")
    case False
    with Suc.prems show ?thesis using no_grants by (auto simp: session_run session_bind)
  next
    case True
    obtain q gs1 where q: "find_provider pid (others n db) = Some q" "pc_request_count_date q = Some today"
        "pc_schedule_timezone q = zone"
      and st: "steps (budget_step pid) (?w db gs) (?w (others n db) (gs @ gs1))"
      and gs1: "\<forall>g \<in> set gs1. rg_owner g \<noteq> me"
      using assms(1)[of n] Suc.prems unfolding neighbours_def by metis
    show ?thesis
    proof (cases "same_counters p q")
      case same: True
      let ?e = "put_provider pid (count_request p) (others n db)"
      let ?g = "\<lparr>rg_owner = me, rg_day = pc_request_count_date q, rg_limit = safe_limit p\<rparr>"
      have row: "find_provider pid ?e = Some (count_request p q)"
        by (rule counter_put[OF q(1)]) (simp add: count_request_def)
      have "snapshot zones pid now (opened ?e) = (Inr (snapshot_row today (count_request p q)), opened ?e)"
        using assms(2) q by (intro snapshot_same_day row) (simp_all add: count_request_def)
      with Suc.prems True same q have "r = Inr (snapshot_row today (count_request p q))" "s = opened ?e"
        by (simp_all add: session_run session_bind sbind_run update_where_run)
      moreover have "steps (budget_step pid) (?w db gs) (?w ?e (gs @ gs1 @ [?g]))"
        using steps_more[OF st grant[OF q(1) True same, where w = me]] by simp
      ultimately show ?thesis using gs1
        by (intro exI[of _ "gs1 @ [?g]"] exI[of _ ?e]) (simp add: own_grants_others)
    next
      case False
      with Suc.prems True q have "reserve_rounds zones others pid now n (opened (others n db)) = (r, s)"
        by (simp add: session_run session_bind sbind_run update_where_run)
      from Suc.IH[OF q this, of "gs @ gs1"] st gs1 show ?thesis
        by (metis append.assoc own_grants_simps(2) own_grants_others plus_nat.add_0 steps_trans)
    qed
  qed
qed

section \<open>Properties\<close>



definition keeps_open :: "string \<Rightarrow> (rate_db \<Rightarrow> rate_db) \<Rightarrow> bool" where
  "keeps_open pid f \<longleftrightarrow> (\<forall>db p. find_provider pid db = Some p \<longrightarrow> budget_open p \<longrightarrow>
     (\<exists>q. find_provider pid (f db) = Some q \<and> budget_open q))"

definition quiet :: "string \<Rightarrow> (rate_db \<Rightarrow> rate_db) \<Rightarrow> bool" where
  "quiet pid f \<longleftrightarrow> (\<forall>db p. find_provider pid db = Some p \<longrightarrow>
     (\<exists>q. find_provider pid (f db) = Some q \<and> same_counters p q))"

lemma snapshot_returns:
  assumes "find_provider pid db = Some p"
  shows "\<exists>x e. snapshot zones pid now (opened db) = (Inr x, opened e)"
proof -
  let ?today = "local_budget_date zones now (pc_schedule_timezone p)"
  obtain q where "find_provider pid (day_opened pid ?today db) = Some q"
    using assms by (rule day_opened_row)
  then show ?thesis using reset_run[OF assms refl]
    by (auto simp: snapshot_def sbind_run session_bind session_run)
qed

lemma reserve_rounds_return:
  assumes "\<And>k. keeps_open pid (others k)"
    and "find_provider pid db = Some p" "budget_open p" and "k < n" "quiet pid (others k)"
  shows "\<exists>x e. reserve_rounds zones others pid now n (opened db) = (Inr x, opened e)"
  using assms(2-4)
proof (induction n arbitrary: db p)
  case 0
  then show ?case by simp
next
  case (Suc n)
  obtain q where q: "find_provider pid (others n db) = Some q" "budget_open q"
    using assms(1)[of n] Suc.prems unfolding keeps_open_def by metis
  show ?case
  proof (cases "same_counters p q")
    case True
    have "find_provider pid (put_provider pid (count_request p) (others n db)) = Some (count_request p q)"
      by (rule counter_put[OF q(1)]) (simp add: count_request_def)
    from snapshot_returns[OF this] Suc.prems True q show ?thesis
      by (simp add: session_run session_bind sbind_run update_where_run)
  next
    case False
    then have "k \<noteq> n" using assms(5) Suc.prems(1) q(1) unfolding quiet_def by fastforce
    with Suc.prems(3) have "k < n" by simp
    from Suc.IH[OF q this] False Suc.prems q show ?thesis
      by (simp add: session_run session_bind sbind_run update_where_run)
  qed
qed

text \<open>C26: A reservation is granted whenever the budget is open when its day begins, other transactions
  never close it, and in one of the five rounds they leave the counters alone.\<close>

theorem reserve_granted:
  assumes "find_provider pid (day_opened pid today db) = Some q" and "budget_open q"
    and "find_provider pid db = Some p" and "local_budget_date zones now (pc_schedule_timezone p) = today"
    and "\<And>i. keeps_open pid (others i)" and "k < 5" and "quiet pid (others k)"
  shows "\<exists>x s. reserve zones others pid now (opened db) = (Inr x, s)"
proof -
  have "\<exists>x e. reserve_rounds zones others pid now 5 (opened (day_opened pid today db)) = (Inr x, opened e)"
    using reserve_rounds_return[where others = others and k = k] assms by blast
  with reset_run[OF assms(3,4)] show ?thesis by (auto simp: reserve_def sbind_run)
qed

text \<open>C27: The budget forgets a day's requests when a transaction carries the clock of another day: after
  a completion marked with a clock from before midnight, the next reader sees no request of today.\<close>

theorem late_clock_forgets_budget:
  assumes "find_provider pid db = Some p"
    and "local_budget_date zones now (pc_schedule_timezone p) = today"
    and "local_budget_date zones earlier (pc_schedule_timezone p) = yesterday" and "yesterday \<noteq> today"
    and "pc_request_count_date p = Some today"
  shows "\<exists>x s s'. mark_completed zones pid earlier (opened db) = (Inr (), s) \<and>
    snapshot zones pid now s = (Inr x, s') \<and> bs_budget_date x = today \<and> bs_attempted x = 0"
proof -
  let ?e = "day_opened pid yesterday db"
  obtain q where q: "find_provider pid ?e = Some q" "pc_request_count_date q = Some yesterday"
      "pc_schedule_timezone q = pc_schedule_timezone p"
    using assms(1) by (rule day_opened_row)
  let ?f = "\<lambda>p. p\<lparr>pc_request_completed_count := pc_request_completed_count p + 1\<rparr>"
  let ?d = "put_provider pid ?f ?e"
  have d: "find_provider pid ?d = Some (?f q)" by (rule counter_put[OF q(1)]) simp
  have "mark_completed zones pid earlier (opened db) = (Inr (), opened ?d)"
    using reset_run[OF assms(1,3)] q
    by (simp add: mark_completed_def sbind_run update_where_run session_run)
  moreover have "snapshot zones pid now (opened ?d) =
      (Inr (snapshot_row today (new_budget_day today (?f q))), opened (put_provider pid (new_budget_day today) ?d))"
  proof -
    have "reset_if_needed zones pid now (opened ?d) = (Inr today, opened (day_opened pid today ?d))"
      using assms(2) q by (intro reset_run[OF d]) simp
    moreover have "day_opened pid today ?d = put_provider pid (new_budget_day today) ?d"
      using d q(2) assms(4) by (simp add: day_opened_def)
    moreover have "find_provider pid (put_provider pid (new_budget_day today) ?d) =
        Some (new_budget_day today (?f q))"
      by (rule counter_put[OF d]) (simp add: new_budget_day_def)
    ultimately show ?thesis by (simp add: snapshot_def sbind_run session_bind session_run)
  qed
  ultimately show ?thesis by (simp add: snapshot_row_def new_budget_day_def)
qed

section \<open>Witnesses\<close>

definition demo_provider :: provider_config where
  "demo_provider = \<lparr>pc_provider_id = ''navasan'', pc_provider_type = ''navasan'',
     pc_display_name = ''Navasan'', pc_enabled = True, pc_api_key_secret_reference = None,
     pc_base_url = ''https://api.navasan.tech'', pc_request_timeout = 10, pc_refreshes_per_day = 1,
     pc_daily_request_limit = 3, pc_reserved_request_count = 1, pc_status = ''healthy'',
     pc_last_success_at = None, pc_last_failure_at = None, pc_last_error = None,
     pc_request_count_date = None, pc_request_count = 0, pc_request_completed_count = 0,
     pc_provider_daily_usage = None, pc_provider_hourly_usage = None, pc_provider_monthly_usage = None,
     pc_provider_last_use = None, pc_usage_reconciled_at = None, pc_usage_next_sync_at = None,
     pc_usage_status = ''unknown'', pc_usage_error_code = None, pc_next_refresh_at = None,
     pc_last_scheduled_refresh_at = None, pc_consecutive_failures = 0,
     pc_authentication_blocked = False, pc_schedule_timezone = ''UTC'', pc_refresh_lock_until = None,
     pc_refresh_lock_token = None, pc_runner_id = None, pc_runner_state = None,
     pc_runner_heartbeat_at = None, pc_updated_at = 0\<rparr>"

definition demo_rates :: rate_db where
  "demo_rates = \<lparr>rd_providers = [demo_provider], rd_definitions = [], rd_snapshots = [],
     rd_selections = [], rd_runs = [], rd_config = []\<rparr>"

definition no_zones :: zone_table where
  "no_zones name = None"

lemmas demo_simps = demo_rates_def demo_provider_def find_provider_def get_row_def no_zones_def
  local_budget_date_def day_opened_def put_provider_def upd_row_def new_budget_day_def days_def
  seconds_def counter_of_def

lemma demo_row: "find_provider ''navasan'' demo_rates = Some demo_provider"
  by (simp add: demo_simps)

definition demo_grant_world :: budget_world where
  "demo_grant_world =
     \<lparr>bw_db = put_provider ''navasan'' (count_request demo_provider) demo_rates,
      bw_grants = [\<lparr>rg_owner = 0, rg_day = None, rg_limit = 2\<rparr>]\<rparr>"

lemma demo_grant_reach: "reach (budget_init ''navasan'') (budget_step ''navasan'') demo_grant_world"
proof (rule reach.reach_step)
  show "reach (budget_init ''navasan'') (budget_step ''navasan'') \<lparr>bw_db = demo_rates, bw_grants = []\<rparr>"
    by (rule reach.reach_init) (simp add: budget_init_def demo_simps)
  have "budget_step ''navasan'' \<lparr>bw_db = demo_rates, bw_grants = []\<rparr>
      \<lparr>bw_db = put_provider ''navasan'' (count_request demo_provider) demo_rates,
       bw_grants = [] @ [\<lparr>rg_owner = 0, rg_day = pc_request_count_date demo_provider,
         rg_limit = safe_limit demo_provider\<rparr>]\<rparr>"
    by (rule grant[OF demo_row])
      (simp_all add: budget_open_def same_counters_def safe_limit_def effective_usage_def demo_provider_def)
  then show "budget_step ''navasan'' \<lparr>bw_db = demo_rates, bw_grants = []\<rparr> demo_grant_world"
    by (simp add: demo_grant_world_def demo_provider_def safe_limit_def)
qed

lemma neighbours_id: "neighbours pid me (\<lambda>db. db)"
  unfolding neighbours_def
proof (intro allI impI)
  fix db p and gs :: "request_grant list"
  assume "find_provider pid db = Some p"
  then show "\<exists>q gs'. find_provider pid db = Some q \<and>
      pc_request_count_date q = pc_request_count_date p \<and>
      pc_schedule_timezone q = pc_schedule_timezone p \<and>
      steps (budget_step pid) \<lparr>bw_db = db, bw_grants = gs\<rparr> \<lparr>bw_db = db, bw_grants = gs @ gs'\<rparr> \<and>
      (\<forall>g \<in> set gs'. rg_owner g \<noteq> me)"
    by (intro exI[of _ p] exI[of _ "[]"]) (simp add: steps_refl)
qed


definition demo_reserve :: "(rate_error + budget_snapshot) \<times> rate_db tx" where
  "demo_reserve = reserve no_zones (\<lambda>_ db. db) ''navasan'' (days 2) (opened demo_rates)"


theorem reserve_granted_witness:
  "\<exists>x s. reserve no_zones (\<lambda>_ db. db) ''navasan'' (days 2) (opened demo_rates) = (Inr x, s)"
proof (rule reserve_granted[OF _ _ demo_row])
  show "find_provider ''navasan'' (day_opened ''navasan'' 2 demo_rates) = Some (new_budget_day 2 demo_provider)"
    by (simp add: demo_simps)
  show "budget_open (new_budget_day 2 demo_provider)"
    by (simp add: demo_simps budget_open_def safe_limit_def effective_usage_def)
  show "local_budget_date no_zones (days 2) (pc_schedule_timezone demo_provider) = 2"
    by (simp add: demo_simps)
  show "keeps_open ''navasan'' (\<lambda>db. db)" for i :: nat by (simp add: keeps_open_def)
  show "(0 :: nat) < 5" by simp
  show "quiet ''navasan'' (\<lambda>db. db)" by (simp add: quiet_def same_counters_def)
qed

definition demo_counted :: provider_config where
  "demo_counted = demo_provider\<lparr>pc_request_count_date := Some 2, pc_request_count := 1\<rparr>"

theorem late_clock_forgets_budget_witness:
  "\<exists>x s s'. mark_completed no_zones ''navasan'' (days 2 - 1) (opened (demo_rates\<lparr>rd_providers := [demo_counted]\<rparr>)) =
      (Inr (), s) \<and>
    snapshot no_zones ''navasan'' (days 2) s = (Inr x, s') \<and> bs_budget_date x = 2 \<and> bs_attempted x = 0"
proof (rule late_clock_forgets_budget[where yesterday = 1 and p = demo_counted])
  show "find_provider ''navasan'' (demo_rates\<lparr>rd_providers := [demo_counted]\<rparr>) = Some demo_counted"
    by (simp add: demo_simps demo_counted_def)
qed (simp_all add: demo_simps demo_counted_def)

end
