(* ===== verification/RateRefresh.thy ===== *)
theory RateRefresh
  imports RateBudget
begin

text \<open>
  Exchange-rate refreshes (\<^verbatim>\<open>app/flowhub/exchange_rates/service.py\<close>): the provider's row and the rate
  definitions, the refresh lock, a refresh with its failure schedule, usage reports, the connection
  test, the scheduler's tick, the operator's settings and a user's selection of rates. The provider's
  answers, the clock, random tokens, the digest, the settings of the process and the localised names are
  fields of the environment, and so are the transactions other workers commit meanwhile.
\<close>

section \<open>The environment\<close>

record provider_rate =
  pr_external_symbol :: string
  pr_value :: rat
  pr_value_text :: string
  pr_change :: "(rat \<times> string) option"
  pr_provider_timestamp :: "instant option"

record provider_usage =
  pu_daily_usage :: "int option"
  pu_hourly_usage :: "int option"
  pu_monthly_usage :: "int option"
  pu_last_use :: "string option"

record rate_env =
  re_zones :: zone_table
  re_midnight :: "string \<Rightarrow> (int \<Rightarrow> instant) option"
  re_now :: "rate_db \<Rightarrow> instant"
  re_token :: "rate_db \<Rightarrow> string"
  re_sha256 :: "string \<Rightarrow> string"
  re_isoformat :: "instant \<Rightarrow> string"
  re_name_fa :: "string \<Rightarrow> string"
  re_api_key :: "string option"
  re_timezone :: "string option"
  re_fetch_latest :: "rate_db \<Rightarrow> rate_error + provider_rate list"
  re_fetch_usage :: "rate_db \<Rightarrow> rate_error + provider_usage"
  re_test :: "rate_db \<Rightarrow> rate_error + unit"
  re_meanwhile :: "rate_db \<Rightarrow> rate_db"
  re_others :: "nat \<Rightarrow> rate_db \<Rightarrow> rate_db"

definition navasan :: string where
  "navasan = ''navasan''"

definition official_base_url :: string where
  "official_base_url = ''https://api.navasan.tech''"

definition USAGE_SYNC_INTERVAL :: duration where
  "USAGE_SYNC_INTERVAL = seconds (24 * 3600)"

definition LOCK_TTL :: duration where
  "LOCK_TTL = minutes 5"

definition DEFAULT_SELECTIONS :: "string list" where
  "DEFAULT_SELECTIONS = [''usd_sell'', ''eur'', ''aed_sell'']"

text \<open>Symbol, canonical code, name, classification and side; the unit of all is \<^verbatim>\<open>IRR\<close>.\<close>

definition DEFAULT_DEFINITIONS :: "(string \<times> string \<times> string \<times> string \<times> string option) list" where
  "DEFAULT_DEFINITIONS =
    [(''usd_sell'', ''USD_TEHRAN_SELL'', ''USD Tehran Sell'', ''market'', Some ''sell''),
     (''usd_buy'', ''USD_TEHRAN_BUY'', ''USD Tehran Buy'', ''market'', Some ''buy''),
     (''aed_sell'', ''AED_DUBAI_SELL'', ''AED Dubai Sell'', ''market'', Some ''sell''),
     (''eur'', ''EUR_MARKET'', ''EUR Market'', ''market'', None),
     (''gbp'', ''GBP_MARKET'', ''GBP Market'', ''market'', None),
     (''cad'', ''CAD_MARKET'', ''CAD Market'', ''market'', None),
     (''aud'', ''AUD_MARKET'', ''AUD Market'', ''market'', None),
     (''try'', ''TRY_MARKET'', ''TRY Market'', ''market'', None),
     (''sekkeh'', ''GOLD_COIN_IMAMI'', ''Imami Coin'', ''gold'', None),
     (''18ayar'', ''GOLD_18K'', ''18K Gold'', ''gold'', None),
     (''usdt'', ''USDT'', ''USDT'', ''crypto'', None),
     (''btc'', ''BTC'', ''Bitcoin'', ''crypto'', None),
     (''eth'', ''ETH'', ''Ethereum'', ''crypto'', None)]"

definition configured_timezone :: "rate_env \<Rightarrow> rate_db \<Rightarrow> string" where
  "configured_timezone env db =
     (let candidate = str_or (map_of (rd_config db) ''server.timezone'') (str_or (re_timezone env) ''UTC'') in
      case re_zones env candidate of None \<Rightarrow> ''UTC'' | Some _ \<Rightarrow> candidate)"

definition api_key :: "rate_env \<Rightarrow> rate_db \<Rightarrow> string" where
  "api_key env db =
     py_strip (str_or (re_api_key env) (str_or (map_of (rd_config db) ''exchange_rates.navasan.api_key'') ''''))"

definition has_credentials :: "rate_env \<Rightarrow> rate_db \<Rightarrow> bool" where
  "has_credentials env db \<longleftrightarrow> api_key env db \<noteq> ''''"

text \<open>The provider's row, which every caller expects once \<^verbatim>\<open>ensure_provider\<close> has run.\<close>

definition the_provider :: "provider_config rate_op" where
  "the_provider = sbind (sget (find_provider navasan)) (\<lambda>row.
     case row of None \<Rightarrow> sraise (Internal_error ''AssertionError'') | Some p \<Rightarrow> sret p)"

definition set_provider :: "(provider_config \<Rightarrow> provider_config) \<Rightarrow> unit rate_op" where
  "set_provider f = smodify (put_provider navasan f)"

section \<open>Provider and definitions\<close>

definition new_provider :: "rate_env \<Rightarrow> string \<Rightarrow> rate_db \<Rightarrow> provider_config" where
  "new_provider env zone db = \<lparr>pc_provider_id = navasan, pc_provider_type = ''navasan'',
     pc_display_name = ''Navasan'', pc_enabled = False,
     pc_api_key_secret_reference = Some ''FLOWHUB_NAVASAN_API_KEY'', pc_base_url = official_base_url,
     pc_request_timeout = 10, pc_refreshes_per_day = 1, pc_daily_request_limit = 120,
     pc_reserved_request_count = 10, pc_status = ''disabled'', pc_last_success_at = None,
     pc_last_failure_at = None, pc_last_error = None, pc_request_count_date = None,
     pc_request_count = 0, pc_request_completed_count = 0, pc_provider_daily_usage = None,
     pc_provider_hourly_usage = None, pc_provider_monthly_usage = None, pc_provider_last_use = None,
     pc_usage_reconciled_at = None, pc_usage_next_sync_at = None, pc_usage_status = ''unknown'',
     pc_usage_error_code = None, pc_next_refresh_at = None, pc_last_scheduled_refresh_at = None,
     pc_consecutive_failures = 0, pc_authentication_blocked = False, pc_schedule_timezone = zone,
     pc_refresh_lock_until = None, pc_refresh_lock_token = None, pc_runner_id = None,
     pc_runner_state = None, pc_runner_heartbeat_at = None, pc_updated_at = re_now env db\<rparr>"

definition new_definition :: "rate_env \<Rightarrow> string \<times> string \<times> string \<times> string \<times> string option \<Rightarrow> rate_definition" where
  "new_definition env d = (case d of (symbol, canonical, name, classification, side) \<Rightarrow>
     \<lparr>rf_id = navasan @ '':'' @ symbol, rf_provider_id = navasan, rf_external_symbol = symbol,
      rf_canonical_code = canonical, rf_display_name = name, rf_display_name_fa = re_name_fa env symbol,
      rf_classification = classification, rf_side = side, rf_unit = ''IRR'', rf_active = True\<rparr>)"

definition add_definitions :: "rate_env \<Rightarrow> rate_db \<Rightarrow> rate_db" where
  "add_definitions env db =
     (let existing = map rf_external_symbol (filter (\<lambda>r. rf_provider_id r = navasan) (rd_definitions db)) in
      db\<lparr>rd_definitions := rd_definitions db @
        map (new_definition env) (filter (\<lambda>d. fst d \<notin> set existing) DEFAULT_DEFINITIONS)\<rparr>)"

definition ensure_provider :: "rate_env \<Rightarrow> provider_config rate_op" where
  "ensure_provider env =
     sbind (sget (configured_timezone env)) (\<lambda>zone.
     sbind (sget (find_provider navasan)) (\<lambda>row.
     sbind (case row of
         None \<Rightarrow> smodify (\<lambda>db. db\<lparr>rd_providers := rd_providers db @ [new_provider env zone db]\<rparr>)
       | Some _ \<Rightarrow> set_provider (\<lambda>p. p\<lparr>pc_base_url := official_base_url,
           pc_schedule_timezone := zone,
           pc_api_key_secret_reference := Some ''FLOWHUB_NAVASAN_API_KEY''\<rparr>)) (\<lambda>_.
     sbind (smodify (add_definitions env)) (\<lambda>_.
     sbind scommit (\<lambda>_. the_provider)))))"

definition active_definitions :: "rate_db \<Rightarrow> rate_definition list" where
  "active_definitions db = sort_key rf_display_name
     (filter (\<lambda>r. rf_provider_id r = navasan \<and> rf_active r) (rd_definitions db))"

definition definitions :: "rate_env \<Rightarrow> rate_definition list rate_op" where
  "definitions env = sbind (ensure_provider env) (\<lambda>_. sget active_definitions)"

definition find_definition :: "string \<Rightarrow> rate_definition list \<Rightarrow> rate_definition option" where
  "find_definition symbol ds = find (\<lambda>d. rf_external_symbol d = symbol) ds"

section \<open>The refresh lock and the schedule\<close>

definition acquire_refresh_lock :: "rate_env \<Rightarrow> instant \<Rightarrow> string option rate_op" where
  "acquire_refresh_lock env now =
     sbind (sget (re_token env)) (\<lambda>token.
     sbind (update_where navasan
       (\<lambda>p. case pc_refresh_lock_until p of None \<Rightarrow> True | Some t \<Rightarrow> t \<le> now)
       (\<lambda>p. p\<lparr>pc_refresh_lock_until := Some (now + LOCK_TTL), pc_refresh_lock_token := Some token\<rparr>)) (\<lambda>n.
     sbind scommit (\<lambda>_. sret (if n = 1 then Some token else None))))"

definition release_refresh_lock :: "string \<Rightarrow> unit rate_op" where
  "release_refresh_lock token =
     sbind (update_where navasan (\<lambda>p. pc_refresh_lock_token p = Some token)
       (\<lambda>p. p\<lparr>pc_refresh_lock_until := None, pc_refresh_lock_token := None\<rparr>)) (\<lambda>_. scommit)"

text \<open>\<^verbatim>\<open>timedelta(seconds=86400 / n)\<close>: microseconds, a tie to the even one.\<close>

definition refresh_interval :: "provider_config \<Rightarrow> duration" where
  "refresh_interval p =
     (let n = max 1 (pc_refreshes_per_day p); q = days 1 div n; r = days 1 mod n in
      if 2 * r < n then q else if 2 * r > n then q + 1 else if even q then q else q + 1)"

definition next_budget_reset :: "rate_env \<Rightarrow> provider_config \<Rightarrow> instant \<Rightarrow> instant" where
  "next_budget_reset env p now =
     (let next_day = local_budget_date (re_zones env) now (pc_schedule_timezone p) + 1 in
      case re_midnight env (pc_schedule_timezone p) of Some midnight \<Rightarrow> midnight next_day
      | None \<Rightarrow> days next_day)"

definition schedule_failure :: "rate_env \<Rightarrow> instant \<Rightarrow> string \<Rightarrow> provider_config \<Rightarrow> provider_config" where
  "schedule_failure env now code p0 =
     (let p = p0\<lparr>pc_consecutive_failures := pc_consecutive_failures p0 + 1\<rparr> in
      if code = ''authentication_failed'' then p\<lparr>pc_authentication_blocked := True, pc_next_refresh_at := None\<rparr>
      else if code = ''budget_exhausted'' then p\<lparr>pc_next_refresh_at := Some (next_budget_reset env p now)\<rparr>
      else if pc_consecutive_failures p \<le> 3 then
        p\<lparr>pc_next_refresh_at := Some (now + min (refresh_interval p)
            (minutes (min 60 (5 * 2 ^ nat (pc_consecutive_failures p - 1)))))\<rparr>
      else p\<lparr>pc_next_refresh_at := Some (now + refresh_interval p)\<rparr>)"

section \<open>A refresh\<close>

record refresh_result =
  rr_status :: string
  rr_records :: int
  rr_inserted :: "int option"
  rr_trigger :: "string option"
  rr_error_code :: "string option"

definition plain_result :: "string \<Rightarrow> string option \<Rightarrow> refresh_result" where
  "plain_result status code = \<lparr>rr_status = status, rr_records = 0, rr_inserted = None,
     rr_trigger = None, rr_error_code = code\<rparr>"

definition fingerprint_text :: "rate_env \<Rightarrow> provider_rate \<Rightarrow> string" where
  "fingerprint_text env i = navasan @ ''|'' @ pr_external_symbol i @ ''|'' @
     (case pr_provider_timestamp i of Some t \<Rightarrow> re_isoformat env t | None \<Rightarrow> []) @ ''|'' @
     pr_value_text i @ ''|'' @ (case pr_change i of Some (_, txt) \<Rightarrow> txt | None \<Rightarrow> [])"

definition new_snapshot ::
    "rate_env \<Rightarrow> instant \<Rightarrow> rate_definition \<Rightarrow> provider_rate \<Rightarrow> rate_db \<Rightarrow> rate_snapshot" where
  "new_snapshot env fetched_at d i db =
     \<lparr>sn_id = re_token env db, sn_provider_id = navasan, sn_external_symbol = pr_external_symbol i,
      sn_canonical_code = rf_canonical_code d, sn_display_name = rf_display_name d,
      sn_display_name_fa = rf_display_name_fa d, sn_value = pr_value i, sn_unit = rf_unit d,
      sn_classification = rf_classification d, sn_side = rf_side d,
      sn_change = map_option fst (pr_change i), sn_provider_timestamp = pr_provider_timestamp i,
      sn_fetched_at = fetched_at, sn_status = ''fresh'', sn_raw_reference = None,
      sn_source_key = Some (re_sha256 env (fingerprint_text env i))\<rparr>"

text \<open>
  One item of the response; the counters are those of normalised and of inserted items. The session
  does not flush before a query, so the search for the fingerprint sees the durable rows.
\<close>

definition durable_keys :: "string list rate_op" where
  "durable_keys s = (Inr (List.map_filter sn_source_key (rd_snapshots (durable s))), s)"

definition store_rate ::
    "rate_env \<Rightarrow> rate_definition list \<Rightarrow> instant \<Rightarrow> int \<times> int \<Rightarrow> provider_rate \<Rightarrow> (int \<times> int) rate_op" where
  "store_rate env ds fetched_at counts i = (case counts of (normalized, inserted) \<Rightarrow>
     case find_definition (pr_external_symbol i) ds of
       None \<Rightarrow> sret (normalized, inserted)
     | Some d \<Rightarrow>
         sbind durable_keys (\<lambda>keys.
         if re_sha256 env (fingerprint_text env i) \<in> set keys then sret (normalized + 1, inserted)
         else sbind (smodify (\<lambda>db. db\<lparr>rd_snapshots := rd_snapshots db @ [new_snapshot env fetched_at d i db]\<rparr>)) (\<lambda>_.
           sret (normalized + 1, inserted + 1))))"

text \<open>
  The flush of a commit enforces the unique constraints of the snapshots: the source key, and the
  provider, symbol and timestamp where the timestamp is not \<^verbatim>\<open>NULL\<close>.
\<close>

definition snapshot_version :: "rate_snapshot \<Rightarrow> (string \<times> string \<times> instant) option" where
  "snapshot_version r = map_option (\<lambda>t. (sn_provider_id r, sn_external_symbol r, t)) (sn_provider_timestamp r)"

definition snapshots_unique :: "rate_snapshot list \<Rightarrow> bool" where
  "snapshots_unique rs \<longleftrightarrow> distinct (List.map_filter sn_source_key rs) \<and>
     distinct (List.map_filter snapshot_version rs)"

definition commit_checked :: "unit rate_op" where
  "commit_checked = sbind (sget (\<lambda>db. snapshots_unique (rd_snapshots db))) (\<lambda>fits.
     if fits then scommit else sraise (Internal_error ''IntegrityError''))"

definition put_run :: "string \<Rightarrow> (fetch_run \<Rightarrow> fetch_run) \<Rightarrow> unit rate_op" where
  "put_run rid f = smodify (\<lambda>db. db\<lparr>rd_runs := upd_row fr_id rid f (rd_runs db)\<rparr>)"

definition refresh_succeeded :: "string \<Rightarrow> instant \<Rightarrow> bool \<Rightarrow> provider_config \<Rightarrow> provider_config" where
  "refresh_succeeded trigger fetched_at missing p0 =
     (let p = p0\<lparr>pc_status := (if missing then ''degraded'' else ''healthy''),
        pc_last_success_at := Some fetched_at,
        pc_last_error := (if missing then Some ''partial_response'' else None),
        pc_consecutive_failures := 0, pc_authentication_blocked := False,
        pc_next_refresh_at := Some (fetched_at + refresh_interval p0)\<rparr> in
      if trigger = ''scheduled'' then p\<lparr>pc_last_scheduled_refresh_at := Some fetched_at\<rparr> else p)"

definition run_succeeded :: "string \<Rightarrow> instant \<Rightarrow> int \<Rightarrow> int \<Rightarrow> int \<Rightarrow> fetch_run \<Rightarrow> fetch_run" where
  "run_succeeded trigger fetched_at normalized inserted missing r =
     r\<lparr>fr_status := (if missing \<noteq> 0 then ''partial'' else ''success''),
       fr_records_fetched := normalized, fr_finished_at := Some fetched_at, fr_trigger := trigger,
       fr_inserted := Some inserted, fr_missing := Some missing\<rparr>"

text \<open>
  The response is stored: its known items, the provider's state and the run, in one commit.
\<close>

definition store_response :: "rate_env \<Rightarrow> string \<Rightarrow> string \<Rightarrow> provider_rate list \<Rightarrow> refresh_result rate_op" where
  "store_response env trigger rid data =
     sbind (definitions env) (\<lambda>ds.
     sbind (sget (re_now env)) (\<lambda>fetched_at.
     sbind (sfoldM (store_rate env ds fetched_at) (0, 0) data) (\<lambda>(normalized, inserted).
     if normalized = 0 then
       sraise (Provider_error ''partial_response'' ''The provider returned no configured rate items.'' None)
     else
       sbind the_provider (\<lambda>_.
       (let missing = max 0 (int (length ds) - normalized) in
       sbind (set_provider (refresh_succeeded trigger fetched_at (missing \<noteq> 0))) (\<lambda>_.
       sbind (put_run rid (run_succeeded trigger fetched_at normalized inserted missing)) (\<lambda>_.
       sbind commit_checked (\<lambda>_.
       sret \<lparr>rr_status = (if missing \<noteq> 0 then ''partial'' else ''success''), rr_records = normalized,
         rr_inserted = Some inserted, rr_trigger = Some trigger, rr_error_code = None\<rparr>))))))))"

text \<open>
  The provider answers on the database as it is at the call; while the call runs other transactions
  commit. The assignment to the run stays in memory until the next commit, so it is placed after the
  wait.
\<close>

definition refresh_body :: "rate_env \<Rightarrow> string \<Rightarrow> string \<Rightarrow> instant \<Rightarrow> refresh_result rate_op" where
  "refresh_body env trigger rid now =
     sbind (reserve (re_zones env) (re_others env) navasan now) (\<lambda>_.
     sbind (sget (re_fetch_latest env)) (\<lambda>answer.
     sbind (sawait (re_meanwhile env)) (\<lambda>_.
     sbind (put_run rid (\<lambda>r. r\<lparr>fr_request_count := 1\<rparr>)) (\<lambda>_.
     sbind (slift answer) (\<lambda>data.
     sbind (mark_completed (re_zones env) navasan now) (\<lambda>_.
     store_response env trigger rid data))))))"

definition error_code :: "rate_error \<Rightarrow> string" where
  "error_code e = (case e of Provider_error c _ _ \<Rightarrow> c | _ \<Rightarrow> ''internal_refresh_error'')"

definition error_text :: "rate_error \<Rightarrow> string" where
  "error_text e = (case e of Provider_error _ txt _ \<Rightarrow> txt
     | _ \<Rightarrow> ''Exchange-rate refresh failed during local processing.'')"

text \<open>The two handlers of a failed refresh.\<close>

definition refresh_failed :: "rate_env \<Rightarrow> string \<Rightarrow> instant \<Rightarrow> rate_error \<Rightarrow> refresh_result rate_op" where
  "refresh_failed env rid now e =
     sbind (case e of
         Provider_error _ _ (Some _) \<Rightarrow> mark_completed (re_zones env) navasan now
       | Provider_error _ _ None \<Rightarrow> sret ()
       | _ \<Rightarrow> srollback) (\<lambda>_.
     sbind the_provider (\<lambda>_.
     sbind (sget (re_now env)) (\<lambda>failed_at.
     sbind (set_provider (\<lambda>p. schedule_failure env failed_at (error_code e)
       (p\<lparr>pc_status := ''error'', pc_last_failure_at := Some failed_at,
          pc_last_error := Some (error_code e)\<rparr>))) (\<lambda>_.
     sbind (put_run rid (\<lambda>r. r\<lparr>fr_status := ''failed'', fr_error_code := Some (error_code e),
       fr_error_message := Some (error_text e), fr_finished_at := Some failed_at\<rparr>)) (\<lambda>_.
     sbind scommit (\<lambda>_. sret (plain_result ''failed'' (Some (error_code e)))))))))"

definition new_run :: "string \<Rightarrow> instant \<Rightarrow> string \<Rightarrow> fetch_run" where
  "new_run rid now trigger =
     \<lparr>fr_id = rid, fr_provider_id = navasan, fr_status = ''running'', fr_started_at = now,
      fr_finished_at = None, fr_request_count = 0, fr_records_fetched = 0, fr_error_code = None,
      fr_error_message = None, fr_trigger = trigger, fr_inserted = None, fr_missing = None\<rparr>"

definition refresh :: "rate_env \<Rightarrow> string \<Rightarrow> refresh_result rate_op" where
  "refresh env trigger =
     sbind (ensure_provider env) (\<lambda>p.
     if \<not> pc_enabled p then sret (plain_result ''disabled'' None)
     else sbind (sget (has_credentials env)) (\<lambda>key.
     if \<not> key then sret (plain_result ''unavailable'' (Some ''missing_credentials''))
     else if pc_authentication_blocked p then sret (plain_result ''blocked'' (Some ''authentication_failed''))
     else
       sbind (sget (re_now env)) (\<lambda>now.
       sbind (acquire_refresh_lock env now) (\<lambda>lock.
       case lock of None \<Rightarrow> sret (plain_result ''already_running'' None)
       | Some token \<Rightarrow>
         sbind (sget (re_token env)) (\<lambda>rid.
         sbind (smodify (\<lambda>db. db\<lparr>rd_runs := rd_runs db @ [new_run rid now trigger]\<rparr>)) (\<lambda>_.
         sbind scommit (\<lambda>_.
         sfinally (scatch (refresh_body env trigger rid now) (refresh_failed env rid now))
           (release_refresh_lock token))))))))"

section \<open>Usage reports and the connection test\<close>

definition usage_reported :: "provider_usage \<Rightarrow> instant \<Rightarrow> instant \<Rightarrow> provider_config \<Rightarrow> provider_config" where
  "usage_reported u reconciled_at synced_at p =
     p\<lparr>pc_provider_daily_usage := pu_daily_usage u, pc_provider_hourly_usage := pu_hourly_usage u,
       pc_provider_monthly_usage := pu_monthly_usage u, pc_provider_last_use := pu_last_use u,
       pc_usage_reconciled_at := Some reconciled_at,
       pc_usage_next_sync_at := Some (synced_at + USAGE_SYNC_INTERVAL),
       pc_usage_status := ''reconciled'', pc_usage_error_code := None\<rparr>"

definition usage_failed :: "string \<Rightarrow> instant \<Rightarrow> provider_config \<Rightarrow> provider_config" where
  "usage_failed code now p0 =
     (let p = p0\<lparr>pc_usage_status := (if pc_usage_reconciled_at p0 = None then ''error'' else ''stale''),
        pc_usage_error_code := Some code,
        pc_usage_next_sync_at := (if code = ''authentication_failed'' then None
          else Some (now + seconds 3600))\<rparr> in
      if code = ''authentication_failed'' then p\<lparr>pc_authentication_blocked := True\<rparr> else p)"

text \<open>\<^verbatim>\<open>except ExchangeRateProviderError\<close>: a completed request is counted, anything else passes on.\<close>

definition on_provider_error ::
    "rate_env \<Rightarrow> instant \<Rightarrow> (string \<Rightarrow> 'a rate_op) \<Rightarrow> rate_error \<Rightarrow> 'a rate_op" where
  "on_provider_error env now h e =
     (case e of Provider_error code _ status \<Rightarrow>
        sbind (if status \<noteq> None then mark_completed (re_zones env) navasan now else sret ()) (\<lambda>_. h code)
      | _ \<Rightarrow> sraise e)"

definition sync_usage :: "rate_env \<Rightarrow> bool \<Rightarrow> string rate_op" where
  "sync_usage env force =
     sbind (ensure_provider env) (\<lambda>p.
     sbind (sget (re_now env)) (\<lambda>now.
     sbind (sget (has_credentials env)) (\<lambda>key.
     if \<not> pc_enabled p \<or> \<not> key \<or> pc_authentication_blocked p then sret ''skipped''
     else if \<not> force \<and> (case pc_usage_next_sync_at p of None \<Rightarrow> False | Some t \<Rightarrow> now < t) then sret ''cached''
     else
       sbind (acquire_refresh_lock env now) (\<lambda>lock.
       case lock of None \<Rightarrow> sret ''already_running''
       | Some token \<Rightarrow>
         sfinally (scatch
           (sbind (reserve (re_zones env) (re_others env) navasan now) (\<lambda>_.
            sbind (sget (re_fetch_usage env)) (\<lambda>answer.
            sbind (sawait (re_meanwhile env)) (\<lambda>_.
            sbind (slift answer) (\<lambda>usage.
            sbind (mark_completed (re_zones env) navasan now) (\<lambda>_.
            sbind the_provider (\<lambda>_.
            sbind (sget (re_now env)) (\<lambda>at1.
            sbind (set_provider (usage_reported usage at1 at1)) (\<lambda>_.
            sbind scommit (\<lambda>_. sret ''reconciled''))))))))))
           (on_provider_error env now (\<lambda>code.
              sbind the_provider (\<lambda>_.
              sbind (sget (re_now env)) (\<lambda>at1.
              sbind (set_provider (usage_failed code at1)) (\<lambda>_.
              sbind scommit (\<lambda>_.
              sbind the_provider (\<lambda>q. sret (pc_usage_status q)))))))))
           (release_refresh_lock token)))))"

definition test_connection :: "rate_env \<Rightarrow> unit rate_op" where
  "test_connection env =
     sbind (ensure_provider env) (\<lambda>p.
     sbind (sget (has_credentials env)) (\<lambda>key.
     if \<not> pc_enabled p \<or> \<not> key then
       sraise (Provider_error ''provider_unavailable''
         ''The exchange-rate provider is not enabled and configured.'' None)
     else if pc_authentication_blocked p then
       sraise (Provider_error ''authentication_failed''
         ''Provider authentication must be reconfigured before retrying.'' None)
     else
       sbind (sget (re_now env)) (\<lambda>now.
       sbind (acquire_refresh_lock env now) (\<lambda>lock.
       case lock of None \<Rightarrow> sraise (Provider_error ''already_running''
           ''Another provider operation is already running.'' None)
       | Some token \<Rightarrow>
         sfinally (scatch
           (sbind (reserve (re_zones env) (re_others env) navasan now) (\<lambda>_.
            sbind (sget (re_test env)) (\<lambda>answer.
            sbind (sawait (re_meanwhile env)) (\<lambda>_.
            sbind (slift answer) (\<lambda>_.
            mark_completed (re_zones env) navasan now)))))
           (\<lambda>e. on_provider_error env now (\<lambda>code.
              sbind (if code = ''authentication_failed'' then
                  sbind the_provider (\<lambda>_.
                  sbind (set_provider (\<lambda>p. p\<lparr>pc_authentication_blocked := True, pc_status := ''error'',
                    pc_last_error := Some code, pc_next_refresh_at := None\<rparr>)) (\<lambda>_. scommit))
                else sret ()) (\<lambda>_. sraise e)) e))
           (release_refresh_lock token)))))"

section \<open>The scheduler\<close>

definition scheduler_tick :: "rate_env \<Rightarrow> (string \<times> string option) rate_op" where
  "scheduler_tick env =
     sbind (ensure_provider env) (\<lambda>p.
     sbind (sget (re_now env)) (\<lambda>now.
     sbind (sget (has_credentials env)) (\<lambda>key.
     if \<not> pc_enabled p then
       sbind (set_provider (\<lambda>p. p\<lparr>pc_next_refresh_at := None, pc_status := ''disabled''\<rparr>)) (\<lambda>_.
       sbind scommit (\<lambda>_. sret (''disabled'', None)))
     else if \<not> key then
       sbind (set_provider (\<lambda>p. p\<lparr>pc_next_refresh_at := None, pc_status := ''unavailable'',
         pc_last_error := Some ''missing_credentials''\<rparr>)) (\<lambda>_.
       sbind scommit (\<lambda>_. sret (''unavailable'', None)))
     else if pc_authentication_blocked p then
       sbind (set_provider (\<lambda>p. p\<lparr>pc_next_refresh_at := None\<rparr>)) (\<lambda>_.
       sbind scommit (\<lambda>_. sret (''blocked'', None)))
     else
       sbind (sync_usage env False) (\<lambda>usage.
       sbind the_provider (\<lambda>q.
       sbind (if pc_next_refresh_at q = None
         then sbind (set_provider (\<lambda>p. p\<lparr>pc_next_refresh_at := Some now\<rparr>)) (\<lambda>_. scommit)
         else sret ()) (\<lambda>_.
       sbind the_provider (\<lambda>q.
       if (case pc_next_refresh_at q of None \<Rightarrow> False | Some t \<Rightarrow> now < t) then sret (''not_due'', Some usage)
       else sbind (refresh env ''scheduled'') (\<lambda>r. sret (rr_status r, Some usage)))))))))"

section \<open>Settings and selections\<close>

record admin_values =
  av_enabled :: "bool option"
  av_api_key :: "string option"
  av_refreshes_per_day :: "int option"
  av_daily_request_limit :: "int option"
  av_reserved_request_count :: "int option"
  av_request_timeout :: "int option"

definition value_or :: "'a option \<Rightarrow> 'a \<Rightarrow> 'a" where
  "value_or v d = (case v of Some x \<Rightarrow> x | None \<Rightarrow> d)"

text \<open>The checked settings, before anything is stored.\<close>

definition admin_settings :: "admin_values \<Rightarrow> provider_config \<Rightarrow> (int \<times> int \<times> int) option" where
  "admin_settings v p =
     (let refreshes = value_or (av_refreshes_per_day v) (pc_refreshes_per_day p);
          daily_limit = value_or (av_daily_request_limit v) (pc_daily_request_limit p);
          kept = value_or (av_reserved_request_count v) (pc_reserved_request_count p);
          safe_refresh_limit = daily_limit - kept - 1 in
      if daily_limit < 2 \<or> kept < 0 \<or> daily_limit \<le> kept \<or> refreshes < 1 \<or> safe_refresh_limit < refreshes
      then None else Some (refreshes, daily_limit, kept))"

definition update_admin_config :: "rate_env \<Rightarrow> admin_values \<Rightarrow> unit rate_op" where
  "update_admin_config env v =
     sbind (ensure_provider env) (\<lambda>p.
     case admin_settings v p of
       None \<Rightarrow> sraise (Invalid_value ''Refresh frequency must fit within the safe daily budget after the usage reconciliation allowance.'')
     | Some (refreshes, daily_limit, kept) \<Rightarrow>
       sbind (sget (configured_timezone env)) (\<lambda>zone.
       sbind (set_provider (\<lambda>p. p\<lparr>pc_enabled := value_or (av_enabled v) (pc_enabled p),
         pc_refreshes_per_day := refreshes, pc_daily_request_limit := daily_limit,
         pc_reserved_request_count := kept,
         pc_request_timeout := max 2 (min (value_or (av_request_timeout v) (pc_request_timeout p)) 30),
         pc_base_url := official_base_url, pc_schedule_timezone := zone\<rparr>)) (\<lambda>_.
       (let submitted = py_strip (str_or (av_api_key v) []) in
       sbind (if submitted = [] then sret ()
         else
           sbind (smodify (\<lambda>db. db\<lparr>rd_config :=
             AList.update ''exchange_rates.navasan.api_key'' submitted (rd_config db)\<rparr>)) (\<lambda>_.
           sbind scommit (\<lambda>_.
           set_provider (\<lambda>p. p\<lparr>pc_authentication_blocked := False, pc_usage_next_sync_at := None\<rparr>)))) (\<lambda>_.
       sbind (sget (has_credentials env)) (\<lambda>key.
       sbind (sget (re_now env)) (\<lambda>now.
       sbind (set_provider (\<lambda>p. p\<lparr>pc_status := (if pc_enabled p then ''configured'' else ''disabled''),
         pc_next_refresh_at := (if pc_enabled p \<and> key then Some now else None), pc_updated_at := now\<rparr>)) (\<lambda>_.
       scommit))))))))"

definition new_selections :: "rate_env \<Rightarrow> int \<Rightarrow> rate_definition list \<Rightarrow> string list \<Rightarrow> rate_db \<Rightarrow> rate_db" where
  "new_selections env uid ds symbols db = db\<lparr>rd_selections :=
     filter (\<lambda>r. rs_user_id r \<noteq> uid) (rd_selections db) @
     map (\<lambda>(n, symbol). \<lparr>rs_user_id = uid, rs_position = n, rs_provider_id = navasan,
       rs_external_symbol = symbol,
       rs_canonical_code = map_option rf_canonical_code (find_definition symbol ds),
       rs_updated_at = re_now env db\<rparr>) (enumerate 0 symbols)\<rparr>"

definition update_selections :: "rate_env \<Rightarrow> int \<Rightarrow> string list \<Rightarrow> unit rate_op" where
  "update_selections env uid symbols =
     (let normalized = map py_strip symbols in
      if length normalized \<noteq> 3 \<or> \<not> distinct normalized then
        sraise (Invalid_value ''Exactly three distinct exchange rates must be selected.'')
      else sbind (definitions env) (\<lambda>ds.
        if \<exists>symbol \<in> set normalized. find_definition symbol ds = None then
          sraise (Invalid_value ''One or more selected exchange rates are not supported.'')
        else sbind (smodify (new_selections env uid ds normalized)) (\<lambda>_. scommit)))"

definition user_selections :: "int \<Rightarrow> rate_db \<Rightarrow> rate_selection list" where
  "user_selections uid db = sort_key rs_position (filter (\<lambda>r. rs_user_id r = uid) (rd_selections db))"

definition selections :: "rate_env \<Rightarrow> int \<Rightarrow> rate_selection list rate_op" where
  "selections env uid =
     sbind (sget (user_selections uid)) (\<lambda>rows.
     if map rs_position rows = [0, 1, 2] \<and>
        length (remdups (map (\<lambda>r. (rs_provider_id r, rs_external_symbol r)) rows)) = 3 then sret rows
     else
       sbind (smodify (\<lambda>db. db\<lparr>rd_selections := filter (\<lambda>r. rs_user_id r \<noteq> uid) (rd_selections db)\<rparr>)) (\<lambda>_.
       sbind (definitions env) (\<lambda>ds.
       if \<exists>symbol \<in> set DEFAULT_SELECTIONS. find_definition symbol ds = None then
         sraise (Internal_error ''KeyError'')
       else sbind (smodify (new_selections env uid ds DEFAULT_SELECTIONS)) (\<lambda>_.
         sbind scommit (\<lambda>_. sget (user_selections uid))))))"

section \<open>The lock\<close>

lemma the_provider_run:
  "find_provider navasan (pending s) = Some p \<Longrightarrow> the_provider s = (Inr p, s)"
  by (simp add: the_provider_def session_bind session_run)

lemma acquire_run:
  assumes "find_provider navasan db = Some p"
  shows "acquire_refresh_lock env now (opened db) =
    (if (case pc_refresh_lock_until p of None \<Rightarrow> True | Some t \<Rightarrow> t \<le> now)
     then (Inr (Some (re_token env db)), opened (put_provider navasan
       (\<lambda>p. p\<lparr>pc_refresh_lock_until := Some (now + LOCK_TTL), pc_refresh_lock_token := Some (re_token env db)\<rparr>) db))
     else (Inr None, opened db))"
  using assms by (simp add: acquire_refresh_lock_def session_bind session_run sbind_run update_where_run)

text \<open>While a lock is neither released nor expired nobody else acquires it.\<close>

lemma refresh_lock_exclusive:
  assumes "find_provider navasan db = Some p"
    and "acquire_refresh_lock env now (opened db) = (Inr (Some token), s)"
    and "later < now + LOCK_TTL"
  shows "fst (acquire_refresh_lock env' later s) = Inr None"
proof -
  let ?f = "\<lambda>p. p\<lparr>pc_refresh_lock_until := Some (now + LOCK_TTL), pc_refresh_lock_token := Some (re_token env db)\<rparr>"
  have s: "s = opened (put_provider navasan ?f db)"
    using assms(1,2) by (auto simp: acquire_run split: if_splits)
  have "find_provider navasan (put_provider navasan ?f db) = Some (?f p)"
    by (rule counter_put[OF assms(1)]) simp
  with assms(3) s show ?thesis by (simp add: acquire_run)
qed

section \<open>What a response leaves behind\<close>

lemma ensure_provider_run:
  assumes "find_provider navasan db = Some p"
  obtains q e where "ensure_provider env (opened db) = (Inr q, opened e)"
    "find_provider navasan e = Some q" "rd_snapshots e = rd_snapshots db"
    "active_definitions e = active_definitions (add_definitions env db)"
proof -
  let ?f = "\<lambda>p. p\<lparr>pc_base_url := official_base_url, pc_schedule_timezone := configured_timezone env db,
    pc_api_key_secret_reference := Some ''FLOWHUB_NAVASAN_API_KEY''\<rparr>"
  let ?e = "add_definitions env (put_provider navasan ?f db)"
  have row: "find_provider navasan ?e = Some (?f p)"
    using counter_put[OF assms, of ?f] by (simp add: add_definitions_def Let_def find_provider_def)
  have "ensure_provider env (opened db) = (Inr (?f p), opened ?e)"
    using assms row by (simp add: ensure_provider_def session_bind session_run set_provider_def the_provider_run)
  moreover have "rd_snapshots ?e = rd_snapshots db" "active_definitions ?e = active_definitions (add_definitions env db)"
    by (simp_all add: add_definitions_def put_provider_def active_definitions_def)
  ultimately show ?thesis using row that by blast
qed

definition item_version :: "provider_rate \<Rightarrow> (string \<times> string \<times> instant) option" where
  "item_version i = map_option (\<lambda>t. (navasan, pr_external_symbol i, t)) (pr_provider_timestamp i)"

definition new_item :: "rate_env \<Rightarrow> rate_definition list \<Rightarrow> rate_db \<Rightarrow> provider_rate \<Rightarrow> bool" where
  "new_item env ds db i \<longleftrightarrow> find_definition (pr_external_symbol i) ds \<noteq> None \<and>
     re_sha256 env (fingerprint_text env i) \<notin> set (List.map_filter sn_source_key (rd_snapshots db))"

lemma store_rate_run:
  obtains n' k' news where
    "store_rate env ds t (n, k) i s =
      (Inr (n', k'), s\<lparr>pending := (pending s)\<lparr>rd_snapshots := rd_snapshots (pending s) @ news\<rparr>\<rparr>)"
    "n \<le> n'"
    "new_item env ds (durable s) i \<longrightarrow> n < n' \<and> item_version i \<in> snapshot_version ` set news"
proof (cases "find_definition (pr_external_symbol i) ds")
  case None
  have "store_rate env ds t (n, k) i s =
      (Inr (n, k), s\<lparr>pending := (pending s)\<lparr>rd_snapshots := rd_snapshots (pending s) @ []\<rparr>\<rparr>)"
    using None by (simp add: store_rate_def session_run)
  from that[OF this] show ?thesis using None by (simp add: new_item_def)
next
  case (Some d)
  show ?thesis
  proof (cases "re_sha256 env (fingerprint_text env i) \<in> set (List.map_filter sn_source_key (rd_snapshots (durable s)))")
    case True
    have "store_rate env ds t (n, k) i s =
        (Inr (n + 1, k), s\<lparr>pending := (pending s)\<lparr>rd_snapshots := rd_snapshots (pending s) @ []\<rparr>\<rparr>)"
      using Some True by (simp add: store_rate_def session_run sbind_def durable_keys_def)
    from that[OF this] show ?thesis using True by (simp add: new_item_def)
  next
    case False
    have "store_rate env ds t (n, k) i s = (Inr (n + 1, k + 1), s\<lparr>pending := (pending s)\<lparr>rd_snapshots :=
        rd_snapshots (pending s) @ [new_snapshot env t d i (pending s)]\<rparr>\<rparr>)"
      using Some False by (simp add: store_rate_def session_run sbind_def durable_keys_def)
    then show ?thesis
      by (rule that) (simp_all add: item_version_def snapshot_version_def new_snapshot_def)
  qed
qed

lemma store_rates_run:
  "\<exists>n' k' news. sfoldM (store_rate env ds t) (n, k) data s =
      (Inr (n', k'), s\<lparr>pending := (pending s)\<lparr>rd_snapshots := rd_snapshots (pending s) @ news\<rparr>\<rparr>) \<and> n \<le> n' \<and>
    (\<forall>i \<in> set data. new_item env ds (durable s) i \<longrightarrow> n < n' \<and> item_version i \<in> snapshot_version ` set news)"
proof (induction data arbitrary: n k s)
  case Nil
  show ?case by (rule exI[of _ n], rule exI[of _ k], rule exI[of _ "[]"]) (simp add: session_run)
next
  case (Cons i data)
  obtain n1 k1 xs where 1: "store_rate env ds t (n, k) i s =
        (Inr (n1, k1), s\<lparr>pending := (pending s)\<lparr>rd_snapshots := rd_snapshots (pending s) @ xs\<rparr>\<rparr>)"
      "n \<le> n1" "new_item env ds (durable s) i \<longrightarrow> n < n1 \<and> item_version i \<in> snapshot_version ` set xs"
    by (rule store_rate_run)
  obtain n2 k2 ys where 2: "sfoldM (store_rate env ds t) (n1, k1) data
        (s\<lparr>pending := (pending s)\<lparr>rd_snapshots := rd_snapshots (pending s) @ xs\<rparr>\<rparr>) =
        (Inr (n2, k2), s\<lparr>pending := (pending s)\<lparr>rd_snapshots := rd_snapshots (pending s) @ xs @ ys\<rparr>\<rparr>)"
      "n1 \<le> n2" "\<forall>i \<in> set data. new_item env ds (durable s) i \<longrightarrow> n1 < n2 \<and> item_version i \<in> snapshot_version ` set ys"
    using Cons.IH[of n1 k1 "s\<lparr>pending := (pending s)\<lparr>rd_snapshots := rd_snapshots (pending s) @ xs\<rparr>\<rparr>"] by auto
  have "sfoldM (store_rate env ds t) (n, k) (i # data) s =
      (Inr (n2, k2), s\<lparr>pending := (pending s)\<lparr>rd_snapshots := rd_snapshots (pending s) @ xs @ ys\<rparr>\<rparr>)"
    using 1 2 by (simp add: sbind_def)
  with 1 2 show ?case
    by (intro exI[of _ n2] exI[of _ k2] exI[of _ "xs @ ys"]) (auto simp: image_Un)
qed

lemma map_filter_repeats:
  assumes "Some v = f r" "r \<in> set xs" "Some v \<in> f ` set ys"
  shows "\<not> distinct (List.map_filter f (xs @ ys))"
proof -
  have member: "w \<in> set (List.map_filter f zs) \<longleftrightarrow> Some w \<in> f ` set zs" for w zs
    by (induction zs) (auto split: option.split)
  have "v \<in> set (List.map_filter f xs)" using assms(1,2) by (force simp: member)
  moreover have "v \<in> set (List.map_filter f ys)" using assms(3) by (simp add: member)
  moreover have "List.map_filter f (xs @ ys) = List.map_filter f xs @ List.map_filter f ys"
    by (simp add: List.map_filter_def)
  ultimately show ?thesis by auto
qed

lemma failed_after_rollback:
  assumes "find_provider navasan (durable s) = Some p"
  shows "\<exists>s'. refresh_failed env rid now (Internal_error c) s =
      (Inr (plain_result ''failed'' (Some ''internal_refresh_error'')), s') \<and>
    rd_snapshots (durable s') = rd_snapshots (durable s)"
  using assms
  by (simp add: refresh_failed_def session_bind session_run sbind_run the_provider_run error_code_def
      set_provider_def put_run_def put_provider_def)

text \<open>C28: A response with one rate that the provider republished under an unchanged timestamp with
  another value or change cannot be stored at all: the fingerprint makes it a new snapshot, the unique
  constraint refuses it, and the refresh fails as an internal error with none of the response's rates
  kept.\<close>

theorem republished_rate_fails_refresh:
  assumes "find_provider navasan db = Some p" and "i \<in> set data"
    and "new_item env (active_definitions (add_definitions env db)) db i"
    and "r \<in> set (rd_snapshots db)" and "snapshot_version r = item_version i"
    and "pr_provider_timestamp i \<noteq> None"
  shows "\<exists>s'. scatch (store_response env trigger rid data) (refresh_failed env rid now) (opened db) =
      (Inr (plain_result ''failed'' (Some ''internal_refresh_error'')), s') \<and>
    rd_snapshots (durable s') = rd_snapshots db"
proof -
  obtain q e where e: "ensure_provider env (opened db) = (Inr q, opened e)"
      "find_provider navasan e = Some q" "rd_snapshots e = rd_snapshots db"
      "active_definitions e = active_definitions (add_definitions env db)"
    using assms(1) by (rule ensure_provider_run)
  let ?ds = "active_definitions e" and ?t = "re_now env e"
  obtain n k news where f: "sfoldM (store_rate env ?ds ?t) (0, 0) data (opened e) =
        (Inr (n, k), (opened e)\<lparr>pending := e\<lparr>rd_snapshots := rd_snapshots e @ news\<rparr>\<rparr>)"
      "0 < n" "item_version i \<in> snapshot_version ` set news"
    using store_rates_run[of env ?ds ?t 0 0 data "opened e"] assms(2,3) e by (auto simp: new_item_def)
  have row: "find_provider navasan (e\<lparr>rd_snapshots := rd_snapshots e @ news\<rparr>) = Some q"
    using e(2) by (simp add: find_provider_def)
  have "\<not> snapshots_unique (rd_snapshots e @ news)"
    using f(3) assms(4-6) e(3) map_filter_repeats[of _ snapshot_version r "rd_snapshots e" news]
    by (cases "pr_provider_timestamp i") (auto simp: snapshots_unique_def item_version_def)
  then obtain s1 where "store_response env trigger rid data (opened db) = (Inl (Internal_error ''IntegrityError''), s1)"
      "durable s1 = e"
    using e f row
    by (simp add: store_response_def definitions_def session_bind session_run sbind_run the_provider_run
        Let_def set_provider_def put_run_def commit_checked_def put_provider_def sbind_raise)
  with failed_after_rollback[of s1 q env rid now] e show ?thesis by (auto simp: scatch_run)
qed

lemma refresh_interval_pos:
  assumes "pc_refreshes_per_day p \<le> 86400"
  shows "0 < refresh_interval p"
proof -
  let ?n = "max 1 (pc_refreshes_per_day p)"
  have "seconds 1 \<le> days 1 div ?n"
    using assms zdiv_mono2[of "days 1" ?n 86400] by (simp add: days_def seconds_def)
  then show ?thesis by (auto simp: refresh_interval_def Let_def seconds_def)
qed

text \<open>After a failed refresh the failure is counted; an authentication failure stops the schedule
  until the credentials change, and any other failure of the provider schedules the next attempt
  strictly later and at most one interval later, after 5, 10 and 20 minutes for the first three.\<close>

theorem failure_schedules_retry:
  assumes "0 \<le> pc_consecutive_failures p" and "pc_refreshes_per_day p \<le> 86400"
    and "code \<noteq> ''budget_exhausted''"
  shows "pc_consecutive_failures (schedule_failure env now code p) = pc_consecutive_failures p + 1 \<and>
    (if code = ''authentication_failed''
     then pc_authentication_blocked (schedule_failure env now code p) \<and>
       pc_next_refresh_at (schedule_failure env now code p) = None
     else \<exists>t. pc_next_refresh_at (schedule_failure env now code p) = Some t \<and>
       now < t \<and> t \<le> now + refresh_interval p \<and>
       (pc_consecutive_failures p < 3 \<longrightarrow> t \<le> now + minutes (5 * 2 ^ nat (pc_consecutive_failures p))) \<and>
       (3 \<le> pc_consecutive_failures p \<longrightarrow> t = now + refresh_interval p))"
proof -
  let ?k = "nat (pc_consecutive_failures p)"
  have same: "refresh_interval (p\<lparr>pc_consecutive_failures := n\<rparr>) = refresh_interval p" for n
    by (simp add: refresh_interval_def)
  have "0 < minutes (min 60 (5 * 2 ^ ?k))" "minutes (min 60 (5 * 2 ^ ?k)) \<le> minutes (5 * 2 ^ ?k)"
    by (simp_all add: minutes_def seconds_def)
  with refresh_interval_pos[OF assms(2)] assms(1,3) show ?thesis
    by (auto simp: schedule_failure_def same Let_def min_le_iff_disj)
qed

section \<open>Witnesses\<close>

definition demo_env :: rate_env where
  "demo_env = \<lparr>re_zones = no_zones, re_midnight = (\<lambda>_. None), re_now = (\<lambda>_. days 2),
     re_token = (\<lambda>_. ''t''), re_sha256 = (\<lambda>x. x), re_isoformat = (\<lambda>_. ''2026-01-01''), re_name_fa = (\<lambda>x. x),
     re_api_key = Some ''k'', re_timezone = None, re_fetch_latest = (\<lambda>_. Inr []),
     re_fetch_usage = (\<lambda>_. Inl (Internal_error ''ValueError'')), re_test = (\<lambda>_. Inr ()),
     re_meanwhile = (\<lambda>db. db), re_others = (\<lambda>_ db. db)\<rparr>"

definition demo_item :: provider_rate where
  "demo_item = \<lparr>pr_external_symbol = ''eur'', pr_value = 101, pr_value_text = ''101'', pr_change = None,
     pr_provider_timestamp = Some 5\<rparr>"

definition demo_stored :: rate_snapshot where
  "demo_stored = \<lparr>sn_id = ''s'', sn_provider_id = navasan, sn_external_symbol = ''eur'',
     sn_canonical_code = ''EUR_MARKET'', sn_display_name = ''EUR Market'', sn_display_name_fa = ''eur'',
     sn_value = 100, sn_unit = ''IRR'', sn_classification = ''market'', sn_side = None, sn_change = None,
     sn_provider_timestamp = Some 5, sn_fetched_at = 0, sn_status = ''fresh'', sn_raw_reference = None,
     sn_source_key = Some ''navasan|eur|2026-01-01|100|''\<rparr>"

definition demo_db :: rate_db where
  "demo_db = demo_rates\<lparr>rd_snapshots := [demo_stored]\<rparr>"

lemma find_definition_None: "find_definition symbol ds = None \<longleftrightarrow> symbol \<notin> rf_external_symbol ` set ds"
  by (auto simp: find_definition_def find_None_iff)

lemma demo_defined: "''eur'' \<in> rf_external_symbol ` set (active_definitions (add_definitions demo_env demo_db))"
proof -
  have "(''eur'', ''EUR_MARKET'', ''EUR Market'', ''market'', None) \<in> set DEFAULT_DEFINITIONS"
    by (simp add: DEFAULT_DEFINITIONS_def)
  then show ?thesis
    by (force simp: active_definitions_def add_definitions_def demo_db_def demo_rates_def new_definition_def)
qed

theorem republished_rate_fails_refresh_witness:
  "\<exists>s'. scatch (store_response demo_env ''manual'' ''r'' [demo_item]) (refresh_failed demo_env ''r'' 0) (opened demo_db) =
      (Inr (plain_result ''failed'' (Some ''internal_refresh_error'')), s') \<and>
    rd_snapshots (durable s') = rd_snapshots demo_db"
proof (rule republished_rate_fails_refresh[where r = demo_stored and i = demo_item])
  show "find_provider navasan demo_db = Some demo_provider"
    by (simp add: demo_db_def demo_simps navasan_def)
  show "new_item demo_env (active_definitions (add_definitions demo_env demo_db)) demo_db demo_item"
    using demo_defined
    by (simp add: new_item_def find_definition_None demo_item_def fingerprint_text_def demo_env_def navasan_def)
      (simp add: demo_db_def demo_stored_def)
qed (simp_all add: demo_db_def demo_stored_def demo_item_def snapshot_version_def item_version_def)

theorem failure_schedules_retry_witness:
  "pc_consecutive_failures (schedule_failure demo_env 0 ''timeout'' demo_provider) =
      pc_consecutive_failures demo_provider + 1 \<and>
    (\<exists>t. pc_next_refresh_at (schedule_failure demo_env 0 ''timeout'' demo_provider) = Some t \<and> 0 < t)"
  using failure_schedules_retry[of demo_provider "''timeout''" demo_env 0]
  by (auto simp: demo_provider_def)

end
