(* ===== verification/Decimals.thy ===== *)
theory Decimals
  imports Json
begin

text \<open>
  \<^verbatim>\<open>decimal.Decimal\<close> as the code uses it: a sign, a coefficient and an exponent, so that two
  representations of one number print differently; the constructor from text, the product and
  \<^verbatim>\<open>normalize\<close> of the default context (28 digits, half to even), \<^verbatim>\<open>str\<close> and \<^verbatim>\<open>format(_, "f")\<close>.
  Exponents stay inside the range of the context.
\<close>

datatype decimal = Dec (dec_negative: bool) (dec_coefficient: int) (dec_exponent: int)

text \<open>What the constructor makes of a text: a finite number, or an infinity or a NaN.\<close>

datatype py_decimal = Finite decimal | Not_finite

section \<open>Values\<close>

definition ten_power :: "int \<Rightarrow> rat" where
  "ten_power e = (if 0 \<le> e then 10 ^ nat e else 1 / 10 ^ nat (- e))"

definition dec_value :: "decimal \<Rightarrow> rat" where
  "dec_value d = (if dec_negative d then - 1 else 1) * of_int (dec_coefficient d) * ten_power (dec_exponent d)"

definition dec_well :: "decimal \<Rightarrow> bool" where
  "dec_well d \<longleftrightarrow> 0 \<le> dec_coefficient d"

definition is_integral :: "decimal \<Rightarrow> bool" where
  "is_integral d \<longleftrightarrow> dec_value d = of_int \<lfloor>dec_value d\<rfloor>"

lemma ten_power_eq: "ten_power e = 10 powi e"
  by (simp add: ten_power_def power_int_def field_simps)

lemma ten_power_add: "ten_power (a + b) = ten_power a * ten_power b"
  by (simp add: ten_power_eq power_int_add)

lemma ten_power_nat [simp]: "ten_power (int n) = 10 ^ n"
  by (simp add: ten_power_def)

lemma ten_power_pos [simp]: "0 < ten_power e" "ten_power e \<noteq> 0" "ten_power 0 = 1"
  by (simp_all add: ten_power_def)

lemma dec_value_zero: "dec_value d = 0 \<longleftrightarrow> dec_coefficient d = 0"
  by (simp add: dec_value_def)

section \<open>Reading\<close>

definition head_is :: "char \<Rightarrow> string \<Rightarrow> bool" where
  "head_is c s \<longleftrightarrow> s \<noteq> [] \<and> hd s = c"

definition read_sign :: "string \<Rightarrow> bool \<times> string" where
  "read_sign s = (if head_is CHR ''-'' s then (True, tl s)
     else if head_is CHR ''+'' s then (False, tl s) else (False, s))"

definition read_exponent :: "string \<Rightarrow> int option" where
  "read_exponent s =
     (if s = [] then Some 0
      else if head_is CHR ''e'' s then
        (case read_sign (tl s) of (neg, ds) \<Rightarrow>
           if ds \<noteq> [] \<and> list_all is_digit ds
           then Some (if neg then - read_digits ds else read_digits ds) else None)
      else None)"

definition read_number :: "bool \<Rightarrow> string \<Rightarrow> decimal option" where
  "read_number neg s =
     (let whole = takeWhile is_digit s; rest = dropWhile is_digit s;
          point = head_is CHR ''.'' rest;
          fraction = (if point then takeWhile is_digit (tl rest) else []);
          tail = (if point then dropWhile is_digit (tl rest) else rest) in
      if whole = [] \<and> fraction = [] then None
      else map_option (\<lambda>e. Dec neg (read_digits (whole @ fraction)) (e - int (length fraction)))
        (read_exponent tail))"

definition is_special :: "string \<Rightarrow> bool" where
  "is_special s \<longleftrightarrow> s = ''inf'' \<or> s = ''infinity'' \<or>
     (starts_with ''nan'' s \<and> list_all is_digit (drop 3 s)) \<or>
     (starts_with ''snan'' s \<and> list_all is_digit (drop 4 s))"

text \<open>
  \<^verbatim>\<open>Decimal(text)\<close>; \<^verbatim>\<open>None\<close> is \<^verbatim>\<open>InvalidOperation\<close>. White space at the ends and underscores are
  ignored.
\<close>

definition decimal_of :: "string \<Rightarrow> py_decimal option" where
  "decimal_of s = (case read_sign (py_lower (filter (\<lambda>c. c \<noteq> CHR ''_'') (py_strip s))) of (neg, t) \<Rightarrow>
     if is_special t then Some Not_finite else map_option Finite (read_number neg t))"

section \<open>Arithmetic in the default context\<close>

definition dec_digits :: "int \<Rightarrow> nat" where
  "dec_digits c = length (show_digits c [])"

definition half_even :: "int \<Rightarrow> int \<Rightarrow> int" where
  "half_even c p = (let q = c div p; r = c mod p in
     if 2 * r > p \<or> (2 * r = p \<and> odd q) then q + 1 else q)"

definition context_precision :: nat where
  "context_precision = 28"

definition dec_round :: "decimal \<Rightarrow> decimal" where
  "dec_round d =
     (let c = dec_coefficient d; k = dec_digits c - context_precision in
      if k = 0 then d
      else let q = half_even c (10 ^ k) in
        if dec_digits q > context_precision then Dec (dec_negative d) (q div 10) (dec_exponent d + int k + 1)
        else Dec (dec_negative d) q (dec_exponent d + int k))"

definition dec_mult :: "decimal \<Rightarrow> decimal \<Rightarrow> decimal" where
  "dec_mult a b = dec_round (Dec (dec_negative a \<noteq> dec_negative b)
     (dec_coefficient a * dec_coefficient b) (dec_exponent a + dec_exponent b))"

function strip_zeros :: "int \<Rightarrow> int \<Rightarrow> int \<times> int" where
  "strip_zeros c e = (if 0 < c \<and> c mod 10 = 0 then strip_zeros (c div 10) (e + 1) else (c, e))"
  by pat_completeness auto
termination by (relation "measure (\<lambda>(c, e). nat c)") auto

declare strip_zeros.simps [simp del]

definition dec_normalize :: "decimal \<Rightarrow> decimal" where
  "dec_normalize d = (let r = dec_round d in
     if dec_coefficient r = 0 then Dec (dec_negative r) 0 0
     else case strip_zeros (dec_coefficient r) (dec_exponent r) of (c, e) \<Rightarrow> Dec (dec_negative r) c e)"

section \<open>Printing\<close>

definition zeros :: "int \<Rightarrow> string" where
  "zeros n = replicate (nat n) (CHR ''0'')"

text \<open>The digits with a point before the digit at the given place.\<close>

definition place_point :: "int \<Rightarrow> string \<Rightarrow> string" where
  "place_point p ds =
     (if p \<le> 0 then CHR ''0'' # CHR ''.'' # zeros (- p) @ ds
      else if int (length ds) \<le> p then ds @ zeros (p - int (length ds))
      else take (nat p) ds @ CHR ''.'' # drop (nat p) ds)"

definition sign_text :: "bool \<Rightarrow> string" where
  "sign_text neg = (if neg then ''-'' else [])"

text \<open>\<^verbatim>\<open>format(d, "f")\<close>.\<close>

definition fixed_text :: "decimal \<Rightarrow> string" where
  "fixed_text d =
     (let ds = show_digits (dec_coefficient d) [];
          e = (if dec_coefficient d = 0 \<and> 0 < dec_exponent d then 0 else dec_exponent d) in
      sign_text (dec_negative d) @ place_point (e + int (length ds)) ds)"

text \<open>\<^verbatim>\<open>str(d)\<close>: scientific notation for large and for very small exponents.\<close>

definition dec_str :: "decimal \<Rightarrow> string" where
  "dec_str d =
     (let ds = show_digits (dec_coefficient d) [];
          left = dec_exponent d + int (length ds);
          p = (if dec_exponent d \<le> 0 \<and> - 6 < left then left else 1) in
      sign_text (dec_negative d) @ place_point p ds @
      (if left = p then [] else CHR ''E'' # (if 0 \<le> left - p then ''+'' else []) @ show_int (left - p)))"

section \<open>What is read back\<close>

lemma read_digits_append: "read_digits (xs @ ys) = read_digits xs * 10 ^ length ys + read_digits ys"
  using foldl_digits[of "read_digits xs" ys] by (simp add: read_digits_def)

lemma digit_zero [simp]: "is_digit CHR ''0''" "digit_val CHR ''0'' = 0"
  by (simp_all add: is_digit_def digit_val_def Let_def)

lemma zeros_digits [simp]:
  "list_all is_digit (zeros n)" "length (zeros n) = nat n" "read_digits (zeros n @ ds) = read_digits ds"
  "read_digits (ds @ zeros n) = read_digits ds * 10 ^ nat n"
proof -
  have z: "read_digits (zeros n) = 0"
  proof -
    have "read_digits (replicate m CHR ''0'') = 0" for m
      by (induction m) (simp_all add: read_digits_def)
    then show ?thesis by (simp add: zeros_def)
  qed
  show "list_all is_digit (zeros n)" by (simp add: zeros_def list_all_iff)
  show "length (zeros n) = nat n" by (simp add: zeros_def)
  then show "read_digits (ds @ zeros n) = read_digits ds * 10 ^ nat n" by (simp add: read_digits_append z)
  show "read_digits (zeros n @ ds) = read_digits ds" by (simp add: read_digits_append z)
qed

lemma read_shown [simp]: "0 \<le> c \<Longrightarrow> read_digits (show_digits c []) = c"
  by (simp add: show_digits_read) (simp add: read_digits_def)

lemma digit_code: "is_digit c \<longleftrightarrow> 48 \<le> (of_char c :: int) \<and> (of_char c :: int) \<le> 57"
  by (simp add: is_digit_def Let_def)

lemma digit_plain: "is_digit c \<Longrightarrow> \<not> is_space c \<and> lower_char c = c \<and> c \<noteq> CHR ''_'' \<and> c \<noteq> CHR ''.'' \<and>
    c \<noteq> CHR ''-'' \<and> c \<noteq> CHR ''+'' \<and> c \<noteq> CHR '','' \<and> c \<noteq> CHR ''i'' \<and> c \<noteq> CHR ''n'' \<and> c \<noteq> CHR ''s''"
  by (auto simp: digit_code is_space_def lower_char_def Let_def)

definition number_char :: "char \<Rightarrow> bool" where
  "number_char c \<longleftrightarrow> is_digit c \<or> c = CHR ''.'' \<or> c = CHR ''-''"

lemma number_char_plain: "number_char c \<Longrightarrow> \<not> is_space c \<and> lower_char c = c \<and> c \<noteq> CHR ''_''"
  using digit_plain[of c] unfolding number_char_def
  by (elim disjE) (simp_all add: is_space_def lower_char_def Let_def)

lemma strip_id: "list_all (\<lambda>c. \<not> is_space c) s \<Longrightarrow> py_strip s = s"
proof -
  have d: "dropWhile is_space t = t" if "\<forall>c \<in> set t. \<not> is_space c" for t
    using that by (cases t) auto
  assume "list_all (\<lambda>c. \<not> is_space c) s"
  then have "\<forall>c \<in> set s. \<not> is_space c" "\<forall>c \<in> set (rev s). \<not> is_space c" by (auto simp: list_all_iff)
  then show ?thesis unfolding py_strip_def by (metis d rev_rev_ident)
qed

lemma number_text_plain:
  assumes "list_all number_char s"
  shows "py_lower (filter (\<lambda>c. c \<noteq> CHR ''_'') (py_strip s)) = s"
proof -
  have "py_strip s = s" using assms number_char_plain by (intro strip_id) (auto simp: list_all_iff)
  moreover have "filter (\<lambda>c. c \<noteq> CHR ''_'') s = s" using assms number_char_plain by (intro filter_True) (auto simp: list_all_iff)
  moreover have "py_lower s = s" using assms number_char_plain by (auto simp: py_lower_def list_all_iff intro: map_idI)
  ultimately show ?thesis by simp
qed

text \<open>Digits with an optional fraction are read as their number.\<close>

definition point_text :: "string \<Rightarrow> string \<Rightarrow> string" where
  "point_text w f = w @ (if f = [] then [] else CHR ''.'' # f)"

lemma take_digits:
  assumes "list_all is_digit w" "r = [] \<or> \<not> is_digit (hd r)"
  shows "takeWhile is_digit (w @ r) = w" "dropWhile is_digit (w @ r) = r"
  using assms by (induction w) (auto split: list.splits, (cases r; auto)+)

lemma read_point_text:
  assumes "list_all is_digit w" "list_all is_digit f" "w \<noteq> []"
  shows "read_number neg (point_text w f) = Some (Dec neg (read_digits (w @ f)) (- int (length f)))"
proof (cases "f = []")
  case True
  have d: "takeWhile is_digit w = w" "dropWhile is_digit w = []" using take_digits[OF assms(1), of "[]"] by simp_all
  show ?thesis
    using True assms(3) by (simp add: read_number_def point_text_def read_exponent_def Let_def head_is_def d)
next
  case False
  have "\<not> is_digit CHR ''.''" by (simp add: digit_code)
  then have w: "takeWhile is_digit (w @ CHR ''.'' # f) = w" "dropWhile is_digit (w @ CHR ''.'' # f) = CHR ''.'' # f"
    using take_digits[OF assms(1), of "CHR ''.'' # f"] by simp_all
  have f: "takeWhile is_digit f = f" "dropWhile is_digit f = []" using take_digits[OF assms(2), of "[]"] by simp_all
  show ?thesis using False assms(3)
    by (simp add: read_number_def point_text_def head_is_def read_exponent_def Let_def w f)
qed

lemma point_text_chars:
  "list_all is_digit w \<Longrightarrow> list_all is_digit f \<Longrightarrow> list_all number_char (point_text w f)"
  by (auto simp: point_text_def list_all_iff number_char_def)

lemma decimal_of_point_text:
  assumes "list_all is_digit w" "list_all is_digit f" "w \<noteq> []"
  shows "decimal_of (sign_text neg @ point_text w f) =
    Some (Finite (Dec neg (read_digits (w @ f)) (- int (length f))))"
proof -
  have c: "list_all number_char (sign_text neg @ point_text w f)"
    using point_text_chars[OF assms(1,2)] by (simp add: sign_text_def number_char_def)
  obtain x xs where x: "point_text w f = x # xs" "is_digit x"
    using assms by (cases w) (auto simp: point_text_def)
  have "read_sign (sign_text neg @ point_text w f) = (neg, point_text w f)"
    using x digit_plain[OF x(2)] by (auto simp: read_sign_def head_is_def sign_text_def)
  moreover have "\<not> is_special (point_text w f)"
    using x digit_plain[OF x(2)] by (auto simp: is_special_def)
  ultimately show ?thesis
    by (simp add: decimal_of_def number_text_plain[OF c] read_point_text[OF assms])
qed

lemma place_point_text:
  assumes "list_all is_digit ds" "ds \<noteq> []"
  obtains w f where "place_point p ds = point_text w f" "list_all is_digit w" "list_all is_digit f" "w \<noteq> []"
    "f = [] \<longleftrightarrow> int (length ds) \<le> p"
    "of_int (read_digits (w @ f)) * ten_power (- int (length f)) =
       of_int (read_digits ds) * ten_power (p - int (length ds))"
    "read_digits (w @ f) = read_digits ds * 10 ^ nat (p - int (length ds))"
proof -
  consider "p \<le> 0" | "0 < p" "int (length ds) \<le> p" | "0 < p" "p < int (length ds)" by linarith
  then show ?thesis
  proof cases
    case 1
    show ?thesis
    proof (rule that[of "''0''" "zeros (- p) @ ds"])
      have "read_digits (CHR ''0'' # zeros (- p) @ ds) = read_digits ds"
        using zeros_digits(3)[of 1 "zeros (- p) @ ds"] zeros_digits(3)[of "- p" ds] by (simp add: zeros_def)
      moreover have "p - int (length ds) = - int (length (zeros (- p) @ ds))" "nat (p - int (length ds)) = 0"
        using 1 by simp_all
      ultimately show "read_digits (''0'' @ zeros (- p) @ ds) = read_digits ds * 10 ^ nat (p - int (length ds))"
          and "of_int (read_digits (''0'' @ zeros (- p) @ ds)) * ten_power (- int (length (zeros (- p) @ ds))) =
          of_int (read_digits ds) * ten_power (p - int (length ds))" by simp_all
      show "zeros (- p) @ ds = [] \<longleftrightarrow> int (length ds) \<le> p" using 1 assms(2) by (cases ds) simp_all
    qed (use 1 assms in \<open>simp_all add: place_point_def point_text_def\<close>)
  next
    case 2
    show ?thesis
    proof (rule that[of "ds @ zeros (p - int (length ds))" "[]"])
      have "ten_power (p - int (length ds)) = 10 ^ nat (p - int (length ds))" using 2 by (simp add: ten_power_def)
      then show "of_int (read_digits ((ds @ zeros (p - int (length ds))) @ [])) * ten_power (- int (length [])) =
          of_int (read_digits ds) * ten_power (p - int (length ds))" by simp
    qed (use 2 assms in \<open>simp_all add: place_point_def point_text_def\<close>)
  next
    case 3
    show ?thesis
    proof (rule that[of "take (nat p) ds" "drop (nat p) ds"])
      show "list_all is_digit (take (nat p) ds)" "list_all is_digit (drop (nat p) ds)"
        using assms(1) by (auto simp: list_all_iff dest: in_set_takeD in_set_dropD)
      show "place_point p ds = point_text (take (nat p) ds) (drop (nat p) ds)"
        using 3 by (simp add: place_point_def point_text_def)
      show "take (nat p) ds \<noteq> []" using 3 assms(2) by simp
      show "drop (nat p) ds = [] \<longleftrightarrow> int (length ds) \<le> p"
        "read_digits (take (nat p) ds @ drop (nat p) ds) = read_digits ds * 10 ^ nat (p - int (length ds))"
        using 3 by simp_all
      have "- int (length (drop (nat p) ds)) = p - int (length ds)" using 3 by simp
      then show "of_int (read_digits (take (nat p) ds @ drop (nat p) ds)) * ten_power (- int (length (drop (nat p) ds))) =
          of_int (read_digits ds) * ten_power (p - int (length ds))" by (simp only: append_take_drop_id)
    qed
  qed
qed

lemma fixed_text_shape:
  assumes "dec_well d"
  obtains w f where "fixed_text d = sign_text (dec_negative d) @ point_text w f"
    "list_all is_digit w" "list_all is_digit f" "w \<noteq> []" "f = [] \<longleftrightarrow> 0 \<le> dec_exponent d"
    "decimal_of (fixed_text d) = Some (Finite (Dec (dec_negative d) (read_digits (w @ f)) (- int (length f))))"
    "of_int (read_digits (w @ f)) * ten_power (- int (length f)) = of_int (dec_coefficient d) * ten_power (dec_exponent d)"
    "read_digits (w @ f) = dec_coefficient d * 10 ^ nat (dec_exponent d)"
proof -
  let ?ds = "show_digits (dec_coefficient d) []"
  let ?e = "if dec_coefficient d = 0 \<and> 0 < dec_exponent d then 0 else dec_exponent d"
  have ds: "list_all is_digit ?ds" "?ds \<noteq> []" "read_digits ?ds = dec_coefficient d"
    using assms by (simp_all add: dec_well_def show_digits_digits show_digits_nonempty)
  obtain w f where wf: "place_point (?e + int (length ?ds)) ?ds = point_text w f"
      "list_all is_digit w" "list_all is_digit f" "w \<noteq> []" "f = [] \<longleftrightarrow> int (length ?ds) \<le> ?e + int (length ?ds)"
      "of_int (read_digits (w @ f)) * ten_power (- int (length f)) =
        of_int (read_digits ?ds) * ten_power (?e + int (length ?ds) - int (length ?ds))"
      "read_digits (w @ f) = read_digits ?ds * 10 ^ nat (?e + int (length ?ds) - int (length ?ds))"
    by (rule place_point_text[OF ds(1,2)])
  have t: "fixed_text d = sign_text (dec_negative d) @ point_text w f" by (simp add: fixed_text_def Let_def wf(1))
  show ?thesis
  proof (rule that[OF t wf(2-4)])
    show "f = [] \<longleftrightarrow> 0 \<le> dec_exponent d" using wf(5) by (auto split: if_splits)
    show "decimal_of (fixed_text d) = Some (Finite (Dec (dec_negative d) (read_digits (w @ f)) (- int (length f))))"
      unfolding t by (rule decimal_of_point_text[OF wf(2-4)])
    show "of_int (read_digits (w @ f)) * ten_power (- int (length f)) =
        of_int (dec_coefficient d) * ten_power (dec_exponent d)"
      "read_digits (w @ f) = dec_coefficient d * 10 ^ nat (dec_exponent d)"
      using wf(6,7) ds(3) by (auto split: if_splits)
  qed
qed

section \<open>Exactness\<close>

lemma dec_round_exact: "dec_digits (dec_coefficient d) \<le> context_precision \<Longrightarrow> dec_round d = d"
  by (simp add: dec_round_def Let_def)

lemma strip_zeros_value:
  "strip_zeros c e = (c', e') \<Longrightarrow> 0 \<le> c \<Longrightarrow> of_int c' * ten_power e' = of_int c * ten_power e \<and> 0 \<le> c' \<and>
     (0 < c \<longrightarrow> c' mod 10 \<noteq> 0)"
proof (induction c e rule: strip_zeros.induct)
  case (1 c e)
  show ?case
  proof (cases "0 < c \<and> c mod 10 = 0")
    case True
    then obtain k where k: "c = 10 * k" "0 < k" by auto
    have "strip_zeros (c div 10) (e + 1) = (c', e')" using 1(2) True by (simp add: strip_zeros.simps[of c])
    moreover have "c div 10 = k" using k by simp
    moreover have "ten_power (e + 1) = ten_power e * 10" using ten_power_add[of e 1] ten_power_nat[of 1] by simp
    ultimately show ?thesis using 1(1)[OF True] k by simp
  next
    case False
    then show ?thesis using 1(2,3) by (simp add: strip_zeros.simps[of c]) auto
  qed
qed

lemma strip_zeros_shape:
  "strip_zeros c e = (c', e') \<Longrightarrow> 0 \<le> c \<Longrightarrow> e \<le> e' \<and> c = c' * 10 ^ nat (e' - e)"
proof (induction c e rule: strip_zeros.induct)
  case (1 c e)
  show ?case
  proof (cases "0 < c \<and> c mod 10 = 0")
    case True
    have "strip_zeros (c div 10) (e + 1) = (c', e')" using 1(2) True by (simp add: strip_zeros.simps[of c])
    moreover have "0 \<le> c div 10" using 1(3) by (simp add: pos_imp_zdiv_nonneg_iff)
    ultimately have ih: "e + 1 \<le> e'" "c div 10 = c' * 10 ^ nat (e' - (e + 1))" using 1(1)[OF True] by blast+
    have "nat (e' - e) = Suc (nat (e' - (e + 1)))" using ih(1) by simp
    moreover have "c = 10 * (c div 10)" using True by auto
    ultimately show ?thesis using ih by simp
  next
    case False
    then have "c' = c" "e' = e" using 1(2) by (auto simp: strip_zeros.simps[of c])
    then show ?thesis by simp
  qed
qed

lemma dec_normalize_value:
  assumes "dec_well d" "dec_digits (dec_coefficient d) \<le> context_precision"
  shows "dec_value (dec_normalize d) = dec_value d" "dec_well (dec_normalize d)"
    "dec_negative (dec_normalize d) = dec_negative d"
  using strip_zeros_value[of "dec_coefficient d" "dec_exponent d"] assms
  by (auto simp: dec_normalize_def dec_round_exact Let_def dec_value_def dec_well_def split: prod.split)

section \<open>Counting digits\<close>

lemma show_digits_bounds:
  "0 \<le> c \<Longrightarrow> length acc < length (show_digits c acc) \<and> c < 10 ^ (length (show_digits c acc) - length acc) \<and>
     (\<forall>n. 0 < n \<longrightarrow> c < 10 ^ n \<longrightarrow> length (show_digits c acc) \<le> length acc + n)"
proof (induction c acc rule: show_digits.induct)
  case (1 c acc)
  show ?case
  proof (cases "c < 10")
    case True
    then show ?thesis using 1(2) by (simp add: show_digits.simps[of c])
  next
    case False
    let ?acc = "digit_char (c mod 10) # acc"
    let ?s = "show_digits (c div 10) ?acc"
    define k where "k = length ?s - length ?acc"
    have ih: "length ?acc < length ?s" "c div 10 < 10 ^ k"
        "\<forall>n. 0 < n \<longrightarrow> c div 10 < 10 ^ n \<longrightarrow> length ?s \<le> length ?acc + n"
      using 1(1)[OF False] 1(2) by (simp_all add: k_def)
    have s: "show_digits c acc = ?s" using False by (simp add: show_digits.simps[of c])
    have c: "c = 10 * (c div 10) + c mod 10" "c mod 10 < 10" "0 \<le> c mod 10" by simp_all
    have "length ?s - length acc = Suc k" using ih(1) by (simp add: k_def)
    moreover have "c < 10 ^ Suc k" using ih(2) c by simp
    moreover have "length ?s \<le> length acc + n" if n: "0 < n" "c < 10 ^ n" for n
    proof (cases n)
      case (Suc m)
      have "c div 10 < 10 ^ m" using n(2) c by (simp add: Suc)
      moreover have "0 < m" using n(2) False by (cases m) (simp_all add: Suc)
      ultimately show ?thesis using ih(3) by (simp add: Suc)
    qed (use n in simp)
    ultimately show ?thesis using ih(1) by (simp add: s)
  qed
qed

lemma dec_digits_pos: "0 \<le> c \<Longrightarrow> 0 < dec_digits c"
  using show_digits_bounds[of c "[]"] by (simp add: dec_digits_def)

lemma dec_digits_le: "0 \<le> c \<Longrightarrow> 0 < n \<Longrightarrow> dec_digits c \<le> n \<longleftrightarrow> c < 10 ^ n"
proof
  assume "0 \<le> c" "dec_digits c \<le> n"
  then have "c < 10 ^ dec_digits c" using show_digits_bounds[of c "[]"] by (simp add: dec_digits_def)
  also have "(10::int) ^ dec_digits c \<le> 10 ^ n" using \<open>dec_digits c \<le> n\<close> by (intro power_increasing) simp_all
  finally show "c < 10 ^ n" .
qed (use show_digits_bounds[of c "[]"] in \<open>simp add: dec_digits_def\<close>)

lemma dec_digits_mono: "0 \<le> a \<Longrightarrow> a \<le> b \<Longrightarrow> dec_digits a \<le> dec_digits b"
  using dec_digits_le[of b "dec_digits b"] dec_digits_le[of a "dec_digits b"] dec_digits_pos[of b] by simp

lemma scaled_ge: "0 \<le> c \<Longrightarrow> c \<le> c * 10 ^ n" for c :: int
  using mult_left_mono[of 1 "10 ^ n" c] by simp

lemma dec_mult_exact:
  assumes "dec_digits (dec_coefficient a * dec_coefficient b) \<le> context_precision"
  shows "dec_value (dec_mult a b) = dec_value a * dec_value b"
  using assms by (simp add: dec_mult_def dec_round_exact dec_value_def ten_power_add)

text \<open>A number has one representation whose coefficient does not end in zero.\<close>

lemma stripped_le:
  assumes "of_int c * ten_power e = of_int c' * ten_power e'" "c mod 10 \<noteq> 0" "e \<le> e'"
  shows "c = c' \<and> e = e'"
proof -
  obtain n where n: "e' = e + int n" using assms(3) by (metis zle_iff_zadd)
  then have "(of_int c :: rat) = of_int c' * 10 ^ n" using assms(1) by (simp add: ten_power_add)
  then have "c = c' * 10 ^ n" by (simp flip: of_int_eq_iff[where 'a = rat])
  moreover from this have "n = 0" using assms(2) by (cases n) auto
  ultimately show ?thesis using n by simp
qed

lemma stripped_unique:
  assumes "of_int c * ten_power e = of_int c' * ten_power e'" "c mod 10 \<noteq> 0" "c' mod 10 \<noteq> 0"
  shows "c = c' \<and> e = e'"
  using stripped_le[OF assms(1,2)] stripped_le[OF assms(1)[symmetric] assms(3)] by linarith

text \<open>Normalising depends on the number only, as long as both fit the context.\<close>

lemma normalize_unique:
  assumes "dec_well a" "dec_well b" "dec_value a = dec_value b" "dec_negative a = dec_negative b"
    and "dec_digits (dec_coefficient a) \<le> context_precision" "dec_digits (dec_coefficient b) \<le> context_precision"
  shows "dec_normalize a = dec_normalize b"
proof (cases "dec_coefficient a = 0")
  case True
  then have "dec_coefficient b = 0" using assms(3) dec_value_zero[of a] dec_value_zero[of b] by simp
  with True show ?thesis using assms by (simp add: dec_normalize_def dec_round_exact Let_def)
next
  case False
  then have nb: "dec_coefficient b \<noteq> 0" using assms(3) dec_value_zero[of a] dec_value_zero[of b] by simp
  obtain c e c' e' where s: "strip_zeros (dec_coefficient a) (dec_exponent a) = (c, e)"
      "strip_zeros (dec_coefficient b) (dec_exponent b) = (c', e')" by fastforce
  have "of_int c * ten_power e = of_int (dec_coefficient a) * ten_power (dec_exponent a)" "c mod 10 \<noteq> 0"
      "of_int c' * ten_power e' = of_int (dec_coefficient b) * ten_power (dec_exponent b)" "c' mod 10 \<noteq> 0"
    using strip_zeros_value[OF s(1)] strip_zeros_value[OF s(2)] assms(1,2) False nb by (auto simp: dec_well_def)
  moreover have "of_int (dec_coefficient a) * ten_power (dec_exponent a) =
      of_int (dec_coefficient b) * ten_power (dec_exponent b)"
    using assms(3,4) by (auto simp: dec_value_def split: if_splits)
  ultimately have "c = c' \<and> e = e'" by (intro stripped_unique) simp_all
  with s False nb assms show ?thesis by (simp add: dec_normalize_def dec_round_exact Let_def)
qed

end
