(* ===== verification/WorkspaceValues.thy ===== *)
theory WorkspaceValues
  imports Decimals
begin

text \<open>
  Values of workspace cells (\<^verbatim>\<open>app/flowhub/unified_workspace/domain.py\<close>): canonical text, the number
  of a cell, equality of values by field, one change of a draft with its
  validation, and which products may be edited. On ASCII text \<^verbatim>\<open>NFKC\<close> is the identity and
  \<^verbatim>\<open>casefold\<close> is \<^verbatim>\<open>lower\<close>.
\<close>

section \<open>Canonical text\<close>

text \<open>\<^verbatim>\<open>" ".join(text.strip().split())\<close>: runs of white space become one space, none at the ends.\<close>

function squeeze :: "string \<Rightarrow> string" where
  "squeeze [] = []"
| "squeeze (c # s) = (if is_space c then CHR '' '' # squeeze (dropWhile is_space s) else c # squeeze s)"
  by pat_completeness auto
termination by (relation "measure length") (auto simp: le_imp_less_Suc length_dropWhile_le)

definition canonical_text :: "string option \<Rightarrow> string" where
  "canonical_text v = (case v of None \<Rightarrow> [] | Some s \<Rightarrow> squeeze (py_strip s))"

section \<open>Numbers of cells\<close>

text \<open>\<^verbatim>\<open>Decimal(canonical_text(value).replace(",", ""))\<close>.\<close>

definition cell_decimal :: "string option \<Rightarrow> py_decimal option" where
  "cell_decimal v = decimal_of (filter (\<lambda>c. c \<noteq> CHR '','') (canonical_text v))"

section \<open>Equality of values\<close>

definition canonical_status :: "string \<Rightarrow> string option" where
  "canonical_status s =
     (if s = ''instock'' \<or> s = ''in_stock'' then Some ''in_stock''
      else if s = ''outofstock'' \<or> s = ''out_of_stock'' then Some ''out_of_stock'' else None)"

definition values_equal :: "string \<Rightarrow> string option \<Rightarrow> string option \<Rightarrow> bool" where
  "values_equal field current target =
     (if field = ''price'' \<or> field = ''stock'' then
        (case (cell_decimal current, cell_decimal target) of
           (Some (Finite l), Some (Finite r)) \<Rightarrow> dec_value l = dec_value r | _ \<Rightarrow> False)
      else if field = ''status'' then
        canonical_status (py_lower (canonical_text current)) = canonical_status (py_lower (canonical_text target))
      else py_lower (canonical_text current) = py_lower (canonical_text target))"

section \<open>A change of a draft\<close>

record draft_change =
  dg_product_id :: string
  dg_listing_id :: string
  dg_channel_id :: string
  dg_field :: string
  dg_target :: string
  dg_currency :: "string option"
  dg_unit :: "string option"

text \<open>The checks of \<^verbatim>\<open>DraftChange.__post_init__\<close>; the error is the message of \<^verbatim>\<open>WorkspaceDomainError\<close>.\<close>

definition check_change :: "draft_change \<Rightarrow> string + draft_change" where
  "check_change c =
     (if dg_field c \<notin> set [''price'', ''stock'', ''status''] then
        Inl (''Unsupported editable field: '' @ dg_field c)
      else if dg_product_id c = [] \<or> dg_listing_id c = [] \<or> dg_channel_id c = [] then
        Inl ''Canonical product, listing, and channel are required.''
      else rbind
        (if dg_field c = ''price'' \<or> dg_field c = ''stock'' then
           (case cell_decimal (Some (dg_target c)) of
              None \<Rightarrow> Inl (dg_field c @ '' must be numeric.'')
            | Some (Finite r) \<Rightarrow> if dec_value r < 0 then Inl (dg_field c @ '' must be finite and non-negative.'') else Inr ()
            | Some Not_finite \<Rightarrow> Inl (dg_field c @ '' must be finite and non-negative.''))
         else Inr ())
        (\<lambda>_. if dg_field c = ''price'' \<and> (\<not> truthy (dg_currency c) \<or> \<not> truthy (dg_unit c)) then
               Inl ''Price changes require explicit currency and unit.''
             else Inr c))"

definition opt_json :: "string option \<Rightarrow> json" where
  "opt_json v = (case v of None \<Rightarrow> JNull | Some s \<Rightarrow> JStr s)"

definition change_dict :: "draft_change \<Rightarrow> json" where
  "change_dict c = JObj [(''canonical_product_id'', JStr (dg_product_id c)),
     (''listing_id'', JStr (dg_listing_id c)), (''channel_id'', JStr (dg_channel_id c)),
     (''field'', JStr (dg_field c)), (''target_value'', JStr (canonical_text (Some (dg_target c)))),
     (''currency'', opt_json (dg_currency c)), (''unit'', opt_json (dg_unit c))]"

definition validate_product_editable :: "string \<Rightarrow> string + unit" where
  "validate_product_editable kind =
     (if kind = ''variable'' then Inl ''Variable parent products are grouping-only and cannot be edited.''
      else if kind \<noteq> ''simple'' \<and> kind \<noteq> ''variation'' then Inl ''Unsupported product type.''
      else Inr ())"

text \<open>
  The revision's checksum is that of the changes in the order of product, listing and field, and of
  the metadata; the digest is a parameter.
\<close>

definition revision_document :: "draft_change list \<Rightarrow> json_dict \<Rightarrow> json" where
  "revision_document cs metadata = JObj [(''changes'',
     JList (map change_dict (sort_key (\<lambda>c. (dg_product_id c, dg_listing_id c, dg_field c)) cs))),
     (''metadata'', JObj metadata)]"

end
