(* ===== verification/SourceFields.thy ===== *)
theory SourceFields
  imports WorkspaceValues
begin

text \<open>
  The business meaning of a Source cell (\<^verbatim>\<open>app/flowhub/unified_workspace/domain.py\<close>): the accepted
  numbers, and the contracts for a mapped price, a quantity and a stock status. Persian and
  Arabic-Indic digits, which the code first translates to ASCII digits, are outside the text model.
\<close>

section \<open>Numbers of a Source cell\<close>

text \<open>\<^verbatim>\<open>str.split\<close>, \<^verbatim>\<open>str.rfind\<close> and \<^verbatim>\<open>str.isdigit\<close> for one character.\<close>

fun split_on :: "char \<Rightarrow> string \<Rightarrow> string list" where
  "split_on c [] = [[]]"
| "split_on c (x # s) = (if x = c then [] # split_on c s
     else (case split_on c s of [] \<Rightarrow> [[x]] | g # gs \<Rightarrow> (x # g) # gs))"

definition rfind :: "char \<Rightarrow> string \<Rightarrow> int" where
  "rfind c s = (if c \<in> set s then int (length s) - 1 - int (length (takeWhile (\<lambda>x. x \<noteq> c) (rev s))) else - 1)"

definition all_digits :: "string \<Rightarrow> bool" where
  "all_digits s \<longleftrightarrow> s \<noteq> [] \<and> list_all is_digit s"

definition malformed_groups :: "string list \<Rightarrow> bool" where
  "malformed_groups gs \<longleftrightarrow> hd gs = [] \<or> 3 < length (hd gs) \<or>
     list_ex (\<lambda>g. length g \<noteq> 3 \<or> \<not> all_digits g) (tl gs)"

text \<open>The accepted text, or the code of the failure; both are absent for a blank cell.\<close>

definition numeric_lexeme :: "py_runtime \<Rightarrow> json \<Rightarrow> string option \<times> string option" where
  "numeric_lexeme py raw = (case raw of JNull \<Rightarrow> (None, None) | JBool _ \<Rightarrow> (None, Some ''BOOLEAN_NOT_NUMERIC'')
     | _ \<Rightarrow>
       (let t = py_strip (py_str py raw) in
        if t = [] then (None, None)
        else if count_list t CHR ''.'' > 1 \<or>
            (CHR ''.'' \<in> set t \<and> CHR '','' \<in> set t \<and> rfind CHR '','' t > rfind CHR ''.'' t)
        then (None, Some ''PRICE_MALFORMED'')
        else
          let whole = takeWhile (\<lambda>c. c \<noteq> CHR ''.'') t; dotted = CHR ''.'' \<in> set t;
              fraction = tl (dropWhile (\<lambda>c. c \<noteq> CHR ''.'') t) in
          if CHR '','' \<in> set whole \<and> malformed_groups (split_on CHR '','' whole)
          then (None, Some ''PRICE_MALFORMED'')
          else
            let whole' = (if CHR '','' \<in> set whole then concat (split_on CHR '','' whole) else whole) in
            if CHR '','' \<in> set fraction \<or> \<not> all_digits whole' \<or> (dotted \<and> \<not> all_digits fraction)
            then (None, Some ''PRICE_MALFORMED'')
            else (Some (whole' @ (if dotted then CHR ''.'' # fraction else [])), None)))"

definition decimal_from_lexeme :: "py_runtime \<Rightarrow> json \<Rightarrow> string option \<times> decimal option \<times> string option" where
  "decimal_from_lexeme py raw =
     (case numeric_lexeme py raw of (None, failure) \<Rightarrow> (None, None, failure)
      | (Some lexeme, _) \<Rightarrow>
        (case decimal_of lexeme of None \<Rightarrow> (Some lexeme, None, Some ''PRICE_MALFORMED'')
         | Some Not_finite \<Rightarrow> (Some lexeme, None, Some ''PRICE_NON_FINITE'')
         | Some (Finite d) \<Rightarrow> (Some lexeme, Some d, None)))"

text \<open>\<^verbatim>\<open>_decimal_text\<close>: no exponent, no redundant scale.\<close>

definition decimal_text :: "decimal \<Rightarrow> string" where
  "decimal_text d = (if dec_value d \<noteq> 0 then fixed_text (dec_normalize d) else ''0'')"

section \<open>Monetary precision\<close>

definition zero_decimal_currencies :: "string list" where
  "zero_decimal_currencies = [''BIF'', ''CLP'', ''DJF'', ''GNF'', ''ISK'', ''JPY'', ''KMF'', ''KRW'', ''PYG'',
     ''RWF'', ''UGX'', ''UYI'', ''VND'', ''VUV'', ''XAF'', ''XOF'', ''XPF'']"

definition three_decimal_currencies :: "string list" where
  "three_decimal_currencies = [''BHD'', ''IQD'', ''JOD'', ''KWD'', ''LYD'', ''OMR'', ''TND'']"

definition default_monetary_precision :: "string option \<Rightarrow> int" where
  "default_monetary_precision currency =
     (let code = py_upper (canonical_text currency) in
      if code \<in> set zero_decimal_currencies then 0
      else if code \<in> set three_decimal_currencies then 3 else 2)"

section \<open>Normalised fields\<close>

datatype availability_signal = IN_STOCK | OUT_OF_STOCK

definition signal_value :: "availability_signal \<Rightarrow> string" where
  "signal_value s = (case s of IN_STOCK \<Rightarrow> ''IN_STOCK'' | OUT_OF_STOCK \<Rightarrow> ''OUT_OF_STOCK'')"

datatype source_instruction = SET | NO_INSTRUCTION | UNAVAILABLE | UNUSABLE | INVALID

record normalized_field =
  nf_instruction :: source_instruction
  nf_raw_lexeme :: "string option"
  nf_target :: "string option"
  nf_availability_signal :: "availability_signal option"
  nf_reason_code :: "string option"
  nf_warning_code :: "string option"
  nf_blocker_code :: "string option"
  nf_fix_applied :: bool

definition source_field :: "source_instruction \<Rightarrow> string option \<Rightarrow> normalized_field" where
  "source_field i raw = \<lparr>nf_instruction = i, nf_raw_lexeme = raw, nf_target = None,
     nf_availability_signal = None, nf_reason_code = None, nf_warning_code = None, nf_blocker_code = None,
     nf_fix_applied = False\<rparr>"

definition unavailable_price :: "string option \<Rightarrow> string \<Rightarrow> normalized_field" where
  "unavailable_price raw reason = (source_field UNAVAILABLE raw)
     \<lparr>nf_availability_signal := Some OUT_OF_STOCK, nf_reason_code := Some reason\<rparr>"

definition unusable_price :: "string option \<Rightarrow> string \<Rightarrow> normalized_field" where
  "unusable_price raw reason = (source_field UNUSABLE raw)
     \<lparr>nf_availability_signal := Some OUT_OF_STOCK, nf_reason_code := Some reason,
      nf_warning_code := Some ''UNUSABLE_MAPPED_PRICE''\<rparr>"

definition invalid_field :: "string option \<Rightarrow> string \<Rightarrow> normalized_field" where
  "invalid_field raw reason = (source_field INVALID raw)
     \<lparr>nf_reason_code := Some reason, nf_blocker_code := Some reason\<rparr>"

definition set_field :: "string option \<Rightarrow> string \<Rightarrow> availability_signal \<Rightarrow> normalized_field" where
  "set_field raw target signal = (source_field SET raw)
     \<lparr>nf_target := Some target, nf_availability_signal := Some signal\<rparr>"

definition raw_lexeme_of :: "py_runtime \<Rightarrow> json \<Rightarrow> string option" where
  "raw_lexeme_of py raw = (if raw = JNull then None else Some (py_strip (py_str py raw)))"

section \<open>The direct price contract\<close>

text \<open>Rial and Toman prices are whole numbers; a decimal form is accepted as a repair or not at all.\<close>

definition whole_price ::
    "string option \<Rightarrow> string \<Rightarrow> decimal \<Rightarrow> bool option \<Rightarrow> bool \<Rightarrow> normalized_field" where
  "whole_price raw lexeme v fix_zero authoritative =
     (let effective_fix = (case fix_zero of None \<Rightarrow> True | Some b \<Rightarrow> b);
          has_decimal_form = CHR ''.'' \<in> set lexeme in
      if \<not> effective_fix \<and> has_decimal_form \<and> \<not> authoritative
      then invalid_field raw ''SOURCE_PRICE_LEXEME_UNVERIFIABLE''
      else if \<not> is_integral v then unusable_price raw ''PRICE_FRACTION_NOT_ALLOWED''
      else if has_decimal_form \<and> \<not> effective_fix then unusable_price raw ''PRICE_DECIMAL_LEXEME_NOT_ALLOWED''
      else (set_field raw (decimal_text v) IN_STOCK)
        \<lparr>nf_reason_code := (if has_decimal_form then Some ''PRICE_ZERO_DECIMAL_FIXED'' else None),
         nf_fix_applied := has_decimal_form\<rparr>)"

definition scaled_price :: "string option \<Rightarrow> decimal \<Rightarrow> int \<Rightarrow> normalized_field" where
  "scaled_price raw v precision =
     (let factor = dec_round (Dec False (10 ^ nat precision) 0) in
      if \<not> is_integral (dec_mult v factor) then unusable_price raw ''PRICE_PRECISION_NOT_ALLOWED''
      else set_field raw (decimal_text v) IN_STOCK)"

definition normalize_direct_price ::
    "py_runtime \<Rightarrow> json \<Rightarrow> string option \<Rightarrow> string option \<Rightarrow> int option \<Rightarrow> bool option \<Rightarrow> bool \<Rightarrow> bool \<Rightarrow> normalized_field" where
  "normalize_direct_price py raw currency unit precision fix_zero authoritative mapped =
     (let rl = raw_lexeme_of py raw in
      if \<not> mapped then source_field NO_INSTRUCTION None
      else if rl = None \<or> rl = Some [] then unavailable_price rl ''PRICE_UNAVAILABLE_BLANK''
      else if map_option py_lower rl = Some ''x'' then unavailable_price rl ''PRICE_UNAVAILABLE_X''
      else (case decimal_from_lexeme py raw of
          (Some lexeme, Some v, None) \<Rightarrow>
            if dec_value v = 0 then unavailable_price rl ''PRICE_UNAVAILABLE_ZERO''
            else if dec_value v < 0 then unusable_price rl ''PRICE_NEGATIVE''
            else
              let cur = py_upper (canonical_text currency); un = py_upper (canonical_text unit) in
              (case precision of
                 None \<Rightarrow> invalid_field rl ''MONETARY_PRECISION_CONTRACT_MISSING''
               | Some p \<Rightarrow>
                   if cur = [] \<or> un = [] \<or> p < 0 then invalid_field rl ''MONETARY_PRECISION_CONTRACT_MISSING''
                   else if cur = ''IRR'' \<and> (un = ''RIAL'' \<or> un = ''TOMAN'')
                   then whole_price rl lexeme v fix_zero authoritative
                   else scaled_price rl v p)
        | (_, _, failure) \<Rightarrow> unusable_price rl (str_or failure ''PRICE_NOT_NUMERIC'')))"

section \<open>Quantity and status\<close>

definition normalize_quantity :: "py_runtime \<Rightarrow> json \<Rightarrow> bool \<Rightarrow> normalized_field" where
  "normalize_quantity py raw mapped =
     (let rl = raw_lexeme_of py raw in
      if \<not> mapped then source_field NO_INSTRUCTION None
      else if rl = None \<or> rl = Some [] then
        (source_field NO_INSTRUCTION rl)\<lparr>nf_availability_signal := Some IN_STOCK\<rparr>
      else (case decimal_from_lexeme py raw of
          (_, Some v, None) \<Rightarrow>
            if dec_value v < 0 \<or> \<not> is_integral v then invalid_field rl ''INVALID_QUANTITY''
            else set_field rl (decimal_text v) (if dec_value v = 0 then OUT_OF_STOCK else IN_STOCK)
        | _ \<Rightarrow> invalid_field rl ''INVALID_QUANTITY''))"

definition normalize_stock_status :: "py_runtime \<Rightarrow> json \<Rightarrow> bool \<Rightarrow> normalized_field" where
  "normalize_stock_status py raw mapped =
     (let rl = raw_lexeme_of py raw in
      if \<not> mapped then source_field NO_INSTRUCTION None
      else (case rl of
          None \<Rightarrow> set_field rl (signal_value IN_STOCK) IN_STOCK
        | Some t \<Rightarrow>
          if t = [] then set_field rl (signal_value IN_STOCK) IN_STOCK
          else if CHR '','' \<in> set t \<or> (case raw of JBool _ \<Rightarrow> True | _ \<Rightarrow> False)
          then invalid_field rl ''INVALID_STOCK_STATUS''
          else (case decimal_from_lexeme py raw of
              (_, Some v, None) \<Rightarrow>
                if dec_value v = 0 then set_field rl (signal_value OUT_OF_STOCK) OUT_OF_STOCK
                else if dec_value v = 1 then set_field rl (signal_value IN_STOCK) IN_STOCK
                else invalid_field rl ''INVALID_STOCK_STATUS''
            | _ \<Rightarrow> invalid_field rl ''INVALID_STOCK_STATUS'')))"

text \<open>Blockers win over out of stock, which wins over in stock.\<close>

definition resolve_availability :: "normalized_field list \<Rightarrow> availability_signal option \<times> string list" where
  "resolve_availability fs =
     (let blockers = map (\<lambda>f. str_or (nf_blocker_code f) []) (filter (\<lambda>f. truthy (nf_blocker_code f)) fs) in
      if blockers \<noteq> [] then (None, blockers)
      else if Some OUT_OF_STOCK \<in> set (map nf_availability_signal fs) then (Some OUT_OF_STOCK, [])
      else if Some IN_STOCK \<in> set (map nf_availability_signal fs) then (Some IN_STOCK, [])
      else (None, []))"

section \<open>What the accepted numbers are\<close>

lemma digit_lists: "list_all is_digit s \<Longrightarrow> CHR ''.'' \<notin> set s \<and> CHR '','' \<notin> set s"
  using digit_plain by (auto simp: list_all_iff)

lemma read_digits_nonneg: "list_all is_digit s \<Longrightarrow> 0 \<le> read_digits s"
proof (induction s rule: rev_induct)
  case (snoc c s)
  then show ?case by (auto simp: read_digits_append digit_code digit_val_def) (simp add: read_digits_def digit_val_def)
qed (simp add: read_digits_def)

lemma lexeme_shape:
  assumes "numeric_lexeme py raw = (Some l, failure)"
  obtains w f where "failure = None" "l = point_text w f" "list_all is_digit w" "w \<noteq> []" "list_all is_digit f"
proof -
  define t where "t = py_strip (py_str py raw)"
  define f where "f = tl (dropWhile (\<lambda>c. c \<noteq> CHR ''.'') t)"
  define w where "w = takeWhile (\<lambda>c. c \<noteq> CHR ''.'') t"
  define w' where "w' = (if CHR '','' \<in> set w then concat (split_on CHR '','' w) else w)"
  have "failure = None \<and> l = w' @ (if CHR ''.'' \<in> set t then CHR ''.'' # f else []) \<and> all_digits w' \<and>
      (CHR ''.'' \<in> set t \<longrightarrow> all_digits f)"
    using assms unfolding numeric_lexeme_def Let_def t_def[symmetric] f_def[symmetric] w_def[symmetric] w'_def[symmetric]
    by (auto split: json.splits if_splits)
  then show ?thesis
    using that[of w' "if CHR ''.'' \<in> set t then f else []"] by (auto simp: all_digits_def point_text_def split: if_splits)
qed

lemma decimal_lexeme:
  assumes "decimal_from_lexeme py raw = (Some l, Some v, failure)"
  obtains w f where "numeric_lexeme py raw = (Some l, None)" "failure = None" "l = point_text w f"
    "list_all is_digit w" "w \<noteq> []" "list_all is_digit f"
    "v = Dec False (read_digits (w @ f)) (- int (length f))" "dec_well v"
proof -
  obtain fl where n: "numeric_lexeme py raw = (Some l, fl)"
    using assms by (auto simp: decimal_from_lexeme_def split: prod.splits option.splits py_decimal.splits)
  then obtain w f where wf: "fl = None" "l = point_text w f" "list_all is_digit w" "w \<noteq> []" "list_all is_digit f"
    by (rule lexeme_shape)
  have d: "decimal_of l = Some (Finite (Dec False (read_digits (w @ f)) (- int (length f))))"
    using decimal_of_point_text[OF wf(3,5,4), of False] by (simp add: wf(2) sign_text_def)
  then have "v = Dec False (read_digits (w @ f)) (- int (length f))" "failure = None"
    using assms n by (simp_all add: decimal_from_lexeme_def)
  moreover have "dec_well (Dec False (read_digits (w @ f)) (- int (length f)))"
    using wf by (simp add: dec_well_def read_digits_nonneg)
  ultimately show ?thesis using that n wf by blast
qed

lemma strip_point_text:
  "list_all is_digit w \<Longrightarrow> list_all is_digit f \<Longrightarrow> py_strip (point_text w f) = point_text w f"
  using point_text_chars[of w f] number_char_plain by (intro strip_id) (auto simp: list_all_iff)

lemma before_point:
  assumes "c \<notin> set w"
  shows "takeWhile (\<lambda>x. x \<noteq> c) (w @ c # f) = w" "dropWhile (\<lambda>x. x \<noteq> c) (w @ c # f) = c # f"
    "takeWhile (\<lambda>x. x \<noteq> c) w = w" "dropWhile (\<lambda>x. x \<noteq> c) w = []"
  using assms by (induction w) auto

lemma lexeme_of_point_text:
  assumes "list_all is_digit w" "w \<noteq> []" "list_all is_digit f"
  shows "numeric_lexeme py (JStr (point_text w f)) = (Some (point_text w f), None)"
proof -
  have n: "CHR ''.'' \<notin> set w" "CHR '','' \<notin> set w" "CHR ''.'' \<notin> set f" "CHR '','' \<notin> set f"
    using digit_lists assms by blast+
  then have k: "count_list w CHR ''.'' = 0" "count_list f CHR ''.'' = 0" by (simp_all add: count_notin)
  note tw = before_point[OF n(1)]
  have st: "py_strip (point_text w f) = point_text w f" by (rule strip_point_text[OF assms(1,3)])
  show ?thesis
  proof (cases "f = []")
    case True
    then show ?thesis using n assms st by (simp add: numeric_lexeme_def point_text_def Let_def all_digits_def k tw(3,4))
  next
    case False
    then show ?thesis using n assms st
      by (simp add: numeric_lexeme_def point_text_def Let_def all_digits_def k tw(1,2))
  qed
qed

definition whole_currency :: "string option \<Rightarrow> string option \<Rightarrow> bool" where
  "whole_currency currency unit \<longleftrightarrow> py_upper (canonical_text currency) = ''IRR'' \<and>
     (py_upper (canonical_text unit) = ''RIAL'' \<or> py_upper (canonical_text unit) = ''TOMAN'')"

text \<open>When a price is set, and what it is.\<close>

lemma field_simps [simp]:
  "nf_instruction (source_field i r) = i" "nf_instruction (unavailable_price r c) = UNAVAILABLE"
  "nf_instruction (unusable_price r c) = UNUSABLE" "nf_instruction (invalid_field r c) = INVALID"
  "nf_instruction (set_field r t a) = SET" "nf_target (set_field r t a) = Some t"
  "nf_fix_applied (set_field r t a) = False"
  by (simp_all add: source_field_def unavailable_price_def unusable_price_def invalid_field_def set_field_def)

lemma whole_price_set:
  "nf_instruction (whole_price r l v fix_zero authoritative) = SET \<longleftrightarrow>
     is_integral v \<and> (CHR ''.'' \<in> set l \<longrightarrow> fix_zero \<noteq> Some False)"
  "nf_instruction (whole_price r l v fix_zero authoritative) = SET \<Longrightarrow>
     nf_target (whole_price r l v fix_zero authoritative) = Some (decimal_text v) \<and>
     (nf_fix_applied (whole_price r l v fix_zero authoritative) \<longleftrightarrow> CHR ''.'' \<in> set l)"
  by (auto simp: whole_price_def Let_def split: option.splits if_splits)

lemma scaled_price_set:
  "nf_instruction (scaled_price r v p) = SET \<longleftrightarrow> is_integral (dec_mult v (dec_round (Dec False (10 ^ nat p) 0)))"
  "nf_instruction (scaled_price r v p) = SET \<Longrightarrow>
     nf_target (scaled_price r v p) = Some (decimal_text v) \<and> \<not> nf_fix_applied (scaled_price r v p)"
  by (simp_all add: scaled_price_def Let_def split: if_splits)

lemma lexeme_cases:
  obtains (number) l v where "decimal_from_lexeme py raw = (Some l, Some v, None)"
  | (failure) l v c where "decimal_from_lexeme py raw = (l, v, c)" "l = None \<or> v = None \<or> c \<noteq> None"
  by (metis option.exhaust prod_cases3)

lemma direct_price_number:
  assumes "decimal_from_lexeme py raw = (Some l, Some v, None)" "mapped"
    and "raw_lexeme_of py raw \<notin> {None, Some []}" "map_option py_lower (raw_lexeme_of py raw) \<noteq> Some ''x''"
  shows "normalize_direct_price py raw currency unit precision fix_zero authoritative mapped =
    (let rl = raw_lexeme_of py raw in
     if dec_value v = 0 then unavailable_price rl ''PRICE_UNAVAILABLE_ZERO''
     else if dec_value v < 0 then unusable_price rl ''PRICE_NEGATIVE''
     else (case precision of None \<Rightarrow> invalid_field rl ''MONETARY_PRECISION_CONTRACT_MISSING''
       | Some p \<Rightarrow>
         if py_upper (canonical_text currency) = [] \<or> py_upper (canonical_text unit) = [] \<or> p < 0
         then invalid_field rl ''MONETARY_PRECISION_CONTRACT_MISSING''
         else if whole_currency currency unit then whole_price rl l v fix_zero authoritative
         else scaled_price rl v p))"
  using assms by (auto simp: normalize_direct_price_def Let_def whole_currency_def split: option.split)

lemma direct_price_other:
  assumes "nf_instruction (normalize_direct_price py raw currency unit precision fix_zero authoritative mapped) = SET"
  shows "mapped \<and> raw_lexeme_of py raw \<notin> {None, Some []} \<and> map_option py_lower (raw_lexeme_of py raw) \<noteq> Some ''x'' \<and>
    (\<exists>l v. decimal_from_lexeme py raw = (Some l, Some v, None))"
proof (cases rule: lexeme_cases[of py raw])
  case (number l v)
  then show ?thesis using assms by (simp add: normalize_direct_price_def Let_def split: if_splits)
next
  case (failure l v c)
  then show ?thesis using assms
    by (cases l; cases v; cases c) (simp_all add: normalize_direct_price_def Let_def split: if_splits)
qed

lemma set_price:
  "nf_instruction (normalize_direct_price py raw currency unit precision fix_zero authoritative mapped) = SET \<longleftrightarrow>
     mapped \<and> raw_lexeme_of py raw \<notin> {None, Some []} \<and> map_option py_lower (raw_lexeme_of py raw) \<noteq> Some ''x'' \<and>
     (\<exists>l v p. decimal_from_lexeme py raw = (Some l, Some v, None) \<and> 0 < dec_value v \<and> precision = Some p \<and> 0 \<le> p \<and>
        py_upper (canonical_text currency) \<noteq> [] \<and> py_upper (canonical_text unit) \<noteq> [] \<and>
        (if whole_currency currency unit then is_integral v \<and> (CHR ''.'' \<in> set l \<longrightarrow> fix_zero \<noteq> Some False)
         else is_integral (dec_mult v (dec_round (Dec False (10 ^ nat p) 0)))))" (is "?lhs \<longleftrightarrow> ?rhs")
proof (cases "mapped \<and> raw_lexeme_of py raw \<notin> {None, Some []} \<and> map_option py_lower (raw_lexeme_of py raw) \<noteq> Some ''x'' \<and>
    (\<exists>l v. decimal_from_lexeme py raw = (Some l, Some v, None))")
  case True
  then obtain l v where n: "decimal_from_lexeme py raw = (Some l, Some v, None)" by blast
  have e: "mapped" "raw_lexeme_of py raw \<notin> {None, Some []}" "map_option py_lower (raw_lexeme_of py raw) \<noteq> Some ''x''"
    using True by blast+
  have r: "?rhs \<longleftrightarrow> (\<exists>p. 0 < dec_value v \<and> precision = Some p \<and> 0 \<le> p \<and>
      py_upper (canonical_text currency) \<noteq> [] \<and> py_upper (canonical_text unit) \<noteq> [] \<and>
      (if whole_currency currency unit then is_integral v \<and> (CHR ''.'' \<in> set l \<longrightarrow> fix_zero \<noteq> Some False)
       else is_integral (dec_mult v (dec_round (Dec False (10 ^ nat p) 0)))))"
    using e n by simp
  show ?thesis
    unfolding direct_price_number[OF n e] Let_def r
    by (cases precision) (auto simp: whole_price_set(1) scaled_price_set(1))
next
  case False
  then show ?thesis using direct_price_other by blast
qed

lemma set_price_target:
  assumes "nf_instruction (normalize_direct_price py raw currency unit precision fix_zero authoritative mapped) = SET"
    and "decimal_from_lexeme py raw = (Some l, Some v, None)"
  shows "nf_target (normalize_direct_price py raw currency unit precision fix_zero authoritative mapped) = Some (decimal_text v)"
    "nf_fix_applied (normalize_direct_price py raw currency unit precision fix_zero authoritative mapped) \<longleftrightarrow>
       whole_currency currency unit \<and> CHR ''.'' \<in> set l"
proof -
  have e: "mapped" "raw_lexeme_of py raw \<notin> {None, Some []}" "map_option py_lower (raw_lexeme_of py raw) \<noteq> Some ''x''"
    using direct_price_other[OF assms(1)] by blast+
  show "nf_target (normalize_direct_price py raw currency unit precision fix_zero authoritative mapped) = Some (decimal_text v)"
    "nf_fix_applied (normalize_direct_price py raw currency unit precision fix_zero authoritative mapped) \<longleftrightarrow>
       whole_currency currency unit \<and> CHR ''.'' \<in> set l"
    using assms(1) whole_price_set(2) scaled_price_set(2)
    unfolding direct_price_number[OF assms(2) e] Let_def by (auto split: option.splits if_splits)
qed

text \<open>Normalised text of an accepted number within the context's precision.\<close>

lemma target_of_lexeme:
  assumes "dec_well v" "\<not> dec_negative v" "dec_exponent v \<le> 0" "0 < dec_value v"
    and "dec_digits (dec_coefficient v) \<le> context_precision"
  obtains w f d where "decimal_text v = point_text w f" "list_all is_digit w" "w \<noteq> []" "list_all is_digit f"
    "decimal_of (decimal_text v) = Some (Finite d)" "dec_value d = dec_value v" "dec_well d" "\<not> dec_negative d"
    "d = Dec False (read_digits (w @ f)) (- int (length f))"
    "dec_coefficient d \<le> dec_coefficient v" "is_integral v \<longrightarrow> f = []" "decimal_text d = decimal_text v"
proof -
  let ?n = "dec_normalize v"
  have c: "0 < dec_coefficient v" using assms(1,4) dec_value_zero[of v] by (auto simp: dec_well_def)
  obtain a e where s: "strip_zeros (dec_coefficient v) (dec_exponent v) = (a, e)" by fastforce
  have n: "?n = Dec False a e" using s c assms(2,5) by (simp add: dec_normalize_def dec_round_exact Let_def)
  have nv: "dec_value ?n = dec_value v" "dec_well ?n" using dec_normalize_value[OF assms(1,5)] by simp_all
  have shape: "dec_exponent v \<le> e" "dec_coefficient v = a * 10 ^ nat (e - dec_exponent v)" "a mod 10 \<noteq> 0" "0 \<le> a"
    using strip_zeros_shape[OF s] strip_zeros_value[OF s] c by auto
  obtain w f where wf: "fixed_text ?n = sign_text False @ point_text w f" "list_all is_digit w" "list_all is_digit f" "w \<noteq> []"
      "f = [] \<longleftrightarrow> 0 \<le> e" "decimal_of (fixed_text ?n) = Some (Finite (Dec False (read_digits (w @ f)) (- int (length f))))"
      "of_int (read_digits (w @ f)) * ten_power (- int (length f)) = of_int a * ten_power e"
      "read_digits (w @ f) = a * 10 ^ nat e"
    by (rule fixed_text_shape[OF nv(2), unfolded n decimal.sel]) (simp add: n)
  let ?d = "Dec False (read_digits (w @ f)) (- int (length f))"
  have t: "decimal_text v = point_text w f" using assms(4) wf(1) by (simp add: decimal_text_def sign_text_def)
  have vd: "dec_value ?d = dec_value v" using wf(7) nv(1) by (simp add: dec_value_def n)
  have wd: "dec_well ?d" using wf(2,3) by (simp add: dec_well_def read_digits_nonneg)
  have "(10::int) ^ nat e \<le> 10 ^ nat (e - dec_exponent v)" using assms(3) by (intro power_increasing) simp_all
  then have le: "dec_coefficient ?d \<le> dec_coefficient v" using shape(2,4) wf(8) by (simp add: mult_left_mono)
  have small: "dec_digits (dec_coefficient ?d) \<le> context_precision"
    using dec_digits_mono[OF _ le] wd assms(5) by (simp add: dec_well_def)
  have "f = []" if "is_integral v"
  proof (rule ccontr)
    assume "f \<noteq> []"
    then have e: "e < 0" using wf(5) by auto
    have "of_int a * ten_power e = of_int \<lfloor>dec_value v\<rfloor> * ten_power 0"
      using that nv(1) by (simp add: is_integral_def dec_value_def n)
    then show False using stripped_le[OF _ shape(3), of e "\<lfloor>dec_value v\<rfloor>" 0] e by simp
  qed
  moreover have "decimal_text ?d = decimal_text v"
    using normalize_unique[OF wd assms(1) vd _ small assms(5)] vd assms(2) by (simp add: decimal_text_def)
  ultimately show ?thesis
    using that[OF t wf(2,4,3) _ vd wd _ refl le] wf(6) assms(4) by (simp add: decimal_text_def)
qed

section \<open>Properties\<close>



text \<open>
  The grammar of numbers: digits, or groups of digits separated by commas of which the first has at
  most three digits and every other exactly three, with an optional point and fraction.
\<close>

fun commas :: "string list \<Rightarrow> string" where
  "commas [] = []"
| "commas [g] = g"
| "commas (g # h # gs) = g @ CHR '','' # commas (h # gs)"

definition digit_groups :: "string list \<Rightarrow> bool" where
  "digit_groups gs \<longleftrightarrow> gs \<noteq> [] \<and> list_all all_digits gs \<and>
     (length gs = 1 \<or> length (hd gs) \<le> 3 \<and> (\<forall>g \<in> set (tl gs). length g = 3))"

lemma split_on_nonempty [simp]: "split_on c s \<noteq> []"
  by (induction s) (auto split: list.splits)

lemma split_on_append: "c \<notin> set g \<Longrightarrow> split_on c (g @ c # s) = g # split_on c s"
  by (induction g) auto

lemma split_on_none: "c \<notin> set g \<Longrightarrow> split_on c g = [g]"
  by (induction g) auto

lemma split_commas: "gs \<noteq> [] \<Longrightarrow> \<forall>g \<in> set gs. CHR '','' \<notin> set g \<Longrightarrow> split_on CHR '','' (commas gs) = gs"
  by (induction gs rule: commas.induct) (auto simp: split_on_none split_on_append)

lemma commas_split: "commas (split_on CHR '','' s) = s"
proof (induction s)
  case (Cons x s)
  obtain g gs where "split_on CHR '','' s = g # gs" by (cases "split_on CHR '','' s") auto
  with Cons show ?case by (cases gs) auto
qed simp

lemma commas_chars: "set (commas gs) \<subseteq> insert CHR '','' (set (concat gs))"
  by (induction gs rule: commas.induct) auto

lemma comma_in_commas: "gs \<noteq> [] \<Longrightarrow> \<forall>g \<in> set gs. CHR '','' \<notin> set g \<Longrightarrow>
    CHR '','' \<in> set (commas gs) \<longleftrightarrow> length gs \<noteq> 1"
  by (induction gs rule: commas.induct) auto

lemma all_digits_concat: "all_digits (concat gs) \<Longrightarrow> g \<in> set gs \<Longrightarrow> list_all is_digit g"
  by (auto simp: all_digits_def list_all_iff)

lemma rfind_before:
  assumes "CHR ''.'' \<notin> set f" "CHR '','' \<notin> set f"
  shows "\<not> rfind CHR '','' (w @ CHR ''.'' # f) > rfind CHR ''.'' (w @ CHR ''.'' # f)"
proof -
  have d: "takeWhile (\<lambda>x. x \<noteq> CHR ''.'') (rev f @ CHR ''.'' # rev w) = rev f"
    using assms(1) by (subst takeWhile_append2) auto
  have c: "length (rev f) < length (takeWhile (\<lambda>x. x \<noteq> CHR '','') (rev f @ CHR ''.'' # rev w))"
    using assms(2) by (subst takeWhile_append2) auto
  show ?thesis using d c by (simp add: rfind_def)
qed

lemma groups_plain:
  assumes "digit_groups gs"
  shows "list_all is_digit (concat gs)" "concat gs \<noteq> []" "\<forall>g \<in> set gs. CHR '','' \<notin> set g"
    "CHR ''.'' \<notin> set (commas gs)" "list_all (\<lambda>c. \<not> is_space c) (commas gs)" "commas gs \<noteq> []"
proof -
  have g: "\<forall>g \<in> set gs. list_all is_digit g \<and> g \<noteq> []" "gs \<noteq> []"
    using assms by (auto simp: digit_groups_def list_all_iff all_digits_def)
  then show c: "list_all is_digit (concat gs)" "\<forall>g \<in> set gs. CHR '','' \<notin> set g"
    using digit_lists by (auto simp: list_all_iff)
  show "concat gs \<noteq> []" using g by auto
  show "CHR ''.'' \<notin> set (commas gs)" "list_all (\<lambda>c. \<not> is_space c) (commas gs)"
    using commas_chars[of gs] c(1) digit_plain by (auto simp: list_all_iff is_space_def)
  show "commas gs \<noteq> []" using g by (cases gs rule: commas.cases) auto
qed

lemma grammar_accepts:
  assumes "digit_groups gs" "list_all is_digit f" "py_strip s = point_text (commas gs) f"
  shows "numeric_lexeme py (JStr s) = (Some (point_text (concat gs) f), None)"
proof -
  note g = groups_plain[OF assms(1)]
  have gs: "gs \<noteq> []" "hd gs \<noteq> []" "\<forall>g \<in> set gs. all_digits g" using assms(1)
    by (auto simp: digit_groups_def list_all_iff all_digits_def)
  have f: "CHR ''.'' \<notin> set f" "CHR '','' \<notin> set f" using digit_lists[OF assms(2)] by blast+
  have tw: "takeWhile (\<lambda>c. c \<noteq> CHR ''.'') (point_text (commas gs) f) = commas gs"
    "tl (dropWhile (\<lambda>c. c \<noteq> CHR ''.'') (point_text (commas gs) f)) = f"
    "CHR ''.'' \<in> set (point_text (commas gs) f) \<longleftrightarrow> f \<noteq> []"
    using g(4) by (auto simp: point_text_def before_point)
  have k: "\<not> count_list (point_text (commas gs) f) CHR ''.'' > 1"
    using g(4) f(1) by (simp add: point_text_def count_notin)
  have r: "\<not> (CHR ''.'' \<in> set (point_text (commas gs) f) \<and> CHR '','' \<in> set (point_text (commas gs) f) \<and>
      rfind CHR '','' (point_text (commas gs) f) > rfind CHR ''.'' (point_text (commas gs) f))"
    using rfind_before[OF f, of "commas gs"] g(4) by (auto simp: point_text_def)
  have m: "\<not> (CHR '','' \<in> set (commas gs) \<and> malformed_groups (split_on CHR '','' (commas gs)))"
    using comma_in_commas[OF gs(1) g(3)] split_commas[OF gs(1) g(3)] assms(1) gs
    by (auto simp: malformed_groups_def digit_groups_def list_ex_iff dest: list.set_sel(2))
  have w: "(if CHR '','' \<in> set (commas gs) then concat (split_on CHR '','' (commas gs)) else commas gs) = concat gs"
    using comma_in_commas[OF gs(1) g(3)] split_commas[OF gs(1) g(3)] gs(1) by (cases gs rule: commas.cases) auto
  have "point_text (commas gs) f \<noteq> []" using g(6) by (simp add: point_text_def)
  then show ?thesis
    using k r m f(2) g(1,2) assms(2) unfolding numeric_lexeme_def json.case py_str.simps assms(3) Let_def tw w
    by (simp add: all_digits_def point_text_def)
qed

lemma grammar_rejects:
  assumes "numeric_lexeme py (JStr s) = (Some l, c)"
  obtains gs f where "digit_groups gs" "list_all is_digit f" "py_strip s = point_text (commas gs) f"
    "l = point_text (concat gs) f"
proof -
  define t where "t = py_strip s"
  define f where "f = tl (dropWhile (\<lambda>c. c \<noteq> CHR ''.'') t)"
  define w where "w = takeWhile (\<lambda>c. c \<noteq> CHR ''.'') t"
  define gs where "gs = split_on CHR '','' w"
  have n: "CHR '','' \<in> set w \<longrightarrow> \<not> malformed_groups gs" "all_digits (if CHR '','' \<in> set w then concat gs else w)"
      "CHR ''.'' \<in> set t \<longrightarrow> all_digits f"
      "l = (if CHR '','' \<in> set w then concat gs else w) @ (if CHR ''.'' \<in> set t then CHR ''.'' # f else [])"
    using assms unfolding numeric_lexeme_def Let_def json.case py_str.simps t_def[symmetric] f_def[symmetric]
      w_def[symmetric] gs_def[symmetric] by (auto split: if_splits)
  have "t = w @ dropWhile (\<lambda>c. c \<noteq> CHR ''.'') t" by (simp add: w_def)
  moreover have "dropWhile (\<lambda>c. c \<noteq> CHR ''.'') t = (if CHR ''.'' \<in> set t then CHR ''.'' # f else [])"
    using hd_dropWhile[of "\<lambda>c. c \<noteq> CHR ''.''" t] set_dropWhileD[of "CHR ''.''" "\<lambda>c. c \<noteq> CHR ''.''" t]
    by (cases "dropWhile (\<lambda>c. c \<noteq> CHR ''.'') t") (auto simp: f_def dropWhile_eq_Nil_conv)
  ultimately have t: "t = w @ (if CHR ''.'' \<in> set t then CHR ''.'' # f else [])" by simp
  let ?f = "if CHR ''.'' \<in> set t then f else []"
  have f: "list_all is_digit ?f" using n(3) by (simp add: all_digits_def)
  have p: "py_strip s = point_text w ?f" "l = point_text (if CHR '','' \<in> set w then concat gs else w) ?f"
    using t n(3,4) by (auto simp: point_text_def all_digits_def t_def)
  show ?thesis
  proof (cases "CHR '','' \<in> set w")
    case True
    have "list_all all_digits gs" "length (hd gs) \<le> 3" "\<forall>g \<in> set (tl gs). length g = 3"
      using n(1,2) True all_digits_concat[of gs] hd_in_set[of gs]
      by (auto simp: malformed_groups_def list_all_iff list_ex_iff all_digits_def gs_def neq_Nil_conv) (metis list.sel set_ConsD list.set_sel(2) neq_Nil_conv split_on_nonempty)+
    then show ?thesis
      using that[of gs ?f] f p True commas_split[of w] by (simp add: digit_groups_def gs_def)
  next
    case False
    then show ?thesis
      using that[of "[w]" ?f] f p n(2) by (simp add: digit_groups_def)
  qed
qed

text \<open>C23: A text cell is read as a number exactly when, apart from white space around it, it is digits or
  groups of three digits separated by commas after a shorter first group, with an optional fraction;
  what is read is the text without the commas.\<close>

theorem source_number_grammar:
  "numeric_lexeme py (JStr s) = (Some l, None) \<longleftrightarrow>
     (\<exists>gs f. digit_groups gs \<and> list_all is_digit f \<and> py_strip s = point_text (commas gs) f \<and>
        l = point_text (concat gs) f)"
  by (meson grammar_accepts grammar_rejects)

section \<open>Beyond the precision of the context\<close>

lemma half_even_nonneg: "0 \<le> c \<Longrightarrow> 0 < p \<Longrightarrow> 0 \<le> half_even c p"
  by (simp add: half_even_def Let_def pos_imp_zdiv_nonneg_iff)

lemma dec_round_tens:
  assumes "dec_well v" "context_precision < dec_digits (dec_coefficient v)"
  obtains c e where "dec_round v = Dec (dec_negative v) c e" "0 \<le> c" "dec_exponent v < e"
proof -
  have "0 \<le> half_even (dec_coefficient v) (10 ^ k)" for k
    using assms(1) by (intro half_even_nonneg) (simp_all add: dec_well_def)
  moreover define k where "k = dec_digits (dec_coefficient v) - context_precision"
  moreover define q where "q = half_even (dec_coefficient v) (10 ^ k)"
  moreover have "0 < k" using assms(2) by (simp add: k_def)
  ultimately have q: "0 \<le> q" "0 \<le> q div 10" "0 < k"
    "dec_round v = (if context_precision < dec_digits q then Dec (dec_negative v) (q div 10) (dec_exponent v + int k + 1)
       else Dec (dec_negative v) q (dec_exponent v + int k))"
    by (simp_all add: dec_round_def Let_def pos_imp_zdiv_nonneg_iff)
  show ?thesis
  proof (cases "context_precision < dec_digits q")
    case True
    with q show ?thesis by (intro that[of "q div 10" "dec_exponent v + int k + 1"]) simp_all
  next
    case False
    with q show ?thesis by (intro that[of q "dec_exponent v + int k"]) simp_all
  qed
qed

text \<open>C24: A whole number of more than 28 digits that does not end in zero is accepted as a price with a
  target of another value: the text of a decimal is rounded to the precision of the context.\<close>

theorem long_price_altered:
  assumes "nf_instruction (normalize_direct_price py raw currency unit precision fix_zero authoritative mapped) = SET"
    and "decimal_from_lexeme py raw = (Some l, Some (Dec False c 0), None)"
    and "context_precision < dec_digits c" and "c mod 10 \<noteq> 0"
  shows "\<exists>t d. nf_target (normalize_direct_price py raw currency unit precision fix_zero authoritative mapped) = Some t \<and>
    decimal_of t = Some (Finite d) \<and> dec_value d \<noteq> dec_value (Dec False c 0)"
proof -
  let ?v = "Dec False c 0"
  have well: "dec_well ?v" using decimal_lexeme[OF assms(2)] by blast
  obtain a e where r: "dec_round ?v = Dec False a e" "0 \<le> a" "0 < e"
    using dec_round_tens[OF well] assms(3) by auto
  obtain b k where s: "strip_zeros a e = (b, k)" by fastforce
  let ?n = "dec_normalize ?v"
  have n: "dec_value ?n = of_int a * ten_power e" "dec_well ?n"
    using r s strip_zeros_value[OF s r(2)] by (auto simp: dec_normalize_def Let_def dec_value_def dec_well_def)
  obtain w f where wf: "list_all is_digit w" "list_all is_digit f"
      "decimal_of (fixed_text ?n) = Some (Finite (Dec (dec_negative ?n) (read_digits (w @ f)) (- int (length f))))"
      "of_int (read_digits (w @ f)) * ten_power (- int (length f)) = of_int (dec_coefficient ?n) * ten_power (dec_exponent ?n)"
    by (rule fixed_text_shape[OF n(2)])
  let ?d = "Dec (dec_negative ?n) (read_digits (w @ f)) (- int (length f))"
  have "dec_value ?d = dec_value ?n" using wf(4) by (simp add: dec_value_def)
  moreover have "of_int a * ten_power e \<noteq> of_int c * ten_power 0"
    using stripped_le[of c 0 a e] assms(4) r(3) by auto
  moreover have "dec_value ?v = of_int c * ten_power 0" by (simp add: dec_value_def)
  ultimately have "dec_value ?d \<noteq> dec_value ?v" using n(1) by simp
  moreover have "dec_value ?v \<noteq> 0" using assms(4) dec_value_zero[of ?v] by auto
  ultimately show ?thesis
    using wf(3) set_price_target(1)[OF assms(1,2)] by (auto simp: decimal_text_def)
qed

text \<open>The availability of a Listing does not depend on the order of its fields: a blocker leaves it
  open, otherwise one field that is out of stock decides, and without one any field that is in stock.\<close>

theorem availability_precedence:
  "fst (resolve_availability fs) =
     (if \<exists>f \<in> set fs. truthy (nf_blocker_code f) then None
      else if \<exists>f \<in> set fs. nf_availability_signal f = Some OUT_OF_STOCK then Some OUT_OF_STOCK
      else if \<exists>f \<in> set fs. nf_availability_signal f = Some IN_STOCK then Some IN_STOCK else None)"
  by (auto simp: resolve_availability_def Let_def filter_empty_conv image_iff)

section \<open>Witnesses\<close>

definition demo_py :: py_runtime where
  "demo_py = \<lparr>repr_of = (\<lambda>_. []), float_of_string = (\<lambda>_. None)\<rparr>"



theorem long_price_altered_witness:
  "\<exists>t d. nf_target (normalize_direct_price demo_py (JStr ''12345678901234567890123456789'') (Some ''IRR'') (Some ''RIAL'') (Some 0) None True True) = Some t \<and>
    decimal_of t = Some (Finite d) \<and> dec_value d \<noteq> dec_value (Dec False 12345678901234567890123456789 0)"
proof (rule long_price_altered)
  show "nf_instruction (normalize_direct_price demo_py (JStr ''12345678901234567890123456789'') (Some ''IRR'') (Some ''RIAL'') (Some 0) None True True) = SET"
    by code_simp
  show "decimal_from_lexeme demo_py (JStr ''12345678901234567890123456789'') =
      (Some ''12345678901234567890123456789'', Some (Dec False 12345678901234567890123456789 0), None)" by code_simp
  show "context_precision < dec_digits 12345678901234567890123456789" by code_simp
qed simp

end
