(* ===== verification/WorkspaceStore.thy ===== *)
theory WorkspaceStore
  imports WorkspaceValues Session ApplyJobs
begin

text \<open>
  The tables behind a workspace (\<^verbatim>\<open>app/flowhub/unified_workspace/models.py\<close>): the snapshot and its
  rows, the draft with its revisions and changes, Listings, products, Channel caches and Channels,
  Reviews with their items, cache versions and selections, dry runs with their scopes, and Apply
  manifests; the repositories that read them; and the access check of every operation. Digests, the
  clock, fresh identifiers, what the connectors and the pricing service answer and the transactions
  of other workers are fields of the environment.
\<close>

section \<open>Rows\<close>

record uw_workspace =
  uw_id :: string
  uw_owner_user_id :: int
  uw_entry_point :: string

record uw_snapshot =
  sp_id :: string
  sp_workspace_id :: string
  sp_content_checksum :: string
  sp_currency_profile_id :: string
  sp_source_metadata :: json_dict

record uw_snapshot_row =
  sr_snapshot_id :: string
  sr_listing_id :: "string option"

record uw_draft =
  ud_id :: string
  ud_workspace_id :: string
  ud_current_revision_id :: "string option"
  ud_version :: int
  ud_status :: string
  ud_updated_at :: instant

record draft_revision =
  dv_id :: string
  dv_draft_id :: string
  dv_workspace_id :: string
  dv_snapshot_id :: string
  dv_revision_number :: int
  dv_parent_revision_id :: "string option"
  dv_restored_from_revision_id :: "string option"
  dv_creator_user_id :: int
  dv_checksum :: string
  dv_metadata :: json_dict

record revision_change =
  dc_id :: string
  dc_revision_id :: string
  dc_change :: draft_change
  dc_change_checksum :: string

record uw_listing =
  ul_id :: string
  ul_canonical_product_id :: string
  ul_channel_id :: string
  ul_external_primary_id :: string
  ul_sku :: string
  ul_enabled :: bool
  ul_mapping_state :: string
  ul_mapping_version :: int

record canonical_product =
  cp_id :: string
  cp_product_type :: string
  cp_parent_id :: "string option"

text \<open>\<^verbatim>\<open>uc_stock_text\<close> is \<^verbatim>\<open>str(stock_quantity)\<close>.\<close>

record uw_cache =
  uc_listing_id :: string
  uc_price_raw :: "string option"
  uc_price_currency :: "string option"
  uc_price_unit :: "string option"
  uc_stock_text :: "string option"
  uc_status :: "string option"
  uc_manage_stock :: "bool option"
  uc_cache_version :: int
  uc_checksum :: string
  uc_freshness :: string
  uc_fetch_status :: string
  uc_fetched_at :: instant

record uw_channel =
  wc_id :: string
  wc_enabled :: bool
  wc_implementation_state :: string

record currency_profile =
  cu_id :: string
  cu_scope :: string
  cu_scope_reference :: string
  cu_version :: int
  cu_checksum :: string
  cu_enabled :: bool

record uw_review =
  rw_id :: string
  rw_workspace_id :: string
  rw_snapshot_id :: string
  rw_draft_revision_id :: string
  rw_status :: string
  rw_ruleset_version :: string
  rw_capability_digest :: string
  rw_currency_digest :: string
  rw_currency_profile_id :: string
  rw_currency_profile_version :: int
  rw_currency_profile_checksum :: string
  rw_currency_source_reference :: string
  rw_currency_channel_references :: "string list"
  rw_currency_ruleset_version :: string
  rw_mapping_digest :: string
  rw_checksum :: string
  rw_summary :: json_dict
  rw_invalidated_at :: "instant option"
  rw_stale_reason :: "string option"
  rw_selection_version :: int
  rw_selection_checksum :: "string option"
  rw_selected_channel_ids :: "string list"

record review_entry =
  rx_id :: string
  rx_review_id :: string
  rx_draft_change_id :: string
  rx_product_id :: string
  rx_listing_id :: string
  rx_channel_id :: string
  rx_field :: string
  rx_current_value :: "string option"
  rx_target_value :: string
  rx_normalized :: json_dict
  rx_validation_state :: string
  rx_warnings :: "string list"
  rx_errors :: "string list"
  rx_eligible :: bool

record review_cache_version =
  rc_review_id :: string
  rc_listing_id :: string
  rc_channel_id :: string
  rc_cache_version :: int
  rc_cache_checksum :: string
  rc_mapping_version :: int
  rc_capability_version :: string

record review_selection =
  sl_review_id :: string
  sl_review_item_id :: string
  sl_user_id :: int

record dry_run =
  dn_id :: string
  dn_review_id :: string
  dn_selection_version :: int
  dn_selection_checksum :: string
  dn_status :: string
  dn_evidence_checksum :: string
  dn_reviewed_count :: nat
  dn_write_count :: nat
  dn_blocker_count :: nat
  dn_created_at :: instant

record dry_run_scope =
  do_dry_run_id :: string
  do_review_item_id :: string
  do_disposition :: string
  do_reason :: "string option"
  do_expected :: json_dict
  do_observed :: json_dict
  do_fingerprint :: "string option"

record apply_manifest =
  am_id :: string
  am_review_id :: string
  am_dry_run_id :: "string option"
  am_selection_version :: int
  am_selection_checksum :: string
  am_manifest_checksum :: string
  am_operation_count :: nat
  am_channel_ids :: "string list"

record manifest_operation =
  ao_id :: string
  ao_manifest_id :: string
  ao_review_item_id :: string
  ao_product_id :: string
  ao_listing_id :: string
  ao_channel_id :: string
  ao_field :: string
  ao_current_value :: "string option"
  ao_target_value :: string
  ao_currency :: json
  ao_unit :: json
  ao_listing_payload :: json
  ao_listing_payload_hash :: string

record validation_issue =
  vi_review_id :: string
  vi_product_id :: string
  vi_listing_id :: string
  vi_channel_id :: string
  vi_code :: string
  vi_field :: string

text \<open>
  What the code reads of Sources: the version the workspace is bound to, the version of a Source, the
  Source and checksum of a mapping revision, and of a sheet revision the Source of its sheet, its
  version and checksum and the current version of the sheet.
\<close>

record source_state =
  ss_binding_version :: "int option"
  ss_source_version :: "string \<Rightarrow> int option"
  ss_mapping :: "string \<Rightarrow> (string \<times> string) option"
  ss_sheet :: "string \<Rightarrow> (string \<times> int \<times> string \<times> int) option"

text \<open>The targeted read a connector is asked for; a number is given by its text.\<close>

record live_probe =
  pb_listing_id :: string
  pb_channel_id :: string
  pb_external_primary_id :: string
  pb_sku :: string
  pb_product_type :: string
  pb_parent_external_id :: "string option"
  pb_current :: "string \<Rightarrow> json"
  pb_currency :: json
  pb_unit :: json
  pb_governed_fields :: "string list"

record ws_db =
  wt_workspaces :: "uw_workspace list"
  wt_snapshots :: "uw_snapshot list"
  wt_snapshot_rows :: "uw_snapshot_row list"
  wt_drafts :: "uw_draft list"
  wt_revisions :: "draft_revision list"
  wt_changes :: "revision_change list"
  wt_listings :: "uw_listing list"
  wt_products :: "canonical_product list"
  wt_caches :: "uw_cache list"
  wt_channels :: "uw_channel list"
  wt_currency_profiles :: "currency_profile list"
  wt_reviews :: "uw_review list"
  wt_review_items :: "review_entry list"
  wt_issues :: "validation_issue list"
  wt_cache_versions :: "review_cache_version list"
  wt_selections :: "review_selection list"
  wt_dry_runs :: "dry_run list"
  wt_dry_run_scopes :: "dry_run_scope list"
  wt_manifests :: "apply_manifest list"
  wt_manifest_operations :: "manifest_operation list"
  wt_visible_channels :: "(int \<times> string list) list"
  wt_audit_log :: "(string \<times> int \<times> json_dict) list"

section \<open>Environment\<close>

record capabilities =
  ca_channel_id :: string
  ca_write_price :: bool
  ca_write_stock :: bool
  ca_write_status :: bool
  ca_write_available :: bool
  ca_requires_stock_management :: bool
  ca_supported_statuses :: "string list"
  ca_currency :: string
  ca_unit :: string
  ca_version :: string

definition can_write :: "capabilities \<Rightarrow> string \<Rightarrow> bool" where
  "can_write c field \<longleftrightarrow> ca_write_available c \<and>
     (if field = ''price'' then ca_write_price c else if field = ''stock'' then ca_write_stock c
      else if field = ''status'' then ca_write_status c else False)"

text \<open>
  An error of a workspace operation: an HTTP error with its status and code, a domain error with its
  message, a violated constraint, or a crash with its exception class.
\<close>

datatype ws_error = Refused int string | Domain_error string | Integrity_error | Crash string

type_synonym 'a ws_op = "(ws_db, ws_error, 'a) op"

record ws_env =
  we_checksum :: "json \<Rightarrow> string"
  we_dumps :: "json \<Rightarrow> string"
  we_py :: py_runtime
  we_fixed_float :: "rat \<Rightarrow> string"
  we_now :: "ws_db \<Rightarrow> instant"
  we_id :: "ws_db \<Rightarrow> string"
  we_capabilities :: "ws_db \<Rightarrow> string \<Rightarrow> capabilities option"
  we_bind_pricing :: "ws_db \<Rightarrow> string \<Rightarrow> string list \<Rightarrow> json \<times> (string \<times> string) list"
  we_verify_pricing :: "ws_db \<Rightarrow> string \<Rightarrow> string list \<Rightarrow> (string \<times> string) list"
  we_cache_max_age :: "ws_db \<Rightarrow> string option"
  we_verify_updates :: "ws_db \<Rightarrow> live_probe \<Rightarrow> json_dict option"
  we_source :: "ws_db \<Rightarrow> string \<Rightarrow> source_state"
  we_others :: "ws_db \<Rightarrow> ws_db"

definition refuse :: "int \<Rightarrow> string \<Rightarrow> 'a ws_op" where
  "refuse status code = sraise (Refused status code)"

definition require :: "bool \<Rightarrow> ws_error \<Rightarrow> unit ws_op" where
  "require c e = (if c then sret () else sraise e)"

definition log_audit :: "string \<Rightarrow> flowhub_user \<Rightarrow> json_dict \<Rightarrow> unit ws_op" where
  "log_audit event u cols =
     smodify (\<lambda>db. db\<lparr>wt_audit_log := wt_audit_log db @ [(event, us_id u, cols)]\<rparr>)"

section \<open>Repositories\<close>

definition draft_for_workspace :: "string \<Rightarrow> ws_db \<Rightarrow> uw_draft option" where
  "draft_for_workspace wid db = find (\<lambda>d. ud_workspace_id d = wid) (wt_drafts db)"

definition snapshot_for_workspace :: "string \<Rightarrow> ws_db \<Rightarrow> uw_snapshot option" where
  "snapshot_for_workspace wid db = find (\<lambda>s. sp_workspace_id s = wid) (wt_snapshots db)"

definition get_revision :: "string \<Rightarrow> ws_db \<Rightarrow> draft_revision option" where
  "get_revision rid db = get_row dv_id rid (wt_revisions db)"

definition revision_changes :: "string \<Rightarrow> ws_db \<Rightarrow> revision_change list" where
  "revision_changes rid db = sort_key
     (\<lambda>c. (dg_product_id (dc_change c), dg_listing_id (dc_change c), dg_field (dc_change c)))
     (filter (\<lambda>c. dc_revision_id c = rid) (wt_changes db))"

definition get_review :: "string \<Rightarrow> ws_db \<Rightarrow> uw_review option" where
  "get_review rid db = get_row rw_id rid (wt_reviews db)"

definition review_selections :: "string \<Rightarrow> ws_db \<Rightarrow> review_selection list" where
  "review_selections rid db = filter (\<lambda>s. sl_review_id s = rid) (wt_selections db)"

definition review_items :: "string \<Rightarrow> ws_db \<Rightarrow> review_entry list" where
  "review_items rid db = sort_key (\<lambda>i. (rx_channel_id i, rx_listing_id i, rx_field i))
     (filter (\<lambda>i. rx_review_id i = rid) (wt_review_items db))"

definition get_listing :: "string \<Rightarrow> ws_db \<Rightarrow> uw_listing option" where
  "get_listing lid db = get_row ul_id lid (wt_listings db)"

definition get_product :: "string \<Rightarrow> ws_db \<Rightarrow> canonical_product option" where
  "get_product pid db = get_row cp_id pid (wt_products db)"

definition get_cache :: "string \<Rightarrow> ws_db \<Rightarrow> uw_cache option" where
  "get_cache lid db = get_row uc_listing_id lid (wt_caches db)"

definition get_channel :: "string \<Rightarrow> ws_db \<Rightarrow> uw_channel option" where
  "get_channel cid db = get_row wc_id cid (wt_channels db)"

definition channel_available :: "string \<Rightarrow> ws_db \<Rightarrow> bool" where
  "channel_available cid db \<longleftrightarrow>
     (case get_channel cid db of None \<Rightarrow> False
      | Some c \<Rightarrow> wc_enabled c \<and> wc_implementation_state c = ''implemented'')"

definition current_value :: "uw_cache \<Rightarrow> string \<Rightarrow> string option" where
  "current_value c field = (if field = ''price'' then uc_price_raw c
     else if field = ''stock'' then uc_stock_text c else uc_status c)"

section \<open>Access\<close>

definition uw_workspace_for_user :: "string \<Rightarrow> flowhub_user \<Rightarrow> bool \<Rightarrow> uw_workspace ws_op" where
  "uw_workspace_for_user wid u edit =
     sbind (sget (\<lambda>db. get_row uw_id wid (wt_workspaces db))) (\<lambda>row.
     case row of None \<Rightarrow> refuse 404 ''WORKSPACE_NOT_FOUND''
     | Some ws \<Rightarrow>
       if uw_owner_user_id ws \<noteq> us_id u \<and> \<not> has_workspace_permission u ''workspace.admin''
       then refuse 403 ''WORKSPACE_ACCESS_DENIED''
       else if \<not> has_workspace_permission u (if edit then ''workspace.edit'' else ''workspace.read'')
       then refuse 403 ''WORKSPACE_PERMISSION_DENIED''
       else sret ws)"

end
