(* ===== verification/Drafts.thy ===== *)
theory Drafts
  imports WorkspaceStore
begin

text \<open>
  Drafts (\<^verbatim>\<open>save_draft\<close> and \<^verbatim>\<open>restore_revision\<close> of \<^verbatim>\<open>unified_workspace/services.py\<close>): a save merges the
  incoming changes into those of the current revision, drops the ones that change nothing, validates
  what is left against Listings, products and Channel capabilities, and appends an immutable revision
  under an optimistic version. Other transactions may commit between the reads and the insertion.
\<close>

section \<open>Merging\<close>

definition MAX_DRAFT_CHANGES :: nat where
  "MAX_DRAFT_CHANGES = 30000"

definition change_key :: "draft_change \<Rightarrow> string \<times> string" where
  "change_key c = (dg_listing_id c, dg_field c)"

definition unchanged :: "ws_db \<Rightarrow> draft_change \<Rightarrow> bool" where
  "unchanged db c = values_equal (dg_field c)
     (case get_cache (dg_listing_id c) db of Some k \<Rightarrow> current_value k (dg_field c) | None \<Rightarrow> None)
     (Some (dg_target c))"

definition merge_change ::
    "ws_db \<Rightarrow> draft_change \<Rightarrow> (string \<times> string, draft_change) dict \<Rightarrow> (string \<times> string, draft_change) dict" where
  "merge_change db c merged = (if unchanged db c then AList.delete (change_key c) merged
     else AList.update (change_key c) c merged)"

definition base_changes :: "ws_db \<Rightarrow> uw_draft \<Rightarrow> bool \<Rightarrow> (string \<times> string, draft_change) dict" where
  "base_changes db d replace_existing =
     (case ud_current_revision_id d of
        Some rid \<Rightarrow> if rid \<noteq> [] \<and> \<not> replace_existing
          then fold (\<lambda>c. AList.update (change_key (dc_change c)) (dc_change c)) (revision_changes rid db) []
          else []
      | None \<Rightarrow> [])"

definition merged_changes :: "ws_db \<Rightarrow> uw_draft \<Rightarrow> bool \<Rightarrow> draft_change list \<Rightarrow> draft_change list" where
  "merged_changes db d replace_existing incoming =
     map snd (sort_key fst (fold (merge_change db) incoming (base_changes db d replace_existing)))"

section \<open>Validation\<close>

definition domain_error :: "string + 'a \<Rightarrow> ws_error + 'a" where
  "domain_error r = (case r of Inl e \<Rightarrow> Inl (Domain_error e) | Inr x \<Rightarrow> Inr x)"

definition in_snapshot :: "ws_db \<Rightarrow> string \<Rightarrow> string \<Rightarrow> bool" where
  "in_snapshot db sid lid \<longleftrightarrow>
     list_ex (\<lambda>r. sr_snapshot_id r = sid \<and> sr_listing_id r = Some lid) (wt_snapshot_rows db)"

definition unprocessable :: "bool \<Rightarrow> string \<Rightarrow> ws_error + unit" where
  "unprocessable bad code = (if bad then Inl (Refused 422 code) else Inr ())"

definition currency_unit_wrong :: "capabilities \<Rightarrow> draft_change \<Rightarrow> bool" where
  "currency_unit_wrong k c \<longleftrightarrow> dg_currency c \<noteq> Some (ca_currency k) \<or>
     py_upper (case dg_unit c of Some t \<Rightarrow> t | None \<Rightarrow> ''None'') \<noteq> py_upper (ca_unit k)"

definition validate_capability :: "capabilities option \<Rightarrow> draft_change \<Rightarrow> ws_error + unit" where
  "validate_capability cap c =
     (case cap of None \<Rightarrow> Inl (Refused 422 ''CHANNEL_UNAVAILABLE'')
      | Some k \<Rightarrow>
        rbind (unprocessable (\<not> can_write k (dg_field c)) ''FIELD_READ_ONLY'') (\<lambda>_.
        rbind (unprocessable (dg_field c = ''price'' \<and> currency_unit_wrong k c) ''CURRENCY_UNIT_INVALID'') (\<lambda>_.
        unprocessable (dg_field c = ''status'' \<and> dg_target c \<notin> set (ca_supported_statuses k))
          ''STATUS_UNSUPPORTED'')))"

definition validate_change :: "ws_env \<Rightarrow> ws_db \<Rightarrow> string \<Rightarrow> draft_change \<Rightarrow> ws_error + unit" where
  "validate_change env db sid c =
     (case (get_listing (dg_listing_id c) db, get_product (dg_product_id c) db) of
        (Some l, Some p) \<Rightarrow>
          rbind (unprocessable (ul_canonical_product_id l \<noteq> cp_id p \<or> ul_channel_id l \<noteq> dg_channel_id c)
            ''DRAFT_IDENTITY_INVALID'') (\<lambda>_.
          rbind (unprocessable (\<not> in_snapshot db sid (ul_id l)) ''DRAFT_OUTSIDE_SNAPSHOT'') (\<lambda>_.
          rbind (unprocessable (\<not> ul_enabled l) ''LISTING_DISABLED'') (\<lambda>_.
          rbind (unprocessable (\<not> channel_available (ul_channel_id l) db) ''CHANNEL_UNAVAILABLE'') (\<lambda>_.
          rbind (domain_error (validate_product_editable (cp_product_type p))) (\<lambda>_.
          rbind (unprocessable (ul_mapping_state l \<noteq> ''resolved'') ''MAPPING_UNRESOLVED'') (\<lambda>_.
          validate_capability (we_capabilities env db (ul_channel_id l)) c))))))
      | _ \<Rightarrow> Inl (Refused 422 ''DRAFT_IDENTITY_INVALID''))"

fun validate_draft_changes :: "ws_env \<Rightarrow> ws_db \<Rightarrow> string \<Rightarrow> draft_change list \<Rightarrow> ws_error + unit" where
  "validate_draft_changes env db sid [] = Inr ()"
| "validate_draft_changes env db sid (c # cs) =
     rbind (validate_change env db sid c) (\<lambda>_. validate_draft_changes env db sid cs)"

section \<open>Revisions\<close>

text \<open>
  The flush of a new revision enforces the unique constraints on the draft's revision number and on its
  checksum.
\<close>

definition revision_clash :: "ws_db \<Rightarrow> draft_revision \<Rightarrow> bool" where
  "revision_clash db r = list_ex (\<lambda>x. dv_draft_id x = dv_draft_id r \<and>
     (dv_revision_number x = dv_revision_number r \<or> dv_checksum x = dv_checksum r)) (wt_revisions db)"

definition insert_revision :: "draft_revision \<Rightarrow> (ws_db \<Rightarrow> ws_db) \<Rightarrow> unit ws_op" where
  "insert_revision r add_changes =
     sbind (sget (\<lambda>db. revision_clash db r)) (\<lambda>clash.
     if clash then sraise Integrity_error
     else smodify (\<lambda>db. add_changes (db\<lparr>wt_revisions := wt_revisions db @ [r]\<rparr>)))"

text \<open>The draft row is written from the object the session loaded: its version is the one read.\<close>

definition advance_draft :: "uw_draft \<Rightarrow> string \<Rightarrow> instant \<Rightarrow> ws_db \<Rightarrow> ws_db" where
  "advance_draft d rid now db = db\<lparr>wt_drafts := upd_row ud_id (ud_id d)
     (\<lambda>x. x\<lparr>ud_current_revision_id := Some rid, ud_version := ud_version d + 1, ud_updated_at := now\<rparr>)
     (wt_drafts db)\<rparr>"

definition append_revision ::
    "ws_env \<Rightarrow> flowhub_user \<Rightarrow> uw_draft \<Rightarrow> draft_revision \<Rightarrow> (ws_db \<Rightarrow> ws_db) \<Rightarrow> string \<Rightarrow> unit ws_op" where
  "append_revision env u d r add_changes event =
     sbind (insert_revision r add_changes) (\<lambda>_.
     sbind (sget (we_now env)) (\<lambda>now.
     sbind (smodify (advance_draft d (dv_id r) now)) (\<lambda>_.
     sbind (log_audit event u [(''draft_id'', JStr (ud_id d)), (''draft_revision_id'', JStr (dv_id r))]) (\<lambda>_.
     scommit))))"

definition new_revision ::
    "ws_env \<Rightarrow> ws_db \<Rightarrow> flowhub_user \<Rightarrow> uw_draft \<Rightarrow> string \<Rightarrow> string \<Rightarrow> string option \<Rightarrow> string \<Rightarrow> json_dict \<Rightarrow> draft_revision" where
  "new_revision env db u d wid sid restored digest metadata =
     \<lparr>dv_id = we_id env db, dv_draft_id = ud_id d, dv_workspace_id = wid, dv_snapshot_id = sid,
      dv_revision_number = ud_version d + 1, dv_parent_revision_id = ud_current_revision_id d,
      dv_restored_from_revision_id = restored, dv_creator_user_id = us_id u, dv_checksum = digest,
      dv_metadata = metadata\<rparr>"

definition add_change :: "ws_env \<Rightarrow> string \<Rightarrow> draft_change \<Rightarrow> ws_db \<Rightarrow> ws_db" where
  "add_change env rid c db = db\<lparr>wt_changes := wt_changes db @
     [\<lparr>dc_id = we_id env db, dc_revision_id = rid,
       dc_change = c\<lparr>dg_target := canonical_text (Some (dg_target c))\<rparr>,
       dc_change_checksum = we_checksum env (change_dict c)\<rparr>]\<rparr>"

section \<open>Saving\<close>

record save_result =
  sv_revision_id :: string
  sv_no_op :: bool
  sv_draft_version :: int

text \<open>
  The handler of \<^verbatim>\<open>IntegrityError\<close> reports a version conflict; any other error passes.
\<close>

definition on_integrity_error :: "ws_error \<Rightarrow> 'a ws_op" where
  "on_integrity_error e =
     (if e = Integrity_error then sbind srollback (\<lambda>_. refuse 409 ''DRAFT_VERSION_CONFLICT'')
      else sraise e)"

definition save_new ::
    "ws_env \<Rightarrow> flowhub_user \<Rightarrow> uw_draft \<Rightarrow> string \<Rightarrow> string \<Rightarrow> draft_change list \<Rightarrow> json_dict \<Rightarrow> save_result ws_op" where
  "save_new env u d wid sid changes metadata =
     sbind (sawait (we_others env)) (\<lambda>_.
     sbind (sget (\<lambda>db. new_revision env db u d wid sid None
       (we_checksum env (revision_document changes metadata)) metadata)) (\<lambda>r.
     scatch
       (sbind (append_revision env u d r (\<lambda>db. fold (add_change env (dv_id r)) changes db) ''draft_revision_saved'') (\<lambda>_.
        sret \<lparr>sv_revision_id = dv_id r, sv_no_op = False, sv_draft_version = ud_version d + 1\<rparr>))
       on_integrity_error))"

definition current_revision :: "uw_draft \<Rightarrow> ws_db \<Rightarrow> draft_revision option" where
  "current_revision d db = (case ud_current_revision_id d of
     Some rid \<Rightarrow> if rid = [] then None else get_revision rid db | None \<Rightarrow> None)"

definition save_checked ::
    "ws_env \<Rightarrow> flowhub_user \<Rightarrow> uw_draft \<Rightarrow> string \<Rightarrow> string \<Rightarrow> draft_change list \<Rightarrow> json_dict \<Rightarrow> save_result ws_op" where
  "save_checked env u d wid sid changes metadata =
     sbind (sget (current_revision d)) (\<lambda>current.
     case current of
       Some cur \<Rightarrow>
         if dv_checksum cur = we_checksum env (revision_document changes metadata)
         then sret \<lparr>sv_revision_id = dv_id cur, sv_no_op = True, sv_draft_version = ud_version d\<rparr>
         else save_new env u d wid sid changes metadata
     | None \<Rightarrow> save_new env u d wid sid changes metadata)"

definition save_draft ::
    "ws_env \<Rightarrow> string \<Rightarrow> int \<Rightarrow> draft_change list \<Rightarrow> json_dict \<Rightarrow> bool \<Rightarrow> flowhub_user \<Rightarrow> save_result ws_op" where
  "save_draft env wid expected raw metadata replace_existing u =
     sbind (uw_workspace_for_user wid u True) (\<lambda>ws.
     sbind (sget (\<lambda>db. (draft_for_workspace (uw_id ws) db, snapshot_for_workspace (uw_id ws) db))) (\<lambda>found.
     case found of
       (Some d, Some sp) \<Rightarrow>
         if ud_version d \<noteq> expected then refuse 409 ''DRAFT_VERSION_CONFLICT''
         else if length raw > MAX_DRAFT_CHANGES then refuse 422 ''DRAFT_BATCH_LIMIT''
         else sbind (slift (domain_error (rmap check_change raw))) (\<lambda>incoming.
           if \<not> distinct (map change_key incoming) then refuse 422 ''DUPLICATE_DRAFT_CHANGE''
           else sbind (sget (\<lambda>db. merged_changes db d replace_existing incoming)) (\<lambda>changes.
             sbind (sget (\<lambda>db. validate_draft_changes env db (sp_id sp) changes)) (\<lambda>verdict.
             sbind (slift verdict) (\<lambda>_.
             save_checked env u d (uw_id ws) (sp_id sp) changes metadata))))
     | _ \<Rightarrow> refuse 409 ''WORKSPACE_INCOMPLETE''))"

section \<open>Restoring\<close>

definition copy_change :: "ws_env \<Rightarrow> string \<Rightarrow> revision_change \<Rightarrow> ws_db \<Rightarrow> ws_db" where
  "copy_change env rid c db = db\<lparr>wt_changes := wt_changes db @
     [\<lparr>dc_id = we_id env db, dc_revision_id = rid, dc_change = dc_change c,
       dc_change_checksum = we_checksum env (JObj [(''source_change'', JStr (dc_id c)),
         (''target'', JStr (dg_target (dc_change c)))])\<rparr>]\<rparr>"

definition restore_document :: "draft_revision \<Rightarrow> int \<Rightarrow> json" where
  "restore_document src n = JObj [(''restored_from'', JStr (dv_id src)),
     (''source_checksum'', JStr (dv_checksum src)), (''revision'', JInt n)]"

definition restore_revision :: "ws_env \<Rightarrow> string \<Rightarrow> string \<Rightarrow> int \<Rightarrow> flowhub_user \<Rightarrow> save_result ws_op" where
  "restore_revision env wid rid expected u =
     sbind (uw_workspace_for_user wid u True) (\<lambda>ws.
     sbind (sget (\<lambda>db. (draft_for_workspace (uw_id ws) db, get_revision rid db))) (\<lambda>found.
     case found of
       (Some d, Some src) \<Rightarrow>
         if dv_draft_id src \<noteq> ud_id d then refuse 404 ''REVISION_NOT_FOUND''
         else if ud_version d \<noteq> expected then refuse 409 ''DRAFT_VERSION_CONFLICT''
         else
           sbind (sget (revision_changes (dv_id src))) (\<lambda>cs.
           sbind (sawait (we_others env)) (\<lambda>_.
           sbind (sget (\<lambda>db. new_revision env db u d (uw_id ws) (dv_snapshot_id src) (Some (dv_id src))
             (we_checksum env (restore_document src (ud_version d + 1)))
             [(''restored_from_revision_id'', JStr (dv_id src))])) (\<lambda>r.
           sbind (append_revision env u d r (\<lambda>db. fold (copy_change env (dv_id r)) cs db) ''draft_revision_restored'') (\<lambda>_.
           sret \<lparr>sv_revision_id = dv_id r, sv_no_op = False, sv_draft_version = ud_version d + 1\<rparr>))))
     | _ \<Rightarrow> refuse 404 ''REVISION_NOT_FOUND''))"

section \<open>Running the operations\<close>

definition published :: "ws_db \<Rightarrow> (ws_db \<Rightarrow> ws_db) \<Rightarrow> ws_env \<Rightarrow> flowhub_user \<Rightarrow> uw_draft \<Rightarrow> draft_revision \<Rightarrow> string \<Rightarrow> ws_db" where
  "published db add_changes env u d r event =
     (let db1 = add_changes (db\<lparr>wt_revisions := wt_revisions db @ [r]\<rparr>);
          db2 = advance_draft d (dv_id r) (we_now env db1) db1 in
      db2\<lparr>wt_audit_log := wt_audit_log db2 @
        [(event, us_id u, [(''draft_id'', JStr (ud_id d)), (''draft_revision_id'', JStr (dv_id r))])]\<rparr>)"

lemma append_revision_run:
  "append_revision env u d r add_changes event (opened db) =
     (if revision_clash db r then (Inl Integrity_error, opened db)
      else (Inr (), opened (published db add_changes env u d r event)))"
  by (simp add: append_revision_def insert_revision_def session_bind session_run log_audit_def
      published_def Let_def sbind_raise)

lemma fold_keeps:
  assumes "\<And>x db. f (g x db) = f db"
  shows "f (fold g xs db) = f db"
  by (induction xs arbitrary: db) (simp_all add: assms)

lemma added_changes [simp]:
  "wt_drafts (fold (add_change env rid) cs db) = wt_drafts db"
  "wt_revisions (fold (add_change env rid) cs db) = wt_revisions db"
  "wt_drafts (fold (copy_change env rid) ds db) = wt_drafts db"
  "wt_revisions (fold (copy_change env rid) ds db) = wt_revisions db"
  by (simp_all add: fold_keeps add_change_def copy_change_def)

definition head_of_draft :: "uw_draft \<Rightarrow> string \<times> string \<times> string option \<times> int" where
  "head_of_draft d = (ud_id d, ud_workspace_id d, ud_current_revision_id d, ud_version d)"

text \<open>
  What a run may have done to the drafts: nothing, or one revision appended after the interference.
\<close>

definition appended :: "ws_db \<Rightarrow> ws_db \<Rightarrow> uw_draft \<Rightarrow> draft_revision \<Rightarrow> ws_db \<Rightarrow> bool" where
  "appended db mid d r db' \<longleftrightarrow> d \<in> set (wt_drafts db) \<and> \<not> revision_clash mid r \<and>
     dv_draft_id r = ud_id d \<and> dv_revision_number r = ud_version d + 1 \<and>
     dv_parent_revision_id r = ud_current_revision_id d \<and>
     wt_revisions db' = wt_revisions mid @ [r] \<and>
     (\<exists>now. wt_drafts db' = wt_drafts (advance_draft d (dv_id r) now mid))"

lemma appended_published:
  assumes "\<not> revision_clash mid (new_revision env mid u d wid sid src digest m)" "d \<in> set (wt_drafts db)"
    and "\<And>x. wt_drafts (add x) = wt_drafts x" "\<And>x. wt_revisions (add x) = wt_revisions x"
  shows "appended db mid d (new_revision env mid u d wid sid src digest m)
    (published mid add env u d (new_revision env mid u d wid sid src digest m) event)"
  using assms
  by (auto simp: appended_def published_def Let_def new_revision_def advance_draft_def)

lemma save_new_run:
  "save_new env u d wid sid changes metadata (opened db) =
     (let mid = we_others env db;
          r = new_revision env mid u d wid sid None (we_checksum env (revision_document changes metadata)) metadata in
      if revision_clash mid r then (Inl (Refused 409 ''DRAFT_VERSION_CONFLICT''), opened mid)
      else (Inr \<lparr>sv_revision_id = dv_id r, sv_no_op = False, sv_draft_version = ud_version d + 1\<rparr>,
        opened (published mid (\<lambda>db. fold (add_change env (dv_id r)) changes db) env u d r ''draft_revision_saved'')))"
  by (simp add: save_new_def session_bind session_run Let_def scatch_def append_revision_run sbind_def
      on_integrity_error_def refuse_def)

lemma access_run:
  "uw_workspace_for_user wid u edit (opened db) = (Inr ws, s) \<Longrightarrow> s = opened db"
  "uw_workspace_for_user wid u edit (opened db) = (Inl e, s) \<Longrightarrow> s = opened db"
  by (auto simp: uw_workspace_for_user_def session_bind session_run refuse_def split: option.splits if_splits)

lemma draft_found: "draft_for_workspace wid db = Some d \<Longrightarrow> d \<in> set (wt_drafts db) \<and> ud_workspace_id d = wid"
  by (auto simp: draft_for_workspace_def find_Some_iff)

text \<open>The way a save takes once the draft and the snapshot are found.\<close>

definition save_admitted ::
    "ws_env \<Rightarrow> ws_db \<Rightarrow> uw_draft \<Rightarrow> uw_snapshot \<Rightarrow> int \<Rightarrow> draft_change list \<Rightarrow> bool \<Rightarrow> draft_change list \<Rightarrow> bool" where
  "save_admitted env db d sp expected raw replace_existing changes \<longleftrightarrow>
     ud_version d = expected \<and> length raw \<le> MAX_DRAFT_CHANGES \<and>
     (\<exists>incoming. rmap check_change raw = Inr incoming \<and> distinct (map change_key incoming) \<and>
        changes = merged_changes db d replace_existing incoming \<and>
        validate_draft_changes env db (sp_id sp) changes = Inr ())"

lemma domain_error_Inr: "domain_error r = Inr x \<longleftrightarrow> r = Inr x"
  by (simp add: domain_error_def split: sum.split)

lemma save_draft_admitted:
  assumes "uw_workspace_for_user wid u True (opened db) = (Inr ws, opened db)"
    and "draft_for_workspace (uw_id ws) db = Some d" "snapshot_for_workspace (uw_id ws) db = Some sp"
    and "save_admitted env db d sp expected raw replace_existing changes"
  shows "save_draft env wid expected raw metadata replace_existing u (opened db) =
    save_checked env u d (uw_id ws) (sp_id sp) changes metadata (opened db)"
  using assms
  by (auto simp: save_admitted_def save_draft_def session_bind session_run sbind_run domain_error_Inr
      domain_error_def)

lemma save_draft_cases:
  assumes "save_draft env wid expected raw metadata replace_existing u (opened db) = (r, s)"
  obtains (early) e where "r = Inl e" "s = opened db"
  | (admitted) ws d sp changes where
      "uw_workspace_for_user wid u True (opened db) = (Inr ws, opened db)"
      "draft_for_workspace (uw_id ws) db = Some d" "snapshot_for_workspace (uw_id ws) db = Some sp"
      "save_admitted env db d sp expected raw replace_existing changes"
      "save_checked env u d (uw_id ws) (sp_id sp) changes metadata (opened db) = (r, s)"
proof (cases "uw_workspace_for_user wid u True (opened db)")
  case (Pair q s1)
  show ?thesis
  proof (cases q)
    case (Inl e)
    then have "save_draft env wid expected raw metadata replace_existing u (opened db) = (Inl e, opened db)"
      using Pair access_run(2)[OF Pair[unfolded Inl]] by (simp add: save_draft_def sbind_raise)
    with assms have "r = Inl e" "s = opened db" by simp_all
    then show ?thesis by (rule early)
  next
    case (Inr ws)
    note acc = Pair[unfolded Inr access_run(1)[OF Pair[unfolded Inr]]]
    show ?thesis
    proof (cases "\<exists>d sp changes. draft_for_workspace (uw_id ws) db = Some d \<and>
        snapshot_for_workspace (uw_id ws) db = Some sp \<and> save_admitted env db d sp expected raw replace_existing changes")
      case True
      then show ?thesis using acc assms admitted save_draft_admitted by metis
    next
      case False
      with assms acc have "\<exists>e. r = Inl e \<and> s = opened db"
        by (auto simp: save_draft_def session_bind session_run sbind_run refuse_def save_admitted_def
            domain_error_def split: option.splits if_splits sum.splits)
      with early show ?thesis by blast
    qed
  qed
qed

section \<open>The history of a draft\<close>

text \<open>
  The revisions of a draft are numbered 1, 2, ... in the order they were appended, each follows the one
  before it, and the draft points at the last.
\<close>

definition draft_history :: "ws_db \<Rightarrow> uw_draft \<Rightarrow> draft_revision list" where
  "draft_history db d = filter (\<lambda>r. dv_draft_id r = ud_id d) (wt_revisions db)"

fun chained :: "string option \<Rightarrow> int \<Rightarrow> draft_revision list \<Rightarrow> bool" where
  "chained parent n [] = True"
| "chained parent n (r # rs) \<longleftrightarrow> dv_parent_revision_id r = parent \<and> dv_revision_number r = n \<and>
     chained (Some (dv_id r)) (n + 1) rs"

definition latest :: "draft_revision list \<Rightarrow> string option" where
  "latest rs = (if rs = [] then None else Some (dv_id (last rs)))"

definition linear_history :: "uw_draft \<Rightarrow> draft_revision list \<Rightarrow> bool" where
  "linear_history d rs \<longleftrightarrow> chained None 1 rs \<and> ud_version d = int (length rs) \<and>
     ud_current_revision_id d = latest rs"

definition histories_ok :: "ws_db \<Rightarrow> bool" where
  "histories_ok db \<longleftrightarrow> distinct (map ud_id (wt_drafts db)) \<and>
     (\<forall>d \<in> set (wt_drafts db). linear_history d (draft_history db d))"

lemma chained_append:
  "chained p n (rs @ ss) \<longleftrightarrow> chained p n rs \<and>
     chained (if rs = [] then p else Some (dv_id (last rs))) (n + int (length rs)) ss"
  by (induction rs arbitrary: p n) (auto simp: algebra_simps)

lemma chained_numbers: "chained p n rs \<Longrightarrow> n \<le> k \<Longrightarrow> k < n + int (length rs) \<Longrightarrow> \<exists>r \<in> set rs. dv_revision_number r = k"
  by (induction rs arbitrary: p n) force+

lemma linear_snoc:
  assumes "linear_history d rs" "dv_revision_number r = ud_version d + 1" "dv_parent_revision_id r = ud_current_revision_id d"
  shows "linear_history (d\<lparr>ud_current_revision_id := Some (dv_id r), ud_version := ud_version d + 1, ud_updated_at := now\<rparr>) (rs @ [r])"
  using assms by (auto simp: linear_history_def chained_append latest_def)

text \<open>Later tables extend every history and keep every draft.\<close>

definition extended :: "ws_db \<Rightarrow> ws_db \<Rightarrow> bool" where
  "extended db db' \<longleftrightarrow> (\<forall>d \<in> set (wt_drafts db). \<exists>d' \<in> set (wt_drafts db').
     ud_id d' = ud_id d \<and> (\<exists>rs. draft_history db' d' = draft_history db d @ rs))"

lemma extended_refl: "extended db db"
  by (auto simp: extended_def)

lemma extended_trans: "extended a b \<Longrightarrow> extended b c \<Longrightarrow> extended a c"
  unfolding extended_def by (metis append.assoc)

lemma same_draft:
  "distinct (map ud_id (wt_drafts db)) \<Longrightarrow> d \<in> set (wt_drafts db) \<Longrightarrow> e \<in> set (wt_drafts db) \<Longrightarrow>
     ud_id d = ud_id e \<Longrightarrow> d = e"
  by (metis distinct_map inj_onD)

text \<open>
  A revision that does not clash was appended to the history its draft was read from: whatever other
  transactions committed, none advanced the draft.
\<close>

lemma unclashed_current:
  assumes "histories_ok db" "histories_ok mid" "extended db mid" "appended db mid d r db'"
  obtains e where "e \<in> set (wt_drafts mid)" "ud_id e = ud_id d" "ud_version e = ud_version d"
    "ud_current_revision_id e = ud_current_revision_id d" "draft_history mid e = draft_history db d"
proof -
  have d: "d \<in> set (wt_drafts db)" using assms(4) by (simp add: appended_def)
  then obtain e rs where e: "e \<in> set (wt_drafts mid)" "ud_id e = ud_id d" "draft_history mid e = draft_history db d @ rs"
    using assms(3) unfolding extended_def by blast
  have lin: "linear_history d (draft_history db d)" "linear_history e (draft_history db d @ rs)"
    using assms(1,2) d e by (auto simp: histories_ok_def)
  have "rs = []"
  proof (rule ccontr)
    assume "rs \<noteq> []"
    then have "\<exists>x \<in> set (draft_history mid e). dv_revision_number x = ud_version d + 1"
      using lin e(3) chained_numbers[of None 1 "draft_history db d @ rs" "ud_version d + 1"]
      by (simp add: linear_history_def)
    then show False
      using assms(4) e(2) by (auto simp: appended_def revision_clash_def draft_history_def list_ex_iff)
  qed
  with lin e that show ?thesis by (auto simp: linear_history_def)
qed

lemma appended_history:
  assumes "histories_ok db" "histories_ok mid" "extended db mid" "appended db mid d r db'"
  shows "histories_ok db' \<and> extended mid db'"
proof -
  obtain e where e: "e \<in> set (wt_drafts mid)" "ud_id e = ud_id d" "ud_version e = ud_version d"
      "ud_current_revision_id e = ud_current_revision_id d" "draft_history mid e = draft_history db d"
    using assms by (rule unclashed_current)
  obtain now where now: "wt_drafts db' = wt_drafts (advance_draft d (dv_id r) now mid)"
    using assms(4) by (auto simp: appended_def)
  let ?f = "\<lambda>x. x\<lparr>ud_current_revision_id := Some (dv_id r), ud_version := ud_version d + 1, ud_updated_at := now\<rparr>"
  define g where "g x = (if ud_id x = ud_id d then ?f x else x)" for x :: uw_draft
  have drafts: "wt_drafts db' = map g (wt_drafts mid)"
    by (simp add: now advance_draft_def upd_row_def g_def)
  have hist: "draft_history db' x = draft_history mid x @ (if ud_id x = ud_id d then [r] else [])" for x
    using assms(4) by (simp add: draft_history_def appended_def)
  have "linear_history (g x) (draft_history mid x @ (if ud_id x = ud_id d then [r] else []))"
    if "x \<in> set (wt_drafts mid)" for x
  proof (cases "ud_id x = ud_id d")
    case True
    with e that have "x = e" using assms(2) by (auto simp: histories_ok_def intro: same_draft)
    moreover have "linear_history e (draft_history mid e)" using assms(2) e(1) by (simp add: histories_ok_def)
    ultimately show ?thesis using True e(3,4) assms(4) linear_snoc[of e _ r now] by (simp add: appended_def g_def)
  next
    case False
    with that show ?thesis using assms(2) by (simp add: histories_ok_def g_def)
  qed
  moreover have hg: "draft_history db' (g x) = draft_history mid x @ (if ud_id x = ud_id d then [r] else [])" for x
    using hist[of x] by (auto simp: draft_history_def g_def)
  ultimately have "linear_history (g x) (draft_history db' (g x))" if "x \<in> set (wt_drafts mid)" for x
    using that by simp
  moreover have "ud_id \<circ> g = ud_id" by (auto simp: g_def)
  ultimately have "histories_ok db'" using assms(2) unfolding histories_ok_def drafts by simp
  moreover have "extended mid db'"
    unfolding extended_def
  proof
    fix x assume "x \<in> set (wt_drafts mid)"
    then have "g x \<in> set (wt_drafts db')" by (simp add: drafts)
    moreover have "ud_id (g x) = ud_id x" by (simp add: g_def)
    ultimately show "\<exists>d' \<in> set (wt_drafts db'). ud_id d' = ud_id x \<and> (\<exists>rs. draft_history db' d' = draft_history mid x @ rs)"
      using hg by metis
  qed
  ultimately show ?thesis ..
qed

lemma save_checked_effect:
  assumes "save_checked env u d wid sid changes metadata (opened db) = (r, s)" "d \<in> set (wt_drafts db)"
  obtains (same) "s = opened db"
  | (interfered) "s = opened (we_others env db)"
  | (append) x e where "s = opened e" "appended db (we_others env db) d x e"
proof -
  let ?x = "new_revision env (we_others env db) u d wid sid None (we_checksum env (revision_document changes metadata)) metadata"
  have "s = opened db \<or> s = opened (we_others env db) \<or>
      (\<exists>e. s = opened e \<and> appended db (we_others env db) d ?x e)"
  proof (cases "save_new env u d wid sid changes metadata (opened db) = (r, s)")
    case True
    show ?thesis
    proof (cases "revision_clash (we_others env db) ?x")
      case True
      with \<open>save_new _ _ _ _ _ _ _ _ = _\<close> show ?thesis by (simp add: save_new_run Let_def)
    next
      case False
      with \<open>save_new _ _ _ _ _ _ _ _ = _\<close> appended_published[OF False assms(2)] show ?thesis
        by (auto simp: save_new_run Let_def)
    qed
  next
    case False
    with assms(1) show ?thesis
      by (auto simp: save_checked_def session_bind session_run split: option.splits if_splits)
  qed
  with that show ?thesis by blast
qed

lemma save_draft_effect:
  assumes "save_draft env wid expected raw metadata replace_existing u (opened db) = (r, s)"
  obtains (same) "s = opened db"
  | (interfered) "s = opened (we_others env db)"
  | (append) d x e where "s = opened e" "appended db (we_others env db) d x e"
  using assms
proof (cases rule: save_draft_cases)
  case (early e)
  with same show ?thesis by blast
next
  case (admitted ws d sp changes)
  have "d \<in> set (wt_drafts db)" using draft_found[OF admitted(2)] ..
  with admitted(5) show ?thesis using that by (cases rule: save_checked_effect) blast+
qed

lemma restore_effect:
  assumes "restore_revision env wid rid expected u (opened db) = (r, s)"
  obtains (same) "s = opened db"
  | (interfered) "s = opened (we_others env db)"
  | (append) d x e where "s = opened e" "appended db (we_others env db) d x e"
proof (cases "uw_workspace_for_user wid u True (opened db)")
  case (Pair q s1)
  show ?thesis
  proof (cases q)
    case (Inl e)
    then have "restore_revision env wid rid expected u (opened db) = (Inl e, opened db)"
      using Pair access_run(2)[OF Pair[unfolded Inl]] by (simp add: restore_revision_def sbind_raise)
    with assms have "s = opened db" by simp
    then show ?thesis by (rule same)
  next
    case (Inr ws)
    note acc = Pair[unfolded Inr access_run(1)[OF Pair[unfolded Inr]]]
    show ?thesis
    proof (cases "\<exists>d src. draft_for_workspace (uw_id ws) db = Some d \<and> get_revision rid db = Some src \<and>
        dv_draft_id src = ud_id d \<and> ud_version d = expected")
      case True
      then obtain d src where f: "draft_for_workspace (uw_id ws) db = Some d" "get_revision rid db = Some src"
          "dv_draft_id src = ud_id d" "ud_version d = expected" by blast
      let ?mid = "we_others env db"
      let ?x = "new_revision env ?mid u d (uw_id ws) (dv_snapshot_id src) (Some (dv_id src))
        (we_checksum env (restore_document src (ud_version d + 1)))
        [(''restored_from_revision_id'', JStr (dv_id src))]"
      let ?add = "\<lambda>db'. fold (copy_change env (dv_id ?x)) (revision_changes (dv_id src) db) db'"
      have run: "restore_revision env wid rid expected u (opened db) =
          (if revision_clash ?mid ?x then (Inl Integrity_error, opened ?mid)
           else (Inr \<lparr>sv_revision_id = dv_id ?x, sv_no_op = False, sv_draft_version = ud_version d + 1\<rparr>,
             opened (published ?mid ?add env u d ?x ''draft_revision_restored'')))"
        using acc f by (simp add: restore_revision_def session_bind session_run sbind_run sbind_def append_revision_run)
      show ?thesis
      proof (cases "revision_clash ?mid ?x")
        case True
        with run assms show ?thesis by (intro interfered) simp
      next
        case False
        have "d \<in> set (wt_drafts db)" using draft_found[OF f(1)] ..
        from appended_published[OF False this, of ?add] run assms False show ?thesis
          by (intro append) auto
      qed
    next
      case False
      with assms acc have "s = opened db"
        by (auto simp: restore_revision_def session_bind session_run sbind_run refuse_def
            split: option.splits if_splits)
      then show ?thesis by (rule same)
    qed
  qed
qed

text \<open>
  Runs of any number of sessions: each saves or restores, the transactions that come between its reads
  and its insertion being such runs themselves; everything else leaves the revisions and the heads of
  the drafts alone.
\<close>

inductive draft_runs :: "ws_db \<Rightarrow> ws_db \<Rightarrow> bool" where
  no_run: "draft_runs db db"
| save_run: "draft_runs a db \<Longrightarrow> draft_runs db (we_others env db) \<Longrightarrow>
    save_draft env wid expected raw metadata replace_existing u (opened db) = (r, s) \<Longrightarrow> draft_runs a (durable s)"
| restore_run: "draft_runs a db \<Longrightarrow> draft_runs db (we_others env db) \<Longrightarrow>
    restore_revision env wid rid expected u (opened db) = (r, s) \<Longrightarrow> draft_runs a (durable s)"
| other_run: "draft_runs a db \<Longrightarrow> map head_of_draft (wt_drafts db') = map head_of_draft (wt_drafts db) \<Longrightarrow>
    wt_revisions db' = wt_revisions db \<Longrightarrow> draft_runs a db'"

lemma same_heads:
  assumes "map head_of_draft (wt_drafts db') = map head_of_draft (wt_drafts db)" "wt_revisions db' = wt_revisions db"
  shows "histories_ok db \<Longrightarrow> histories_ok db'" "extended db db'"
proof -
  have ids: "map ud_id (wt_drafts db') = map ud_id (wt_drafts db)"
    using arg_cong[OF assms(1), of "map fst"] by (simp add: head_of_draft_def comp_def)
  have lin: "linear_history d rs \<longleftrightarrow> linear_history e rs" if "head_of_draft d = head_of_draft e" for d e rs
    using that by (simp add: head_of_draft_def linear_history_def)
  have hist: "draft_history db' d = draft_history db e" if "head_of_draft d = head_of_draft e" for d e
    using that assms(2) by (simp add: head_of_draft_def draft_history_def)
  have fro: "\<exists>e \<in> set (wt_drafts db). head_of_draft d = head_of_draft e" if "d \<in> set (wt_drafts db')" for d
    using that arg_cong[OF assms(1), of set] by force
  have to: "\<exists>d \<in> set (wt_drafts db'). head_of_draft d = head_of_draft e" if "e \<in> set (wt_drafts db)" for e
    using that arg_cong[OF assms(1), of set] by (metis (no_types, lifting) image_iff list.set_map)
  show "histories_ok db'" if "histories_ok db"
    unfolding histories_ok_def ids using that fro hist lin by (metis histories_ok_def)
  show "extended db db'"
    unfolding extended_def using to hist
    by (metis append_Nil2 head_of_draft_def prod.inject)
qed

lemma draft_runs_ok: "draft_runs a b \<Longrightarrow> histories_ok a \<Longrightarrow> histories_ok b \<and> extended a b"
proof (induction rule: draft_runs.induct)
  case (no_run db)
  then show ?case by (simp add: extended_refl)
next
  case (save_run a db env wid expected raw metadata replace_existing u r s)
  then have db: "histories_ok db" "extended a db" and mid: "histories_ok (we_others env db)" "extended db (we_others env db)"
    by auto
  from save_run(3) show ?case
  proof (cases rule: save_draft_effect)
    case (append d x e)
    with appended_history[OF db(1) mid append(2)] db mid show ?thesis by (auto intro: extended_trans)
  qed (use db mid in \<open>auto intro: extended_trans\<close>)
next
  case (restore_run a db env wid rid expected u r s)
  then have db: "histories_ok db" "extended a db" and mid: "histories_ok (we_others env db)" "extended db (we_others env db)"
    by auto
  from restore_run(3) show ?case
  proof (cases rule: restore_effect)
    case (append d x e)
    with appended_history[OF db(1) mid append(2)] db mid show ?thesis by (auto intro: extended_trans)
  qed (use db mid in \<open>auto intro: extended_trans\<close>)
next
  case (other_run a db db')
  then show ?case using same_heads[OF other_run(2,3)] by (blast intro: extended_trans)
qed

section \<open>Properties\<close>

text \<open>C19: However sessions interleave, saving and restoring never lose or fork a draft: in every state
  reached from fresh drafts, the revisions of a draft are numbered 1, 2, ..., its version is their
  number, each revision follows the one before it, and the draft points at the last one.\<close>

theorem draft_history_is_linear:
  assumes "draft_runs a b" and "distinct (map ud_id (wt_drafts a))" and "wt_revisions a = []"
    and "\<forall>d \<in> set (wt_drafts a). ud_version d = 0 \<and> ud_current_revision_id d = None"
    and "d \<in> set (wt_drafts b)"
  shows "ud_version d = int (length (draft_history b d)) \<and>
    map dv_revision_number (draft_history b d) = map int [1..<Suc (length (draft_history b d))] \<and>
    map dv_parent_revision_id (draft_history b d) =
      take (length (draft_history b d)) (None # map (Some \<circ> dv_id) (draft_history b d)) \<and>
    ud_current_revision_id d = latest (draft_history b d)"
proof -
  have chain: "map dv_revision_number rs = map (\<lambda>i. n + int i) [0..<length rs] \<and>
      map dv_parent_revision_id rs = take (length rs) (p # map (Some \<circ> dv_id) rs)"
    if "chained p n rs" for p n rs
    using that
  proof (induction rs arbitrary: p n)
    case (Cons r rs)
    have "map (\<lambda>i. n + int i) [0..<Suc (length rs)] = n # map (\<lambda>i. n + 1 + int i) [0..<length rs]"
      by (simp add: upt_conv_Cons map_Suc_upt[symmetric] comp_def algebra_simps del: upt_Suc)
    with Cons.IH[of "Some (dv_id r)" "n + 1"] Cons.prems show ?case by (simp del: upt_Suc)
  qed simp
  have "histories_ok a" using assms(2-4) by (auto simp: histories_ok_def linear_history_def draft_history_def latest_def)
  with assms(1,5) have "linear_history d (draft_history b d)" using draft_runs_ok by (auto simp: histories_ok_def)
  moreover have "map (\<lambda>i. 1 + int i) [0..<m] = map int [1..<Suc m]" for m
    by (simp add: map_Suc_upt[symmetric] comp_def del: upt_Suc)
  ultimately show ?thesis using chain[of None 1 "draft_history b d"] by (simp add: linear_history_def)
qed

text \<open>The tables a save reads besides the draft's own.\<close>

definition surroundings where
  "surroundings db = (wt_workspaces db, wt_snapshots db, wt_snapshot_rows db, wt_listings db,
     wt_products db, wt_caches db, wt_channels db)"

lemma published_surroundings:
  "surroundings (published db (\<lambda>db. fold (add_change env rid) cs db) env u d r event) = surroundings db"
  by (simp add: surroundings_def published_def Let_def advance_draft_def fold_keeps add_change_def)

lemma save_reads:
  assumes "surroundings a = surroundings b" "\<And>c. we_capabilities env a c = we_capabilities env b c"
  shows "uw_workspace_for_user wid u True (opened a) = (Inr ws, opened a) \<longleftrightarrow>
      uw_workspace_for_user wid u True (opened b) = (Inr ws, opened b)"
    and "snapshot_for_workspace wid a = snapshot_for_workspace wid b"
    and "merged_changes a d True cs = merged_changes b e True cs"
    and "validate_draft_changes env a sid cs = validate_draft_changes env b sid cs"
proof -
  have t: "wt_workspaces a = wt_workspaces b" "wt_snapshots a = wt_snapshots b" "wt_caches a = wt_caches b"
    using assms(1) by (simp_all add: surroundings_def)
  show "uw_workspace_for_user wid u True (opened a) = (Inr ws, opened a) \<longleftrightarrow>
      uw_workspace_for_user wid u True (opened b) = (Inr ws, opened b)"
    using t by (auto simp: uw_workspace_for_user_def session_bind session_run refuse_def split: option.splits)
  show "snapshot_for_workspace wid a = snapshot_for_workspace wid b"
    using t by (simp add: snapshot_for_workspace_def)
  have "merge_change a = merge_change b" by (intro ext) (simp add: merge_change_def unchanged_def get_cache_def t)
  then show "merged_changes a d True cs = merged_changes b e True cs"
    by (simp add: merged_changes_def base_changes_def split: option.split)
  have "validate_change env a sid c = validate_change env b sid c" for c
    using assms by (simp add: surroundings_def validate_change_def get_listing_def get_product_def
        in_snapshot_def channel_available_def get_channel_def cong: option.case_cong prod.case_cong)
  then show "validate_draft_changes env a sid cs = validate_draft_changes env b sid cs"
    by (induction cs) simp_all
qed

lemma advanced_draft:
  assumes "draft_for_workspace wid db = Some d"
  shows "draft_for_workspace wid (published db (\<lambda>db. fold (add_change env rid) cs db) env u d r event) =
    Some (d\<lparr>ud_current_revision_id := Some (dv_id r), ud_version := ud_version d + 1,
      ud_updated_at := we_now env (fold (add_change env rid) cs (db\<lparr>wt_revisions := wt_revisions db @ [r]\<rparr>))\<rparr>)"
proof -
  have "find P (map g xs) = map_option g (find P xs)" if "\<And>x. P (g x) = P x" for P :: "uw_draft \<Rightarrow> bool" and g xs
    using that by (induction xs) auto
  with assms show ?thesis
    by (simp add: draft_for_workspace_def published_def Let_def advance_draft_def upd_row_def)
qed

text \<open>A save that appended a revision, without interference.\<close>

lemma save_appended:
  assumes "save_draft env wid expected raw metadata True u (opened db) = (Inr x, s)" "\<not> sv_no_op x"
    and "we_others env db = db"
  obtains ws d sp changes r e where
    "uw_workspace_for_user wid u True (opened db) = (Inr ws, opened db)"
    "draft_for_workspace (uw_id ws) db = Some d" "snapshot_for_workspace (uw_id ws) db = Some sp"
    "save_admitted env db d sp expected raw True changes"
    "r = new_revision env db u d (uw_id ws) (sp_id sp) None (we_checksum env (revision_document changes metadata)) metadata"
    "\<not> revision_clash db r" "s = opened e"
    "e = published db (\<lambda>db. fold (add_change env (dv_id r)) changes db) env u d r ''draft_revision_saved''"
  using assms(1)
proof (cases rule: save_draft_cases)
  case (early e)
  then show ?thesis by simp
next
  case (admitted ws d sp changes)
  have "save_new env u d (uw_id ws) (sp_id sp) changes metadata (opened db) = (Inr x, s)"
    using admitted(5) assms(2) by (auto simp: save_checked_def session_bind session_run split: option.splits if_splits)
  with admitted that assms(3) show ?thesis by (auto simp: save_new_run Let_def split: if_splits)
qed


section \<open>Witnesses\<close>

definition demo_digest :: "json \<Rightarrow> string" where
  "demo_digest v = (case v of
     JObj ((_, JList (JObj fs # _)) # _) \<Rightarrow> (case jget ''target_value'' fs of JStr t \<Rightarrow> t | _ \<Rightarrow> [])
   | _ \<Rightarrow> ''-'')"

definition demo_capabilities :: capabilities where
  "demo_capabilities = \<lparr>ca_channel_id = ''c'', ca_write_price = True, ca_write_stock = True,
     ca_write_status = True, ca_write_available = True, ca_requires_stock_management = False,
     ca_supported_statuses = [''instock''], ca_currency = ''IRR'', ca_unit = ''RIAL'', ca_version = ''1''\<rparr>"

definition demo_ws_env :: ws_env where
  "demo_ws_env = \<lparr>we_checksum = demo_digest, we_dumps = demo_digest,
     we_py = \<lparr>repr_of = (\<lambda>_. []), float_of_string = (\<lambda>_. None)\<rparr>, we_fixed_float = (\<lambda>_. []), we_now = (\<lambda>_. 0),
     we_id = (\<lambda>db. concat (map dv_id (wt_revisions db)) @ ''x''),
     we_capabilities = (\<lambda>_ _. Some demo_capabilities), we_bind_pricing = (\<lambda>_ _ _. (JNull, [])),
     we_verify_pricing = (\<lambda>_ _ _. []), we_cache_max_age = (\<lambda>_. None), we_verify_updates = (\<lambda>_ _. None),
     we_source = (\<lambda>_ _. \<lparr>ss_binding_version = None, ss_source_version = (\<lambda>_. None), ss_mapping = (\<lambda>_. None), ss_sheet = (\<lambda>_. None)\<rparr>),
     we_others = (\<lambda>db. db)\<rparr>"

definition demo_owner :: flowhub_user where
  "demo_owner = \<lparr>us_id = 1, us_username = ''o'', us_role = ''owner''\<rparr>"

definition demo_ws_db :: ws_db where
  "demo_ws_db = \<lparr>wt_workspaces = [\<lparr>uw_id = ''w'', uw_owner_user_id = 1, uw_entry_point = ''manual''\<rparr>],
     wt_snapshots = [\<lparr>sp_id = ''s'', sp_workspace_id = ''w'', sp_content_checksum = ''k'',
       sp_currency_profile_id = ''f'', sp_source_metadata = []\<rparr>],
     wt_snapshot_rows = [\<lparr>sr_snapshot_id = ''s'', sr_listing_id = Some ''l''\<rparr>],
     wt_drafts = [\<lparr>ud_id = ''d'', ud_workspace_id = ''w'', ud_current_revision_id = None, ud_version = 0,
       ud_status = ''draft'', ud_updated_at = 0\<rparr>],
     wt_revisions = [], wt_changes = [],
     wt_listings = [\<lparr>ul_id = ''l'', ul_canonical_product_id = ''p'', ul_channel_id = ''c'',
       ul_external_primary_id = ''7'', ul_sku = ''k'', ul_enabled = True, ul_mapping_state = ''resolved'',
       ul_mapping_version = 1\<rparr>],
     wt_products = [\<lparr>cp_id = ''p'', cp_product_type = ''simple'', cp_parent_id = None\<rparr>],
     wt_caches = [\<lparr>uc_listing_id = ''l'', uc_price_raw = Some ''100'', uc_price_currency = Some ''IRR'',
       uc_price_unit = Some ''RIAL'', uc_stock_text = Some ''3'', uc_status = Some ''instock'',
       uc_manage_stock = Some True, uc_cache_version = 1, uc_checksum = ''h'', uc_freshness = ''fresh'',
       uc_fetch_status = ''success'', uc_fetched_at = 0\<rparr>],
     wt_channels = [\<lparr>wc_id = ''c'', wc_enabled = True, wc_implementation_state = ''implemented''\<rparr>],
     wt_currency_profiles = [], wt_reviews = [], wt_review_items = [], wt_issues = [], wt_cache_versions = [],
     wt_selections = [], wt_dry_runs = [], wt_dry_run_scopes = [], wt_manifests = [],
     wt_manifest_operations = [], wt_visible_channels = [], wt_audit_log = []\<rparr>"

definition demo_price :: "string \<Rightarrow> draft_change" where
  "demo_price t = \<lparr>dg_product_id = ''p'', dg_listing_id = ''l'', dg_channel_id = ''c'', dg_field = ''price'',
     dg_target = t, dg_currency = Some ''IRR'', dg_unit = Some ''rial''\<rparr>"

lemma demo_changes:
  assumes "t \<in> {''1,100'', ''120''}"
  shows "check_change (demo_price t) = Inr (demo_price t)"
    "merged_changes demo_ws_db d True [demo_price t] = [demo_price t]"
    "validate_draft_changes demo_ws_env demo_ws_db ''s'' [demo_price t] = Inr ()"
    "demo_digest (revision_document [demo_price t] []) = t"
proof -
  have "check_change (demo_price ''1,100'') = Inr (demo_price ''1,100'')"
    "check_change (demo_price ''120'') = Inr (demo_price ''120'')" by code_simp+
  then show "check_change (demo_price t) = Inr (demo_price t)" using assms by blast
  have "\<not> unchanged demo_ws_db (demo_price ''1,100'')" "\<not> unchanged demo_ws_db (demo_price ''120'')" by code_simp+
  then have "\<not> unchanged demo_ws_db (demo_price t)" using assms by blast
  then show "merged_changes demo_ws_db d True [demo_price t] = [demo_price t]"
    by (simp add: merged_changes_def base_changes_def merge_change_def split: option.split)
  have "validate_draft_changes demo_ws_env demo_ws_db ''s'' [demo_price ''1,100''] = Inr ()"
    "validate_draft_changes demo_ws_env demo_ws_db ''s'' [demo_price ''120''] = Inr ()" by code_simp+
  then show "validate_draft_changes demo_ws_env demo_ws_db ''s'' [demo_price t] = Inr ()" using assms by blast
  have "demo_digest (revision_document [demo_price ''1,100''] []) = ''1,100''"
    "demo_digest (revision_document [demo_price ''120''] []) = ''120''" by code_simp+
  then show "demo_digest (revision_document [demo_price t] []) = t" using assms by blast
qed

lemma demo_access:
  "uw_workspace_for_user ''w'' demo_owner True (opened demo_ws_db) = (Inr (hd (wt_workspaces demo_ws_db)), opened demo_ws_db)"
  by code_simp

definition demo_revision :: "ws_db \<Rightarrow> uw_draft \<Rightarrow> string \<Rightarrow> draft_revision" where
  "demo_revision db d t = new_revision demo_ws_env db demo_owner d ''w'' ''s'' None t []"

definition demo_saved :: "ws_db \<Rightarrow> uw_draft \<Rightarrow> string \<Rightarrow> ws_db" where
  "demo_saved db d t = published db (\<lambda>db'. fold (add_change demo_ws_env (dv_id (demo_revision db d t))) [demo_price t] db')
     demo_ws_env demo_owner d (demo_revision db d t) ''draft_revision_saved''"

lemma demo_save:
  assumes "t \<in> {''1,100'', ''120''}" "surroundings db = surroundings demo_ws_db"
    and "draft_for_workspace ''w'' db = Some d"
    and "\<not> revision_clash db (demo_revision db d t)"
    and "\<And>c. current_revision d db = Some c \<Longrightarrow> dv_checksum c \<noteq> t"
  shows "save_draft demo_ws_env ''w'' (ud_version d) [demo_price t] [] True demo_owner (opened db) =
    (Inr \<lparr>sv_revision_id = dv_id (demo_revision db d t), sv_no_op = False, sv_draft_version = ud_version d + 1\<rparr>,
     opened (demo_saved db d t))"
proof -
  have cap: "we_capabilities demo_ws_env db c = we_capabilities demo_ws_env demo_ws_db c" for c
    by (simp add: demo_ws_env_def)
  note reads = save_reads[OF assms(2) cap]
  let ?ws = "hd (wt_workspaces demo_ws_db)" and ?sp = "hd (wt_snapshots demo_ws_db)"
  have id: "uw_id ?ws = ''w''" "sp_id ?sp = ''s''" by (simp_all add: demo_ws_db_def)
  have snap: "snapshot_for_workspace ''w'' db = Some ?sp"
    by (simp add: reads(2)) (simp add: snapshot_for_workspace_def demo_ws_db_def)
  have "save_admitted demo_ws_env db d ?sp (ud_version d) [demo_price t] True [demo_price t]"
    unfolding save_admitted_def using demo_changes[OF assms(1)] id
    by (simp add: reads(3)[of d _ d] reads(4) MAX_DRAFT_CHANGES_def exI[of _ "[demo_price t]"]
        del: validate_draft_changes.simps)
  then have "save_draft demo_ws_env ''w'' (ud_version d) [demo_price t] [] True demo_owner (opened db) =
      save_checked demo_ws_env demo_owner d ''w'' ''s'' [demo_price t] [] (opened db)"
    using save_draft_admitted[of "''w''" demo_owner db ?ws] reads(1) demo_access assms(3) snap id by fastforce
  moreover have "we_checksum demo_ws_env = demo_digest" "we_others demo_ws_env = (\<lambda>db. db)"
    by (simp_all add: demo_ws_env_def)
  ultimately show ?thesis using assms(4,5) demo_changes(4)[OF assms(1)]
    by (auto simp: save_checked_def session_bind session_run save_new_run Let_def demo_saved_def
        demo_revision_def split: option.split)
qed

definition demo_draft :: uw_draft where
  "demo_draft = hd (wt_drafts demo_ws_db)"

lemma demo_others: "we_others demo_ws_env db = db"
  by (simp add: demo_ws_env_def)

lemma demo_fields:
  "wt_revisions demo_ws_db = []" "ud_id demo_draft = ''d''" "ud_version demo_draft = 0"
  "ud_current_revision_id demo_draft = None"
  "draft_for_workspace ''w'' demo_ws_db = Some demo_draft"
  by (simp_all add: demo_draft_def draft_for_workspace_def demo_ws_db_def)

lemma demo_revision_fields:
  "dv_id (demo_revision db d t) = concat (map dv_id (wt_revisions db)) @ ''x''"
  "dv_draft_id (demo_revision db d t) = ud_id d" "dv_checksum (demo_revision db d t) = t"
  "dv_revision_number (demo_revision db d t) = ud_version d + 1"
  by (simp_all add: demo_revision_def new_revision_def demo_ws_env_def)

lemma demo_saved_revisions:
  "wt_revisions (demo_saved db d t) = wt_revisions db @ [demo_revision db d t]"
  by (simp add: demo_saved_def published_def Let_def advance_draft_def add_change_def)

definition demo_e1 :: ws_db where
  "demo_e1 = demo_saved demo_ws_db demo_draft ''1,100''"

definition demo_draft1 :: uw_draft where
  "demo_draft1 = the (draft_for_workspace ''w'' demo_e1)"

definition demo_e2 :: ws_db where
  "demo_e2 = demo_saved demo_e1 demo_draft1 ''120''"

lemma demo_first:
  "save_draft demo_ws_env ''w'' 0 [demo_price ''1,100''] [] True demo_owner (opened demo_ws_db) =
    (Inr \<lparr>sv_revision_id = ''x'', sv_no_op = False, sv_draft_version = 1\<rparr>, opened demo_e1)"
  using demo_save[OF _ refl demo_fields(5), of "''1,100''"]
  by (simp add: demo_e1_def revision_clash_def current_revision_def demo_fields demo_revision_fields)

lemma demo_draft1:
  obtains t where "draft_for_workspace ''w'' demo_e1 = Some demo_draft1"
    "demo_draft1 = demo_draft\<lparr>ud_current_revision_id := Some ''x'', ud_version := 1, ud_updated_at := t\<rparr>"
proof -
  show ?thesis
    using that advanced_draft[OF demo_fields(5), where env = demo_ws_env and u = demo_owner and cs = "[demo_price ''1,100'']"
        and rid = "dv_id (demo_revision demo_ws_db demo_draft ''1,100'')" and r = "demo_revision demo_ws_db demo_draft ''1,100''"
        and event = "''draft_revision_saved''"]
    by (simp add: demo_draft1_def demo_e1_def demo_saved_def demo_fields demo_revision_fields)
qed

lemma demo_second:
  "save_draft demo_ws_env ''w'' 1 [demo_price ''120''] [] True demo_owner (opened demo_e1) =
    (Inr \<lparr>sv_revision_id = ''xx'', sv_no_op = False, sv_draft_version = 2\<rparr>, opened demo_e2)"
proof -
  have sur: "surroundings demo_e1 = surroundings demo_ws_db"
    by (simp only: demo_e1_def demo_saved_def published_surroundings)
  obtain t where d: "draft_for_workspace ''w'' demo_e1 = Some demo_draft1"
      "demo_draft1 = demo_draft\<lparr>ud_current_revision_id := Some ''x'', ud_version := 1, ud_updated_at := t\<rparr>"
    by (rule demo_draft1)
  have revs: "wt_revisions demo_e1 = [demo_revision demo_ws_db demo_draft ''1,100'']"
    by (simp add: demo_e1_def demo_saved_revisions demo_fields)
  have "dv_id (demo_revision demo_e1 demo_draft1 ''120'') = ''xx''"
    by (simp add: revs demo_revision_fields demo_fields)
  moreover have "\<not> revision_clash demo_e1 (demo_revision demo_e1 demo_draft1 ''120'')"
    by (simp add: revision_clash_def revs demo_revision_fields demo_fields d(2))
  moreover have "dv_checksum c \<noteq> ''120''" if "current_revision demo_draft1 demo_e1 = Some c" for c
    using that
    by (auto simp: d(2) revs current_revision_def get_revision_def get_row_def demo_revision_fields split: if_splits)
  moreover have "ud_version demo_draft1 = 1" by (simp add: d(2))
  ultimately show ?thesis using demo_save[OF _ sur d(1), of "''120''"] by (simp add: demo_e2_def)
qed

lemma demo_ids_fresh: "r \<in> set (wt_revisions db) \<Longrightarrow> dv_id r \<noteq> we_id demo_ws_env db"
proof
  assume "r \<in> set (wt_revisions db)" "dv_id r = we_id demo_ws_env db"
  then have "length (dv_id r) = Suc (length (concat (map dv_id (wt_revisions db))))"
    by (simp add: demo_ws_env_def)
  moreover have "length (dv_id r) \<le> length (concat (map dv_id (wt_revisions db)))"
    using \<open>r \<in> set (wt_revisions db)\<close> by (simp add: length_concat member_le_sum_list)
  ultimately show False by simp
qed


theorem draft_history_is_linear_witness:
  "ud_version demo_draft1 = int (length (draft_history demo_e1 demo_draft1))"
proof -
  have "draft_runs demo_ws_db (durable (opened demo_e1))"
    by (rule save_run[OF no_run _ demo_first]) (simp add: demo_ws_env_def no_run)
  moreover have "demo_draft1 \<in> set (wt_drafts demo_e1)"
    using demo_draft1 draft_found by metis
  ultimately show ?thesis
    using draft_history_is_linear[of demo_ws_db demo_e1 demo_draft1] by (simp add: demo_ws_db_def)
qed

end
