(* ===== verification/CanonicalJson.thy ===== *)
theory CanonicalJson
  imports Json
begin

text \<open>
  The text a checksum is taken of (\<^verbatim>\<open>stable_json\<close> of \<^verbatim>\<open>unified_workspace/domain.py\<close>): the keys of
  every object are sorted, so two dictionaries that differ only in their order have one checksum.
  A checksum is free of collisions when it tells apart everything else; an executable code of JSON
  values gives one, for the witnesses.
\<close>

section \<open>Sorted keys\<close>

fun sorted_keys :: "json \<Rightarrow> json" where
  "sorted_keys (JObj d) = JObj (sort_key fst (map (\<lambda>(k, v). (k, sorted_keys v)) d))"
| "sorted_keys (JList xs) = JList (map sorted_keys xs)"
| "sorted_keys v = v"

definition collision_free :: "(json \<Rightarrow> string) \<Rightarrow> bool" where
  "collision_free digest \<longleftrightarrow> (\<forall>v w. digest v = digest w \<longleftrightarrow> sorted_keys v = sorted_keys w)"

lemma collision_freeD: "collision_free digest \<Longrightarrow> digest v = digest w \<longleftrightarrow> sorted_keys v = sorted_keys w"
  by (simp add: collision_free_def)

lemma map_of_filter: "map_of xs k = map_option snd (find (\<lambda>p. fst p = k) xs)"
  by (induction xs) auto

lemma find_filter: "find P xs = (case filter P xs of [] \<Rightarrow> None | x # _ \<Rightarrow> Some x)"
  by (induction xs) auto

lemma map_of_sort_key: "map_of (sort_key fst xs) k = map_of (xs :: (string \<times> 'v) list) k"
  by (simp only: map_of_filter find_filter sort_key_stable)

lemma sorted_keys_lookup:
  assumes "sorted_keys (JObj d) = sorted_keys (JObj e)"
  shows "sorted_keys (jget k d) = sorted_keys (jget k e)" "map_of d k = None \<longleftrightarrow> map_of e k = None"
proof -
  have m: "map_of (map (\<lambda>(k, v). (k, sorted_keys v)) d) = map_of (map (\<lambda>(k, v). (k, sorted_keys v)) e)"
    using assms map_of_sort_key[of "map (\<lambda>(k, v). (k, sorted_keys v)) d"]
      map_of_sort_key[of "map (\<lambda>(k, v). (k, sorted_keys v)) e"] by (intro ext) simp
  have "map_option sorted_keys (map_of d k) = map_option sorted_keys (map_of e k)" for k
    using fun_cong[OF m, of k] by (simp add: map_of_map)
  from this[of k] show "sorted_keys (jget k d) = sorted_keys (jget k e)" "map_of d k = None \<longleftrightarrow> map_of e k = None"
    by (auto simp: jget_def split: option.splits)
qed

section \<open>A code of JSON values\<close>

definition text_code :: "string \<Rightarrow> string" where
  "text_code s = show_nat (length s) @ '':'' @ s"

fun json_code :: "json \<Rightarrow> string" where
  "json_code JNull = ''n''"
| "json_code (JBool b) = (if b then ''t'' else ''f'')"
| "json_code (JInt i) = ''i'' @ text_code (show_int i)"
| "json_code (JNum r) = ''r'' @ text_code (show_int (fst (quotient_of r))) @ text_code (show_int (snd (quotient_of r)))"
| "json_code (JStr s) = ''s'' @ text_code s"
| "json_code (JList xs) = ''l'' @ text_code (concat (map (\<lambda>v. text_code (json_code v)) xs))"
| "json_code (JObj d) = ''o'' @ text_code (concat (map (\<lambda>(k, v). text_code k @ text_code (json_code v)) d))"

text \<open>Two letters a character, as in a hexadecimal digest.\<close>

definition hex_char :: "char \<Rightarrow> string" where
  "hex_char c = (let n = of_char c :: nat in [char_of (64 + n div 16), char_of (64 + n mod 16)])"

definition hex_text :: "string \<Rightarrow> string" where
  "hex_text s = concat (map hex_char s)"

definition json_digest :: "json \<Rightarrow> string" where
  "json_digest v = hex_text (json_code (sorted_keys v))"

lemma show_nat_digits: "list_all is_digit (show_nat n)"
  by (simp add: show_nat_def show_int_def show_digits_digits)

lemma text_code_inject: "text_code s @ a = text_code t @ b \<longleftrightarrow> s = t \<and> a = b"
proof
  have colon: "takeWhile is_digit (show_nat n @ CHR '':'' # r) = show_nat n" for n r
    using show_nat_digits[of n] by (simp add: list_all_iff takeWhile_append2 is_digit_def)
  assume *: "text_code s @ a = text_code t @ b"
  then have "show_nat (length s) = show_nat (length t)"
    using colon[of "length s" "s @ a"] colon[of "length t" "t @ b"] by (simp add: text_code_def)
  with * show "s = t \<and> a = b" by (simp add: text_code_def)
qed simp

lemma text_codes_inject: "text_code s = text_code t \<longleftrightarrow> s = t"
  using text_code_inject[of s "[]" t "[]"] by simp

lemma text_code_nonempty [simp]: "text_code s \<noteq> []"
  by (simp add: text_code_def)

lemma list_code_inject:
  assumes "\<And>x y. x \<in> set xs \<Longrightarrow> f x = f y \<Longrightarrow> x = y" "concat (map (\<lambda>v. text_code (f v)) xs) = concat (map (\<lambda>v. text_code (f v)) ys)"
  shows "xs = ys"
  using assms
proof (induction xs arbitrary: ys)
  case Nil
  from Nil(2) show ?case by (cases ys) auto
next
  case (Cons x xs)
  from Cons.prems(2) obtain y zs where y: "ys = y # zs" by (cases ys) auto
  with Cons.prems(2) have "f x = f y" "concat (map (\<lambda>v. text_code (f v)) xs) = concat (map (\<lambda>v. text_code (f v)) zs)"
    by (auto simp: text_code_inject)
  with Cons y show ?case by auto
qed

lemma object_code_inject:
  assumes "\<And>x y. x \<in> set (map snd xs) \<Longrightarrow> f x = f y \<Longrightarrow> x = y"
    "concat (map (\<lambda>(k, v). text_code k @ text_code (f v)) xs) = concat (map (\<lambda>(k, v). text_code k @ text_code (f v)) ys)"
  shows "xs = (ys :: (string \<times> json) list)"
  using assms
proof (induction xs arbitrary: ys)
  case Nil
  from Nil(2) show ?case by (cases ys) (auto split: prod.splits)
next
  case (Cons x xs)
  from Cons.prems(2) obtain y zs where y: "ys = y # zs" by (cases ys) (auto split: prod.splits)
  obtain k v k' v' where kv: "x = (k, v)" "y = (k', v')" by fastforce
  let ?c = "\<lambda>ps. concat (map (\<lambda>(k, v). text_code k @ text_code (f v)) ps)"
  have "text_code k @ text_code (f v) @ ?c xs = text_code k' @ text_code (f v') @ ?c zs"
    using Cons.prems(2) by (simp add: y kv)
  then have e: "k = k'" "f v = f v'" "?c xs = ?c zs" by (simp_all only: text_code_inject)
  have "v = v'" using Cons.prems(1)[of v v'] e(2) by (simp add: kv)
  moreover have "xs = zs"
  proof (rule Cons.IH)
    show "a = b" if "a \<in> set (map snd xs)" "f a = f b" for a b
      using that(1) by (intro Cons.prems(1)[OF _ that(2)]) simp
  qed (rule e(3))
  ultimately show ?case using e(1) by (simp add: y kv)
qed

lemma json_code_inject: "json_code v = json_code w \<Longrightarrow> v = w"
proof (induction v arbitrary: w rule: json_code.induct)
  case (4 r)
  then have "\<exists>q. w = JNum q \<and> quotient_of r = quotient_of q"
    by (cases w) (auto simp: text_code_inject text_codes_inject prod_eq_iff split: if_splits)
  then show ?case by (auto dest: quotient_of_inject)
next
  case (6 xs)
  then obtain ys where "w = JList ys"
      "concat (map (\<lambda>v. text_code (json_code v)) xs) = concat (map (\<lambda>v. text_code (json_code v)) ys)"
    by (cases w) (auto simp: text_codes_inject split: if_splits)
  then show ?case using 6(1) list_code_inject[of xs json_code ys] by blast
next
  case (7 d)
  then obtain e where w: "w = JObj e"
      "concat (map (\<lambda>(k, v). text_code k @ text_code (json_code v)) d) =
       concat (map (\<lambda>(k, v). text_code k @ text_code (json_code v)) e)"
    by (cases w) (auto simp: text_codes_inject split: if_splits)
  have "x = y" if "x \<in> set (map snd d)" "json_code x = json_code y" for x y
    using that 7(1) by fastforce
  with object_code_inject[OF _ w(2)] w(1) show ?case by blast
qed (case_tac w, auto simp: text_codes_inject split: if_splits)+

lemma hex_digit: "n < 16 \<Longrightarrow> of_char (char_of (64 + n) :: char) = 64 + n" for n :: nat
  by simp

lemma hex_char_inject: "hex_char c = hex_char d \<longleftrightarrow> c = d"
proof
  let ?n = "\<lambda>c. of_char c :: nat"
  have small: "?n c < 256" for c by simp
  assume "hex_char c = hex_char d"
  then have "?n (char_of (64 + ?n c div 16)) = ?n (char_of (64 + ?n d div 16))"
    "?n (char_of (64 + ?n c mod 16)) = ?n (char_of (64 + ?n d mod 16))"
    by (simp_all add: hex_char_def Let_def)
  then have "?n c div 16 = ?n d div 16" "?n c mod 16 = ?n d mod 16"
    using small[of c] small[of d] by (simp_all add: hex_digit)
  then have "?n c = ?n d" by (metis div_mult_mod_eq)
  then show "c = d" by simp
qed simp

lemma hex_text_inject: "hex_text s = hex_text t \<longleftrightarrow> s = t"
proof
  show "hex_text s = hex_text t \<Longrightarrow> s = t"
  proof (induction s arbitrary: t)
    case Nil
    then show ?case by (cases t) (simp_all add: hex_text_def hex_char_def Let_def)
  next
    case (Cons c s)
    then obtain d t' where t: "t = d # t'" by (cases t) (simp_all add: hex_text_def hex_char_def Let_def)
    from Cons.prems have "hex_char c = hex_char d" "hex_text s = hex_text t'"
      by (simp_all add: t hex_text_def hex_char_def Let_def)
    with Cons.IH show ?case by (simp add: t hex_char_inject)
  qed
qed simp

lemma json_digest_collision_free: "collision_free json_digest"
  using json_code_inject by (auto simp: collision_free_def json_digest_def hex_text_inject)

lemma json_digest_text: "json_digest v \<noteq> []" "c \<in> set (json_digest v) \<Longrightarrow> \<not> is_space c"
proof -
  have "json_code w \<noteq> []" for w by (cases w) auto
  then show "json_digest v \<noteq> []" by (cases "json_code (sorted_keys v)") (simp_all add: json_digest_def hex_text_def hex_char_def Let_def)
  have "\<not> is_space (char_of (64 + n))" if "n < 16" for n :: nat
  proof -
    have "of_char (char_of (64 + n) :: char) = int (64 + n)" using hex_digit[OF that] by (metis of_nat_of_char)
    then show ?thesis by (simp add: is_space_def)
  qed
  moreover assume "c \<in> set (json_digest v)"
  ultimately show "\<not> is_space c"
    using nat_of_char_less_256 by (auto simp: json_digest_def hex_text_def hex_char_def Let_def less_mult_imp_div_less)
qed

end
