(* ===== verification/Reviews.thy ===== *)
theory Reviews
  imports Drafts CanonicalJson
begin

text \<open>
  Reviews (\<^verbatim>\<open>generate_review\<close>, \<^verbatim>\<open>select_review_items\<close>, \<^verbatim>\<open>_assert_review_fresh\<close> and
  \<^verbatim>\<open>_assert_source_evidence_current\<close> of \<^verbatim>\<open>unified_workspace/services.py\<close>): the changes of a revision
  are checked against the state of the Channels, the versions they were checked against are recorded,
  and the operator selects eligible items. A review is fresh as long as what it recorded is current.
  What the pricing service binds and verifies is a parameter; the change classification stored for
  display is left out.
\<close>

section \<open>Money\<close>

definition VALIDATION_VERSION :: string where "VALIDATION_VERSION = ''uw-validation-1''"

definition CURRENCY_RULESET_VERSION :: string where "CURRENCY_RULESET_VERSION = ''uw-currency-1''"

record money =
  mo_raw_amount :: string
  mo_currency :: string
  mo_unit :: string
  mo_normalized_amount :: decimal
  mo_normalized_currency :: string
  mo_normalized_unit :: string
  mo_conversion_factor :: decimal
  mo_conversion_rule :: string
  mo_conversion_context :: string
  mo_configuration_reference :: string

text \<open>\<^verbatim>\<open>Money.create\<close>; the original currency and unit are the currency and unit.\<close>

definition money_create ::
    "string \<Rightarrow> string \<Rightarrow> string \<Rightarrow> string \<Rightarrow> string \<Rightarrow> string \<Rightarrow> string \<Rightarrow> string \<Rightarrow> string \<Rightarrow> string + money" where
  "money_create raw currency unit ncurrency nunit factor rule context reference =
     (let ct = (\<lambda>t. canonical_text (Some t)); cur = py_upper (ct currency); un = py_upper (ct unit) in
      if cur = [] \<or> un = [] then Inl ''Currency and unit must be explicit.''
      else if cur = ''TMN'' \<or> cur = ''TOMAN'' then Inl ''Toman is a unit, not an ISO currency code.''
      else (case (cell_decimal (Some raw), decimal_of (ct factor)) of
          (Some amount, Some fac) \<Rightarrow>
            (case (amount, fac) of
               (Finite a, Finite f) \<Rightarrow>
                 if dec_value f \<le> 0
                 then Inl ''Money values must be finite and conversion factor must be positive.''
                 else Inr \<lparr>mo_raw_amount = ct raw, mo_currency = cur, mo_unit = un,
                   mo_normalized_amount = dec_mult a f, mo_normalized_currency = py_upper (ct ncurrency),
                   mo_normalized_unit = py_upper (ct nunit), mo_conversion_factor = f,
                   mo_conversion_rule = ct rule, mo_conversion_context = ct context,
                   mo_configuration_reference = ct reference\<rparr>
             | _ \<Rightarrow> Inl ''Money values must be finite and conversion factor must be positive.'')
        | _ \<Rightarrow> Inl ''Money amount and conversion factor must be numeric.''))"

definition money_dict :: "money \<Rightarrow> json_dict" where
  "money_dict m = [(''raw_amount'', JStr (mo_raw_amount m)), (''currency'', JStr (mo_currency m)),
     (''unit'', JStr (mo_unit m)), (''original_currency'', JStr (mo_currency m)),
     (''original_unit'', JStr (mo_unit m)), (''normalized_amount'', JStr (dec_str (mo_normalized_amount m))),
     (''normalized_currency'', JStr (mo_normalized_currency m)), (''normalized_unit'', JStr (mo_normalized_unit m)),
     (''conversion_factor'', JStr (dec_str (mo_conversion_factor m))),
     (''conversion_rule'', JStr (mo_conversion_rule m)), (''conversion_context'', JStr (mo_conversion_context m)),
     (''configuration_reference'', JStr (mo_configuration_reference m))]"

definition channel_money :: "string \<Rightarrow> capabilities \<Rightarrow> string + money" where
  "channel_money target k = money_create target (ca_currency k) (ca_unit k) (ca_currency k)
     (if ca_currency k = ''IRR'' then ''RIAL'' else ca_unit k)
     (if ca_currency k = ''IRR'' \<and> py_upper (ca_unit k) = ''TOMAN'' then ''10'' else ''1'')
     ''explicit-channel-unit-v1'' VALIDATION_VERSION (ca_channel_id k @ '':'' @ ca_version k)"

definition normalized_target :: "draft_change \<Rightarrow> capabilities \<Rightarrow> string + json_dict" where
  "normalized_target c k = (if dg_field c = ''price''
     then rbind (channel_money (dg_target c) k) (\<lambda>m. Inr (money_dict m))
     else Inr [(''raw_value'', JStr (dg_target c)), (''field'', JStr (dg_field c))])"

section \<open>What a review records\<close>

definition capability_version :: "ws_env \<Rightarrow> ws_db \<Rightarrow> string \<Rightarrow> string" where
  "capability_version env db cid =
     (case we_capabilities env db cid of Some k \<Rightarrow> ca_version k | None \<Rightarrow> ''unavailable'')"

definition mapping_entry :: "uw_listing \<Rightarrow> json" where
  "mapping_entry l = JObj [(''listing'', JStr (ul_id l)), (''channel'', JStr (ul_channel_id l)),
     (''version'', JInt (ul_mapping_version l)), (''state'', JStr (ul_mapping_state l)),
     (''enabled'', JBool (ul_enabled l))]"

definition capability_entry :: "ws_env \<Rightarrow> ws_db \<Rightarrow> string \<Rightarrow> json" where
  "capability_entry env db cid = JObj [(''channel'', JStr cid),
     (''version'', JStr (capability_version env db cid)),
     (''enabled'', JBool (case get_channel cid db of Some c \<Rightarrow> wc_enabled c | None \<Rightarrow> False)),
     (''implementation_state'', JStr (case get_channel cid db of Some c \<Rightarrow> wc_implementation_state c | None \<Rightarrow> ''missing''))]"

definition currency_entry :: "ws_env \<Rightarrow> ws_db \<Rightarrow> string \<Rightarrow> json" where
  "currency_entry env db cid = JObj [(''channel'', JStr cid),
     (''currency'', JStr (case we_capabilities env db cid of Some k \<Rightarrow> ca_currency k | None \<Rightarrow> [])),
     (''unit'', JStr (case we_capabilities env db cid of Some k \<Rightarrow> ca_unit k | None \<Rightarrow> []))]"

definition cache_entry :: "uw_cache \<Rightarrow> json" where
  "cache_entry k = JObj [(''listing'', JStr (uc_listing_id k)), (''version'', JInt (uc_cache_version k)),
     (''checksum'', JStr (uc_checksum k))]"

text \<open>\<^verbatim>\<open>_unique_dicts\<close>: one entry per text, in the order of the texts.\<close>

definition unique_entries :: "ws_env \<Rightarrow> json list \<Rightarrow> json list" where
  "unique_entries env items = map snd (sort_key fst (fold (\<lambda>v. AList.update (we_dumps env v) v) items []))"

definition entries_digest :: "ws_env \<Rightarrow> json list \<Rightarrow> string" where
  "entries_digest env items = we_checksum env (JList (unique_entries env items))"

definition entry_text :: "string \<Rightarrow> json \<Rightarrow> string" where
  "entry_text k e = (case e of JObj d \<Rightarrow> (case jget k d of JStr t \<Rightarrow> t | _ \<Rightarrow> []) | _ \<Rightarrow> [])"

definition currency_reference :: "json \<Rightarrow> string" where
  "currency_reference e = entry_text ''channel'' e @ '':'' @ entry_text ''currency'' e @ '':'' @ entry_text ''unit'' e"

definition profile_reference :: "currency_profile \<Rightarrow> string" where
  "profile_reference p = cu_scope p @ '':'' @ cu_scope_reference p"

section \<open>Checking one change\<close>

record prepared_item =
  pi_change :: revision_change
  pi_listing :: "uw_listing option"
  pi_cache :: "uw_cache option"
  pi_current :: "string option"
  pi_errors :: "string list"
  pi_warnings :: "string list"
  pi_eligible :: bool
  pi_normalized :: json_dict

definition note_if :: "bool \<Rightarrow> string \<Rightarrow> string list" where
  "note_if b code = (if b then [code] else [])"

definition price_notes :: "capabilities option \<Rightarrow> draft_change \<Rightarrow> ws_error + string list" where
  "price_notes cap c =
     (case cap of None \<Rightarrow> Inr []
      | Some k \<Rightarrow> if dg_field c \<noteq> ''price'' then Inr []
        else if currency_unit_wrong k c then Inr [''currency_unit_invalid'']
        else rbind (domain_error (channel_money (dg_target c) k)) (\<lambda>_. Inr []))"

definition item_errors :: "ws_env \<Rightarrow> ws_db \<Rightarrow> draft_change \<Rightarrow> ws_error + string list" where
  "item_errors env db c =
     (case (get_listing (dg_listing_id c) db, get_product (dg_product_id c) db, get_cache (dg_listing_id c) db) of
        (Some l, Some p, Some k) \<Rightarrow>
          (let cap = we_capabilities env db (dg_channel_id c) in
           rbind (price_notes cap c) (\<lambda>price.
           Inr (note_if (\<not> ul_enabled l) ''listing_disabled'' @
             note_if (\<not> channel_available (dg_channel_id c) db \<or> cap = None) ''channel_unavailable'' @
             note_if (ul_mapping_state l \<noteq> ''resolved'') ''mapping_unresolved'' @
             note_if (uc_fetch_status k \<noteq> ''success'') ''channel_cache_unavailable'' @
             note_if (\<not> is_ok (validate_product_editable (cp_product_type p))) ''variable_parent_read_only'' @
             note_if (case cap of Some k' \<Rightarrow> \<not> can_write k' (dg_field c) | None \<Rightarrow> False) ''field_capability_unavailable'' @
             price @
             note_if (dg_field c = ''stock'' \<and> uc_manage_stock k = Some False \<and>
               (case cap of Some k' \<Rightarrow> ca_requires_stock_management k' | None \<Rightarrow> False)) ''stock_management_disabled'')))
      | _ \<Rightarrow> Inr [''listing_or_cache_unavailable''])"

definition item_warnings :: "ws_db \<Rightarrow> draft_change \<Rightarrow> string list" where
  "item_warnings db c =
     (case (get_listing (dg_listing_id c) db, get_product (dg_product_id c) db, get_cache (dg_listing_id c) db) of
        (Some _, Some _, Some k) \<Rightarrow>
          note_if (uc_fetch_status k = ''success'' \<and> uc_freshness k \<noteq> ''fresh'') ''channel_cache_not_fresh''
      | _ \<Rightarrow> [])"

definition prepare_item :: "ws_env \<Rightarrow> ws_db \<Rightarrow> revision_change \<Rightarrow> ws_error + prepared_item" where
  "prepare_item env db ch =
     (let c = dc_change ch; cache = get_cache (dg_listing_id c) db in
      rbind (item_errors env db c) (\<lambda>errors.
      rbind (case we_capabilities env db (dg_channel_id c) of
          Some k \<Rightarrow> if errors = [] then domain_error (normalized_target c k) else Inr []
        | None \<Rightarrow> Inr []) (\<lambda>normalized.
      Inr \<lparr>pi_change = ch, pi_listing = get_listing (dg_listing_id c) db, pi_cache = cache,
        pi_current = (case cache of Some k \<Rightarrow> current_value k (dg_field c) | None \<Rightarrow> None),
        pi_errors = errors, pi_warnings = item_warnings db c,
        pi_eligible = (errors = [] \<and> \<not> unchanged db c), pi_normalized = normalized\<rparr>)))"

text \<open>An issue of the pricing service blocks the price items of its Channel.\<close>

definition add_pricing_issue :: "(string \<times> string) list \<Rightarrow> prepared_item \<Rightarrow> prepared_item" where
  "add_pricing_issue issues p =
     (let c = dc_change (pi_change p) in
      case map_of issues (dg_channel_id c) of
        Some e \<Rightarrow> if dg_field c = ''price'' \<and> e \<noteq> [] \<and> e \<notin> set (pi_errors p)
          then p\<lparr>pi_errors := pi_errors p @ [e], pi_eligible := False\<rparr> else p
      | None \<Rightarrow> p)"

definition price_channels :: "draft_change list \<Rightarrow> string list" where
  "price_channels cs = sort (remdups (map dg_channel_id (filter (\<lambda>c. dg_field c = ''price'') cs)))"

section \<open>Generating\<close>

record review_plan =
  rp_review :: uw_review
  rp_items :: "prepared_item list"

definition issues_json :: "(string \<times> string) list \<Rightarrow> json" where
  "issues_json issues = JObj (map (\<lambda>(c, e). (c, JStr e)) issues)"

definition count_items :: "(prepared_item \<Rightarrow> bool) \<Rightarrow> prepared_item list \<Rightarrow> json" where
  "count_items P ps = JInt (int (length (filter P ps)))"

definition review_document ::
    "ws_env \<Rightarrow> uw_snapshot \<Rightarrow> draft_revision \<Rightarrow> uw_review \<Rightarrow> prepared_item list \<Rightarrow> json \<Rightarrow> (string \<times> string) list \<Rightarrow> json" where
  "review_document env sp rv r ps bindings issues = JObj [(''snapshot'', JStr (sp_content_checksum sp)),
     (''revision'', JStr (dv_checksum rv)), (''mapping'', JStr (rw_mapping_digest r)),
     (''capability'', JStr (rw_capability_digest r)), (''currency'', JStr (rw_currency_digest r)),
     (''currency_profile'', JStr (rw_currency_profile_id r)),
     (''currency_profile_version'', JInt (rw_currency_profile_version r)),
     (''currency_profile_checksum'', JStr (rw_currency_profile_checksum r)),
     (''currency_ruleset'', JStr CURRENCY_RULESET_VERSION),
     (''cache'', JList (map cache_entry (List.map_filter pi_cache ps))),
     (''pricing_bindings'', bindings), (''pricing_binding_issues'', issues_json issues),
     (''ruleset'', JStr VALIDATION_VERSION)]"

definition plan_review ::
    "ws_env \<Rightarrow> ws_db \<Rightarrow> uw_workspace \<Rightarrow> uw_snapshot \<Rightarrow> draft_revision \<Rightarrow> ws_error + review_plan" where
  "plan_review env db w sp rv =
     (let changes = revision_changes (dv_id rv) db in
      if changes = [] then Inl (Refused 422 ''REVIEW_EMPTY'')
      else rbind (rmap (prepare_item env db) changes) (\<lambda>prepared.
        case get_row cu_id (sp_currency_profile_id sp) (wt_currency_profiles db) of
          None \<Rightarrow> Inl (Refused 409 ''CURRENCY_PROFILE_MISSING'')
        | Some profile \<Rightarrow>
          (let cs = map dc_change changes; cids = map dg_channel_id cs; pricing = price_channels cs;
               (bindings, issues) = (if pricing = [] then (JList [], []) else we_bind_pricing env db (uw_id w) pricing);
               items = map (add_pricing_issue issues) prepared;
               currencies = map (currency_entry env db) cids;
               r = \<lparr>rw_id = we_id env db, rw_workspace_id = uw_id w, rw_snapshot_id = sp_id sp,
                 rw_draft_revision_id = dv_id rv,
                 rw_status = (if \<exists>p \<in> set items. pi_errors p = [] then ''ready'' else ''blocked''),
                 rw_ruleset_version = VALIDATION_VERSION,
                 rw_capability_digest = entries_digest env (map (capability_entry env db) cids),
                 rw_currency_digest = entries_digest env currencies,
                 rw_currency_profile_id = cu_id profile, rw_currency_profile_version = cu_version profile,
                 rw_currency_profile_checksum = cu_checksum profile,
                 rw_currency_source_reference = profile_reference profile,
                 rw_currency_channel_references = sort (map currency_reference (unique_entries env currencies)),
                 rw_currency_ruleset_version = CURRENCY_RULESET_VERSION,
                 rw_mapping_digest = entries_digest env (map mapping_entry (List.map_filter pi_listing prepared)),
                 rw_checksum = [],
                 rw_summary = [(''total'', count_items (\<lambda>_. True) items), (''eligible'', count_items pi_eligible items),
                   (''blocked'', count_items (\<lambda>p. pi_errors p \<noteq> []) items),
                   (''warnings'', count_items (\<lambda>p. pi_warnings p \<noteq> []) items),
                   (''pricingBindings'', bindings), (''pricingBindingIssues'', issues_json issues)],
                 rw_invalidated_at = None, rw_stale_reason = None, rw_selection_version = 0,
                 rw_selection_checksum = None, rw_selected_channel_ids = []\<rparr> in
           Inr \<lparr>rp_review = r\<lparr>rw_checksum := we_checksum env (review_document env sp rv r prepared bindings issues)\<rparr>,
             rp_items = items\<rparr>)))"

definition validation_state :: "prepared_item \<Rightarrow> string" where
  "validation_state p = (if pi_errors p \<noteq> [] then ''error'' else if \<not> pi_eligible p then ''unchanged''
     else if pi_warnings p \<noteq> [] then ''warning'' else ''ready'')"

definition item_row :: "string \<Rightarrow> string \<Rightarrow> prepared_item \<Rightarrow> review_entry" where
  "item_row iid rid p = (let ch = pi_change p; c = dc_change ch in
     \<lparr>rx_id = iid, rx_review_id = rid, rx_draft_change_id = dc_id ch, rx_product_id = dg_product_id c,
      rx_listing_id = dg_listing_id c, rx_channel_id = dg_channel_id c, rx_field = dg_field c,
      rx_current_value = pi_current p, rx_target_value = dg_target c, rx_normalized = pi_normalized p,
      rx_validation_state = validation_state p, rx_warnings = pi_warnings p, rx_errors = pi_errors p,
      rx_eligible = pi_eligible p\<rparr>)"

definition issue_row :: "string \<Rightarrow> prepared_item \<Rightarrow> string \<Rightarrow> validation_issue" where
  "issue_row rid p code = (let c = dc_change (pi_change p) in
     \<lparr>vi_review_id = rid, vi_product_id = dg_product_id c, vi_listing_id = dg_listing_id c,
      vi_channel_id = dg_channel_id c, vi_code = code, vi_field = dg_field c\<rparr>)"

definition captured_version :: "ws_env \<Rightarrow> ws_db \<Rightarrow> string \<Rightarrow> prepared_item \<Rightarrow> review_cache_version list" where
  "captured_version env db rid p =
     (case (pi_listing p, pi_cache p) of
        (Some l, Some k) \<Rightarrow>
          if \<exists>v \<in> set (wt_cache_versions db). rc_review_id v = rid \<and> rc_listing_id v = ul_id l then []
          else [\<lparr>rc_review_id = rid, rc_listing_id = ul_id l, rc_channel_id = ul_channel_id l,
            rc_cache_version = uc_cache_version k, rc_cache_checksum = uc_checksum k,
            rc_mapping_version = ul_mapping_version l,
            rc_capability_version = capability_version env db (dg_channel_id (dc_change (pi_change p)))\<rparr>]
      | _ \<Rightarrow> [])"

definition add_review_item :: "ws_env \<Rightarrow> string \<Rightarrow> prepared_item \<Rightarrow> ws_db \<Rightarrow> ws_db" where
  "add_review_item env rid p db = db\<lparr>wt_review_items := wt_review_items db @ [item_row (we_id env db) rid p],
     wt_issues := wt_issues db @ map (issue_row rid p) (pi_errors p),
     wt_cache_versions := wt_cache_versions db @ captured_version env db rid p\<rparr>"

definition store_review :: "ws_env \<Rightarrow> review_plan \<Rightarrow> ws_db \<Rightarrow> ws_db" where
  "store_review env plan db = fold (add_review_item env (rw_id (rp_review plan))) (rp_items plan)
     (db\<lparr>wt_reviews := wt_reviews db @ [rp_review plan]\<rparr>)"

definition generate_review :: "ws_env \<Rightarrow> string \<Rightarrow> string \<Rightarrow> flowhub_user \<Rightarrow> string ws_op" where
  "generate_review env wid rid u =
     sbind (uw_workspace_for_user wid u True) (\<lambda>w.
     sbind (sget (\<lambda>db. (snapshot_for_workspace (uw_id w) db, get_revision rid db))) (\<lambda>found.
     case found of
       (Some sp, Some rv) \<Rightarrow>
         if dv_workspace_id rv \<noteq> uw_id w \<or> dv_snapshot_id rv \<noteq> sp_id sp then refuse 422 ''REVIEW_INPUT_INVALID''
         else
           sbind (sget (\<lambda>db. plan_review env db w sp rv)) (\<lambda>verdict.
           sbind (slift verdict) (\<lambda>plan.
           sbind (smodify (store_review env plan)) (\<lambda>_.
           sbind (log_audit ''review_generated'' u [(''review_id'', JStr (rw_id (rp_review plan))),
             (''review_result'', JStr (rw_status (rp_review plan)))]) (\<lambda>_.
           sbind scommit (\<lambda>_.
           sret (rw_id (rp_review plan)))))))
     | _ \<Rightarrow> refuse 422 ''REVIEW_INPUT_INVALID''))"

section \<open>Selecting\<close>

definition sorted_set :: "string list \<Rightarrow> string list" where
  "sorted_set xs = sort (remdups xs)"

definition str_list :: "string list \<Rightarrow> json" where
  "str_list xs = JList (map JStr xs)"

definition entry_order :: "review_entry list \<Rightarrow> review_entry list" where
  "entry_order items = sort_key (\<lambda>i. (rx_channel_id i, rx_listing_id i, rx_field i, rx_id i)) items"

definition selection_document :: "uw_review \<Rightarrow> review_entry list \<Rightarrow> json" where
  "selection_document r items = (let ordered = entry_order items in
     JObj [(''workspace_id'', JStr (rw_workspace_id r)), (''snapshot_id'', JStr (rw_snapshot_id r)),
       (''draft_revision_id'', JStr (rw_draft_revision_id r)), (''review_id'', JStr (rw_id r)),
       (''review_checksum'', JStr (rw_checksum r)), (''selection_version'', JInt (rw_selection_version r)),
       (''channel_ids'', str_list (sorted_set (map rx_channel_id ordered))),
       (''listing_ids'', str_list (sorted_set (map rx_listing_id ordered))),
       (''review_item_ids'', str_list (map rx_id ordered)),
       (''field_changes'', JList (map (\<lambda>i. JObj [(''listing_id'', JStr (rx_listing_id i)),
         (''channel_id'', JStr (rx_channel_id i)), (''field'', JStr (rx_field i))]) ordered))])"

definition items_among :: "string \<Rightarrow> string list \<Rightarrow> ws_db \<Rightarrow> review_entry list" where
  "items_among rid ids db = filter (\<lambda>i. rx_review_id i = rid \<and> rx_id i \<in> set ids) (wt_review_items db)"

definition default_visible_channels :: "string list" where
  "default_visible_channels = [''woocommerce:primary'', ''snappshop:main'']"

definition visible_channels :: "flowhub_user \<Rightarrow> ws_db \<Rightarrow> string list" where
  "visible_channels u db = (case map_of (wt_visible_channels db) (us_id u) of
     Some cs \<Rightarrow> cs | None \<Rightarrow> default_visible_channels)"

definition invalidate_dry_runs :: "string \<Rightarrow> ws_db \<Rightarrow> ws_db" where
  "invalidate_dry_runs rid db = db\<lparr>wt_dry_runs := map (\<lambda>d.
     if dn_review_id d = rid \<and> dn_status d \<in> {''running'', ''passed''} then d\<lparr>dn_status := ''invalidated''\<rparr> else d)
     (wt_dry_runs db)\<rparr>"

text \<open>What the handler decides from its reads: the review, the chosen items and their ids.\<close>

definition plan_selection ::
    "string \<Rightarrow> string \<Rightarrow> string list \<Rightarrow> flowhub_user \<Rightarrow> ws_db \<Rightarrow> ws_error + uw_review \<times> review_entry list \<times> string list" where
  "plan_selection wid rid item_ids u db =
     (case get_review rid db of None \<Rightarrow> Inl (Refused 404 ''REVIEW_NOT_FOUND'')
      | Some r \<Rightarrow>
        if rw_workspace_id r \<noteq> wid then Inl (Refused 404 ''REVIEW_NOT_FOUND'')
        else if rw_status r \<noteq> ''ready'' then Inl (Refused 409 ''REVIEW_NOT_READY'')
        else
          let ids = sorted_set item_ids; items = items_among (rw_id r) ids db in
          if ids = [] \<or> length ids \<noteq> length item_ids then Inl (Refused 422 ''REVIEW_SELECTION_INVALID'')
          else if length items \<noteq> length ids \<or> \<not> list_all rx_eligible items
          then Inl (Refused 422 ''REVIEW_SELECTION_INELIGIBLE'')
          else if \<not> set (map rx_channel_id items) \<subseteq> set (visible_channels u db)
          then Inl (Refused 409 ''SELECTION_CHANGED'')
          else Inr (r, items, ids))"

definition selected_review :: "ws_env \<Rightarrow> uw_review \<Rightarrow> review_entry list \<Rightarrow> uw_review" where
  "selected_review env r items =
     (let r' = r\<lparr>rw_selection_version := rw_selection_version r + 1,
        rw_selected_channel_ids := sorted_set (map rx_channel_id items)\<rparr> in
      r'\<lparr>rw_selection_checksum := Some (we_checksum env (selection_document r' items))\<rparr>)"

definition store_selection :: "flowhub_user \<Rightarrow> uw_review \<Rightarrow> string list \<Rightarrow> ws_db \<Rightarrow> ws_db" where
  "store_selection u r ids db = invalidate_dry_runs (rw_id r) (db\<lparr>
     wt_selections := filter (\<lambda>s. sl_review_id s \<noteq> rw_id r) (wt_selections db) @
       map (\<lambda>i. \<lparr>sl_review_id = rw_id r, sl_review_item_id = i, sl_user_id = us_id u\<rparr>) ids,
     wt_reviews := upd_row rw_id (rw_id r) (\<lambda>x. x\<lparr>rw_selection_version := rw_selection_version r,
       rw_selected_channel_ids := rw_selected_channel_ids r, rw_selection_checksum := rw_selection_checksum r\<rparr>)
       (wt_reviews db)\<rparr>)"

record selection_result =
  sx_item_ids :: "string list"
  sx_checksum :: "string option"
  sx_version :: int

definition select_review_items ::
    "ws_env \<Rightarrow> string \<Rightarrow> string \<Rightarrow> string list \<Rightarrow> flowhub_user \<Rightarrow> selection_result ws_op" where
  "select_review_items env wid rid item_ids u =
     sbind (uw_workspace_for_user wid u True) (\<lambda>w.
     sbind (sget (plan_selection (uw_id w) rid item_ids u)) (\<lambda>verdict.
     sbind (slift verdict) (\<lambda>(r, items, ids).
     sbind (sawait (we_others env)) (\<lambda>_.
     sbind (smodify (store_selection u (selected_review env r items) ids)) (\<lambda>_.
     sbind (log_audit ''review_selection_saved'' u [(''review_id'', JStr (rw_id r))]) (\<lambda>_.
     sbind scommit (\<lambda>_.
     sret \<lparr>sx_item_ids = ids, sx_checksum = rw_selection_checksum (selected_review env r items),
       sx_version = rw_selection_version r + 1\<rparr>)))))))"

section \<open>Freshness\<close>

definition cache_max_age_minutes :: "ws_env \<Rightarrow> ws_db \<Rightarrow> int" where
  "cache_max_age_minutes env db =
     min (max (case parse_int (str_or (we_cache_max_age env db) ''60'') of Some n \<Rightarrow> n | None \<Rightarrow> 60) 1) 10080"

definition latest_profile :: "currency_profile \<Rightarrow> ws_db \<Rightarrow> currency_profile option" where
  "latest_profile p db = max_by cu_version (filter (\<lambda>q. cu_scope q = cu_scope p \<and>
     cu_scope_reference q = cu_scope_reference p \<and> cu_enabled q) (wt_currency_profiles db))"

definition currency_profile_current :: "uw_review \<Rightarrow> ws_db \<Rightarrow> bool" where
  "currency_profile_current r db =
     (case get_row cu_id (rw_currency_profile_id r) (wt_currency_profiles db) of None \<Rightarrow> False
      | Some p \<Rightarrow> map_option cu_id (latest_profile p db) = Some (rw_currency_profile_id r) \<and>
          cu_version p = rw_currency_profile_version r \<and> cu_checksum p = rw_currency_profile_checksum r \<and>
          rw_currency_source_reference r = profile_reference p \<and>
          rw_currency_ruleset_version r = CURRENCY_RULESET_VERSION)"

definition captured_versions :: "string \<Rightarrow> ws_db \<Rightarrow> review_cache_version list" where
  "captured_versions rid db = filter (\<lambda>v. rc_review_id v = rid) (wt_cache_versions db)"

definition captured_stale :: "ws_env \<Rightarrow> ws_db \<Rightarrow> review_cache_version \<Rightarrow> string list" where
  "captured_stale env db v =
     (let listing = get_listing (rc_listing_id v) db; cid = rc_channel_id v in
      (case get_cache (rc_listing_id v) db of
         None \<Rightarrow> [''cache:'' @ rc_listing_id v]
       | Some k \<Rightarrow>
         if uc_cache_version k \<noteq> rc_cache_version v \<or> uc_checksum k \<noteq> rc_cache_checksum v
         then [''cache:'' @ rc_listing_id v]
         else note_if (uc_fetched_at k < we_now env db - minutes (cache_max_age_minutes env db))
           (''cache_age:'' @ rc_listing_id v)) @
      note_if (case listing of None \<Rightarrow> True
         | Some l \<Rightarrow> ul_channel_id l \<noteq> cid \<or> ul_mapping_version l \<noteq> rc_mapping_version v \<or>
             ul_mapping_state l \<noteq> ''resolved'' \<or> \<not> ul_enabled l) (''mapping:'' @ rc_listing_id v) @
      note_if (\<not> channel_available cid db \<or> we_capabilities env db cid = None) (''channel:'' @ cid) @
      note_if (capability_version env db cid \<noteq> rc_capability_version v) (''capability:'' @ cid))"

definition configuration_changed :: "ws_env \<Rightarrow> ws_db \<Rightarrow> uw_review \<Rightarrow> bool" where
  "configuration_changed env db r =
     (let vs = captured_versions (rw_id r) db; cids = map rc_channel_id vs in
      entries_digest env (map mapping_entry (List.map_filter (\<lambda>v. get_listing (rc_listing_id v) db) vs))
        \<noteq> rw_mapping_digest r \<or>
      entries_digest env (map (capability_entry env db) cids) \<noteq> rw_capability_digest r \<or>
      entries_digest env (map (currency_entry env db) cids) \<noteq> rw_currency_digest r)"

definition references_changed :: "ws_env \<Rightarrow> ws_db \<Rightarrow> uw_review \<Rightarrow> bool" where
  "references_changed env db r \<longleftrightarrow>
     sort (map currency_reference (unique_entries env
       (map (currency_entry env db \<circ> rc_channel_id) (captured_versions (rw_id r) db))))
       \<noteq> sort (rw_currency_channel_references r)"

definition review_pricing_issues :: "ws_env \<Rightarrow> ws_db \<Rightarrow> uw_review \<Rightarrow> (string \<times> string) list" where
  "review_pricing_issues env db r =
     (let cids = sorted_set (map rx_channel_id (filter (\<lambda>i. rx_field i = ''price'') (review_items (rw_id r) db))) in
      if cids = [] then [] else we_verify_pricing env db (rw_workspace_id r) cids)"

definition stale_reasons :: "ws_env \<Rightarrow> ws_db \<Rightarrow> uw_review \<Rightarrow> string list" where
  "stale_reasons env db r =
     note_if (rw_ruleset_version r \<noteq> VALIDATION_VERSION) ''validation_ruleset'' @
     note_if (\<not> currency_profile_current r db) ''currency_profile'' @
     concat (map (captured_stale env db) (captured_versions (rw_id r) db)) @
     note_if (configuration_changed env db r) ''configuration_digest'' @
     note_if (references_changed env db r) ''currency_channel_override'' @
     map (\<lambda>(c, e). ''pricing:'' @ c @ '':'' @ e) (sort_key fst (review_pricing_issues env db r))"

fun join_reasons :: "string list \<Rightarrow> string" where
  "join_reasons [] = []"
| "join_reasons [x] = x"
| "join_reasons (x # y # xs) = x @ '';'' @ join_reasons (y # xs)"

definition mark_stale :: "instant \<Rightarrow> string \<Rightarrow> uw_review \<Rightarrow> uw_review" where
  "mark_stale now reason r = r\<lparr>rw_status := ''stale'', rw_invalidated_at := Some now, rw_stale_reason := Some reason\<rparr>"

definition assert_review_fresh :: "ws_env \<Rightarrow> uw_review \<Rightarrow> flowhub_user \<Rightarrow> unit ws_op" where
  "assert_review_fresh env r u =
     sbind (sget (\<lambda>db. (stale_reasons env db r, we_now env db))) (\<lambda>(reasons, now).
     if reasons = [] then sret ()
     else
       sbind (smodify (\<lambda>db. db\<lparr>wt_reviews := upd_row rw_id (rw_id r)
         (mark_stale now (join_reasons (sorted_set reasons))) (wt_reviews db)\<rparr>)) (\<lambda>_.
       sbind (log_audit ''review_stale'' u [(''review_id'', JStr (rw_id r)),
         (''reason'', JStr (join_reasons (sorted_set reasons)))]) (\<lambda>_.
       sbind scommit (\<lambda>_.
       refuse 409 ''STALE_REVIEW''))))"

section \<open>Source evidence\<close>

definition json_text :: "ws_env \<Rightarrow> json \<Rightarrow> string" where
  "json_text env v = canonical_text (if v = JNull then None else Some (py_str (we_py env) v))"

definition source_evidence_issue :: "ws_env \<Rightarrow> ws_db \<Rightarrow> uw_workspace \<Rightarrow> uw_snapshot \<Rightarrow> string option" where
  "source_evidence_issue env db w sp =
     (let m = sp_source_metadata sp; st = we_source env db (uw_id w);
          sid = json_text env (jget ''source_id'' m); version = jget ''source_version'' m;
          mid = json_text env (jget ''mapping_revision_id'' m); mck = json_text env (jget ''mapping_checksum'' m);
          rid = json_text env (jget ''sheet_revision_id'' m); rck = json_text env (jget ''sheet_revision_checksum'' m);
          source = (if sid = [] then None else ss_source_version st sid);
          mapping = (if mid = [] then None else ss_mapping st mid) in
      if uw_entry_point w \<noteq> ''source'' then None
      else (case (ss_binding_version st, source) of
          (Some bound, Some sv) \<Rightarrow>
            if version = JNull \<or> mid = [] \<or> mck = [] \<or> rid = [] \<or> rck = [] then Some ''SOURCE_STATE_UNVERIFIABLE''
            else if sv \<noteq> bound \<or> version \<noteq> JInt sv then Some ''SOURCE_CHANGED''
            else if mapping \<noteq> Some (sid, mck) then Some ''SOURCE_MAPPING_CHANGED''
            else (case ss_sheet st rid of
                None \<Rightarrow> Some ''SOURCE_STATE_UNVERIFIABLE''
              | Some (owner, rv, ck, current) \<Rightarrow>
                if owner \<noteq> sid then Some ''SOURCE_STATE_UNVERIFIABLE''
                else if ck \<noteq> rck \<or> current \<noteq> rv then Some ''SOURCE_CHANGED'' else None)
        | _ \<Rightarrow> Some ''SOURCE_STATE_UNVERIFIABLE''))"

definition assert_source_evidence_current :: "ws_env \<Rightarrow> uw_workspace \<Rightarrow> uw_snapshot \<Rightarrow> unit ws_op" where
  "assert_source_evidence_current env w sp =
     sbind (sget (\<lambda>db. source_evidence_issue env db w sp)) (\<lambda>issue.
     case issue of None \<Rightarrow> sret () | Some code \<Rightarrow> refuse 409 code)"

end
