(* ===== verification/DryRuns.thy ===== *)
theory DryRuns
  imports Reviews
begin

text \<open>
  Dry runs (\<^verbatim>\<open>run_dry_run\<close>, \<^verbatim>\<open>_manifest_document\<close>, \<^verbatim>\<open>_generate_apply_manifest\<close> and
  \<^verbatim>\<open>_reverify_dry_run_live\<close> of \<^verbatim>\<open>unified_workspace/services.py\<close>): each selected item is compared with
  what its Channel shows now, and a dry run without blockers fixes, in a manifest, the operations that
  may be applied. What a connector reads is a parameter; while the code waits for it, other
  transactions commit.
\<close>

section \<open>Live evidence\<close>

fun canonical_evidence :: "ws_env \<Rightarrow> json \<Rightarrow> json" where
  "canonical_evidence env (JNum r) = JStr (we_fixed_float env r)"
| "canonical_evidence env (JObj d) = JObj (map (\<lambda>(k, v). (k, canonical_evidence env v)) d)"
| "canonical_evidence env (JList xs) = JList (map (canonical_evidence env) xs)"
| "canonical_evidence env v = v"

definition json_opt :: "ws_env \<Rightarrow> json \<Rightarrow> string option" where
  "json_opt env v = (if v = JNull then None else Some (py_str (we_py env) v))"

definition has_key :: "string \<Rightarrow> json_dict \<Rightarrow> bool" where
  "has_key k d \<longleftrightarrow> k \<in> set (map fst d)"

definition expected_live_state ::
    "review_entry \<Rightarrow> uw_listing \<Rightarrow> canonical_product \<Rightarrow> string option \<Rightarrow> capabilities \<Rightarrow> json_dict" where
  "expected_live_state i l p parent k =
     [(''external_id'', JStr (ul_external_primary_id l)),
      (''product_type'', JStr (py_lower (canonical_text (Some (cp_product_type p))))),
      (''parent_external_id'', opt_json parent), (rx_field i, opt_json (rx_current_value i))] @
     (if rx_field i = ''price'' then
        [(''currency'', JStr (py_upper (canonical_text (Some (ca_currency k))))),
         (''unit'', JStr (py_upper (canonical_text (Some (ca_unit k)))))] else [])"

definition governed :: "json_dict \<Rightarrow> string list" where
  "governed expected = filter (\<lambda>f. has_key f expected) [''price'', ''stock'', ''status'']"

definition evidence_unverifiable :: "ws_env \<Rightarrow> json_dict \<Rightarrow> json_dict \<Rightarrow> bool" where
  "evidence_unverifiable env observed expected =
     (let fs = governed expected; money = (if ''price'' \<in> set fs then [''currency'', ''unit''] else []);
          text = (\<lambda>d f. json_text env (jget f d)); parent = jget ''parent_external_id'' observed in
      if list_ex (\<lambda>f. \<not> has_key f observed)
           ([''external_id'', ''product_type'', ''parent_external_id''] @ fs @ money) then True
      else if text observed ''external_id'' = [] \<or> text observed ''product_type'' = [] then True
      else if list_ex (\<lambda>f. text observed f = []) money then True
      else if parent \<noteq> JNull \<and> json_text env parent = [] then True
      else if list_ex (\<lambda>f. \<not> values_equal f (json_opt env (jget f observed)) (json_opt env (jget f observed))) fs then True
      else if text observed ''external_id'' \<noteq> text expected ''external_id'' then True
      else list_ex (\<lambda>f. text expected f = []) ([''external_id'', ''product_type''] @ money))"

definition evidence_drifted :: "ws_env \<Rightarrow> json_dict \<Rightarrow> json_dict \<Rightarrow> bool" where
  "evidence_drifted env observed expected =
     (let text = (\<lambda>d f. json_text env (jget f d)); parent = jget ''parent_external_id'' observed in
      if py_lower (text observed ''product_type'') \<noteq> py_lower (text expected ''product_type'') \<or>
         (if parent = JNull then JNull else JStr (py_str (we_py env) parent)) \<noteq> jget ''parent_external_id'' expected
      then True
      else if \<not> has_key ''price'' expected then False
      else py_upper (text observed ''currency'') \<noteq> py_upper (text expected ''currency'') \<or>
           py_upper (text observed ''unit'') \<noteq> py_upper (text expected ''unit''))"

text \<open>The observation of a targeted read, and whether the read failed.\<close>

definition read_live :: "ws_env \<Rightarrow> ws_db \<Rightarrow> live_probe \<Rightarrow> json_dict \<times> bool" where
  "read_live env db pb = (case we_verify_updates env db pb of
     None \<Rightarrow> ([], True)
   | Some v \<Rightarrow> ((case canonical_evidence env (jget ''observed'' v) of JObj d \<Rightarrow> d | _ \<Rightarrow> []),
       json_truthy (jget ''error'' v)))"

section \<open>Verdicts\<close>

record live_scope =
  lv_item :: review_entry
  lv_disposition :: string
  lv_reason :: "string option"
  lv_observed :: json_dict
  lv_expected :: json_dict

definition dry_run_block :: "review_entry \<Rightarrow> string \<Rightarrow> json_dict \<Rightarrow> json_dict \<Rightarrow> live_scope" where
  "dry_run_block i reason observed expected = \<lparr>lv_item = i, lv_disposition = ''blocked'', lv_reason = Some reason,
     lv_observed = observed,
     lv_expected = (if expected = [] then [(''price'', opt_json (rx_current_value i))] else expected)\<rparr>"

definition judge_item :: "ws_env \<Rightarrow> json_dict \<times> bool \<Rightarrow> json_dict \<Rightarrow> review_entry \<Rightarrow> live_scope" where
  "judge_item env live expected i =
     (case live of (observed, failed) \<Rightarrow>
      let shown = json_opt env (jget (rx_field i) observed) in
      if failed \<or> observed = [] \<or> evidence_unverifiable env observed expected
      then dry_run_block i ''CHANNEL_STATE_UNVERIFIABLE'' observed expected
      else if evidence_drifted env observed expected then dry_run_block i ''CHANNEL_DRIFT'' observed expected
      else if values_equal (rx_field i) shown (Some (rx_target_value i))
      then \<lparr>lv_item = i, lv_disposition = ''no_op'', lv_reason = Some ''ALREADY_CURRENT'', lv_observed = observed,
        lv_expected = expected\<rparr>
      else if \<not> values_equal (rx_field i) shown (rx_current_value i)
      then dry_run_block i ''CHANNEL_DRIFT'' observed expected
      else \<lparr>lv_item = i, lv_disposition = ''write'', lv_reason = None, lv_observed = observed, lv_expected = expected\<rparr>)"

text \<open>The rows of a Listing: the Listing, its cache, its product and the key of the parent product.\<close>

definition parent_external_id :: "canonical_product \<Rightarrow> string \<Rightarrow> ws_db \<Rightarrow> string option" where
  "parent_external_id p cid db = (if truthy (cp_parent_id p)
     then map_option ul_external_primary_id
       (find (\<lambda>l. Some (ul_canonical_product_id l) = cp_parent_id p \<and> ul_channel_id l = cid) (wt_listings db))
     else None)"

definition listing_state :: "string \<Rightarrow> ws_db \<Rightarrow> (uw_listing \<times> uw_cache \<times> canonical_product \<times> string option) option" where
  "listing_state lid db =
     (case get_listing lid db of None \<Rightarrow> None
      | Some l \<Rightarrow> (case (get_cache lid db, get_product (ul_canonical_product_id l) db) of
          (Some k, Some p) \<Rightarrow> Some (l, k, p, parent_external_id p (ul_channel_id l) db)
        | _ \<Rightarrow> None))"

definition dry_run_probe ::
    "uw_listing \<Rightarrow> uw_cache \<Rightarrow> canonical_product \<Rightarrow> string option \<Rightarrow> review_entry list \<Rightarrow> live_probe" where
  "dry_run_probe l k p parent members = \<lparr>pb_listing_id = ul_id l, pb_channel_id = ul_channel_id l,
     pb_external_primary_id = ul_external_primary_id l, pb_sku = ul_sku l, pb_product_type = cp_product_type p,
     pb_parent_external_id = parent, pb_current = (\<lambda>f. opt_json (current_value k f)),
     pb_currency = opt_json (uc_price_currency k), pb_unit = opt_json (uc_price_unit k),
     pb_governed_fields = sorted_set (map rx_field members)\<rparr>"

definition judge_listing :: "ws_env \<Rightarrow> string \<Rightarrow> review_entry list \<Rightarrow> live_scope list ws_op" where
  "judge_listing env lid members =
     sbind (sget (listing_state lid)) (\<lambda>st.
     case st of None \<Rightarrow> sret (map (\<lambda>i. dry_run_block i ''CHANNEL_STATE_UNVERIFIABLE'' [] []) members)
     | Some (l, k, p, parent) \<Rightarrow>
         sbind (sget (\<lambda>db. we_capabilities env db (ul_channel_id l))) (\<lambda>cap.
         case cap of None \<Rightarrow> sraise (Domain_error ''Channel is unavailable.'')
         | Some c \<Rightarrow>
             sbind (sawait (we_others env)) (\<lambda>_.
             sbind (sget (\<lambda>db. read_live env db (dry_run_probe l k p parent members))) (\<lambda>live.
             sret (map (\<lambda>i. judge_item env live (expected_live_state i l p parent c) i) members)))))"

definition judge_listings ::
    "ws_env \<Rightarrow> (string \<times> review_entry list) list \<Rightarrow> live_scope list ws_op" where
  "judge_listings env groups = sfoldM (\<lambda>scopes (lid, members).
     sbind (judge_listing env lid members) (\<lambda>more. sret (scopes @ more))) [] groups"

section \<open>Manifests\<close>

definition operation_payload :: "uw_listing \<Rightarrow> uw_cache \<Rightarrow> capabilities \<Rightarrow> (string \<times> string) list \<Rightarrow> json" where
  "operation_payload l k c targets = JObj [(''listing'', JStr (ul_id l)), (''channel'', JStr (ul_channel_id l)),
     (''targets'', JObj (map (\<lambda>(f, t). (f, JStr t)) targets)), (''mapping_version'', JInt (ul_mapping_version l)),
     (''cache_version'', JInt (uc_cache_version k)), (''cache_checksum'', JStr (uc_checksum k)),
     (''capability_version'', JStr (ca_version c))]"

definition listing_payload :: "ws_env \<Rightarrow> ws_db \<Rightarrow> string \<Rightarrow> review_entry list \<Rightarrow> ws_error + json" where
  "listing_payload env db lid members =
     (case (get_listing lid db, get_cache lid db) of
        (Some l, Some k) \<Rightarrow>
          (case we_capabilities env db (ul_channel_id l) of
             None \<Rightarrow> Inl (Domain_error ''Channel capabilities are unavailable.'')
           | Some c \<Rightarrow> Inr (operation_payload l k c
               (fold (\<lambda>i. AList.update (rx_field i) (rx_target_value i)) members [])))
      | _ \<Rightarrow> Inl (Domain_error ''Apply Listing state is unavailable.''))"

definition listing_payloads :: "ws_env \<Rightarrow> ws_db \<Rightarrow> review_entry list \<Rightarrow> ws_error + (string \<times> json) list" where
  "listing_payloads env db items = rmap (\<lambda>(lid, members).
     rbind (listing_payload env db lid members) (\<lambda>v. Inr (lid, v))) (group_by rx_listing_id items)"

definition payload_of :: "string \<Rightarrow> (string \<times> json) list \<Rightarrow> json" where
  "payload_of lid ps = (case map_of ps lid of Some v \<Rightarrow> v | None \<Rightarrow> JNull)"

definition operation_entry :: "(string \<times> json) list \<Rightarrow> review_entry \<Rightarrow> json" where
  "operation_entry ps i = JObj [(''review_item_id'', JStr (rx_id i)), (''listing_id'', JStr (rx_listing_id i)),
     (''channel_id'', JStr (rx_channel_id i)), (''field'', JStr (rx_field i)),
     (''listing_payload'', payload_of (rx_listing_id i) ps)]"

definition manifest_json ::
    "uw_review \<Rightarrow> review_entry list \<Rightarrow> string \<Rightarrow> string \<Rightarrow> (string \<times> json) list \<Rightarrow> json" where
  "manifest_json r items drid evidence ps = JObj [(''manifest_version'', JStr ''uw-manifest-op-v2''),
     (''workspace_id'', JStr (rw_workspace_id r)), (''snapshot_id'', JStr (rw_snapshot_id r)),
     (''draft_revision_id'', JStr (rw_draft_revision_id r)), (''review_id'', JStr (rw_id r)),
     (''review_checksum'', JStr (rw_checksum r)), (''selection_version'', JInt (rw_selection_version r)),
     (''selection_checksum'', opt_json (rw_selection_checksum r)), (''dry_run_id'', JStr drid),
     (''live_evidence_checksum'', JStr evidence),
     (''operations'', JList (map (operation_entry ps) (entry_order items)))]"

definition manifest_document ::
    "ws_env \<Rightarrow> ws_db \<Rightarrow> uw_review \<Rightarrow> review_entry list \<Rightarrow> string \<Rightarrow> string \<Rightarrow> ws_error + json \<times> (string \<times> json) list" where
  "manifest_document env db r items drid evidence =
     rbind (listing_payloads env db items) (\<lambda>ps. Inr (manifest_json r items drid evidence ps, ps))"

definition add_operation :: "ws_env \<Rightarrow> string \<Rightarrow> (string \<times> json) list \<Rightarrow> review_entry \<Rightarrow> ws_db \<Rightarrow> ws_db" where
  "add_operation env mid ps i db = db\<lparr>wt_manifest_operations := wt_manifest_operations db @
     [\<lparr>ao_id = we_id env db, ao_manifest_id = mid, ao_review_item_id = rx_id i, ao_product_id = rx_product_id i,
       ao_listing_id = rx_listing_id i, ao_channel_id = rx_channel_id i, ao_field = rx_field i,
       ao_current_value = rx_current_value i, ao_target_value = rx_target_value i,
       ao_currency = (if rx_field i = ''price'' then jget ''currency'' (rx_normalized i) else JNull),
       ao_unit = (if rx_field i = ''price'' then jget ''unit'' (rx_normalized i) else JNull),
       ao_listing_payload = payload_of (rx_listing_id i) ps,
       ao_listing_payload_hash = we_checksum env (payload_of (rx_listing_id i) ps)\<rparr>]\<rparr>"

definition new_manifest ::
    "ws_env \<Rightarrow> string \<Rightarrow> uw_review \<Rightarrow> review_entry list \<Rightarrow> string \<Rightarrow> json \<Rightarrow> apply_manifest" where
  "new_manifest env mid r items drid document = \<lparr>am_id = mid, am_review_id = rw_id r, am_dry_run_id = Some drid,
     am_selection_version = rw_selection_version r, am_selection_checksum = str_or (rw_selection_checksum r) [],
     am_manifest_checksum = we_checksum env document, am_operation_count = length items,
     am_channel_ids = sorted_set (map rx_channel_id items)\<rparr>"

definition generate_apply_manifest ::
    "ws_env \<Rightarrow> uw_review \<Rightarrow> review_entry list \<Rightarrow> string \<Rightarrow> string \<Rightarrow> string ws_op" where
  "generate_apply_manifest env r items drid evidence =
     sbind (sget (\<lambda>db. (manifest_document env db r items drid evidence, we_id env db))) (\<lambda>(verdict, mid).
     sbind (slift verdict) (\<lambda>(document, ps).
     sbind (smodify (\<lambda>db. fold (add_operation env mid ps) items
       (db\<lparr>wt_manifests := wt_manifests db @ [new_manifest env mid r items drid document]\<rparr>))) (\<lambda>_.
     sret mid)))"

section \<open>The dry run\<close>

definition scope_json :: "live_scope \<Rightarrow> json" where
  "scope_json s = JObj [(''item'', JStr (rx_id (lv_item s))), (''disposition'', JStr (lv_disposition s)),
     (''reason'', opt_json (lv_reason s)), (''observed'', JObj (lv_observed s)), (''expected'', JObj (lv_expected s))]"

definition scope_row :: "ws_env \<Rightarrow> string \<Rightarrow> live_scope \<Rightarrow> dry_run_scope" where
  "scope_row env drid s = \<lparr>do_dry_run_id = drid, do_review_item_id = rx_id (lv_item s),
     do_disposition = lv_disposition s, do_reason = lv_reason s, do_expected = lv_expected s,
     do_observed = lv_observed s,
     do_fingerprint = (if lv_observed s = [] then None else Some (we_checksum env (JObj (lv_observed s))))\<rparr>"

definition write_items :: "live_scope list \<Rightarrow> review_entry list" where
  "write_items scopes = map lv_item (filter (\<lambda>s. lv_disposition s = ''write'') scopes)"

definition blockers :: "live_scope list \<Rightarrow> live_scope list" where
  "blockers scopes = filter (\<lambda>s. lv_disposition s = ''blocked'') scopes"

definition evidence_checksum :: "ws_env \<Rightarrow> live_scope list \<Rightarrow> string" where
  "evidence_checksum env scopes = we_checksum env (JList (map scope_json scopes))"

definition new_dry_run :: "ws_env \<Rightarrow> ws_db \<Rightarrow> uw_review \<Rightarrow> string \<Rightarrow> live_scope list \<Rightarrow> dry_run" where
  "new_dry_run env db r selection scopes = \<lparr>dn_id = we_id env db, dn_review_id = rw_id r,
     dn_selection_version = rw_selection_version r, dn_selection_checksum = selection,
     dn_status = (if blockers scopes \<noteq> [] then ''blocked'' else ''passed''),
     dn_evidence_checksum = evidence_checksum env scopes, dn_reviewed_count = length scopes,
     dn_write_count = length (write_items scopes), dn_blocker_count = length (blockers scopes),
     dn_created_at = we_now env db\<rparr>"

definition store_dry_run :: "ws_env \<Rightarrow> dry_run \<Rightarrow> live_scope list \<Rightarrow> ws_db \<Rightarrow> ws_db" where
  "store_dry_run env d scopes db = (let db' = invalidate_dry_runs (dn_review_id d) db in
     db'\<lparr>wt_dry_runs := wt_dry_runs db' @ [d],
       wt_dry_run_scopes := wt_dry_run_scopes db' @ map (scope_row env (dn_id d)) scopes\<rparr>)"

text \<open>What the dry run works on: the review, the selected items and the checksum of the selection.\<close>

definition selected_ids :: "string \<Rightarrow> ws_db \<Rightarrow> string list" where
  "selected_ids rid db = sort (map sl_review_item_id (review_selections rid db))"

definition plan_dry_run :: "ws_env \<Rightarrow> uw_review \<Rightarrow> ws_db \<Rightarrow> ws_error + review_entry list \<times> string" where
  "plan_dry_run env r db =
     (let ids = selected_ids (rw_id r) db; items = items_among (rw_id r) ids db;
          selection = we_checksum env (selection_document r items) in
      if ids = [] then Inl (Refused 422 ''DRY_RUN_SELECTION_REQUIRED'')
      else if rw_selection_checksum r \<noteq> Some selection then Inl (Refused 409 ''SELECTION_STALE'')
      else Inr (items, selection))"

text \<open>A stale review is reported as a changed policy when a pricing reason is among the reasons.\<close>

definition names_pricing :: "string list \<Rightarrow> bool" where
  "names_pricing reasons = list_ex (contains ''pricing:'') reasons"

definition fresh_for_dry_run :: "ws_env \<Rightarrow> uw_review \<Rightarrow> flowhub_user \<Rightarrow> unit ws_op" where
  "fresh_for_dry_run env r u =
     sbind (sget (\<lambda>db. stale_reasons env db r)) (\<lambda>reasons.
     scatch (assert_review_fresh env r u)
       (\<lambda>_. refuse 409 (if names_pricing reasons then ''POLICY_CHANGED'' else ''SOURCE_MAPPING_CHANGED'')))"

record dry_run_result =
  dx_id :: string
  dx_status :: string
  dx_scopes :: "live_scope list"
  dx_manifest :: "string option"

definition complete_dry_run ::
    "ws_env \<Rightarrow> flowhub_user \<Rightarrow> uw_review \<Rightarrow> string \<Rightarrow> live_scope list \<Rightarrow> dry_run_result ws_op" where
  "complete_dry_run env u r selection scopes =
     sbind (sget (\<lambda>db. new_dry_run env db r selection scopes)) (\<lambda>d.
     sbind (smodify (store_dry_run env d scopes)) (\<lambda>_.
     sbind (if dn_status d = ''passed'' \<and> write_items scopes \<noteq> []
         then sbind (generate_apply_manifest env r (write_items scopes) (dn_id d) (dn_evidence_checksum d)) (\<lambda>m. sret (Some m))
         else sret None) (\<lambda>manifest.
     sbind (log_audit ''dry_run_completed'' u [(''review_id'', JStr (rw_id r)), (''review_result'', JStr (dn_status d))]) (\<lambda>_.
     sbind scommit (\<lambda>_.
     sret \<lparr>dx_id = dn_id d, dx_status = dn_status d, dx_scopes = scopes, dx_manifest = manifest\<rparr>)))))"

definition run_dry_run :: "ws_env \<Rightarrow> string \<Rightarrow> string \<Rightarrow> flowhub_user \<Rightarrow> dry_run_result ws_op" where
  "run_dry_run env wid rid u =
     sbind (uw_workspace_for_user wid u True) (\<lambda>w.
     sbind (sget (\<lambda>db. (get_review rid db, snapshot_for_workspace (uw_id w) db))) (\<lambda>found.
     case found of
       (Some r, Some sp) \<Rightarrow>
         if rw_workspace_id r \<noteq> uw_id w then refuse 404 ''REVIEW_NOT_FOUND''
         else
           sbind (assert_source_evidence_current env w sp) (\<lambda>_.
           sbind (sget (plan_dry_run env r)) (\<lambda>verdict.
           sbind (slift verdict) (\<lambda>(items, selection).
           sbind (fresh_for_dry_run env r u) (\<lambda>_.
           sbind (judge_listings env (sort_key fst (group_by rx_listing_id items))) (\<lambda>scopes.
           complete_dry_run env u r selection scopes)))))
     | _ \<Rightarrow> refuse 404 ''REVIEW_NOT_FOUND''))"

section \<open>Verifying again before dispatch\<close>

definition recheck_probe :: "uw_listing \<Rightarrow> canonical_product \<Rightarrow> dry_run_scope \<Rightarrow> string \<Rightarrow> ws_env \<Rightarrow> live_probe" where
  "recheck_probe l p sc field env = (let e = do_expected sc in
     \<lparr>pb_listing_id = ul_id l, pb_channel_id = ul_channel_id l, pb_external_primary_id = ul_external_primary_id l,
      pb_sku = ul_sku l, pb_product_type = str_get (we_py env) ''product_type'' (cp_product_type p) e,
      pb_parent_external_id = json_opt env (jget ''parent_external_id'' e),
      pb_current = (\<lambda>f. jget f (do_observed sc)), pb_currency = jget ''currency'' e, pb_unit = jget ''unit'' e,
      pb_governed_fields = [field]\<rparr>)"

definition recheck_verdict :: "ws_env \<Rightarrow> dry_run_scope \<Rightarrow> json_dict \<times> bool \<Rightarrow> string option" where
  "recheck_verdict env sc live =
     (case live of (observed, failed) \<Rightarrow>
      if failed \<or> observed = [] \<or> evidence_unverifiable env observed (do_expected sc)
      then Some ''CHANNEL_STATE_UNVERIFIABLE''
      else if evidence_drifted env observed (do_expected sc) then Some ''CHANNEL_DRIFT''
      else if Some (we_checksum env (JObj observed)) \<noteq> do_fingerprint sc then Some ''CHANNEL_DRIFT''
      else None)"

definition scopes_of :: "string \<Rightarrow> ws_db \<Rightarrow> dry_run_scope list" where
  "scopes_of drid db = filter (\<lambda>s. do_dry_run_id s = drid) (wt_dry_run_scopes db)"

definition scope_of :: "string \<Rightarrow> dry_run_scope list \<Rightarrow> dry_run_scope option" where
  "scope_of iid scopes = find (\<lambda>s. do_review_item_id s = iid) scopes"

definition reverify_item :: "ws_env \<Rightarrow> dry_run_scope list \<Rightarrow> review_entry \<Rightarrow> unit ws_op" where
  "reverify_item env scopes i =
     sbind (sget (listing_state (rx_listing_id i))) (\<lambda>st.
     case (scope_of (rx_id i) scopes, st) of
       (Some sc, Some (l, k, p, parent)) \<Rightarrow>
         sbind (sget (\<lambda>db. we_capabilities env db (ul_channel_id l))) (\<lambda>cap.
         case cap of None \<Rightarrow> sraise (Domain_error ''Channel is unavailable.'')
         | Some c \<Rightarrow>
             sbind (sawait (we_others env)) (\<lambda>_.
             sbind (sget (\<lambda>db. recheck_verdict env sc (read_live env db (recheck_probe l p sc (rx_field i) env)))) (\<lambda>verdict.
             case verdict of None \<Rightarrow> sret () | Some code \<Rightarrow> refuse 409 code)))
     | _ \<Rightarrow> refuse 409 ''CHANNEL_STATE_UNVERIFIABLE'')"

definition reverify_dry_run_live :: "ws_env \<Rightarrow> string \<Rightarrow> review_entry list \<Rightarrow> unit ws_op" where
  "reverify_dry_run_live env drid items =
     sbind (sget (scopes_of drid)) (\<lambda>scopes. sfoldM (\<lambda>_ i. reverify_item env scopes i) () items)"

end
