(* ===== verification/ApplyGate.thy ===== *)
theory ApplyGate
  imports DryRuns
begin

text \<open>
  The authorization of an Apply (the checks of \<^verbatim>\<open>apply_selected\<close> in \<^verbatim>\<open>unified_workspace/services.py\<close>
  around the job of \<^verbatim>\<open>ApplyJobs\<close>): before the job is created, again once it holds its Listing locks, and
  a last time after the commit that makes it visible, when the Channels are read once more. A request
  repeated under a known key returns the job it created and does not come here.
\<close>

section \<open>Before the job\<close>

record apply_arguments =
  aa_idempotency_key :: string
  aa_selection_checksum :: string
  aa_manifest_id :: string
  aa_manifest_checksum :: string
  aa_confirmed :: bool

text \<open>What a request that passes may apply.\<close>

record apply_pass =
  ap_review :: uw_review
  ap_snapshot :: uw_snapshot
  ap_draft :: uw_draft
  ap_selected_ids :: "string list"
  ap_selection_checksum :: string
  ap_manifest :: apply_manifest
  ap_dry_run :: dry_run
  ap_items :: "review_entry list"

definition get_manifest :: "string \<Rightarrow> ws_db \<Rightarrow> apply_manifest option" where
  "get_manifest mid db = get_row am_id mid (wt_manifests db)"

definition get_dry_run :: "string \<Rightarrow> ws_db \<Rightarrow> dry_run option" where
  "get_dry_run did db = get_row dn_id did (wt_dry_runs db)"

definition deny :: "bool \<Rightarrow> int \<Rightarrow> string \<Rightarrow> ws_error + unit" where
  "deny bad status code = (if bad then Inl (Refused status code) else Inr ())"

definition ct :: "string \<Rightarrow> string" where
  "ct s = canonical_text (Some s)"

text \<open>The evidence of a dry run is valid for the current selection of its review.\<close>

definition dry_run_valid :: "uw_review \<Rightarrow> string \<Rightarrow> dry_run option \<Rightarrow> bool" where
  "dry_run_valid r selection d = (case d of None \<Rightarrow> False
     | Some x \<Rightarrow> dn_status x = ''passed'' \<and> dn_review_id x = rw_id r \<and>
         dn_selection_checksum x = selection \<and> dn_selection_version x = rw_selection_version r)"

definition manifest_items :: "string \<Rightarrow> string \<Rightarrow> ws_db \<Rightarrow> review_entry list" where
  "manifest_items rid mid db = items_among rid
     (map ao_review_item_id (filter (\<lambda>op. ao_manifest_id op = mid) (wt_manifest_operations db))) db"

definition manifest_matches ::
    "ws_env \<Rightarrow> ws_db \<Rightarrow> uw_review \<Rightarrow> review_entry list \<Rightarrow> dry_run \<Rightarrow> string \<Rightarrow> ws_error + bool" where
  "manifest_matches env db r items d digest =
     rbind (manifest_document env db r items (dn_id d) (dn_evidence_checksum d)) (\<lambda>(document, _).
     Inr (we_checksum env document = digest))"

text \<open>The selection is the one that was confirmed.\<close>

definition check_selection :: "ws_env \<Rightarrow> ws_db \<Rightarrow> uw_review \<Rightarrow> string \<Rightarrow> ws_error + string list \<times> string" where
  "check_selection env db r confirmed =
     (let ids = selected_ids (rw_id r) db; items = items_among (rw_id r) ids db;
          selection = we_checksum env (selection_document r items) in
      rbind (deny (ids = []) 422 ''APPLY_SELECTION_REQUIRED'') (\<lambda>_.
      rbind (deny (length items \<noteq> length ids \<or> list_ex (\<lambda>i. \<not> rx_eligible i \<or> rx_errors i \<noteq> []) items)
        422 ''APPLY_SELECTION_INELIGIBLE'') (\<lambda>_.
      rbind (deny (sorted_set (map rx_channel_id items) \<noteq> sort (rw_selected_channel_ids r))
        409 ''SELECTION_CHANGED'') (\<lambda>_.
      rbind (deny (confirmed = [] \<or> confirmed \<noteq> selection \<or> rw_selection_checksum r \<noteq> Some selection)
        409 ''APPLY_SELECTION_CHECKSUM_MISMATCH'') (\<lambda>_.
      Inr (ids, selection))))))"

definition check_manifest ::
    "ws_env \<Rightarrow> ws_db \<Rightarrow> uw_review \<Rightarrow> string \<Rightarrow> string \<Rightarrow> string \<Rightarrow> ws_error + apply_manifest \<times> dry_run \<times> review_entry list" where
  "check_manifest env db r selection mid confirmed =
     (case get_manifest mid db of None \<Rightarrow> Inl (Refused 404 ''APPLY_MANIFEST_NOT_FOUND'')
      | Some m \<Rightarrow>
        rbind (deny (am_review_id m \<noteq> rw_id r) 404 ''APPLY_MANIFEST_NOT_FOUND'') (\<lambda>_.
        rbind (deny (\<not> truthy (am_dry_run_id m)) 409 ''MANIFEST_STALE'') (\<lambda>_.
        case get_dry_run (str_or (am_dry_run_id m) []) db of None \<Rightarrow> Inl (Refused 409 ''MANIFEST_STALE'')
        | Some d \<Rightarrow>
          rbind (deny (\<not> dry_run_valid r selection (Some d)) 409 ''MANIFEST_STALE'') (\<lambda>_.
          rbind (deny (confirmed = [] \<or> confirmed \<noteq> am_manifest_checksum m)
            409 ''APPLY_MANIFEST_CHECKSUM_MISMATCH'') (\<lambda>_.
          rbind (deny (am_selection_version m \<noteq> rw_selection_version r \<or> am_selection_checksum m \<noteq> selection)
            409 ''STALE_APPLY_MANIFEST'') (\<lambda>_.
          let items = manifest_items (rw_id r) (am_id m) db in
          rbind (deny (items = []) 409 ''MANIFEST_STALE'') (\<lambda>_.
          rbind (manifest_matches env db r items d (am_manifest_checksum m)) (\<lambda>same.
          rbind (deny (\<not> same) 409 ''STALE_APPLY_MANIFEST'') (\<lambda>_.
          Inr (m, d, items))))))))))"

definition apply_gate ::
    "ws_env \<Rightarrow> ws_db \<Rightarrow> uw_workspace \<Rightarrow> string \<Rightarrow> apply_arguments \<Rightarrow> ws_error + apply_pass" where
  "apply_gate env db w rid a =
     (case get_review rid db of None \<Rightarrow> Inl (Refused 404 ''REVIEW_NOT_FOUND'')
      | Some r \<Rightarrow>
        rbind (deny (rw_workspace_id r \<noteq> uw_id w) 404 ''REVIEW_NOT_FOUND'') (\<lambda>_.
        case (draft_for_workspace (uw_id w) db, snapshot_for_workspace (uw_id w) db) of
          (Some dr, Some sp) \<Rightarrow>
            rbind (deny (ud_current_revision_id dr \<noteq> Some (rw_draft_revision_id r) \<or> rw_snapshot_id r \<noteq> sp_id sp)
              409 ''APPLY_REVISION_MISMATCH'') (\<lambda>_.
            rbind (check_selection env db r (ct (aa_selection_checksum a))) (\<lambda>(ids, selection).
            rbind (check_manifest env db r selection (ct (aa_manifest_id a)) (ct (aa_manifest_checksum a)))
              (\<lambda>(m, d, items).
            Inr \<lparr>ap_review = r, ap_snapshot = sp, ap_draft = dr, ap_selected_ids = ids,
              ap_selection_checksum = selection, ap_manifest = m, ap_dry_run = d, ap_items = items\<rparr>)))
        | _ \<Rightarrow> Inl (Refused 409 ''APPLY_REVISION_MISMATCH'')))"

definition admit_apply :: "ws_env \<Rightarrow> string \<Rightarrow> string \<Rightarrow> apply_arguments \<Rightarrow> flowhub_user \<Rightarrow> (uw_workspace \<times> apply_pass) ws_op" where
  "admit_apply env wid rid a u =
     sbind (uw_workspace_for_user wid u True) (\<lambda>w.
     if \<not> has_workspace_permission u ''apply.execute'' then
       sbind (log_audit ''permission_denied'' u [(''workspace_id'', JStr (uw_id w)), (''reason'', JStr ''apply.execute'')]) (\<lambda>_.
       sbind scommit (\<lambda>_. refuse 403 ''WORKSPACE_PERMISSION_DENIED''))
     else if \<not> aa_confirmed a then refuse 422 ''APPLY_CONFIRMATION_REQUIRED''
     else if ct (aa_idempotency_key a) = [] \<or> 255 < length (ct (aa_idempotency_key a)) then refuse 422 ''IDEMPOTENCY_KEY_INVALID''
     else
       sbind (sget (\<lambda>db. apply_gate env db w rid a)) (\<lambda>verdict.
       sbind (slift verdict) (\<lambda>g.
       sbind (assert_review_fresh env (ap_review g) u) (\<lambda>_.
       sret (w, g)))))"

section \<open>Under the locks\<close>

definition same_selection :: "ws_env \<Rightarrow> ws_db \<Rightarrow> uw_review \<Rightarrow> apply_pass \<Rightarrow> string \<Rightarrow> bool" where
  "same_selection env db r g confirmed \<longleftrightarrow> selected_ids (rw_id r) db = ap_selected_ids g \<and>
     we_checksum env (selection_document r (ap_items g)) = confirmed"

definition locked_check :: "ws_env \<Rightarrow> uw_workspace \<Rightarrow> apply_pass \<Rightarrow> string \<Rightarrow> flowhub_user \<Rightarrow> unit ws_op" where
  "locked_check env w g confirmed u =
     sbind (sget (get_review (rw_id (ap_review g)))) (\<lambda>found.
     case found of None \<Rightarrow> refuse 409 ''REVIEW_NOT_READY''
     | Some r \<Rightarrow>
       if rw_status r \<noteq> ''ready'' then refuse 409 ''REVIEW_NOT_READY''
       else
         sbind (assert_review_fresh env r u) (\<lambda>_.
         sbind (sget (\<lambda>db. (same_selection env db r g confirmed, draft_for_workspace (uw_id w) db,
           get_dry_run (dn_id (ap_dry_run g)) db))) (\<lambda>(same, draft, d).
         if \<not> same then refuse 409 ''APPLY_SELECTION_CHECKSUM_MISMATCH''
         else if (case draft of None \<Rightarrow> True | Some x \<Rightarrow> ud_current_revision_id x \<noteq> Some (rw_draft_revision_id r))
         then refuse 409 ''APPLY_REVISION_MISMATCH''
         else if \<not> dry_run_valid r (ap_selection_checksum g) d then refuse 409 ''MANIFEST_STALE''
         else sret ())))"

section \<open>Before dispatch\<close>

datatype apply_verdict = Dispatch | Job_stale string

definition stale_job :: "ws_env \<Rightarrow> flowhub_user \<Rightarrow> uw_review \<Rightarrow> string \<Rightarrow> string \<Rightarrow> apply_verdict ws_op" where
  "stale_job env u r event reason =
     sbind (sget (we_now env)) (\<lambda>now.
     sbind (smodify (\<lambda>db. db\<lparr>wt_reviews := upd_row rw_id (rw_id r) (mark_stale now reason) (wt_reviews db)\<rparr>)) (\<lambda>_.
     sbind (log_audit event u [(''review_id'', JStr (rw_id r)), (''reason'', JStr reason)]) (\<lambda>_.
     sbind scommit (\<lambda>_.
     sret (Job_stale reason)))))"

definition pricing_reason :: "(string \<times> string) list \<Rightarrow> string" where
  "pricing_reason issues = ''pricing:'' @ join_reasons (map (\<lambda>(c, e). c @ '':'' @ e) (sort_key fst issues))"

definition dispatch_check :: "ws_env \<Rightarrow> uw_workspace \<Rightarrow> apply_pass \<Rightarrow> string \<Rightarrow> flowhub_user \<Rightarrow> apply_verdict ws_op" where
  "dispatch_check env w g confirmed u =
     sbind (sget (\<lambda>db. (get_review (rw_id (ap_review g)) db, get_dry_run (dn_id (ap_dry_run g)) db))) (\<lambda>found.
     case found of
       (Some r, Some d) \<Rightarrow>
         sbind (sget (\<lambda>db. same_selection env db r g confirmed)) (\<lambda>same.
         if dn_status d \<noteq> ''passed'' \<or> dn_selection_checksum d \<noteq> ap_selection_checksum g \<or>
            dn_selection_version d \<noteq> rw_selection_version r \<or> \<not> same
         then refuse 409 ''MANIFEST_STALE''
         else
           sbind (assert_source_evidence_current env w (ap_snapshot g)) (\<lambda>_.
           sbind (sget (\<lambda>db. (review_pricing_issues env db r, we_now env db))) (\<lambda>(issues, now).
           if issues \<noteq> [] then stale_job env u r ''apply_blocked_pricing_stale'' (pricing_reason issues)
           else if dn_created_at d < now - minutes STALE_APPLY_MINUTES then refuse 409 ''MANIFEST_STALE''
           else
             sbind (reverify_dry_run_live env (dn_id d) (ap_items g)) (\<lambda>_.
             sbind (sget (\<lambda>db. manifest_matches env db r (ap_items g) d (am_manifest_checksum (ap_manifest g)))) (\<lambda>verdict.
             sbind (slift verdict) (\<lambda>matches.
             if \<not> matches then stale_job env u r ''apply_blocked_manifest_stale'' ''apply_manifest_drift''
             else sret Dispatch))))))
     | _ \<Rightarrow> refuse 409 ''MANIFEST_STALE'')"

text \<open>
  The whole authorization: other transactions may commit while the job is created and takes its locks,
  and between the commit that makes it visible and the last check.
\<close>

definition authorize_apply ::
    "ws_env \<Rightarrow> string \<Rightarrow> string \<Rightarrow> apply_arguments \<Rightarrow> flowhub_user \<Rightarrow> (apply_pass \<times> apply_verdict) ws_op" where
  "authorize_apply env wid rid a u =
     sbind (admit_apply env wid rid a u) (\<lambda>(w, g).
     sbind (sawait (we_others env)) (\<lambda>_.
     sbind (locked_check env w g (ct (aa_selection_checksum a)) u) (\<lambda>_.
     sbind (sawait (we_others env)) (\<lambda>_.
     sbind (dispatch_check env w g (ct (aa_selection_checksum a)) u) (\<lambda>verdict.
     sret (g, verdict))))))"

section \<open>What a passed authorization implies\<close>

lemma deny_Inr [simp]: "deny b st c = Inr x \<longleftrightarrow> \<not> b"
  by (simp add: deny_def)

lemma check_selection_Inr:
  "check_selection env db r confirmed = Inr (ids, selection) \<longleftrightarrow>
     ids = selected_ids (rw_id r) db \<and> ids \<noteq> [] \<and>
     selection = we_checksum env (selection_document r (items_among (rw_id r) ids db)) \<and>
     length (items_among (rw_id r) ids db) = length ids \<and>
     (\<forall>i \<in> set (items_among (rw_id r) ids db). rx_eligible i \<and> rx_errors i = []) \<and>
     sorted_set (map rx_channel_id (items_among (rw_id r) ids db)) = sort (rw_selected_channel_ids r) \<and>
     confirmed \<noteq> [] \<and> confirmed = selection \<and> rw_selection_checksum r = Some selection"
  by (auto simp: check_selection_def Let_def rbind_eq_Inr list_ex_iff)

lemma check_manifest_Inr:
  "check_manifest env db r selection mid confirmed = Inr (m, d, items) \<Longrightarrow>
     get_manifest mid db = Some m \<and> am_review_id m = rw_id r \<and> get_dry_run (str_or (am_dry_run_id m) []) db = Some d \<and>
     dry_run_valid r selection (Some d) \<and> confirmed \<noteq> [] \<and> confirmed = am_manifest_checksum m \<and>
     am_selection_version m = rw_selection_version r \<and> am_selection_checksum m = selection \<and>
     items = manifest_items (rw_id r) (am_id m) db \<and> items \<noteq> [] \<and>
     manifest_matches env db r items d (am_manifest_checksum m) = Inr True"
  by (auto simp: check_manifest_def Let_def rbind_eq_Inr split: option.splits)

lemma apply_gate_Inr:
  assumes "apply_gate env db w rid a = Inr g"
  shows "get_review rid db = Some (ap_review g)" "rw_workspace_id (ap_review g) = uw_id w"
    "draft_for_workspace (uw_id w) db = Some (ap_draft g)" "snapshot_for_workspace (uw_id w) db = Some (ap_snapshot g)"
    "ud_current_revision_id (ap_draft g) = Some (rw_draft_revision_id (ap_review g))"
    "check_selection env db (ap_review g) (ct (aa_selection_checksum a)) = Inr (ap_selected_ids g, ap_selection_checksum g)"
    "check_manifest env db (ap_review g) (ap_selection_checksum g) (ct (aa_manifest_id a)) (ct (aa_manifest_checksum a))
       = Inr (ap_manifest g, ap_dry_run g, ap_items g)"
  using assms by (auto simp: apply_gate_def rbind_eq_Inr split: option.splits)

lemma fresh_run:
  "assert_review_fresh env r u s = (Inr x, s') \<longleftrightarrow> s' = s \<and> stale_reasons env (pending s) r = []"
  by (auto simp: assert_review_fresh_def session_bind session_run refuse_def log_audit_def)

lemma evidence_run:
  "assert_source_evidence_current env w sp s = (Inr x, s') \<longleftrightarrow>
     s' = s \<and> source_evidence_issue env (pending s) w sp = None"
  by (auto simp: assert_source_evidence_current_def session_bind session_run refuse_def split: option.splits)

lemma admit_apply_run:
  assumes "admit_apply env wid rid a u (opened db) = (Inr (w, g), s)"
  shows "s = opened db" "has_workspace_permission u ''apply.execute''" "aa_confirmed a"
    "apply_gate env db w rid a = Inr g" "stale_reasons env db (ap_review g) = []"
    "uw_workspace_for_user wid u True (opened db) = (Inr w, opened db)"
proof -
  obtain w' s1 where acc: "uw_workspace_for_user wid u True (opened db) = (Inr w', s1)"
      and rest: "(if \<not> has_workspace_permission u ''apply.execute'' then
       sbind (log_audit ''permission_denied'' u [(''workspace_id'', JStr (uw_id w')), (''reason'', JStr ''apply.execute'')]) (\<lambda>_.
       sbind scommit (\<lambda>_. refuse 403 ''WORKSPACE_PERMISSION_DENIED''))
     else if \<not> aa_confirmed a then refuse 422 ''APPLY_CONFIRMATION_REQUIRED''
     else if ct (aa_idempotency_key a) = [] \<or> 255 < length (ct (aa_idempotency_key a)) then refuse 422 ''IDEMPOTENCY_KEY_INVALID''
     else
       sbind (sget (\<lambda>db. apply_gate env db w' rid a)) (\<lambda>verdict.
       sbind (slift verdict) (\<lambda>g.
       sbind (assert_review_fresh env (ap_review g) u) (\<lambda>_.
       sret (w', g))))) s1 = (Inr (w, g), s)"
    using assms unfolding admit_apply_def by (auto simp: sbind_returns)
  have s1: "s1 = opened db" using access_run(1)[OF acc] .
  show "s = opened db" "has_workspace_permission u ''apply.execute''" "aa_confirmed a"
    "apply_gate env db w rid a = Inr g" "stale_reasons env db (ap_review g) = []"
    "uw_workspace_for_user wid u True (opened db) = (Inr w, opened db)"
    using rest acc
    by (auto simp: s1 sbind_returns fresh_run session_run refuse_def log_audit_def split: if_splits)
qed

lemma locked_check_run:
  assumes "locked_check env w g confirmed u (opened db) = (Inr x, s)"
  obtains r where "s = opened db" "get_review (rw_id (ap_review g)) db = Some r" "rw_status r = ''ready''"
    "stale_reasons env db r = []" "same_selection env db r g confirmed"
    "\<exists>dr. draft_for_workspace (uw_id w) db = Some dr \<and> ud_current_revision_id dr = Some (rw_draft_revision_id r)"
    "dry_run_valid r (ap_selection_checksum g) (get_dry_run (dn_id (ap_dry_run g)) db)"
  using assms
  by (auto simp: locked_check_def sbind_returns fresh_run session_run refuse_def split: option.splits if_splits)

lemma reverify_item_run:
  assumes "reverify_item env scopes i (opened db) = (Inr x, s)"
  obtains sc observed where "s = opened (we_others env db)" "scope_of (rx_id i) scopes = Some sc"
    "recheck_verdict env sc (observed, False) = None"
proof -
  have "\<exists>sc live. s = opened (we_others env db) \<and> scope_of (rx_id i) scopes = Some sc \<and> recheck_verdict env sc live = None"
    using assms by (auto simp: reverify_item_def sbind_returns session_run refuse_def split: option.splits prod.splits)
      (metis surj_pair)
  then obtain sc observed failed where r: "s = opened (we_others env db)" "scope_of (rx_id i) scopes = Some sc"
      "recheck_verdict env sc (observed, failed) = None" by auto
  then have "\<not> failed" by (auto simp: recheck_verdict_def)
  with that r show ?thesis by simp
qed

lemma reverify_items_run:
  assumes "sfoldM (\<lambda>_ i. reverify_item env scopes i) () items (opened db) = (Inr x, s)"
  shows "\<exists>e. s = opened e \<and> (\<forall>i \<in> set items. \<exists>sc observed.
    scope_of (rx_id i) scopes = Some sc \<and> recheck_verdict env sc (observed, False) = None)"
  using assms
proof (induction items arbitrary: db)
  case (Cons i items)
  then obtain u s1 where 1: "reverify_item env scopes i (opened db) = (Inr u, s1)"
      "sfoldM (\<lambda>_ i. reverify_item env scopes i) () items s1 = (Inr x, s)"
    by (auto simp: sbind_returns)
  from 1(1) obtain sc observed where i: "s1 = opened (we_others env db)" "scope_of (rx_id i) scopes = Some sc"
      "recheck_verdict env sc (observed, False) = None"
    by (rule reverify_item_run)
  with Cons.IH[OF 1(2)[unfolded i(1)]] show ?case by fastforce
qed (auto simp: session_run)

lemma reverify_run:
  assumes "reverify_dry_run_live env did items (opened db) = (Inr x, s)"
  shows "\<exists>e. s = opened e \<and> (\<forall>i \<in> set items. \<exists>sc observed.
    scope_of (rx_id i) (scopes_of did db) = Some sc \<and> recheck_verdict env sc (observed, False) = None)"
  using assms reverify_items_run by (simp add: reverify_dry_run_live_def session_bind)

lemma dispatch_check_run:
  assumes "dispatch_check env w g confirmed u (opened db) = (Inr Dispatch, s)"
  obtains r d e where "get_review (rw_id (ap_review g)) db = Some r" "get_dry_run (dn_id (ap_dry_run g)) db = Some d"
    "same_selection env db r g confirmed" "dn_status d = ''passed''" "dn_selection_checksum d = ap_selection_checksum g"
    "dn_selection_version d = rw_selection_version r" "source_evidence_issue env db w (ap_snapshot g) = None"
    "review_pricing_issues env db r = []" "we_now env db - minutes STALE_APPLY_MINUTES \<le> dn_created_at d"
    "\<forall>i \<in> set (ap_items g). \<exists>sc observed.
       scope_of (rx_id i) (scopes_of (dn_id d) db) = Some sc \<and> recheck_verdict env sc (observed, False) = None"
    "s = opened e" "manifest_matches env e r (ap_items g) d (am_manifest_checksum (ap_manifest g)) = Inr True"
proof -
  have no: "stale_job env u r ev reason s1 \<noteq> (Inr Dispatch, s2)" for r ev reason s1 s2
    by (simp add: stale_job_def session_bind session_run log_audit_def)
  obtain r d where f: "get_review (rw_id (ap_review g)) db = Some r" "get_dry_run (dn_id (ap_dry_run g)) db = Some d"
    using assms unfolding dispatch_check_def
    by (auto simp: sbind_returns session_run refuse_def split: option.splits)
  have c: "same_selection env db r g confirmed" "dn_status d = ''passed''" "dn_selection_checksum d = ap_selection_checksum g"
      "dn_selection_version d = rw_selection_version r" "source_evidence_issue env db w (ap_snapshot g) = None"
      "review_pricing_issues env db r = []" "\<not> dn_created_at d < we_now env db - minutes STALE_APPLY_MINUTES"
      "\<exists>y s1. reverify_dry_run_live env (dn_id d) (ap_items g) (opened db) = (Inr y, s1) \<and> s = s1 \<and>
         manifest_matches env (pending s1) r (ap_items g) d (am_manifest_checksum (ap_manifest g)) = Inr True"
    using assms f no unfolding dispatch_check_def
    by (auto simp: sbind_returns evidence_run session_run refuse_def split: if_splits)
  then obtain y s1 where v: "reverify_dry_run_live env (dn_id d) (ap_items g) (opened db) = (Inr y, s1)" and m: "s = s1"
      "manifest_matches env (pending s1) r (ap_items g) d (am_manifest_checksum (ap_manifest g)) = Inr True"
    by blast
  obtain e where e: "s1 = opened e" "\<forall>i \<in> set (ap_items g). \<exists>sc observed.
       scope_of (rx_id i) (scopes_of (dn_id d) db) = Some sc \<and> recheck_verdict env sc (observed, False) = None"
    using reverify_run[OF v] by blast
  with that f c m show ?thesis by (simp add: not_less)
qed

lemma authorize_run:
  assumes "authorize_apply env wid rid a u (opened db) = (Inr (g, Dispatch), s)"
  obtains w mid where "admit_apply env wid rid a u (opened db) = (Inr (w, g), opened db)"
    "locked_check env w g (ct (aa_selection_checksum a)) u (opened (we_others env db)) = (Inr (), opened (we_others env db))"
    "mid = we_others env (we_others env db)"
    "dispatch_check env w g (ct (aa_selection_checksum a)) u (opened mid) = (Inr Dispatch, s)"
proof -
  obtain w s1 s2 where r: "admit_apply env wid rid a u (opened db) = (Inr (w, g), s1)"
      "locked_check env w g (ct (aa_selection_checksum a)) u (opened (we_others env (durable s1))) = (Inr (), s2)"
      "dispatch_check env w g (ct (aa_selection_checksum a)) u (opened (we_others env (durable s2))) = (Inr Dispatch, s)"
    using assms unfolding authorize_apply_def by (auto simp: sbind_returns session_run)
  have "s1 = opened db" using admit_apply_run(1)[OF r(1)] .
  moreover from this r(2) have "s2 = opened (we_others env db)" by (auto elim: locked_check_run)
  ultimately show ?thesis using that r by simp
qed

end
