(* ===== verification/ReviewRuns.thy ===== *)
theory ReviewRuns
  imports ApplyGate "HOL-Library.Multiset"
begin

text \<open>
  Runs of the review operations: what a finished dry run saw and stored, what a passed authorization
  established, which tables the operations keep, and what the checksums of selections and manifests
  tell apart. \<^verbatim>\<open>ReviewSafety\<close> draws the properties from these.
\<close>

section \<open>Runs\<close>

lemma fresh_for_dry_run_run:
  "fresh_for_dry_run env r u s = (Inr x, s') \<longleftrightarrow> s' = s \<and> stale_reasons env (pending s) r = []"
  by (auto simp: fresh_for_dry_run_def assert_review_fresh_def scatch_def session_bind session_run refuse_def
      log_audit_def)

lemma run_dry_run_run:
  assumes "run_dry_run env wid rid u (opened db) = (Inr x, s)"
  obtains r w sp items selection scopes s1 where "uw_workspace_for_user wid u True (opened db) = (Inr w, opened db)"
    "get_review rid db = Some r" "rw_workspace_id r = uw_id w" "snapshot_for_workspace (uw_id w) db = Some sp"
    "source_evidence_issue env db w sp = None" "plan_dry_run env r db = Inr (items, selection)"
    "stale_reasons env db r = []"
    "judge_listings env (sort_key fst (group_by rx_listing_id items)) (opened db) = (Inr scopes, s1)"
    "complete_dry_run env u r selection scopes s1 = (Inr x, s)"
proof -
  obtain w s0 where acc: "uw_workspace_for_user wid u True (opened db) = (Inr w, s0)"
    using assms unfolding run_dry_run_def by (auto simp: sbind_returns)
  have s0: "s0 = opened db" using access_run(1)[OF acc] .
  obtain r sp where f: "get_review rid db = Some r" "snapshot_for_workspace (uw_id w) db = Some sp"
    using assms unfolding run_dry_run_def sbind_run[of "uw_workspace_for_user wid u True", OF acc[unfolded s0]]
    by (auto simp: session_bind session_run refuse_def split: option.splits)
  show ?thesis
    using assms f acc that unfolding run_dry_run_def sbind_run[of "uw_workspace_for_user wid u True", OF acc[unfolded s0]]
    by (auto simp: sbind_returns session_run refuse_def evidence_run fresh_for_dry_run_run s0 split: if_splits)
qed

section \<open>Versions a review captures\<close>

lemma add_review_item_keeps:
  "set (wt_cache_versions db) \<subseteq> set (wt_cache_versions (fold (add_review_item env rid) ps db))"
  by (induction ps arbitrary: db) (fastforce simp: add_review_item_def)+

lemma captured_listing:
  assumes "p \<in> set ps" "pi_listing p = Some l" "pi_cache p = Some k"
  shows "\<exists>v \<in> set (wt_cache_versions (fold (add_review_item env rid) ps db)). rc_review_id v = rid \<and> rc_listing_id v = ul_id l"
  using assms(1)
proof (induction ps arbitrary: db)
  case (Cons q ps)
  show ?case
  proof (cases "p = q")
    case True
    have "\<exists>v \<in> set (wt_cache_versions (add_review_item env rid p db)). rc_review_id v = rid \<and> rc_listing_id v = ul_id l"
      using assms(2,3) by (auto simp: add_review_item_def captured_version_def)
    with True add_review_item_keeps[of "add_review_item env rid q db" env rid ps] show ?thesis by auto
  qed (use Cons in simp)
qed simp

lemma plan_review_Inr:
  assumes "plan_review env db w sp rv = Inr plan"
  obtains prepared profile bindings issues where
    "rmap (prepare_item env db) (revision_changes (dv_id rv) db) = Inr prepared" "revision_changes (dv_id rv) db \<noteq> []"
    "get_row cu_id (sp_currency_profile_id sp) (wt_currency_profiles db) = Some profile"
    "rp_items plan = map (add_pricing_issue issues) prepared"
    "rw_id (rp_review plan) = we_id env db" "rw_workspace_id (rp_review plan) = uw_id w"
    "rw_ruleset_version (rp_review plan) = VALIDATION_VERSION"
    "rw_currency_profile_id (rp_review plan) = cu_id profile"
    "rw_currency_profile_version (rp_review plan) = cu_version profile"
    "rw_currency_profile_checksum (rp_review plan) = cu_checksum profile"
    "rw_currency_source_reference (rp_review plan) = profile_reference profile"
    "rw_currency_ruleset_version (rp_review plan) = CURRENCY_RULESET_VERSION"
    "rw_mapping_digest (rp_review plan) = entries_digest env (map mapping_entry (List.map_filter pi_listing prepared))"
    "rw_capability_digest (rp_review plan) =
      entries_digest env (map (capability_entry env db \<circ> dg_channel_id \<circ> dc_change) (revision_changes (dv_id rv) db))"
    "rw_currency_digest (rp_review plan) =
      entries_digest env (map (currency_entry env db \<circ> dg_channel_id \<circ> dc_change) (revision_changes (dv_id rv) db))"
    "rw_currency_channel_references (rp_review plan) = sort (map currency_reference (unique_entries env
      (map (currency_entry env db \<circ> dg_channel_id \<circ> dc_change) (revision_changes (dv_id rv) db))))"
    "rw_status (rp_review plan) = (if \<exists>p \<in> set (rp_items plan). pi_errors p = [] then ''ready'' else ''blocked'')"
proof -
  obtain bindings issues where b: "(if price_channels (map dc_change (revision_changes (dv_id rv) db)) = [] then (JList [], [])
      else we_bind_pricing env db (uw_id w) (price_channels (map dc_change (revision_changes (dv_id rv) db)))) = (bindings, issues)"
    by fastforce
  obtain prepared profile where p: "rmap (prepare_item env db) (revision_changes (dv_id rv) db) = Inr prepared"
      "revision_changes (dv_id rv) db \<noteq> []"
      "get_row cu_id (sp_currency_profile_id sp) (wt_currency_profiles db) = Some profile"
    using assms by (auto simp: plan_review_def Let_def rbind_eq_Inr split: if_splits option.splits)
  define cs where "cs = map (dg_channel_id \<circ> dc_change) (revision_changes (dv_id rv) db)"
  define items where "items = map (add_pricing_issue issues) prepared"
  obtain ck sm where plan: "plan = \<lparr>rp_review = \<lparr>rw_id = we_id env db, rw_workspace_id = uw_id w, rw_snapshot_id = sp_id sp,
      rw_draft_revision_id = dv_id rv, rw_status = (if \<exists>p \<in> set items. pi_errors p = [] then ''ready'' else ''blocked''),
      rw_ruleset_version = VALIDATION_VERSION,
      rw_capability_digest = entries_digest env (map (capability_entry env db) cs),
      rw_currency_digest = entries_digest env (map (currency_entry env db) cs),
      rw_currency_profile_id = cu_id profile, rw_currency_profile_version = cu_version profile,
      rw_currency_profile_checksum = cu_checksum profile, rw_currency_source_reference = profile_reference profile,
      rw_currency_channel_references = sort (map currency_reference (unique_entries env (map (currency_entry env db) cs))),
      rw_currency_ruleset_version = CURRENCY_RULESET_VERSION,
      rw_mapping_digest = entries_digest env (map mapping_entry (List.map_filter pi_listing prepared)),
      rw_checksum = ck, rw_summary = sm, rw_invalidated_at = None, rw_stale_reason = None, rw_selection_version = 0,
      rw_selection_checksum = None, rw_selected_channel_ids = []\<rparr>, rp_items = items\<rparr>"
    using assms by (auto simp add: plan_review_def Let_def p b comp_assoc items_def cs_def)
  show ?thesis by (rule that[OF p, of issues]) (simp_all add: plan items_def cs_def comp_assoc)
qed

section \<open>What operations keep\<close>

text \<open>A property of the tables that holds of the durable and the pending ones, before and after.\<close>

definition tx_inv :: "('db \<Rightarrow> bool) \<Rightarrow> 'db tx \<Rightarrow> bool" where
  "tx_inv I s \<longleftrightarrow> I (durable s) \<and> I (pending s)"

definition op_keeps :: "('db \<Rightarrow> bool) \<Rightarrow> ('db, 'e, 'a) op \<Rightarrow> bool" where
  "op_keeps I m \<longleftrightarrow> (\<forall>s. tx_inv I s \<longrightarrow> tx_inv I (snd (m s)))"

named_theorems keeps_rules \<open>operations that keep an invariant of the tables\<close>

lemma op_keeps_basic [keeps_rules]:
  "op_keeps I (sret x)" "op_keeps I (sraise e)" "op_keeps I (sget g)" "op_keeps I (slift r)" "op_keeps I scommit"
  "op_keeps I srollback"
  by (simp_all add: op_keeps_def tx_inv_def session_run)

lemma op_keeps_refuse [keeps_rules]: "op_keeps I (refuse st c)"
  by (simp add: refuse_def keeps_rules)

lemma op_keeps_modify: "(\<And>db. I db \<Longrightarrow> I (f db)) \<Longrightarrow> op_keeps I (smodify f)"
  by (simp add: op_keeps_def tx_inv_def session_run)

lemma op_keeps_bind [keeps_rules]:
  "op_keeps I m \<Longrightarrow> (\<And>x. op_keeps I (f x)) \<Longrightarrow> op_keeps I (sbind m f)"
  unfolding op_keeps_def sbind_def by (fastforce split: prod.split sum.split)

lemma op_keeps_catch [keeps_rules]:
  "op_keeps I m \<Longrightarrow> (\<And>e. op_keeps I (h e)) \<Longrightarrow> op_keeps I (scatch m h)"
  unfolding op_keeps_def scatch_def by (fastforce split: prod.split sum.split)

lemma op_keepsD: "op_keeps I m \<Longrightarrow> tx_inv I s \<Longrightarrow> m s = (r, s') \<Longrightarrow> tx_inv I s'"
  unfolding op_keeps_def by (metis snd_conv)

lemma tx_inv_opened [simp]: "tx_inv I (opened db) \<longleftrightarrow> I db"
  by (simp add: tx_inv_def)

section \<open>One live dry run\<close>

definition live_runs :: "string \<Rightarrow> ws_db \<Rightarrow> dry_run list" where
  "live_runs rid db = filter (\<lambda>d. dn_review_id d = rid \<and> dn_status d \<in> {''running'', ''passed''}) (wt_dry_runs db)"

definition one_live :: "ws_db \<Rightarrow> bool" where
  "one_live db \<longleftrightarrow> (\<forall>rid. length (live_runs rid db) \<le> 1)"

lemma one_live_cong: "wt_dry_runs db = wt_dry_runs db' \<Longrightarrow> one_live db \<longleftrightarrow> one_live db'"
  by (simp add: one_live_def live_runs_def)

lemma live_runs_invalidated:
  "length (live_runs rid (invalidate_dry_runs rid' db)) = (if rid = rid' then 0 else length (live_runs rid db))"
proof -
  have "filter (\<lambda>d. dn_review_id d = rid \<and> dn_status d \<in> {''running'', ''passed''}) (map (\<lambda>d.
      if dn_review_id d = rid' \<and> dn_status d \<in> {''running'', ''passed''} then d\<lparr>dn_status := ''invalidated''\<rparr> else d) t) =
    (if rid = rid' then [] else filter (\<lambda>d. dn_review_id d = rid \<and> dn_status d \<in> {''running'', ''passed''}) t)" for t
    by (induction t) auto
  from this[of "wt_dry_runs db"] have "live_runs rid (invalidate_dry_runs rid' db) = (if rid = rid' then [] else live_runs rid db)"
    by (simp add: live_runs_def invalidate_dry_runs_def)
  then show ?thesis by simp
qed

lemma store_dry_run_one_live: "one_live db \<Longrightarrow> one_live (store_dry_run env d scopes db)"
proof -
  assume "one_live db"
  show ?thesis unfolding one_live_def
  proof
    fix rid
    have "length (live_runs rid (store_dry_run env d scopes db)) \<le>
        length (live_runs rid (invalidate_dry_runs (dn_review_id d) db)) + (if rid = dn_review_id d then 1 else 0)"
      by (simp add: live_runs_def store_dry_run_def Let_def)
    then show "length (live_runs rid (store_dry_run env d scopes db)) \<le> 1"
      using \<open>one_live db\<close> spec[of _ rid] by (auto simp: live_runs_invalidated one_live_def split: if_splits intro: le_trans)
  qed
qed

lemma store_selection_one_live: "one_live db \<Longrightarrow> one_live (store_selection u r ids db)"
  unfolding one_live_def store_selection_def
  by (auto simp: live_runs_invalidated) (simp add: live_runs_def)

lemma op_keeps_audit [keeps_rules]: "op_keeps one_live (log_audit ev u cols)"
  unfolding log_audit_def by (intro op_keeps_modify) (simp add: one_live_def live_runs_def)

lemma op_keeps_same: "(\<And>db. wt_dry_runs (f db) = wt_dry_runs db) \<Longrightarrow> op_keeps one_live (smodify f)"
  by (intro op_keeps_modify) (simp add: one_live_def live_runs_def)

lemma add_operations_dry_runs [simp]: "wt_dry_runs (fold (add_operation env mid ps) items db) = wt_dry_runs db"
  by (rule fold_keeps) (simp add: add_operation_def)

lemma complete_keeps: "op_keeps one_live (complete_dry_run env u r selection scopes)"
  unfolding complete_dry_run_def generate_apply_manifest_def
  by (intro op_keeps_bind op_keeps_modify op_keeps_same keeps_rules store_dry_run_one_live)
    (auto intro!: op_keeps_bind op_keeps_same keeps_rules split: if_split)

lemma judge_listing_state:
  "judge_listing env lid members (opened db) = (r, s) \<Longrightarrow> s = opened db \<or> s = opened (we_others env db)"
  by (auto simp: judge_listing_def session_bind session_run split: option.splits prod.splits)

lemma funpow_opened: "s = opened ((f ^^ n) (f db)) \<Longrightarrow> \<exists>n. s = opened ((f ^^ n) db)"
  by (metis funpow_Suc_right o_apply)

lemma judge_listings_state:
  "judge_listings env groups (opened db) = (r, s) \<Longrightarrow> \<exists>n. s = opened ((we_others env ^^ n) db)"
proof -
  define step where "step = (\<lambda>scopes (lid, members). sbind (judge_listing env lid members) (\<lambda>more. sret (scopes @ more)))"
  have "sfoldM step acc groups (opened db) = (r, s) \<Longrightarrow> \<exists>n. s = opened ((we_others env ^^ n) db)" for acc
  proof (induction groups arbitrary: acc db)
    case Nil
    then show ?case by (auto simp: session_run intro!: exI[of _ 0])
  next
    case (Cons g groups)
    obtain lid members where g: "g = (lid, members)" by fastforce
    obtain q s1 where j: "judge_listing env lid members (opened db) = (q, s1)" by fastforce
    from judge_listing_state[OF this] consider "s1 = opened db" | "s1 = opened (we_others env db)" by blast
    then show ?case
    proof cases
      case 1
      with Cons j show ?thesis
        by (cases q) (auto simp: g step_def sbind_def session_run intro: exI[of _ 0])
    next
      case 2
      show ?thesis
      proof (cases q)
        case (Inl e)
        with Cons.prems j 2 have "s = opened (we_others env db)" by (simp add: g step_def sbind_def)
        then show ?thesis by (auto intro: exI[of _ 1])
      next
        case (Inr more)
        have st: "step acc g (opened db) = (Inr (acc @ more), opened (we_others env db))"
          unfolding step_def g prod.case sbind_def by (simp add: j 2 Inr session_run)
        have run: "sbind (step acc g) (\<lambda>acc'. sfoldM step acc' groups) (opened db) =
            sfoldM step (acc @ more) groups (opened (we_others env db))"
          by (rule sbind_run[where m = "step acc g", OF st])
        have "sbind (step acc g) (\<lambda>acc'. sfoldM step acc' groups) (opened db) = (r, s)"
          using Cons.prems by (simp only: sfoldM.simps)
        from trans[OF sym[OF run] this]
        obtain n where "s = opened ((we_others env ^^ n) (we_others env db))" using Cons.IH by blast
        then show ?thesis by (rule funpow_opened)
      qed
    qed
  qed
  then show "judge_listings env groups (opened db) = (r, s) \<Longrightarrow> \<exists>n. s = opened ((we_others env ^^ n) db)"
    by (simp add: judge_listings_def step_def)
qed

lemma access_keeps [keeps_rules]: "op_keeps I (uw_workspace_for_user wid u edit)"
  unfolding uw_workspace_for_user_def by (auto intro!: keeps_rules split: option.split)

lemma fresh_keeps [keeps_rules]: "op_keeps one_live (assert_review_fresh env r u)"
  unfolding assert_review_fresh_def by (auto intro!: keeps_rules op_keeps_same)

lemma evidence_keeps [keeps_rules]: "op_keeps I (assert_source_evidence_current env w sp)"
  unfolding assert_source_evidence_current_def by (auto intro!: keeps_rules split: option.split)

lemma fresh_for_keeps: "op_keeps one_live (fresh_for_dry_run env r u)"
  unfolding fresh_for_dry_run_def by (intro keeps_rules)

lemma select_one_live:
  assumes "select_review_items env wid rid ids u (opened db) = (r, s)" "one_live db" "one_live (we_others env db)"
  shows "one_live (durable s)"
proof -
  obtain q s0 where acc: "uw_workspace_for_user wid u True (opened db) = (q, s0)" by fastforce
  have s0: "s0 = opened db" using acc by (cases q) (auto dest: access_run)
  have "tx_inv one_live s"
  proof (cases q)
    case (Inl e)
    then have "s = opened db" using assms(1) acc s0 by (simp add: select_review_items_def sbind_raise)
    then show ?thesis using assms(2) by simp
  next
    case (Inr w)
    have k: "op_keeps one_live (sbind (smodify (store_selection u (selected_review env r' items) ids')) (\<lambda>_.
       sbind (log_audit ''review_selection_saved'' u [(''review_id'', JStr (rw_id r'))]) (\<lambda>_. sbind scommit (\<lambda>_. sret y))))"
      for r' items ids' y
      by (intro keeps_rules op_keeps_modify store_selection_one_live)
    show ?thesis
    proof (cases "plan_selection (uw_id w) rid ids u db")
      case (Inl e)
      with assms(1) acc s0 Inr have "s = opened db" by (simp add: select_review_items_def sbind_run session_bind(3,8))
      then show ?thesis using assms(2) by simp
    next
      case plan: (Inr v)
      obtain r' items ids' where v: "v = (r', items, ids')" by (cases v)
      have "sbind (smodify (store_selection u (selected_review env r' items) ids')) (\<lambda>_.
          sbind (log_audit ''review_selection_saved'' u [(''review_id'', JStr (rw_id r'))]) (\<lambda>_. sbind scommit (\<lambda>_.
          sret \<lparr>sx_item_ids = ids', sx_checksum = rw_selection_checksum (selected_review env r' items),
            sx_version = rw_selection_version r' + 1\<rparr>))) (opened (we_others env db)) = (r, s)"
        using assms(1) acc s0 Inr plan by (simp add: v select_review_items_def sbind_run session_bind(3,7,8))
      from op_keepsD[OF k _ this] assms(3) show ?thesis by simp
    qed
  qed
  then show ?thesis by (simp add: tx_inv_def)
qed

lemma dry_run_one_live:
  assumes "run_dry_run env wid rid u (opened db) = (r, s)" "\<And>n. one_live ((we_others env ^^ n) db)"
  shows "one_live (durable s)"
proof -
  have db: "tx_inv one_live (opened db)" using assms(2)[of 0] by simp
  obtain q s0 where acc: "uw_workspace_for_user wid u True (opened db) = (q, s0)" by fastforce
  have s0: "s0 = opened db" using acc by (cases q) (auto dest: access_run)
  have judged: "tx_inv one_live s'" if "sbind (judge_listings env gs) (\<lambda>scopes. complete_dry_run env u rr sel scopes) (opened db) = (r', s')"
    for gs rr sel r' s'
  proof -
    obtain q1 s1 where j: "judge_listings env gs (opened db) = (q1, s1)" by fastforce
    then have "tx_inv one_live s1" using judge_listings_state assms(2) by fastforce
    with that j show ?thesis
      by (cases q1) (auto simp: sbind_run sbind_raise intro: op_keepsD[OF complete_keeps])
  qed
  have fresh: "tx_inv one_live s'" if "sbind (fresh_for_dry_run env rr u) (\<lambda>_. sbind (judge_listings env gs)
      (\<lambda>scopes. complete_dry_run env u rr sel scopes)) (opened db) = (r', s')" for gs rr sel r' s'
  proof -
    obtain q1 s1 where f: "fresh_for_dry_run env rr u (opened db) = (q1, s1)" by fastforce
    show ?thesis
    proof (cases q1)
      case (Inl e)
      with that f have "s' = s1" by (simp add: sbind_raise)
      with op_keepsD[OF fresh_for_keeps db f] show ?thesis by simp
    next
      case (Inr x)
      with f have "s1 = opened db" by (simp add: fresh_for_dry_run_run)
      with that f Inr show ?thesis by (auto simp: sbind_run intro: judged)
    qed
  qed
  have "tx_inv one_live s"
  proof (cases q)
    case (Inl e)
    then have "s = opened db" using assms(1) acc s0 by (simp add: run_dry_run_def sbind_raise)
    then show ?thesis using db by simp
  next
    case (Inr w)
    with assms(1) acc s0 db show ?thesis
      by (auto simp: run_dry_run_def sbind_run session_bind session_run refuse_def assert_source_evidence_current_def
          split: option.splits sum.splits if_splits intro: fresh)
  qed
  then show ?thesis by (simp add: tx_inv_def)
qed

text \<open>
  Runs of any number of sessions: each saves a selection or runs a dry run, the transactions that come
  between its reads being such runs themselves; everything else leaves the dry runs alone.
\<close>

inductive review_runs :: "ws_db \<Rightarrow> ws_db \<Rightarrow> bool" where
  no_review_run: "review_runs db db"
| select_run: "review_runs a db \<Longrightarrow> review_runs a (we_others env db) \<Longrightarrow>
    select_review_items env wid rid ids u (opened db) = (r, s) \<Longrightarrow> review_runs a (durable s)"
| dry_run_run: "(\<And>n. review_runs a ((we_others env ^^ n) db)) \<Longrightarrow>
    run_dry_run env wid rid u (opened db) = (r, s) \<Longrightarrow> review_runs a (durable s)"
| other_review_run: "review_runs a db \<Longrightarrow> wt_dry_runs db' = wt_dry_runs db \<Longrightarrow> review_runs a db'"

lemma review_runs_one_live: "review_runs a b \<Longrightarrow> one_live a \<Longrightarrow> one_live b"
proof (induction rule: review_runs.induct)
  case (select_run a db env wid rid ids u r s)
  then show ?case using select_one_live by blast
next
  case (dry_run_run a env db wid rid u r s)
  then show ?case using dry_run_one_live by blast
next
  case (other_review_run a db db')
  then show ?case using one_live_cong by blast
qed

section \<open>Judged scopes\<close>

lemma group_by_mset: "mset (concat (map snd (group_by f xs))) = mset xs"
proof -
  have one: "mset (concat (map snd (dict_setdefault_append k x d))) = add_mset x (mset (concat (map snd d)))" for k x d
    unfolding dict_setdefault_append_def by (induction d) (auto split: option.splits)
  have "mset (concat (map snd (fold (\<lambda>x. dict_setdefault_append (f x) x) xs d))) = mset xs + mset (concat (map snd d))" for d
    by (induction xs arbitrary: d) (simp_all add: one)
  from this[of "[]"] show ?thesis by (simp add: group_by_def)
qed

lemma sort_key_concat_mset: "mset (concat (map snd (sort_key fst d))) = mset (concat (map snd d))"
  by (metis mset_concat mset_map mset_sort sum_mset_sum_list)

lemma judge_item_blocked: "lv_disposition (dry_run_block i c observed expected) = ''blocked''" "lv_item (dry_run_block i c observed expected) = i"
  by (simp_all add: dry_run_block_def)

lemma judge_item_item [simp]: "lv_item (judge_item env live expected i) = i"
  by (simp add: judge_item_def judge_item_blocked Let_def split: prod.split)

lemma judge_item_passed:
  assumes "lv_disposition (judge_item env (observed, failed) expected i) \<noteq> ''blocked''"
  shows "\<not> failed" "observed \<noteq> []" "\<not> evidence_unverifiable env observed expected" "\<not> evidence_drifted env observed expected"
    "lv_observed (judge_item env (observed, failed) expected i) = observed"
    "lv_expected (judge_item env (observed, failed) expected i) = expected"
    "if values_equal (rx_field i) (json_opt env (jget (rx_field i) observed)) (Some (rx_target_value i))
     then lv_disposition (judge_item env (observed, failed) expected i) = ''no_op''
     else lv_disposition (judge_item env (observed, failed) expected i) = ''write'' \<and>
       values_equal (rx_field i) (json_opt env (jget (rx_field i) observed)) (rx_current_value i)"
  using assms by (simp_all add: judge_item_def judge_item_blocked Let_def split: if_splits)

definition judged :: "ws_env \<Rightarrow> ws_db \<Rightarrow> string \<Rightarrow> live_scope \<Rightarrow> bool" where
  "judged env db lid sc \<longleftrightarrow> lv_disposition sc = ''blocked'' \<or>
     (\<exists>n l p parent c observed failed. get_listing lid ((we_others env ^^ n) db) = Some l \<and>
       sc = judge_item env (observed, failed) (expected_live_state (lv_item sc) l p parent c) (lv_item sc))"

lemma judge_listing_run:
  assumes "judge_listing env lid members (opened ((we_others env ^^ n) db)) = (Inr scopes, s)"
  shows "map lv_item scopes = members" "\<And>sc. sc \<in> set scopes \<Longrightarrow> judged env db lid sc"
proof -
  let ?e = "(we_others env ^^ n) db"
  have shape: "(\<forall>sc \<in> set scopes. lv_disposition sc = ''blocked'') \<and> map lv_item scopes = members \<or>
      (\<exists>l p parent c live. get_listing lid ?e = Some l \<and>
         scopes = map (\<lambda>i. judge_item env live (expected_live_state i l p parent c) i) members)"
    using assms by (auto simp: judge_listing_def session_bind session_run listing_state_def judge_item_blocked comp_def
        simp del: split_paired_Ex split_paired_All split: option.splits prod.splits)
  then show "map lv_item scopes = members" by (auto simp: comp_def)
  show "judged env db lid sc" if "sc \<in> set scopes" for sc
    using shape
  proof
    assume "\<exists>l p parent c live. get_listing lid ?e = Some l \<and>
         scopes = map (\<lambda>i. judge_item env live (expected_live_state i l p parent c) i) members"
    then obtain l p parent c live where l: "get_listing lid ?e = Some l"
        "scopes = map (\<lambda>i. judge_item env live (expected_live_state i l p parent c) i) members" by blast
    obtain observed failed where live: "live = (observed, failed)" by fastforce
    then have "sc = judge_item env (observed, failed) (expected_live_state (lv_item sc) l p parent c) (lv_item sc)"
      using that l(2) unfolding live by auto
    with l(1) show ?thesis unfolding judged_def by blast
  qed (use that in \<open>simp add: judged_def\<close>)
qed

lemma judge_listings_run:
  assumes "judge_listings env groups (opened db) = (Inr scopes, s)"
  shows "map lv_item scopes = concat (map snd groups)"
    and "\<And>sc. sc \<in> set scopes \<Longrightarrow> \<exists>lid members. (lid, members) \<in> set groups \<and> lv_item sc \<in> set members \<and> judged env db lid sc"
proof -
  define step where "step = (\<lambda>scopes (lid, members). sbind (judge_listing env lid members) (\<lambda>more. sret (scopes @ more)))"
  have "sfoldM step acc groups (opened ((we_others env ^^ n) db)) = (Inr scopes, s) \<Longrightarrow>
    \<exists>more. scopes = acc @ more \<and> map lv_item more = concat (map snd groups) \<and>
      (\<forall>sc \<in> set more. \<exists>lid members. (lid, members) \<in> set groups \<and> lv_item sc \<in> set members \<and> judged env db lid sc)" for acc n
  proof (induction groups arbitrary: acc n)
    case Nil
    then show ?case by (simp add: session_run)
  next
    case (Cons g groups)
    obtain lid members where g: "g = (lid, members)" by fastforce
    from Cons.prems obtain acc' s1 where st: "step acc g (opened ((we_others env ^^ n) db)) = (Inr acc', s1)"
        "sfoldM step acc' groups s1 = (Inr scopes, s)"
      unfolding sfoldM.simps sbind_returns by blast
    then obtain here where here: "judge_listing env lid members (opened ((we_others env ^^ n) db)) = (Inr here, s1)"
        "acc' = acc @ here"
      unfolding step_def g prod.case sbind_returns by (auto simp: session_run)
    then have "s1 = opened ((we_others env ^^ n) db) \<or> s1 = opened ((we_others env ^^ Suc n) db)"
      using judge_listing_state by fastforce
    then obtain m where "s1 = opened ((we_others env ^^ m) db)" by blast
    with st(2) have "sfoldM step acc' groups (opened ((we_others env ^^ m) db)) = (Inr scopes, s)" by simp
    from Cons.IH[OF this] obtain more where more: "scopes = acc' @ more" "map lv_item more = concat (map snd groups)"
        "\<forall>sc \<in> set more. \<exists>lid members. (lid, members) \<in> set groups \<and> lv_item sc \<in> set members \<and> judged env db lid sc"
      by blast
    have items: "map lv_item here = members" using judge_listing_run(1)[OF here(1)] .
    have "\<exists>lid members. (lid, members) \<in> set (g # groups) \<and> lv_item sc \<in> set members \<and> judged env db lid sc"
      if "sc \<in> set (here @ more)" for sc
    proof (cases "sc \<in> set here")
      case True
      then have "lv_item sc \<in> set members" using items by auto
      with judge_listing_run(2)[OF here(1) True] show ?thesis unfolding g by auto
    next
      case False
      with that have "sc \<in> set more" by simp
      with more(3) show ?thesis unfolding list.set(2) by blast
    qed
    then show ?case using more(1,2) here(2) items by (intro exI[of _ "here @ more"]) (simp add: g)
  qed
  from this[of "[]" 0] assms show "map lv_item scopes = concat (map snd groups)"
    "\<And>sc. sc \<in> set scopes \<Longrightarrow> \<exists>lid members. (lid, members) \<in> set groups \<and> lv_item sc \<in> set members \<and> judged env db lid sc"
    by (auto simp: judge_listings_def step_def[symmetric])
qed

section \<open>What a finished dry run stored\<close>

lemma added_operations:
  "\<exists>ops. wt_manifest_operations (fold (add_operation env mid ps) items db) = wt_manifest_operations db @ ops \<and>
     map ao_review_item_id ops = map rx_id items \<and> (\<forall>op \<in> set ops. ao_manifest_id op = mid)"
proof (induction items arbitrary: db)
  case (Cons i items)
  from Cons.IH[of "add_operation env mid ps i db"] obtain ops where
      "wt_manifest_operations (fold (add_operation env mid ps) (i # items) db) =
         wt_manifest_operations (add_operation env mid ps i db) @ ops"
      "map ao_review_item_id ops = map rx_id items" "\<forall>op \<in> set ops. ao_manifest_id op = mid"
    by auto
  moreover obtain op where "wt_manifest_operations (add_operation env mid ps i db) = wt_manifest_operations db @ [op]"
      "ao_review_item_id op = rx_id i" "ao_manifest_id op = mid"
    by (simp add: add_operation_def)
  ultimately show ?case by (intro exI[of _ "op # ops"]) simp
qed simp

lemma added_operations_manifests [simp]: "wt_manifests (fold (add_operation env mid ps) items db) = wt_manifests db"
  by (rule fold_keeps) (simp add: add_operation_def)

lemma stored_manifests [simp]:
  "wt_manifests (store_dry_run env d scopes db) = wt_manifests db"
  "wt_manifest_operations (store_dry_run env d scopes db) = wt_manifest_operations db"
  by (simp_all add: store_dry_run_def invalidate_dry_runs_def Let_def)

text \<open>The manifest of a passed dry run with writes, in the state the dry run left.\<close>

lemma complete_dry_run_manifest:
  assumes "complete_dry_run env u r selection scopes (opened e) = (Inr x, s)"
  shows "dx_scopes x = scopes" "dx_status x = (if blockers scopes \<noteq> [] then ''blocked'' else ''passed'')"
    "dx_manifest x = Some m \<Longrightarrow> \<exists>e' (d :: dry_run) ps ops. m = we_id env e' \<and> wt_manifests e' = wt_manifests e \<and>
       wt_manifest_operations e' = wt_manifest_operations e \<and> listing_payloads env e' (write_items scopes) = Inr ps \<and>
       wt_manifests (durable s) = wt_manifests e @
         [new_manifest env m r (write_items scopes) (dn_id d) (manifest_json r (write_items scopes) (dn_id d) (dn_evidence_checksum d) ps)] \<and>
       wt_manifest_operations (durable s) = wt_manifest_operations e @ ops \<and>
       map ao_review_item_id ops = map rx_id (write_items scopes) \<and> (\<forall>op \<in> set ops. ao_manifest_id op = m)"
proof -
  let ?d = "new_dry_run env e r selection scopes"
  let ?e = "store_dry_run env ?d scopes e"
  note run = assms[unfolded complete_dry_run_def session_bind opened_simps]
  show "dx_scopes x = scopes" "dx_status x = (if blockers scopes \<noteq> [] then ''blocked'' else ''passed'')"
    using run by (auto simp: sbind_returns session_run new_dry_run_def)
  assume "dx_manifest x = Some m"
  with run have g: "dn_status ?d = ''passed'' \<and> write_items scopes \<noteq> []"
    by (auto simp: sbind_returns session_run split: if_splits)
  obtain document ps where doc: "manifest_document env ?e r (write_items scopes) (dn_id ?d) (dn_evidence_checksum ?d) = Inr (document, ps)"
    using run g by (auto simp: generate_apply_manifest_def sbind_returns session_run)
  then have ps: "listing_payloads env ?e (write_items scopes) = Inr ps"
      "document = manifest_json r (write_items scopes) (dn_id ?d) (dn_evidence_checksum ?d) ps"
    by (auto simp: manifest_document_def rbind_eq_Inr)
  obtain ops where ops: "wt_manifest_operations (fold (add_operation env (we_id env ?e) ps) (write_items scopes)
        (?e\<lparr>wt_manifests := wt_manifests ?e @ [new_manifest env (we_id env ?e) r (write_items scopes) (dn_id ?d) document]\<rparr>))
        = wt_manifest_operations e @ ops"
      "map ao_review_item_id ops = map rx_id (write_items scopes)" "\<forall>op \<in> set ops. ao_manifest_id op = we_id env ?e"
    using added_operations[of env "we_id env ?e" ps "write_items scopes"
        "?e\<lparr>wt_manifests := wt_manifests ?e @ [new_manifest env (we_id env ?e) r (write_items scopes) (dn_id ?d) document]\<rparr>"] by auto
  have m: "m = we_id env ?e"
      "durable s = (fold (add_operation env (we_id env ?e) ps) (write_items scopes)
        (?e\<lparr>wt_manifests := wt_manifests ?e @ [new_manifest env (we_id env ?e) r (write_items scopes) (dn_id ?d) document]\<rparr>))
        \<lparr>wt_audit_log := wt_audit_log (pending s)\<rparr>"
    using run g doc \<open>dx_manifest x = Some m\<close>
    by (auto simp: generate_apply_manifest_def sbind_returns session_run log_audit_def)
  show "\<exists>e' (d :: dry_run) ps ops. m = we_id env e' \<and> wt_manifests e' = wt_manifests e \<and>
       wt_manifest_operations e' = wt_manifest_operations e \<and> listing_payloads env e' (write_items scopes) = Inr ps \<and>
       wt_manifests (durable s) = wt_manifests e @
         [new_manifest env m r (write_items scopes) (dn_id d) (manifest_json r (write_items scopes) (dn_id d) (dn_evidence_checksum d) ps)] \<and>
       wt_manifest_operations (durable s) = wt_manifest_operations e @ ops \<and>
       map ao_review_item_id ops = map rx_id (write_items scopes) \<and> (\<forall>op \<in> set ops. ao_manifest_id op = m)"
    using ps(1) ops by (intro exI[of _ ?e] exI[of _ ?d] exI[of _ ps] exI[of _ ops]) (simp add: m ps(2)[symmetric])
qed

section \<open>What checksums tell apart\<close>

lemma map_eq_map: "map f xs = map g ys \<Longrightarrow> (\<And>x y. f x = g y \<Longrightarrow> h x = k y) \<Longrightarrow> map h xs = map k ys"
proof (induction xs arbitrary: ys)
  case (Cons x xs)
  then obtain y ys' where "ys = y # ys'" "f x = g y" "map f xs = map g ys'" by (cases ys) auto
  with Cons.IH[of ys'] Cons.prems(2) show ?case by simp
qed simp

lemma sorted_keys_list:
  assumes "sorted_keys (JObj d) = sorted_keys (JObj e)" "jget k d = JList (map f xs)" "jget k e = JList (map g ys)"
    and "\<And>x y. sorted_keys (f x) = sorted_keys (g y) \<Longrightarrow> h x = j y"
  shows "map h xs = map j ys"
proof (rule map_eq_map)
  show "map (sorted_keys \<circ> f) xs = map (sorted_keys \<circ> g) ys"
    using sorted_keys_lookup(1)[OF assms(1), of k] by (simp add: assms(2,3) comp_def)
qed (simp add: assms(4))

lemma same_selection_items:
  assumes "sorted_keys (selection_document r items) = sorted_keys (selection_document r' items')"
  shows "map rx_id (entry_order items) = map rx_id (entry_order items')"
  using sorted_keys_list[OF assms[unfolded selection_document_def Let_def],
      where k = "''review_item_ids''" and f = JStr and g = JStr and xs = "map rx_id (entry_order items)"
        and ys = "map rx_id (entry_order items')" and h = id and j = id]
  by (simp add: str_list_def)

text \<open>What an operation of a manifest fixes: its item, Listing, Channel and field, and the payload.\<close>

definition operation_view :: "(string \<times> json) list \<Rightarrow> review_entry \<Rightarrow> string \<times> string \<times> string \<times> string \<times> json" where
  "operation_view ps i = (rx_id i, rx_listing_id i, rx_channel_id i, rx_field i, sorted_keys (payload_of (rx_listing_id i) ps))"

lemma operation_entry_view:
  assumes "sorted_keys (operation_entry ps i) = sorted_keys (operation_entry ps' i')"
  shows "operation_view ps i = operation_view ps' i'"
proof -
  note l = sorted_keys_lookup(1)[OF assms[unfolded operation_entry_def]]
  show ?thesis
    using l[of "''review_item_id''"] l[of "''listing_id''"] l[of "''channel_id''"] l[of "''field''"] l[of "''listing_payload''"]
    by (simp add: operation_view_def)
qed

lemma same_manifest_operations:
  assumes "sorted_keys (manifest_json r items did ev ps) = sorted_keys (manifest_json r' items' did' ev' ps')"
  shows "map (operation_view ps) (entry_order items) = map (operation_view ps') (entry_order items')"
proof (rule sorted_keys_list[OF assms[unfolded manifest_json_def], where k = "''operations''"
      and f = "operation_entry ps" and g = "operation_entry ps'"])
  show "operation_view ps i = operation_view ps' i'" if "sorted_keys (operation_entry ps i) = sorted_keys (operation_entry ps' i')" for i i'
    using that by (rule operation_entry_view)
qed simp_all

section \<open>From the dry run to the dispatch\<close>

text \<open>The rows of a manifest in two states, and identifiers that no manifest has yet.\<close>

definition same_manifest :: "string \<Rightarrow> ws_db \<Rightarrow> ws_db \<Rightarrow> bool" where
  "same_manifest m a b \<longleftrightarrow> get_manifest m a = get_manifest m b \<and>
     filter (\<lambda>op. ao_manifest_id op = m) (wt_manifest_operations a) =
     filter (\<lambda>op. ao_manifest_id op = m) (wt_manifest_operations b)"

definition fresh_manifest_ids :: "ws_env \<Rightarrow> bool" where
  "fresh_manifest_ids env \<longleftrightarrow>
     (\<forall>db. we_id env db \<notin> am_id ` set (wt_manifests db) \<union> ao_manifest_id ` set (wt_manifest_operations db))"

lemma dry_run_manifest_rows:
  assumes "run_dry_run env wid rid u (opened db) = (Inr x, s)" "dx_manifest x = Some m" "fresh_manifest_ids env"
  obtains r items did ev e ps where "get_review rid db = Some r" "items = items_among rid (selected_ids rid db) db"
    "mset (map lv_item (dx_scopes x)) = mset items"
    "rw_selection_checksum r = Some (we_checksum env (selection_document r items))"
    "listing_payloads env e (write_items (dx_scopes x)) = Inr ps"
    "get_manifest m (durable s) = Some (new_manifest env m r (write_items (dx_scopes x)) did
       (manifest_json r (write_items (dx_scopes x)) did ev ps))"
    "map ao_review_item_id (filter (\<lambda>op. ao_manifest_id op = m) (wt_manifest_operations (durable s))) =
       map rx_id (write_items (dx_scopes x))"
proof -
  obtain r items selection scopes s1 where run: "get_review rid db = Some r" "plan_dry_run env r db = Inr (items, selection)"
      "judge_listings env (sort_key fst (group_by rx_listing_id items)) (opened db) = (Inr scopes, s1)"
      "complete_dry_run env u r selection scopes s1 = (Inr x, s)"
    using assms(1) by (rule run_dry_run_run)
  obtain n where s1: "s1 = opened ((we_others env ^^ n) db)" using judge_listings_state[OF run(3)] by blast
  note fin = complete_dry_run_manifest[OF run(4)[unfolded s1]]
  have rid: "rw_id r = rid" using run(1) by (auto simp: get_review_def dest: get_row_Some)
  have plan: "items = items_among rid (selected_ids rid db) db" "rw_selection_checksum r = Some (we_checksum env (selection_document r items))"
    using run(2) by (auto simp: plan_dry_run_def Let_def rid split: if_splits)
  have "mset (map lv_item scopes) = mset items"
    by (simp add: judge_listings_run(1)[OF run(3)] sort_key_concat_mset group_by_mset)
  moreover obtain e' ps ops and d :: dry_run where m: "m = we_id env e'" "wt_manifests e' = wt_manifests ((we_others env ^^ n) db)"
      "wt_manifest_operations e' = wt_manifest_operations ((we_others env ^^ n) db)"
      "listing_payloads env e' (write_items scopes) = Inr ps"
      "wt_manifests (durable s) = wt_manifests ((we_others env ^^ n) db) @
         [new_manifest env m r (write_items scopes) (dn_id d) (manifest_json r (write_items scopes) (dn_id d) (dn_evidence_checksum d) ps)]"
      "wt_manifest_operations (durable s) = wt_manifest_operations ((we_others env ^^ n) db) @ ops"
      "map ao_review_item_id ops = map rx_id (write_items scopes)" "\<forall>op \<in> set ops. ao_manifest_id op = m"
    using fin(3)[OF assms(2)] by blast
  moreover have "m \<notin> am_id ` set (wt_manifests e')" "m \<notin> ao_manifest_id ` set (wt_manifest_operations e')"
    using assms(3) by (auto simp: fresh_manifest_ids_def m(1))
  then have "get_manifest m (durable s) = Some (new_manifest env m r (write_items scopes) (dn_id d)
      (manifest_json r (write_items scopes) (dn_id d) (dn_evidence_checksum d) ps))"
    "filter (\<lambda>op. ao_manifest_id op = m) (wt_manifest_operations (durable s)) = ops"
    using m(8) by (auto simp: get_manifest_def m(5,6) m(2,3)[symmetric] get_row_append new_manifest_def filter_empty_conv
        split: option.split dest: get_row_Some intro!: filter_True)
  ultimately show ?thesis using run(1) plan by (intro that) (simp_all add: fin(1))
qed

text \<open>What a passed authorization established, from the first check to the last.\<close>

lemma authorized_run:
  assumes "authorize_apply env wid rid a u (opened db) = (Inr (g, Dispatch), s)"
  obtains w r d e where "get_review rid db = Some (ap_review g)" "rw_id (ap_review g) = rid"
    "ap_selected_ids g = selected_ids rid db"
    "we_checksum env (selection_document (ap_review g) (items_among rid (selected_ids rid db) db)) = ct (aa_selection_checksum a)"
    "\<forall>i \<in> set (items_among rid (selected_ids rid db) db). rx_eligible i \<and> rx_errors i = []"
    "ap_selection_checksum g = ct (aa_selection_checksum a)"
    "get_manifest (ct (aa_manifest_id a)) db = Some (ap_manifest g)" "am_selection_checksum (ap_manifest g) = ct (aa_selection_checksum a)"
    "am_manifest_checksum (ap_manifest g) = ct (aa_manifest_checksum a)"
    "ap_items g = manifest_items rid (ct (aa_manifest_id a)) db"
    "has_workspace_permission u ''apply.execute''" "aa_confirmed a"
    "stale_reasons env (we_others env db) r = []" "rw_status r = ''ready''"
    "get_review rid (we_others env db) = Some r" "same_selection env (we_others env db) r g (ct (aa_selection_checksum a))"
    "dispatch_check env w g (ct (aa_selection_checksum a)) u (opened (we_others env (we_others env db))) = (Inr Dispatch, s)"
proof -
  obtain w where run: "admit_apply env wid rid a u (opened db) = (Inr (w, g), opened db)"
      "locked_check env w g (ct (aa_selection_checksum a)) u (opened (we_others env db)) = (Inr (), opened (we_others env db))"
      "dispatch_check env w g (ct (aa_selection_checksum a)) u (opened (we_others env (we_others env db))) = (Inr Dispatch, s)"
    using assms by (rule authorize_run) blast
  note admitted = admit_apply_run[OF run(1)]
  note gate = apply_gate_Inr[OF admitted(4)]
  note sel = gate(6)[unfolded check_selection_Inr] and man = check_manifest_Inr[OF gate(7)]
  have rid: "rw_id (ap_review g) = rid" using gate(1) by (auto simp: get_review_def dest: get_row_Some)
  have mid: "am_id (ap_manifest g) = ct (aa_manifest_id a)" using man by (auto simp: get_manifest_def dest: get_row_Some)
  obtain r where r: "get_review (rw_id (ap_review g)) (we_others env db) = Some r" "rw_status r = ''ready''"
      "stale_reasons env (we_others env db) r = []" "same_selection env (we_others env db) r g (ct (aa_selection_checksum a))"
    using run(2) by (rule locked_check_run)
  show ?thesis by (rule that[of r w]) (use gate(1) sel man admitted r run(3) rid mid in auto)
qed

end
