(* ===== verification/ReviewSafety.thy ===== *)
theory ReviewSafety
  imports ReviewRuns
begin

text \<open>
  Reviews, dry runs and the authorization of an Apply together: what a passed dry run and a passed
  authorization guarantee, and which selections can never be applied.
\<close>

section \<open>Properties\<close>


text \<open>C8: A change whose Listing is disabled or not resolved keeps the whole Review from a dry run, the
  other items being eligible or not: the Review records the versions of that Listing too, and it is
  stale for as long as the Listing stays as it was.\<close>

theorem blocked_item_bars_dry_run:
  assumes "plan_review env db w sp rv = Inr plan" and "p \<in> set (rp_items plan)"
    and "pi_listing p = Some l" and "pi_cache p = Some k" and "\<not> ul_enabled l \<or> ul_mapping_state l \<noteq> ''resolved''"
    and "set (wt_cache_versions (store_review env plan db)) \<subseteq> set (wt_cache_versions db')"
    and "get_listing (ul_id l) db' = Some l"
  shows "fst (run_dry_run env wid (rw_id (rp_review plan)) u (opened db')) \<noteq> Inr x"
proof
  assume "fst (run_dry_run env wid (rw_id (rp_review plan)) u (opened db')) = Inr x"
  then obtain s where "run_dry_run env wid (rw_id (rp_review plan)) u (opened db') = (Inr x, s)" by (metis prod.collapse)
  then obtain r where r: "get_review (rw_id (rp_review plan)) db' = Some r" "stale_reasons env db' r = []"
    by (rule run_dry_run_run)
  obtain v where v: "v \<in> set (wt_cache_versions db')" "rc_review_id v = rw_id (rp_review plan)" "rc_listing_id v = ul_id l"
    using captured_listing[OF assms(2-4)] assms(6) unfolding store_review_def by blast
  have "captured_stale env db' v \<noteq> []"
    using assms(5,7) v(3) by (auto simp: captured_stale_def Let_def note_if_def)
  moreover have "v \<in> set (captured_versions (rw_id r) db')"
    using v r(1) by (auto simp: captured_versions_def get_review_def dest: get_row_Some)
  ultimately show False using r(2) by (auto simp: stale_reasons_def)
qed





text \<open>C7: A selection that a dry run found in part already current can never be applied: the
  authorization compares the checksum of the whole selection with one of the writes only.\<close>

theorem already_current_item_bars_apply:
  assumes "run_dry_run env wid rid u (opened db) = (Inr x, s)" and "dx_manifest x = Some m"
    and "sc \<in> set (dx_scopes x)" and "lv_disposition sc = ''no_op''"
    and "collision_free (we_checksum env)" and "fresh_manifest_ids env" and "distinct (map rx_id (wt_review_items db))"
    and "same_manifest m db' (durable s)" and "ct (aa_manifest_id a) = m"
  shows "fst (authorize_apply env wid' rid' a u' (opened db')) \<noteq> Inr (g, Dispatch)"
proof
  assume "fst (authorize_apply env wid' rid' a u' (opened db')) = Inr (g, Dispatch)"
  then obtain s' where run: "authorize_apply env wid' rid' a u' (opened db') = (Inr (g, Dispatch), s')" by (metis prod.collapse)
  let ?writes = "write_items (dx_scopes x)"
  obtain r items did doc where dry: "items = items_among rid (selected_ids rid db) db" "mset (map lv_item (dx_scopes x)) = mset items"
    "rw_selection_checksum r = Some (we_checksum env (selection_document r items))"
    "get_manifest m (durable s) = Some (new_manifest env m r ?writes did doc)"
    "map ao_review_item_id (filter (\<lambda>op. ao_manifest_id op = m) (wt_manifest_operations (durable s))) = map rx_id ?writes"
    by (rule dry_run_manifest_rows[OF assms(1,2,6)]) blast
  obtain r' where auth: "get_manifest (ct (aa_manifest_id a)) db' = Some (ap_manifest g)"
    "am_selection_checksum (ap_manifest g) = ct (aa_selection_checksum a)"
    "ap_items g = manifest_items rid' (ct (aa_manifest_id a)) db'"
    "same_selection env (we_others env db') r' g (ct (aa_selection_checksum a))"
    by (rule authorized_run[OF run]) blast
  have "we_checksum env (selection_document r' (ap_items g)) = we_checksum env (selection_document r items)"
    using auth(1,2,4) dry(3,4) assms(8,9)
    by (auto simp: same_manifest_def new_manifest_def same_selection_def str_or_def)
  then have "map rx_id (entry_order (ap_items g)) = map rx_id (entry_order items)"
    by (intro same_selection_items) (simp add: collision_freeD[OF assms(5)])
  from arg_cong[OF this, of set] have applied: "rx_id ` set (ap_items g) = rx_id ` set items"
    by (simp add: entry_order_def)
  have "filter (\<lambda>op. ao_manifest_id op = m) (wt_manifest_operations db') =
      filter (\<lambda>op. ao_manifest_id op = m) (wt_manifest_operations (durable s))"
    using assms(8) by (simp add: same_manifest_def)
  with dry(5) have "ap_items g = items_among rid' (map rx_id ?writes) db'"
    by (simp only: auth(3) manifest_items_def assms(9))
  then have written: "rx_id ` set (ap_items g) \<subseteq> rx_id ` set ?writes" by (auto simp: items_among_def)
  have items: "set (map lv_item (dx_scopes x)) = set items" "distinct (map rx_id items)"
    using mset_eq_setD[OF dry(2)] assms(7) by (simp_all add: dry(1) items_among_def distinct_map_filter)
  have ids: "distinct (map (rx_id \<circ> lv_item) (dx_scopes x))"
    using items(2) dry(2) by (metis list.map_comp mset_eq_imp_distinct_iff mset_map)
  have "lv_item sc \<in> set items" using items(1) assms(3) by auto
  then have "rx_id (lv_item sc) \<in> rx_id ` set ?writes" using applied written by auto
  then obtain sc' where "sc' \<in> set (dx_scopes x)" "lv_disposition sc' = ''write''" "rx_id (lv_item sc') = rx_id (lv_item sc)"
    by (auto simp: write_items_def)
  with ids assms(3) have "sc' = sc" by (auto simp: distinct_map inj_on_def)
  with assms(4) \<open>lv_disposition sc' = ''write''\<close> show False by simp
qed

section \<open>Witnesses\<close>

text \<open>
  Two Listings with a selected price change each. The Channel shows the reviewed price of the first one;
  what it shows for the second one is the parameter: with 200 both items are to be written, with 250 the
  second one has its target already.
\<close>

definition apply_env :: "string \<Rightarrow> ws_env" where
  "apply_env t = demo_ws_env\<lparr>we_checksum := json_digest, we_dumps := json_digest,
     we_id := (\<lambda>db. concat (map am_id (wt_manifests db)) @ concat (map ao_manifest_id (wt_manifest_operations db)) @ ''x''),
     we_verify_updates := (\<lambda>_ pb. Some [(''observed'', JObj [(''external_id'', JStr (pb_external_primary_id pb)),
       (''parent_external_id'', JNull), (''product_type'', JStr ''simple''),
       (''price'', JStr (if pb_listing_id pb = ''l'' then ''100'' else t)), (''currency'', JStr ''IRR''), (''unit'', JStr ''RIAL'')])])\<rparr>"

definition demo_listing :: "string \<Rightarrow> uw_listing" where
  "demo_listing lid = \<lparr>ul_id = lid, ul_canonical_product_id = ''p'', ul_channel_id = ''c'',
     ul_external_primary_id = lid, ul_sku = ''k'', ul_enabled = True, ul_mapping_state = ''resolved'',
     ul_mapping_version = 1\<rparr>"

definition demo_cache :: "string \<Rightarrow> string \<Rightarrow> uw_cache" where
  "demo_cache lid price = \<lparr>uc_listing_id = lid, uc_price_raw = Some price, uc_price_currency = Some ''IRR'',
     uc_price_unit = Some ''RIAL'', uc_stock_text = Some ''3'', uc_status = Some ''instock'',
     uc_manage_stock = Some True, uc_cache_version = 1, uc_checksum = ''h'', uc_freshness = ''fresh'',
     uc_fetch_status = ''success'', uc_fetched_at = 0\<rparr>"

definition demo_item :: "string \<Rightarrow> string \<Rightarrow> string \<Rightarrow> string \<Rightarrow> review_entry" where
  "demo_item iid lid current target = \<lparr>rx_id = iid, rx_review_id = ''r'', rx_draft_change_id = iid,
     rx_product_id = ''p'', rx_listing_id = lid, rx_channel_id = ''c'', rx_field = ''price'',
     rx_current_value = Some current, rx_target_value = target, rx_normalized = [], rx_validation_state = ''ready'',
     rx_warnings = [], rx_errors = [], rx_eligible = True\<rparr>"

definition demo_items :: "review_entry list" where
  "demo_items = [demo_item ''1'' ''l'' ''100'' ''120'', demo_item ''2'' ''n'' ''200'' ''250'']"

definition demo_profile :: currency_profile where
  "demo_profile = \<lparr>cu_id = ''f'', cu_scope = ''c'', cu_scope_reference = ''c'', cu_version = 1, cu_checksum = ''h'', cu_enabled = True\<rparr>"

definition bare_review :: uw_review where
  "bare_review = \<lparr>rw_id = ''r'', rw_workspace_id = ''w'', rw_snapshot_id = ''s'', rw_draft_revision_id = ''v'',
     rw_status = ''ready'', rw_ruleset_version = VALIDATION_VERSION,
     rw_capability_digest = json_digest (JList []), rw_currency_digest = json_digest (JList []),
     rw_currency_profile_id = ''f'', rw_currency_profile_version = 1, rw_currency_profile_checksum = ''h'',
     rw_currency_source_reference = profile_reference demo_profile, rw_currency_channel_references = [],
     rw_currency_ruleset_version = CURRENCY_RULESET_VERSION, rw_mapping_digest = json_digest (JList []),
     rw_checksum = ''h'', rw_summary = [], rw_invalidated_at = None, rw_stale_reason = None,
     rw_selection_version = 1, rw_selection_checksum = None, rw_selected_channel_ids = [''c'']\<rparr>"

definition demo_selection :: string where
  "demo_selection = json_digest (selection_document bare_review demo_items)"

definition demo_review :: uw_review where
  "demo_review = bare_review\<lparr>rw_selection_checksum := Some demo_selection\<rparr>"

definition apply_db :: ws_db where
  "apply_db = demo_ws_db\<lparr>
     wt_drafts := [\<lparr>ud_id = ''d'', ud_workspace_id = ''w'', ud_current_revision_id = Some ''v'', ud_version = 1,
       ud_status = ''draft'', ud_updated_at = 0\<rparr>],
     wt_listings := [demo_listing ''l'', demo_listing ''n''],
     wt_caches := [demo_cache ''l'' ''100'', demo_cache ''n'' ''200''],
     wt_currency_profiles := [demo_profile], wt_reviews := [demo_review], wt_review_items := demo_items,
     wt_selections := [\<lparr>sl_review_id = ''r'', sl_review_item_id = ''1'', sl_user_id = 1\<rparr>,
       \<lparr>sl_review_id = ''r'', sl_review_item_id = ''2'', sl_user_id = 1\<rparr>]\<rparr>"

text \<open>A state whose tables that authorize an Apply are those of the demonstration.\<close>

definition like_apply_db :: "ws_db \<Rightarrow> bool" where
  "like_apply_db db \<longleftrightarrow> wt_workspaces db = wt_workspaces apply_db \<and> wt_snapshots db = wt_snapshots apply_db \<and>
     wt_drafts db = wt_drafts apply_db \<and> wt_listings db = wt_listings apply_db \<and> wt_products db = wt_products apply_db \<and>
     wt_caches db = wt_caches apply_db \<and> wt_currency_profiles db = wt_currency_profiles apply_db \<and>
     wt_reviews db = wt_reviews apply_db \<and> wt_review_items db = demo_items \<and> wt_cache_versions db = [] \<and>
     wt_selections db = wt_selections apply_db"

lemma demo_selection_document: "selection_document demo_review items = selection_document bare_review items"
  by (simp add: selection_document_def demo_review_def)

lemma like_reads:
  assumes "like_apply_db db"
  shows "uw_workspace_for_user ''w'' demo_owner True (opened db) = (Inr (hd (wt_workspaces apply_db)), opened db)"
    "get_review ''r'' db = Some demo_review"
    "snapshot_for_workspace ''w'' db = Some (hd (wt_snapshots apply_db))"
    "draft_for_workspace ''w'' db = Some (hd (wt_drafts apply_db))"
    "selected_ids ''r'' db = [''1'', ''2'']" "items_among ''r'' [''1'', ''2''] db = demo_items"
    "listing_state ''l'' db = Some (demo_listing ''l'', demo_cache ''l'' ''100'', hd (wt_products apply_db), None)"
    "listing_state ''n'' db = Some (demo_listing ''n'', demo_cache ''n'' ''200'', hd (wt_products apply_db), None)"
    "get_listing ''l'' db = Some (demo_listing ''l'')" "get_listing ''n'' db = Some (demo_listing ''n'')"
    "get_cache ''l'' db = Some (demo_cache ''l'' ''100'')" "get_cache ''n'' db = Some (demo_cache ''n'' ''200'')"
proof -
  note t = assms[unfolded like_apply_db_def]
  have "has_workspace_permission demo_owner ''workspace.edit''" by code_simp
  then show "uw_workspace_for_user ''w'' demo_owner True (opened db) = (Inr (hd (wt_workspaces apply_db)), opened db)"
    using t by (simp add: uw_workspace_for_user_def session_bind session_run apply_db_def demo_ws_db_def demo_owner_def)
  show "get_review ''r'' db = Some demo_review" "snapshot_for_workspace ''w'' db = Some (hd (wt_snapshots apply_db))"
    "draft_for_workspace ''w'' db = Some (hd (wt_drafts apply_db))"
    "get_listing ''l'' db = Some (demo_listing ''l'')" "get_listing ''n'' db = Some (demo_listing ''n'')"
    "get_cache ''l'' db = Some (demo_cache ''l'' ''100'')" "get_cache ''n'' db = Some (demo_cache ''n'' ''200'')"
    using t by (simp_all add: get_review_def snapshot_for_workspace_def draft_for_workspace_def get_listing_def get_cache_def
        get_row_def apply_db_def demo_review_def bare_review_def demo_ws_db_def demo_listing_def demo_cache_def)
  show "selected_ids ''r'' db = [''1'', ''2'']" "items_among ''r'' [''1'', ''2''] db = demo_items"
    using t by (simp_all add: selected_ids_def review_selections_def apply_db_def items_among_def demo_items_def demo_item_def)
  show "listing_state ''l'' db = Some (demo_listing ''l'', demo_cache ''l'' ''100'', hd (wt_products apply_db), None)"
    "listing_state ''n'' db = Some (demo_listing ''n'', demo_cache ''n'' ''200'', hd (wt_products apply_db), None)"
    using t by (simp_all add: listing_state_def get_listing_def get_cache_def get_product_def get_row_def apply_db_def
        demo_ws_db_def demo_listing_def demo_cache_def parent_external_id_def)
qed

lemma apply_env_fields [simp]:
  "we_checksum (apply_env t) = json_digest" "we_others (apply_env t) = (\<lambda>db. db)" "we_now (apply_env t) db = 0"
  "we_capabilities (apply_env t) db cid = Some demo_capabilities" "we_verify_pricing (apply_env t) db wid cids = []"
  by (simp_all add: apply_env_def demo_ws_env_def)

lemma apply_env_fresh: "fresh_manifest_ids (apply_env t)"
proof -
  have "x \<noteq> concat xs @ concat ys @ ''x''" if "x \<in> set xs \<union> set ys" for x :: string and xs ys
  proof
    assume x: "x = concat xs @ concat ys @ ''x''"
    have "length x \<le> length (concat xs) + length (concat ys)"
      using that member_le_sum_list[of "length x" "map length xs"] member_le_sum_list[of "length x" "map length ys"]
      by (auto simp: length_concat)
    then show False using arg_cong[OF x, of length] by simp
  qed
  then have "concat xs @ concat ys @ ''x'' \<notin> set xs \<union> set ys" for xs ys :: "string list" by blast
  from this[of "map am_id (wt_manifests db)" "map ao_manifest_id (wt_manifest_operations db)" for db] show ?thesis
    unfolding fresh_manifest_ids_def by (intro allI) (simp add: apply_env_def)
qed

lemma demo_review_fresh:
  assumes "like_apply_db db"
  shows "stale_reasons (apply_env t) db demo_review = []"
proof -
  note t = assms[unfolded like_apply_db_def]
  have "currency_profile_current demo_review db"
    using t by (simp add: currency_profile_current_def apply_db_def demo_review_def bare_review_def get_row_def
        demo_profile_def latest_profile_def)
  moreover have "review_pricing_issues (apply_env t) db demo_review = []"
    by (simp add: review_pricing_issues_def Let_def)
  moreover have "rw_ruleset_version demo_review = VALIDATION_VERSION" "rw_currency_channel_references demo_review = []"
    "rw_mapping_digest demo_review = json_digest (JList [])" "rw_capability_digest demo_review = json_digest (JList [])"
    "rw_currency_digest demo_review = json_digest (JList [])"
    by (simp_all add: demo_review_def bare_review_def)
  ultimately show ?thesis using t
    by (simp add: stale_reasons_def note_if_def captured_versions_def configuration_changed_def references_changed_def
        entries_digest_def unique_entries_def)
qed

lemma demo_plan:
  assumes "like_apply_db db"
  shows "plan_dry_run (apply_env t) demo_review db = Inr (demo_items, demo_selection)"
proof -
  have "rw_id demo_review = ''r''" "rw_selection_checksum demo_review = Some demo_selection"
    by (simp_all add: demo_review_def bare_review_def)
  then show ?thesis using like_reads(5,6)[OF assms]
    by (simp add: plan_dry_run_def demo_selection_document demo_selection_def)
qed

lemma demo_evidence:
  assumes "like_apply_db db"
  shows "source_evidence_issue env db (hd (wt_workspaces apply_db)) sp = None"
  by (simp add: source_evidence_issue_def Let_def apply_db_def demo_ws_db_def)

definition demo_observed :: "string \<Rightarrow> string \<Rightarrow> json_dict" where
  "demo_observed lid price = [(''external_id'', JStr lid), (''parent_external_id'', JNull), (''product_type'', JStr ''simple''),
     (''price'', JStr price), (''currency'', JStr ''IRR''), (''unit'', JStr ''RIAL'')]"

definition demo_expected :: "string \<Rightarrow> string \<Rightarrow> json_dict" where
  "demo_expected lid price = [(''external_id'', JStr lid), (''product_type'', JStr ''simple''), (''parent_external_id'', JNull),
     (''price'', JStr price), (''currency'', JStr ''IRR''), (''unit'', JStr ''RIAL'')]"

definition demo_scopes :: "string \<Rightarrow> live_scope list" where
  "demo_scopes t = [\<lparr>lv_item = demo_item ''1'' ''l'' ''100'' ''120'', lv_disposition = ''write'', lv_reason = None,
      lv_observed = demo_observed ''l'' ''100'', lv_expected = demo_expected ''l'' ''100''\<rparr>,
    (if t = ''250'' then \<lparr>lv_item = demo_item ''2'' ''n'' ''200'' ''250'', lv_disposition = ''no_op'',
      lv_reason = Some ''ALREADY_CURRENT'', lv_observed = demo_observed ''n'' ''250'', lv_expected = demo_expected ''n'' ''200''\<rparr>
     else \<lparr>lv_item = demo_item ''2'' ''n'' ''200'' ''250'', lv_disposition = ''write'', lv_reason = None,
      lv_observed = demo_observed ''n'' ''200'', lv_expected = demo_expected ''n'' ''200''\<rparr>)]"

lemma demo_read:
  assumes "pb_listing_id pb = lid" "pb_external_primary_id pb = lid"
  shows "read_live (apply_env t) db pb = (demo_observed lid (if lid = ''l'' then ''100'' else t), False)"
  using assms by (simp add: read_live_def apply_env_def demo_observed_def)

lemma demo_expected_state:
  "expected_live_state (demo_item iid lid current target) (demo_listing lid) (hd (wt_products apply_db)) None demo_capabilities =
     demo_expected lid current"
proof -
  have "py_lower (canonical_text (Some ''simple'')) = ''simple''" "py_upper (canonical_text (Some ''IRR'')) = ''IRR''"
    "py_upper (canonical_text (Some ''RIAL'')) = ''RIAL''" by code_simp+
  then show ?thesis
    by (simp add: expected_live_state_def demo_item_def demo_listing_def apply_db_def demo_ws_db_def demo_capabilities_def
        demo_expected_def opt_json_def)
qed

lemma demo_judged:
  "judge_item (apply_env t) (demo_observed ''l'' ''100'', False) (demo_expected ''l'' ''100'') (demo_item ''1'' ''l'' ''100'' ''120'') =
     \<lparr>lv_item = demo_item ''1'' ''l'' ''100'' ''120'', lv_disposition = ''write'', lv_reason = None,
      lv_observed = demo_observed ''l'' ''100'', lv_expected = demo_expected ''l'' ''100''\<rparr>"
  "judge_item (apply_env t) (demo_observed ''n'' ''200'', False) (demo_expected ''n'' ''200'') (demo_item ''2'' ''n'' ''200'' ''250'') =
     \<lparr>lv_item = demo_item ''2'' ''n'' ''200'' ''250'', lv_disposition = ''write'', lv_reason = None,
      lv_observed = demo_observed ''n'' ''200'', lv_expected = demo_expected ''n'' ''200''\<rparr>"
  "judge_item (apply_env t) (demo_observed ''n'' ''250'', False) (demo_expected ''n'' ''200'') (demo_item ''2'' ''n'' ''200'' ''250'') =
     \<lparr>lv_item = demo_item ''2'' ''n'' ''200'' ''250'', lv_disposition = ''no_op'', lv_reason = Some ''ALREADY_CURRENT'',
      lv_observed = demo_observed ''n'' ''250'', lv_expected = demo_expected ''n'' ''200''\<rparr>"
  by code_simp+

lemma demo_judge:
  assumes "like_apply_db db" "t \<in> {''200'', ''250''}"
  shows "judge_listings (apply_env t) (sort_key fst (group_by rx_listing_id demo_items)) (opened db) =
    (Inr (demo_scopes t), opened db)"
proof -
  have groups: "sort_key fst (group_by rx_listing_id demo_items) =
      [(''l'', [demo_item ''1'' ''l'' ''100'' ''120'']), (''n'', [demo_item ''2'' ''n'' ''200'' ''250''])]" by code_simp
  have ids: "ul_id (demo_listing lid) = lid" "ul_external_primary_id (demo_listing lid) = lid" for lid
    by (simp_all add: demo_listing_def)
  have one: "judge_listing (apply_env t) ''l'' [demo_item ''1'' ''l'' ''100'' ''120''] (opened db) =
      (Inr [hd (demo_scopes t)], opened db)"
    using demo_read[of _ "''l''"] by (simp add: judge_listing_def session_bind session_run like_reads(7)[OF assms(1)]
        dry_run_probe_def ids demo_expected_state demo_judged demo_scopes_def)
  have two: "judge_listing (apply_env t) ''n'' [demo_item ''2'' ''n'' ''200'' ''250''] (opened db) =
      (Inr (tl (demo_scopes t)), opened db)"
    using demo_read[of _ "''n''"] assms(2) by (auto simp: judge_listing_def session_bind session_run like_reads(8)[OF assms(1)]
        dry_run_probe_def ids demo_expected_state demo_judged demo_scopes_def)
  have "[hd (demo_scopes t)] @ tl (demo_scopes t) = demo_scopes t" by (simp add: demo_scopes_def)
  then show ?thesis
    by (simp add: judge_listings_def groups session_bind session_run
        sbind_run[where m = "judge_listing (apply_env t) ''l'' [demo_item ''1'' ''l'' ''100'' ''120'']", OF one]
        sbind_run[where m = "judge_listing (apply_env t) ''n'' [demo_item ''2'' ''n'' ''200'' ''250'']", OF two])
qed

text \<open>A dry run without blockers and with writes, forward.\<close>

definition completed_tables :: "ws_env \<Rightarrow> uw_review \<Rightarrow> string \<Rightarrow> live_scope list \<Rightarrow> (string \<times> json) list \<Rightarrow> ws_db \<Rightarrow> ws_db" where
  "completed_tables env r selection scopes ps e =
     (let d = new_dry_run env e r selection scopes; e1 = store_dry_run env d scopes e; writes = write_items scopes in
      fold (add_operation env (we_id env e1) ps) writes (e1\<lparr>wt_manifests := wt_manifests e1 @
        [new_manifest env (we_id env e1) r writes (dn_id d) (manifest_json r writes (dn_id d) (dn_evidence_checksum d) ps)]\<rparr>))"

lemma complete_passed:
  assumes "blockers scopes = []" "write_items scopes \<noteq> []"
    "listing_payloads env (store_dry_run env (new_dry_run env e r selection scopes) scopes e) (write_items scopes) = Inr ps"
  obtains x s lg where "complete_dry_run env u r selection scopes (opened e) = (Inr x, s)" "dx_scopes x = scopes"
    "dx_status x = ''passed''" "dx_manifest x = Some (we_id env (store_dry_run env (new_dry_run env e r selection scopes) scopes e))"
    "durable s = (completed_tables env r selection scopes ps e)\<lparr>wt_audit_log := lg\<rparr>"
proof -
  have "dn_status (new_dry_run env e r selection scopes) = ''passed''" using assms(1) by (simp add: new_dry_run_def)
  with assms(2,3) that show ?thesis
    by (auto simp: complete_dry_run_def session_bind session_run generate_apply_manifest_def manifest_document_def
        completed_tables_def Let_def log_audit_def)
qed

lemma completed_like:
  assumes "like_apply_db e"
  shows "like_apply_db ((completed_tables env r selection scopes ps e)\<lparr>wt_audit_log := lg\<rparr>)"
proof -
  have *: "like_apply_db (fold (add_operation env m ps) items db) \<longleftrightarrow> like_apply_db db" for m items db
    by (rule fold_keeps) (simp add: add_operation_def like_apply_db_def)
  have "like_apply_db (e\<lparr>wt_dry_runs := a, wt_dry_run_scopes := b, wt_manifests := c, wt_audit_log := l\<rparr>) \<longleftrightarrow> like_apply_db e" for a b c l
    by (simp add: like_apply_db_def)
  with assms show ?thesis
    using * by (simp add: completed_tables_def Let_def store_dry_run_def invalidate_dry_runs_def like_apply_db_def)
qed

lemma spaceless_text: "(\<And>c. c \<in> set s \<Longrightarrow> \<not> is_space c) \<Longrightarrow> canonical_text (Some s) = s"
proof -
  assume s: "\<And>c. c \<in> set s \<Longrightarrow> \<not> is_space c"
  have strip: "dropWhile is_space xs = xs" if "set xs \<subseteq> set s" for xs
    using that s by (cases xs) auto
  have "squeeze xs = xs" if "set xs \<subseteq> set s" for xs
    using that s by (induction xs) auto
  then show ?thesis by (simp add: canonical_text_def py_strip_def strip)
qed

lemma ct_digest [simp]: "ct (json_digest v) = json_digest v"
  unfolding ct_def by (rule spaceless_text) (rule json_digest_text)

lemma demo_payloads:
  obtains ps where "\<And>db. like_apply_db db \<Longrightarrow> listing_payloads (apply_env t) db (write_items (demo_scopes t)) = Inr ps"
proof -
  let ?e = apply_db
  have like: "like_apply_db ?e" by (simp add: like_apply_db_def) (simp add: apply_db_def demo_ws_db_def)
  have same: "listing_payload (apply_env t) db lid ms = listing_payload (apply_env t) ?e lid ms" if "like_apply_db db" for db lid ms
    using that by (simp add: like_apply_db_def listing_payload_def get_listing_def get_cache_def cong: option.case_cong)
  have "\<exists>v. listing_payload (apply_env t) ?e lid ms = Inr v" if "lid \<in> {''l'', ''n''}" for lid ms
    using that like_reads(9-12)[OF like] by (auto simp: listing_payload_def)
  moreover have "fst g \<in> {''l'', ''n''}" if "g \<in> set (group_by rx_listing_id (write_items (demo_scopes t)))" for g
  proof -
    obtain lid ms where g: "g = (lid, ms)" by fastforce
    with that have "(lid, ms) \<in> set (group_by rx_listing_id (write_items (demo_scopes t)))" by simp
    then have "\<exists>i \<in> set (write_items (demo_scopes t)). rx_listing_id i = fst g"
      unfolding group_by_member g fst_conv by (metis (mono_tags, lifting) filter_False)
    moreover have "\<forall>i \<in> set (write_items (demo_scopes t)). rx_listing_id i \<in> {''l'', ''n''}"
      by (simp add: write_items_def demo_scopes_def demo_item_def)
    ultimately show ?thesis by metis
  qed
  moreover have "\<exists>ps. rmap (\<lambda>(lid, members). rbind (listing_payload (apply_env t) ?e lid members) (\<lambda>v. Inr (lid, v))) gs = Inr ps"
    if "\<And>g. g \<in> set gs \<Longrightarrow> \<exists>v. listing_payload (apply_env t) ?e (fst g) (snd g) = Inr v" for gs
    using that by (induction gs) (fastforce simp: rbind_eq_Inr)+
  ultimately obtain ps where "listing_payloads (apply_env t) ?e (write_items (demo_scopes t)) = Inr ps"
    unfolding listing_payloads_def by meson
  then show ?thesis using same by (intro that[of ps]) (simp add: listing_payloads_def)
qed

lemma demo_dry_run:
  assumes "t \<in> {''200'', ''250''}"
  obtains x s ps lg where "run_dry_run (apply_env t) ''w'' ''r'' demo_owner (opened apply_db) = (Inr x, s)"
    "dx_scopes x = demo_scopes t" "dx_status x = ''passed''" "dx_manifest x = Some ''x''"
    "durable s = (completed_tables (apply_env t) demo_review demo_selection (demo_scopes t) ps apply_db)\<lparr>wt_audit_log := lg\<rparr>"
    "\<And>db. like_apply_db db \<Longrightarrow> listing_payloads (apply_env t) db (write_items (demo_scopes t)) = Inr ps"
proof -
  have like: "like_apply_db apply_db" by (simp add: like_apply_db_def) (simp add: apply_db_def demo_ws_db_def)
  obtain ps where ps: "\<And>db. like_apply_db db \<Longrightarrow> listing_payloads (apply_env t) db (write_items (demo_scopes t)) = Inr ps"
    using demo_payloads by blast
  have like_store: "like_apply_db (store_dry_run (apply_env t) d (demo_scopes t) apply_db)" for d
    using like by (simp add: store_dry_run_def invalidate_dry_runs_def like_apply_db_def Let_def)
  have "blockers (demo_scopes t) = []" "write_items (demo_scopes t) \<noteq> []"
    by (simp_all add: blockers_def write_items_def demo_scopes_def)
  from complete_passed[OF this ps[OF like_store]]
  obtain x s lg where c: "complete_dry_run (apply_env t) demo_owner demo_review demo_selection (demo_scopes t) (opened apply_db) = (Inr x, s)"
      "dx_scopes x = demo_scopes t" "dx_status x = ''passed''"
      "dx_manifest x = Some (we_id (apply_env t) (store_dry_run (apply_env t) (new_dry_run (apply_env t) apply_db demo_review demo_selection
         (demo_scopes t)) (demo_scopes t) apply_db))"
      "durable s = (completed_tables (apply_env t) demo_review demo_selection (demo_scopes t) ps apply_db)\<lparr>wt_audit_log := lg\<rparr>"
    by metis
  have m: "dx_manifest x = Some ''x''"
    by (simp add: c(4)) (simp add: apply_env_def apply_db_def demo_ws_db_def)
  have ids: "uw_id (hd (wt_workspaces apply_db)) = ''w''" "rw_workspace_id demo_review = ''w''" "rw_id demo_review = ''r''"
    by (simp_all add: apply_db_def demo_ws_db_def demo_review_def bare_review_def)
  have ok: "assert_source_evidence_current (apply_env t) (hd (wt_workspaces apply_db)) sp (opened apply_db) = (Inr (), opened apply_db)"
    "fresh_for_dry_run (apply_env t) demo_review demo_owner (opened apply_db) = (Inr (), opened apply_db)" for sp
    by (simp_all add: evidence_run demo_evidence[OF like] fresh_for_dry_run_run demo_review_fresh[OF like])
  have "run_dry_run (apply_env t) ''w'' ''r'' demo_owner (opened apply_db) = (Inr x, s)"
    unfolding run_dry_run_def
    by (simp add: sbind_run[where m = "uw_workspace_for_user ''w'' demo_owner True", OF like_reads(1)[OF like]] session_bind
        like_reads(2,3)[OF like] ids demo_plan[OF like]
        sbind_run[where m = "assert_source_evidence_current (apply_env t) (hd (wt_workspaces apply_db)) (hd (wt_snapshots apply_db))", OF ok(1)]
        sbind_run[where m = "fresh_for_dry_run (apply_env t) demo_review demo_owner", OF ok(2)]
        sbind_run[where m = "judge_listings (apply_env t) (sort_key fst (group_by rx_listing_id demo_items))", OF demo_judge[OF like assms]] c(1))
  then show ?thesis using that c m ps by blast
qed



theorem already_current_item_bars_apply_witness:
  "\<exists>x s. run_dry_run (apply_env ''250'') ''w'' ''r'' demo_owner (opened apply_db) = (Inr x, s) \<and>
     dx_status x = ''passed'' \<and> map lv_disposition (dx_scopes x) = [''write'', ''no_op''] \<and> dx_manifest x = Some ''x'' \<and>
     (\<forall>g. fst (authorize_apply (apply_env ''250'') ''w'' ''r'' \<lparr>aa_idempotency_key = ''k'', aa_selection_checksum = demo_selection,
       aa_manifest_id = ''x'', aa_manifest_checksum = ''m'', aa_confirmed = True\<rparr> demo_owner (opened (durable s)))
       \<noteq> Inr (g, Dispatch))"
proof -
  obtain x s where x: "run_dry_run (apply_env ''250'') ''w'' ''r'' demo_owner (opened apply_db) = (Inr x, s)"
      "dx_scopes x = demo_scopes ''250''" "dx_status x = ''passed''" "dx_manifest x = Some ''x''"
    by (rule demo_dry_run[of "''250''"]) (simp, blast)
  let ?a = "\<lparr>aa_idempotency_key = ''k'', aa_selection_checksum = demo_selection,
       aa_manifest_id = ''x'', aa_manifest_checksum = ''m'', aa_confirmed = True\<rparr>"
  have "fst (authorize_apply (apply_env ''250'') ''w'' ''r'' ?a demo_owner (opened (durable s))) \<noteq> Inr (g, Dispatch)" for g
  proof (rule already_current_item_bars_apply[OF x(1,4)])
    show "last (demo_scopes ''250'') \<in> set (dx_scopes x)" "lv_disposition (last (demo_scopes ''250'')) = ''no_op''"
      by (simp_all add: x(2) demo_scopes_def)
    show "collision_free (we_checksum (apply_env ''250''))" by (simp add: json_digest_collision_free)
    show "distinct (map rx_id (wt_review_items apply_db))" by (simp add: apply_db_def demo_items_def demo_item_def)
    show "same_manifest ''x'' (durable s) (durable s)" by (simp add: same_manifest_def)
    have "ct ''x'' = ''x''" by code_simp
    then show "ct (aa_manifest_id ?a) = ''x''" by simp
  qed (rule apply_env_fresh)
  with x show ?thesis by (intro exI[of _ x] exI[of _ s]) (simp add: demo_scopes_def)
qed


text \<open>Two price changes, the first one of a disabled Listing: the Review is ready, and of no use.\<close>

definition blocked_db :: ws_db where
  "blocked_db = demo_ws_db\<lparr>
     wt_listings := [(demo_listing ''l'')\<lparr>ul_enabled := False\<rparr>, demo_listing ''n''],
     wt_caches := [demo_cache ''l'' ''100'', demo_cache ''n'' ''200''], wt_currency_profiles := [demo_profile],
     wt_changes := [\<lparr>dc_id = ''1'', dc_revision_id = ''v'', dc_change = demo_price ''120'', dc_change_checksum = ''h''\<rparr>,
       \<lparr>dc_id = ''2'', dc_revision_id = ''v'', dc_change = (demo_price ''250'')\<lparr>dg_listing_id := ''n''\<rparr>, dc_change_checksum = ''h''\<rparr>]\<rparr>"

definition blocked_revision :: draft_revision where
  "blocked_revision = \<lparr>dv_id = ''v'', dv_draft_id = ''d'', dv_workspace_id = ''w'', dv_snapshot_id = ''s'',
     dv_revision_number = 1, dv_parent_revision_id = None, dv_restored_from_revision_id = None,
     dv_creator_user_id = 1, dv_checksum = ''h'', dv_metadata = []\<rparr>"

definition blocked_plan :: review_plan where
  "blocked_plan = projr (plan_review demo_ws_env blocked_db (hd (wt_workspaces demo_ws_db)) (hd (wt_snapshots demo_ws_db)) blocked_revision)"

lemma blocked_plan:
  "is_ok (plan_review demo_ws_env blocked_db (hd (wt_workspaces demo_ws_db)) (hd (wt_snapshots demo_ws_db)) blocked_revision)"
  "map pi_listing (rp_items blocked_plan) = [Some ((demo_listing ''l'')\<lparr>ul_enabled := False\<rparr>), Some (demo_listing ''n'')]"
  "map pi_cache (rp_items blocked_plan) = [Some (demo_cache ''l'' ''100''), Some (demo_cache ''n'' ''200'')]"
  "map pi_eligible (rp_items blocked_plan) = [False, True]" "rw_status (rp_review blocked_plan) = ''ready''"
  by code_simp+

theorem blocked_item_bars_dry_run_witness:
  "rw_status (rp_review blocked_plan) = ''ready'' \<and> map pi_eligible (rp_items blocked_plan) = [False, True] \<and>
   (\<forall>x. fst (run_dry_run demo_ws_env ''w'' (rw_id (rp_review blocked_plan)) demo_owner
     (opened (store_review demo_ws_env blocked_plan blocked_db))) \<noteq> Inr x)"
proof -
  let ?db = "store_review demo_ws_env blocked_plan blocked_db"
  let ?l = "(demo_listing ''l'')\<lparr>ul_enabled := False\<rparr>"
  have "fst (run_dry_run demo_ws_env ''w'' (rw_id (rp_review blocked_plan)) demo_owner (opened ?db)) \<noteq> Inr x" for x
  proof (rule blocked_item_bars_dry_run[where p = "hd (rp_items blocked_plan)" and l = ?l and k = "demo_cache ''l'' ''100''"])
    show "plan_review demo_ws_env blocked_db (hd (wt_workspaces demo_ws_db)) (hd (wt_snapshots demo_ws_db)) blocked_revision = Inr blocked_plan"
      using blocked_plan(1) by (auto simp: blocked_plan_def is_ok_iff)
    have items: "rp_items blocked_plan \<noteq> []" using blocked_plan(2) by auto
    then show "hd (rp_items blocked_plan) \<in> set (rp_items blocked_plan)" by simp
    show "pi_listing (hd (rp_items blocked_plan)) = Some ?l" "pi_cache (hd (rp_items blocked_plan)) = Some (demo_cache ''l'' ''100'')"
      using items blocked_plan(2,3) by (simp_all add: hd_map[symmetric])
    have "wt_listings (fold (add_review_item e rid) ps db) = wt_listings db" for e rid ps db
      by (rule fold_keeps) (simp add: add_review_item_def)
    then show "get_listing (ul_id ?l) ?db = Some ?l"
      by (simp add: get_listing_def store_review_def get_row_def blocked_db_def demo_listing_def)
  qed (simp_all add: demo_listing_def)
  with blocked_plan(4,5) show ?thesis by simp
qed

text \<open>The dry run of both writes, and its Apply.\<close>

definition demo_run :: dry_run where
  "demo_run = new_dry_run (apply_env ''200'') apply_db demo_review demo_selection (demo_scopes ''200'')"

definition demo_manifest :: "(string \<times> json) list \<Rightarrow> apply_manifest" where
  "demo_manifest ps = new_manifest (apply_env ''200'') ''x'' demo_review demo_items ''x''
     (manifest_json demo_review demo_items ''x'' (dn_evidence_checksum demo_run) ps)"

lemma demo_writes: "write_items (demo_scopes ''200'') = demo_items"
  by (simp add: write_items_def demo_scopes_def demo_items_def)

lemma demo_run_fields:
  "dn_id demo_run = ''x''" "dn_review_id demo_run = ''r''" "dn_status demo_run = ''passed''" "dn_created_at demo_run = 0"
  "dn_selection_checksum demo_run = demo_selection" "dn_selection_version demo_run = 1"
  by (simp_all add: demo_run_def new_dry_run_def blockers_def demo_scopes_def demo_review_def bare_review_def)
    (simp add: apply_env_def apply_db_def demo_ws_db_def)

lemma demo_tables:
  assumes "e = (completed_tables (apply_env ''200'') demo_review demo_selection (demo_scopes ''200'') ps apply_db)\<lparr>wt_audit_log := lg\<rparr>"
  shows "like_apply_db e" "get_dry_run ''x'' e = Some demo_run" "get_manifest ''x'' e = Some (demo_manifest ps)"
    "scopes_of ''x'' e = map (scope_row (apply_env ''200'') ''x'') (demo_scopes ''200'')"
proof -
  have like: "like_apply_db apply_db" by (simp add: like_apply_db_def) (simp add: apply_db_def demo_ws_db_def)
  then show le: "like_apply_db e" unfolding assms by (rule completed_like)
  have none: "wt_manifests apply_db = []" "wt_manifest_operations apply_db = []" "wt_dry_runs apply_db = []" "wt_dry_run_scopes apply_db = []"
    by (simp_all add: apply_db_def demo_ws_db_def)
  have dry: "wt_dry_runs (fold (add_operation env m qs) items db) = wt_dry_runs db"
    "wt_dry_run_scopes (fold (add_operation env m qs) items db) = wt_dry_run_scopes db" for env m qs items db
    by (rule fold_keeps, simp add: add_operation_def)+
  have x: "we_id (apply_env ''200'') (store_dry_run env d sc apply_db) = ''x''" for env d sc
    by (simp add: apply_env_def none)
  show "get_dry_run ''x'' e = Some demo_run"
    using demo_run_fields(1) by (simp add: assms completed_tables_def Let_def get_dry_run_def dry store_dry_run_def
        invalidate_dry_runs_def none demo_run_def[symmetric])
  show "scopes_of ''x'' e = map (scope_row (apply_env ''200'') ''x'') (demo_scopes ''200'')"
    using demo_run_fields(1) by (simp add: assms completed_tables_def Let_def scopes_of_def dry store_dry_run_def
        invalidate_dry_runs_def none demo_run_def[symmetric] scope_row_def filter_map comp_def)
  show "get_manifest ''x'' e = Some (demo_manifest ps)"
    using demo_run_fields(1) by (simp add: assms completed_tables_def Let_def get_manifest_def none x demo_writes
        demo_run_def[symmetric] demo_manifest_def) (simp add: new_manifest_def)
qed

lemma demo_matches:
  assumes "listing_payloads (apply_env ''200'') e demo_items = Inr ps"
  shows "manifest_matches (apply_env ''200'') e demo_review demo_items demo_run (am_manifest_checksum (demo_manifest ps)) = Inr True"
  using assms by (simp add: manifest_matches_def manifest_document_def demo_manifest_def new_manifest_def demo_run_fields)

lemma demo_recheck:
  assumes "sc \<in> set (demo_scopes ''200'')"
  shows "recheck_verdict (apply_env ''200'') (scope_row (apply_env ''200'') ''x'' sc) (lv_observed sc, False) = None"
proof -
  have ok: "lv_disposition (judge_item (apply_env ''200'') (demo_observed ''l'' ''100'', False) (demo_expected ''l'' ''100'')
      (demo_item ''1'' ''l'' ''100'' ''120'')) \<noteq> ''blocked''"
    "lv_disposition (judge_item (apply_env ''200'') (demo_observed ''n'' ''200'', False) (demo_expected ''n'' ''200'')
      (demo_item ''2'' ''n'' ''200'' ''250'')) \<noteq> ''blocked''"
    by (simp_all add: demo_judged)
  have "demo_observed lid p \<noteq> []" for lid p by (simp add: demo_observed_def)
  with assms show ?thesis
    using judge_item_passed(3,4)[OF ok(1)] judge_item_passed(3,4)[OF ok(2)]
    by (auto simp: recheck_verdict_def scope_row_def demo_scopes_def)
qed

lemma demo_reverify:
  assumes "like_apply_db e" "scopes_of ''x'' e = map (scope_row (apply_env ''200'') ''x'') (demo_scopes ''200'')"
  shows "reverify_dry_run_live (apply_env ''200'') ''x'' demo_items (opened e) = (Inr (), opened e)"
proof -
  let ?scopes = "map (scope_row (apply_env ''200'') ''x'') (demo_scopes ''200'')"
  have ids: "ul_id (demo_listing lid) = lid" "ul_external_primary_id (demo_listing lid) = lid" for lid
    by (simp_all add: demo_listing_def)
  have sc: "scope_of ''1'' ?scopes = Some (scope_row (apply_env ''200'') ''x'' (demo_scopes ''200'' ! 0))"
    "scope_of ''2'' ?scopes = Some (scope_row (apply_env ''200'') ''x'' (demo_scopes ''200'' ! 1))"
    by (simp_all add: scope_of_def demo_scopes_def scope_row_def demo_item_def)
  have v: "recheck_verdict (apply_env ''200'') (scope_row (apply_env ''200'') ''x'' (demo_scopes ''200'' ! 0)) (demo_observed ''l'' ''100'', False) = None"
    "recheck_verdict (apply_env ''200'') (scope_row (apply_env ''200'') ''x'' (demo_scopes ''200'' ! 1)) (demo_observed ''n'' ''200'', False) = None"
    using demo_recheck[of "demo_scopes ''200'' ! 0"] demo_recheck[of "demo_scopes ''200'' ! 1"] by (simp_all add: demo_scopes_def)
  have live: "read_live (apply_env ''200'') e (recheck_probe (demo_listing ''l'') p k f env) = (demo_observed ''l'' ''100'', False)"
    "read_live (apply_env ''200'') e (recheck_probe (demo_listing ''n'') p k f env) = (demo_observed ''n'' ''200'', False)" for p k f env
    using demo_read[of "recheck_probe (demo_listing ''l'') p k f env" "''l''"]
      demo_read[of "recheck_probe (demo_listing ''n'') p k f env" "''n''"]
    by (simp_all add: recheck_probe_def Let_def ids)
  have item: "rx_id (demo_item iid lid a b) = iid" "rx_listing_id (demo_item iid lid a b) = lid" for iid lid a b
    by (simp_all add: demo_item_def)
  have "reverify_item (apply_env ''200'') ?scopes (demo_item ''1'' ''l'' ''100'' ''120'') (opened e) = (Inr (), opened e)"
    "reverify_item (apply_env ''200'') ?scopes (demo_item ''2'' ''n'' ''200'' ''250'') (opened e) = (Inr (), opened e)"
    using v by (simp_all add: reverify_item_def session_bind session_run item sc like_reads(7,8)[OF assms(1)] live)
  then show ?thesis
    by (simp add: reverify_dry_run_live_def session_bind assms(2) demo_items_def sbind_run session_run)
qed

lemma demo_authorized:
  obtains x s a g s' where "run_dry_run (apply_env ''200'') ''w'' ''r'' demo_owner (opened apply_db) = (Inr x, s)"
    "dx_manifest x = Some ''x''" "ct (aa_manifest_id a) = ''x''" "ap_items g = demo_items"
    "authorize_apply (apply_env ''200'') ''w'' ''r'' a demo_owner (opened (durable s)) = (Inr (g, Dispatch), s')"
proof -
  obtain x s ps lg where x: "run_dry_run (apply_env ''200'') ''w'' ''r'' demo_owner (opened apply_db) = (Inr x, s)"
      "dx_scopes x = demo_scopes ''200''" "dx_manifest x = Some ''x''"
      "durable s = (completed_tables (apply_env ''200'') demo_review demo_selection (demo_scopes ''200'') ps apply_db)\<lparr>wt_audit_log := lg\<rparr>"
      "\<And>db. like_apply_db db \<Longrightarrow> listing_payloads (apply_env ''200'') db (write_items (demo_scopes ''200'')) = Inr ps"
    by (rule demo_dry_run[of "''200''"]) (simp, blast)
  define e where "e = durable s"
  define a where "a = \<lparr>aa_idempotency_key = ''k'', aa_selection_checksum = demo_selection, aa_manifest_id = ''x'',
    aa_manifest_checksum = am_manifest_checksum (demo_manifest ps), aa_confirmed = True\<rparr>"
  note rows = demo_tables[OF x(4), folded e_def]
  note like = rows(1) and reads = like_reads[OF rows(1)] and payloads = x(5)[unfolded demo_writes]
  obtain r items did doc where "map ao_review_item_id (filter (\<lambda>op. ao_manifest_id op = ''x'') (wt_manifest_operations (durable s))) =
       map rx_id (write_items (dx_scopes x))"
    by (rule dry_run_manifest_rows[OF x(1,3) apply_env_fresh]) blast
  then have items: "manifest_items ''r'' ''x'' e = demo_items"
    using reads(6) by (simp add: manifest_items_def e_def[symmetric] x(2) demo_writes) (simp add: demo_items_def demo_item_def)
  have review: "rw_id demo_review = ''r''" "rw_workspace_id demo_review = ''w''" "rw_snapshot_id demo_review = ''s''"
    "rw_draft_revision_id demo_review = ''v''" "rw_selection_checksum demo_review = Some demo_selection"
    "rw_selected_channel_ids demo_review = [''c'']" "rw_status demo_review = ''ready''" "rw_selection_version demo_review = 1"
    by (simp_all add: demo_review_def bare_review_def)
  have heads: "uw_id (hd (wt_workspaces apply_db)) = ''w''" "ud_current_revision_id (hd (wt_drafts apply_db)) = Some ''v''"
    "sp_id (hd (wt_snapshots apply_db)) = ''s''" by (simp_all add: apply_db_def demo_ws_db_def)
  have selection: "json_digest (selection_document demo_review demo_items) = demo_selection" "demo_selection \<noteq> []" "ct demo_selection = demo_selection"
    by (simp_all add: demo_selection_document demo_selection_def json_digest_text)
  have manifest: "am_id (demo_manifest ps) = ''x''" "am_review_id (demo_manifest ps) = ''r''" "am_dry_run_id (demo_manifest ps) = Some ''x''"
    "am_selection_version (demo_manifest ps) = 1" "am_selection_checksum (demo_manifest ps) = demo_selection"
    "ct (am_manifest_checksum (demo_manifest ps)) = am_manifest_checksum (demo_manifest ps)" "am_manifest_checksum (demo_manifest ps) \<noteq> []"
    using selection(2) by (simp_all add: demo_manifest_def new_manifest_def review str_or_def json_digest_text)
  have valid: "dry_run_valid demo_review demo_selection (Some demo_run)"
    by (simp add: dry_run_valid_def demo_run_fields review)
  have texts: "ct ''x'' = ''x''" "ct ''k'' = ''k''" by code_simp+
  have may: "has_workspace_permission demo_owner ''apply.execute''" by code_simp
  have sel: "check_selection (apply_env ''200'') e demo_review demo_selection = Inr ([''1'', ''2''], demo_selection)"
    using selection by (simp add: check_selection_Inr review reads(5,6)) (simp add: demo_items_def demo_item_def sorted_set_def)
  have man: "check_manifest (apply_env ''200'') e demo_review demo_selection ''x'' (am_manifest_checksum (demo_manifest ps)) =
      Inr (demo_manifest ps, demo_run, demo_items)"
    using manifest demo_matches[OF payloads[OF like]]
    by (simp add: check_manifest_def Let_def deny_def rows(2,3) valid review items str_or_def) (simp add: demo_items_def)
  define g where "g = \<lparr>ap_review = demo_review, ap_snapshot = hd (wt_snapshots apply_db), ap_draft = hd (wt_drafts apply_db),
    ap_selected_ids = [''1'', ''2''], ap_selection_checksum = demo_selection, ap_manifest = demo_manifest ps, ap_dry_run = demo_run,
    ap_items = demo_items\<rparr>"
  have gate: "apply_gate (apply_env ''200'') e (hd (wt_workspaces apply_db)) ''r'' a = Inr g"
    by (simp add: apply_gate_def reads(2,3,4) review heads deny_def a_def selection(3) texts sel manifest(6) man g_def)
  have fresh: "assert_review_fresh (apply_env ''200'') demo_review demo_owner (opened e) = (Inr (), opened e)"
    by (simp add: fresh_run demo_review_fresh[OF like])
  have evidence: "assert_source_evidence_current (apply_env ''200'') (hd (wt_workspaces apply_db)) sp (opened e) = (Inr (), opened e)" for sp
    by (simp add: evidence_run demo_evidence[OF like])
  have same: "same_selection (apply_env ''200'') e demo_review g demo_selection"
    by (simp add: same_selection_def review reads(5) g_def selection)
  have admitted: "admit_apply (apply_env ''200'') ''w'' ''r'' a demo_owner (opened e) = (Inr (hd (wt_workspaces apply_db), g), opened e)"
    using fresh by (simp add: admit_apply_def sbind_run[where m = "uw_workspace_for_user ''w'' demo_owner True", OF reads(1)] may
        session_bind gate sbind_run session_run) (simp add: a_def g_def texts sbind_run session_run)
  have locked: "locked_check (apply_env ''200'') (hd (wt_workspaces apply_db)) g demo_selection demo_owner (opened e) = (Inr (), opened e)"
    using fresh same by (simp add: locked_check_def session_bind g_def review reads(2,4) sbind_run heads demo_run_fields rows(2) valid session_run)
  have last: "dispatch_check (apply_env ''200'') (hd (wt_workspaces apply_db)) g demo_selection demo_owner (opened e) = (Inr Dispatch, opened e)"
    using same evidence demo_reverify[OF like rows(4)] demo_matches[OF payloads[OF like]]
    by (simp add: dispatch_check_def session_bind g_def review reads(2) demo_run_fields rows(2) sbind_run review_pricing_issues_def Let_def
        minutes_def seconds_def STALE_APPLY_MINUTES_def session_run)
  have "authorize_apply (apply_env ''200'') ''w'' ''r'' a demo_owner (opened e) = (Inr (g, Dispatch), opened e)"
  proof -
    have c: "ct (aa_selection_checksum a) = demo_selection" by (simp add: a_def selection)
    show ?thesis using admitted locked last by (simp add: authorize_apply_def c sbind_run session_bind session_run)
  qed
  moreover have "ct (aa_manifest_id a) = ''x''" "ap_items g = demo_items" by (simp_all add: a_def g_def texts)
  ultimately show ?thesis using that[OF x(1,3), of a g "opened e"] by (simp add: e_def)
qed


end
