(* ===== verification/Spec2Isabelle.thy ===== *)
theory Spec2Isabelle
  imports PricingTarget BatchSafety PackageSafety ApplyOutcome FormulaShapes RateRefresh SourceFields ReviewSafety
begin

text \<open>
  FlowHub: from vendor evidence to a price on a sales Channel.

  FlowHub (\<^verbatim>\<open>app/flowhub\<close>) collects vendor prices, derives a price for every Listing of every sales
  Channel, lets an operator review the result and writes it to the Channel. The development follows
  that path: evidence is selected and pinned (\<^verbatim>\<open>pricing_evaluation\<close>), a rule prices it
  (\<^verbatim>\<open>pricing_matrix\<close>), one engine at a time holds the authority to price a Channel
  (\<^verbatim>\<open>pricing_authority\<close>), an Apply job claims the selected rows (\<^verbatim>\<open>unified_workspace\<close>), and the durable
  write engine dispatches them to a provider at most once (\<^verbatim>\<open>write_pipeline\<close>). Business events
  (\<^verbatim>\<open>business_observability\<close>) record what happened.

  Theories, and the code they model:

  \<^item> \<^verbatim>\<open>Prelude\<close>: sums for fallible code (\<^verbatim>\<open>Inl\<close> an error, \<^verbatim>\<open>Inr\<close> a result), dictionaries as association
    lists in insertion order, tables as lists of rows in key order, first-wins minima (Python's
    \<^verbatim>\<open>min\<close> and \<^verbatim>\<open>max\<close>), string methods, and the locale \<^verbatim>\<open>invariant_system\<close> of a step function with an
    invariant, which gives the invariant in every reachable state.
  \<^item> \<^verbatim>\<open>Json\<close>: JSON values, the conversions the code applies to them, \<^verbatim>\<open>security/redaction.py\<close>.
  \<^item> \<^verbatim>\<open>PricingRules\<close> (\<^verbatim>\<open>pricing_matrix/contracts.py\<close>, \<^verbatim>\<open>arithmetic.py\<close>): the validated constructors and
    the rounding of an exact rational to a step. The locale \<^verbatim>\<open>step_rounding\<close> states what a rounding to
    a step promises; it is interpreted for every mode here and for the floor and ceiling of the
    derived values.
  \<^item> \<^verbatim>\<open>PricingTarget\<close> (\<^verbatim>\<open>guards.py\<close>, \<^verbatim>\<open>evaluator.py\<close>): which quotes count, the basis, the guards, the result.
  \<^item> \<^verbatim>\<open>PricingAuthority\<close> (\<^verbatim>\<open>pricing_authority/service.py\<close>): heads, the append-only event chain, the
    compare-and-swap transition, the check before a price write.
  \<^item> \<^verbatim>\<open>EvidenceSelection\<close> (\<^verbatim>\<open>selection.py\<close>, \<^verbatim>\<open>manual_inputs.py\<close>), \<^verbatim>\<open>DerivedValues\<close> (\<^verbatim>\<open>derived.py\<close>),
    \<^verbatim>\<open>FrozenPackages\<close> (\<^verbatim>\<open>service.py\<close>, \<^verbatim>\<open>fingerprint.py\<close>) and \<^verbatim>\<open>PackageSafety\<close>: the selected Observations and
    decisions, the graph of derived definitions and its evaluation, the package that pins them, and
    what the package guarantees.
  \<^item> \<^verbatim>\<open>WriteContracts\<close> (\<^verbatim>\<open>workspace_contracts.py\<close>), \<^verbatim>\<open>WriteStore\<close> (the tables and the database session),
    \<^verbatim>\<open>WritePipeline\<close> (\<^verbatim>\<open>execute_workspace\<close>) and \<^verbatim>\<open>DispatchSafety\<close>: the write engine and its guarantees.
  \<^item> \<^verbatim>\<open>WriteBatches\<close> (\<^verbatim>\<open>create_dry_run\<close>, \<^verbatim>\<open>approve\<close>, \<^verbatim>\<open>execute\<close>) and \<^verbatim>\<open>BatchSafety\<close>: the operator's batches.
  \<^item> \<^verbatim>\<open>ApplyJobs\<close> (\<^verbatim>\<open>unified_workspace/services.py\<close>, \<^verbatim>\<open>listing_guard.py\<close>), \<^verbatim>\<open>ApplySafety\<close>, \<^verbatim>\<open>ApplyOutcome\<close>:
    creation of a job, its lease and Listing locks, dispatch, the failure handler, recovery of a
    stopped job, reconciliation, and their guarantees.
  \<^item> \<^verbatim>\<open>BusinessEvents\<close>: emission, lifecycle and projection of events.
  \<^item> \<^verbatim>\<open>FormulaShapes\<close> (\<^verbatim>\<open>formula_translator\<close>): the thirteen recognised spreadsheet shapes, the registry
    and the outcome of a translation.
  \<^item> \<^verbatim>\<open>Session\<close>: the same session for any tables and errors, with handlers, clean-up blocks and points
    where other transactions commit. On it rest \<^verbatim>\<open>RateBudget\<close> and \<^verbatim>\<open>RateRefresh\<close> (\<^verbatim>\<open>exchange_rates\<close>): the
    reservation of provider requests against a daily budget, refined to a day ledger, and the refresh
    with its lock, schedule and failure handler; and the workspace theories.
  \<^item> \<^verbatim>\<open>WorkspaceValues\<close> (\<^verbatim>\<open>unified_workspace/domain.py\<close>), \<^verbatim>\<open>WorkspaceStore\<close> (\<^verbatim>\<open>models.py\<close>,
    \<^verbatim>\<open>repositories.py\<close>) and \<^verbatim>\<open>Drafts\<close> (\<^verbatim>\<open>save_draft\<close>, \<^verbatim>\<open>restore_revision\<close>): cell values and their equality,
    the workspace tables, and the revisions of a draft, linear under every interleaving.
  \<^item> \<^verbatim>\<open>Decimals\<close> (Python's \<^verbatim>\<open>decimal\<close>: reading, the 28-digit context, printing) and \<^verbatim>\<open>SourceFields\<close>
    (\<^verbatim>\<open>unified_workspace/domain.py\<close>): the numbers a Source cell may hold and the contracts for a
    mapped price, quantity and stock status.
  \<^item> \<^verbatim>\<open>CanonicalJson\<close> (\<^verbatim>\<open>stable_json\<close>, and a checksum without collisions for the witnesses), \<^verbatim>\<open>Reviews\<close>,
    \<^verbatim>\<open>DryRuns\<close> and \<^verbatim>\<open>ApplyGate\<close> (\<^verbatim>\<open>generate_review\<close>, \<^verbatim>\<open>select_review_items\<close>, \<^verbatim>\<open>run_dry_run\<close> and the checks of
    \<^verbatim>\<open>apply_selected\<close>), \<^verbatim>\<open>ReviewRuns\<close> and \<^verbatim>\<open>ReviewSafety\<close>: a Review of a revision, the selection, the dry run
    that reads the Channels, the manifest it fixes, and the three rounds of checks before an Apply job
    of \<^verbatim>\<open>ApplyJobs\<close> may dispatch; what a dispatched Apply is guaranteed to be.

  How state and effects correspond. A SQLAlchemy session is the state monad of \<^verbatim>\<open>WriteStore\<close>: a world
  holds the committed tables, the tables as the open transaction sees them, the calls made to
  providers and the parameters of the environment; a step returns a result or raises, \<^verbatim>\<open>commit\<close>
  publishes and \<^verbatim>\<open>rollback\<close> restores. Objects the session has loaded are keys of the tables, so two
  names of one row alias, as in the session's identity map. An \<^verbatim>\<open>await\<close> or a provider call is a
  point where other workers may commit: the world applies the interference the environment
  supplies there. Every handler is one definition with the code's guards in the code's order, and
  an exception carries its class and the fields the callers read.

  What the lemma groups show. Pricing: rounding is exact in every mode, a priced target is the price
  of the cheapest usable quotes and passes its guards, prices are monotone in the basis. Evidence:
  selection is the documented minimum or maximum, independent of order, and the package's values
  are the recursive meaning of its definitions. Authority: the event chain is unbroken in every
  reachable state, no update is lost, takeover needs a migration lock. Writes: every dispatch is
  covered by committed evidence and never repeated, a fenced worker stores nothing, a batch is
  dispatched only as approved. Jobs: locks are exclusive and all or nothing, recovery settles a job,
  the two computations of its status agree. Several theorems record behaviour that differs from
  what the code or its documentation intends; they are listed as findings of the manifest.

  Bounds and fuel. Validation and ordering of derived definitions recurse through dictionaries that
  may be cyclic; both run with fuel one more than the number of definitions, and
  \<^verbatim>\<open>validate_dag_exact\<close> and \<^verbatim>\<open>topological_order_sound\<close> prove that it is never exhausted. All other
  recursions are structural. Integers of the code are unbounded, so \<^verbatim>\<open>int\<close> is used; a Fraction is
  \<^verbatim>\<open>rat\<close>, and a Decimal whose operations stay exact in the code is \<^verbatim>\<open>rat\<close> as well.

  Parameters. Provider calls, clocks, \<^verbatim>\<open>uuid4\<close>, SHA-256, the text of a float and the rows other
  workers write are arguments of the definitions; where a theorem needs a digest or an identifier
  to be injective or fresh, that is a named hypothesis and the witness instantiates it. Text is a
  list of ASCII characters: comparisons and prefixes of UTF-8 text agree with it, code points
  above 127 are outside the model.

  Not modelled. HTTP routers, authentication, configuration, connectors and Channel adapters are
  input and output around the services; the ORM's flush order, foreign keys and column lengths
  appear only where an operation depends on them; reports and dashboards read the same tables
  without changing them. The legacy application (\<^verbatim>\<open>app/main.py\<close>, \<^verbatim>\<open>app/services\<close>), the A2 engine
  (\<^verbatim>\<open>app/a2\<close>), commerce, orders and the source workspace's import and mapping are not modelled
  yet. The manifest lists each component with its reason.
\<close>

end
